(* ===== verification/Prelude.thy ===== *)
theory Prelude
  imports Main "HOL-Library.Word"
begin

text \<open>
  Shared vocabulary of the development: the machine integers of the 32-bit ARM target
  (\<open>char\<close> is unsigned there, so a C \<open>char\<close> is a \<^typ>\<open>8 word\<close>), C strings as byte
  lists, faults as values, byte-addressed memory in little-endian order, fixed-size
  slot tables, bit fields of registers and polling loops.
\<close>

unbundle bit_operations_syntax

section \<open>Machine integers, strings and collections of rules\<close>

type_synonym u8 = "8 word"
type_synonym u16 = "16 word"
type_synonym u32 = "32 word"
type_synonym u64 = "64 word"

named_theorems reg_defs \<open>register-level operations, unfolded by register proofs\<close>
named_theorems addr_defs \<open>addresses and constants of the memory map\<close>
named_theorems mem_simps \<open>reads of byte memory after writes\<close>
named_theorems fault_simps \<open>propagation of faults through sequential composition\<close>

text \<open>The access modes of a file, which the C library passes to FatFs (\<^verbatim>\<open>fatfs/ff.h\<close>).\<close>

definition FA_READ :: u8 where "FA_READ = 0x01"
definition FA_WRITE :: u8 where "FA_WRITE = 0x02"
definition FA_CREATE_ALWAYS :: u8 where "FA_CREATE_ALWAYS = 0x08"
definition FA_OPEN_ALWAYS :: u8 where "FA_OPEN_ALWAYS = 0x10"
definition FA_OPEN_APPEND :: u8 where "FA_OPEN_APPEND = 0x30"

text \<open>The bytes of a C string literal, without its terminator.\<close>

definition str :: "string \<Rightarrow> u8 list" where
  "str s = map of_char s"

lemma str_simps [simp]:
  "str [] = []"
  "str (c # cs) = of_char c # str cs"
  by (simp_all add: str_def)

lemma length_str [simp]: "length (str s) = length s"
  by (simp add: str_def)

lemma unat_of_nat_small: "k < 4294967296 \<Longrightarrow> unat (of_nat k :: u32) = k"
  by (simp add: unat_of_nat)

lemma mod_offset:
  fixes x i m :: nat
  assumes "x mod m + i < m"
  shows "(x + i) div m = x div m" "(x + i) mod m = x mod m + i"
proof -
  have "x + i = m * (x div m) + (x mod m + i)" by simp
  moreover have "(m * q + r) div m = q" "(m * q + r) mod m = r" if "r < m" for q r using that by simp_all
  ultimately show "(x + i) div m = x div m" "(x + i) mod m = x mod m + i" using assms by metis+
qed

text \<open>C's test of an integer as a condition.\<close>

abbreviation truth :: "u32 \<Rightarrow> bool" where
  "truth w \<equiv> w \<noteq> 0"

section \<open>Sequential composition of operations that may fault\<close>

text \<open>
  An operation on a state \<open>'s\<close> returns \<open>Inr (value, state)\<close>, or \<open>Inl (fault, state)\<close>
  with the state at the point of the fault. \<open>andThen\<close> is the sequencing of two
  statements: a fault of the first skips the second.
\<close>

type_synonym ('f, 's, 'a) res = "('f \<times> 's) + ('a \<times> 's)"

definition andThen :: "('f, 's, 'a) res \<Rightarrow> ('a \<Rightarrow> 's \<Rightarrow> ('f, 's, 'b) res) \<Rightarrow> ('f, 's, 'b) res" where
  "andThen r k = (case r of Inl e \<Rightarrow> Inl e | Inr (x, s) \<Rightarrow> k x s)"

lemma andThen_simps [simp, fault_simps]:
  "andThen (Inl e) k = Inl e"
  "andThen (Inr (x, s)) k = k x s"
  by (simp_all add: andThen_def)

lemma andThen_Inr_iff:
  "andThen r k = Inr y \<longleftrightarrow> (\<exists>x s. r = Inr (x, s) \<and> k x s = Inr y)"
  by (auto simp: andThen_def split: sum.splits)

lemma andThen_Inl_iff:
  "andThen r k = Inl e \<longleftrightarrow> r = Inl e \<or> (\<exists>x s. r = Inr (x, s) \<and> k x s = Inl e)"
  by (auto simp: andThen_def split: sum.splits)

text \<open>The state an operation leaves, whether it returned or faulted.\<close>

fun state_of :: "('f, 's, 'a) res \<Rightarrow> 's" where
  "state_of (Inl (e, s)) = s"
| "state_of (Inr (x, s)) = s"

lemma state_of_andThen:
  assumes "P (state_of r)" and "\<And>x s. r = Inr (x, s) \<Longrightarrow> P s \<Longrightarrow> P (state_of (k x s))"
  shows "P (state_of (andThen r k))"
  using assms by (cases r) (auto simp: andThen_def)

lemma andThen_cong [fundef_cong]:
  assumes "r = r'" and "\<And>x s. r' = Inr (x, s) \<Longrightarrow> k x s = k' x s"
  shows "andThen r k = andThen r' k'"
  using assms by (auto simp: andThen_def split: sum.splits)

section \<open>Byte memory, little endian\<close>

type_synonym mem = "u32 \<Rightarrow> u8"

definition byte_of :: "u32 \<Rightarrow> nat \<Rightarrow> u8" where
  "byte_of v i = ucast (drop_bit (8 * i) v)"

definition le32 :: "u8 \<Rightarrow> u8 \<Rightarrow> u8 \<Rightarrow> u8 \<Rightarrow> u32" where
  "le32 b0 b1 b2 b3 =
     ucast b0 OR push_bit 8 (ucast b1) OR push_bit 16 (ucast b2) OR push_bit 24 (ucast b3)"

definition load32 :: "mem \<Rightarrow> u32 \<Rightarrow> u32" where
  "load32 m a = le32 (m a) (m (a + 1)) (m (a + 2)) (m (a + 3))"

definition store32 :: "mem \<Rightarrow> u32 \<Rightarrow> u32 \<Rightarrow> mem" where
  "store32 m a v = m(a := byte_of v 0, a + 1 := byte_of v 1, a + 2 := byte_of v 2, a + 3 := byte_of v 3)"

definition store16 :: "mem \<Rightarrow> u32 \<Rightarrow> u16 \<Rightarrow> mem" where
  "store16 m a v = m(a := ucast v, a + 1 := ucast (drop_bit 8 v))"

text \<open>A run of bytes copied to consecutive addresses; addresses wrap at the top of memory.\<close>

fun store_bytes :: "mem \<Rightarrow> u32 \<Rightarrow> u8 list \<Rightarrow> mem" where
  "store_bytes m a [] = m"
| "store_bytes m a (b # bs) = store_bytes (m(a := b)) (a + 1) bs"

fun load_bytes :: "mem \<Rightarrow> u32 \<Rightarrow> nat \<Rightarrow> u8 list" where
  "load_bytes m a 0 = []"
| "load_bytes m a (Suc n) = m a # load_bytes m (a + 1) n"

lemma bit_u8_high: "8 \<le> n \<Longrightarrow> \<not> bit (b::u8) n"
  using bit_imp_le_length [of b n] by auto

lemma bit_byte_of: "bit (byte_of v i) n \<longleftrightarrow> n < 8 \<and> bit v (8 * i + n)"
  by (auto simp: byte_of_def bit_simps)

lemma bit_le32:
  "bit (le32 b0 b1 b2 b3) n \<longleftrightarrow>
     (if n < 8 then bit b0 n else if n < 16 then bit b1 (n - 8)
      else if n < 24 then bit b2 (n - 16) else n < 32 \<and> bit b3 (n - 24))"
  by (cases "n < 24"; cases "n < 16"; cases "n < 8") (auto simp: le32_def bit_simps bit_u8_high)

lemma le32_byte_of [simp]:
  "le32 (byte_of v 0) (byte_of v (Suc 0)) (byte_of v 2) (byte_of v 3) = v"
  by (rule bit_word_eqI) (auto simp: bit_le32 bit_byte_of)

lemma byte_of_le32 [simp]:
  "byte_of (le32 b0 b1 b2 b3) 0 = b0"
  "byte_of (le32 b0 b1 b2 b3) (Suc 0) = b1"
  "byte_of (le32 b0 b1 b2 b3) 2 = b2"
  "byte_of (le32 b0 b1 b2 b3) 3 = b3"
  by (rule bit_word_eqI, simp add: bit_le32 bit_byte_of)+

lemma word_offset_neq [simp]:
  "(a::u32) + 1 \<noteq> a" "a + 2 \<noteq> a" "a + 3 \<noteq> a"
  "a + 1 \<noteq> a + 2" "a + 1 \<noteq> a + 3" "a + 2 \<noteq> a + 3"
  "a \<noteq> a + 1" "a \<noteq> a + 2" "a \<noteq> a + 3"
  "a + 2 \<noteq> a + 1" "a + 3 \<noteq> a + 1" "a + 3 \<noteq> a + 2"
  by simp_all

lemma load32_store32_same [simp, mem_simps]: "load32 (store32 m a v) a = v"
  by (simp add: load32_def store32_def)

lemma store32_load32_id [simp]: "store32 m a (load32 m a) = m"
  by (simp add: store32_def load32_def fun_eq_iff)

lemma store32_store32_same [simp]: "store32 (store32 m a v) a w = store32 m a w"
  by (auto simp: store32_def fun_eq_iff)

subsection \<open>The bytes of a word and aligned words\<close>

definition word_span :: "u32 \<Rightarrow> u32 set" where
  "word_span a = {a, a + 1, a + 2, a + 3}"

definition aligned4 :: "u32 \<Rightarrow> bool" where
  "aligned4 a \<longleftrightarrow> unat a mod 4 = 0"

lemma less4_cases: "y < (4::u32) \<longleftrightarrow> y = 0 \<or> y = 1 \<or> y = 2 \<or> y = 3"
proof -
  have "unat y < 4 \<longleftrightarrow> unat y = 0 \<or> unat y = 1 \<or> unat y = 2 \<or> unat y = 3" by arith
  then show ?thesis by (simp add: word_less_nat_alt word_unat_eq_iff)
qed

lemma in_word_span_iff: "x \<in> word_span a \<longleftrightarrow> x - a < 4"
  by (auto simp: word_span_def less4_cases algebra_simps)

lemma store32_outside [mem_simps]: "x \<notin> word_span a \<Longrightarrow> store32 m a v x = m x"
  by (simp add: word_span_def store32_def)

lemma store32_inside [mem_simps]:
  assumes "x \<in> word_span a"
  shows "store32 m a v x = byte_of v (unat (x - a))"
  using assms by (auto simp: word_span_def store32_def)

lemma byte_of_load32 [mem_simps]:
  assumes "x \<in> word_span a"
  shows "byte_of (load32 m a) (unat (x - a)) = m x"
  using assms by (auto simp: word_span_def load32_def)

lemma load32_cong: "(\<And>x. x \<in> word_span a \<Longrightarrow> m x = m' x) \<Longrightarrow> load32 m a = load32 m' a"
  by (simp add: load32_def word_span_def)

lemma unat_aligned_span:
  assumes "aligned4 a" and "x \<in> word_span a"
  shows "unat x div 4 = unat a div 4"
proof -
  have lt: "unat (x - a) < 4"
    using assms(2) by (simp add: in_word_span_iff word_less_nat_alt)
  have "unat a < 4294967296" using unsigned_less [of a] by simp
  with assms(1) have "unat a + 4 \<le> 4294967296" unfolding aligned4_def by presburger
  with lt have "unat x = unat a + unat (x - a)"
    using unat_word_ariths(1) [of a "x - a"] by simp
  moreover have "(k + d) div 4 = k div 4" if "k mod 4 = 0" and "d < 4" for k d :: nat
    using that by (auto elim!: dvdE simp: mod_eq_0_iff_dvd)
  ultimately show ?thesis using lt assms(1) by (simp add: aligned4_def)
qed

lemma aligned_spans_disjoint:
  assumes "aligned4 a" and "aligned4 b" and "a \<noteq> b"
  shows "word_span a \<inter> word_span b = {}"
proof (rule ccontr)
  assume "word_span a \<inter> word_span b \<noteq> {}"
  then obtain x where x: "x \<in> word_span a" "x \<in> word_span b" by blast
  have "unat a div 4 = unat b div 4"
    using unat_aligned_span [OF assms(1) x(1)] unat_aligned_span [OF assms(2) x(2)] by simp
  with assms(1,2) have "unat a = unat b"
    unfolding aligned4_def by (metis div_mult_mod_eq)
  then have "a = b" by (simp add: word_unat_eq_iff)
  with assms(3) show False ..
qed

lemma load32_store32_other [mem_simps]:
  assumes "word_span a \<inter> word_span b = {}"
  shows "load32 (store32 m a v) b = load32 m b"
proof (rule load32_cong)
  fix x assume "x \<in> word_span b"
  with assms have "x \<notin> word_span a" by blast
  then show "store32 m a v x = m x" by (rule store32_outside)
qed

subsection \<open>Runs of bytes\<close>

lemma length_load_bytes [simp]: "length (load_bytes m a n) = n"
  by (induction n arbitrary: a) auto

text \<open>The address \<open>x\<close> lies \<open>unat (x - a)\<close> bytes after \<open>a\<close>, modulo the size of memory.\<close>

lemma unat_diff_Suc:
  assumes "x \<noteq> (a::u32)"
  shows "unat (x - a) = Suc (unat (x - (a + 1)))"
proof -
  have "x - a \<noteq> 0" using assms by simp
  then have "unat (x - a - 1) = unat (x - a) - 1" and "0 < unat (x - a)"
    by (simp_all add: unat_minus_one unat_gt_0)
  then show ?thesis by (simp add: diff_diff_add)
qed

lemma store_bytes_apply:
  assumes "length bs \<le> 2 ^ 32"
  shows "store_bytes m a bs x =
           (if unat (x - a) < length bs then bs ! unat (x - a) else m x)"
  using assms
proof (induction bs arbitrary: m a)
  case Nil
  then show ?case by simp
next
  case (Cons b bs)
  then have IH: "store_bytes (m(a := b)) (a + 1) bs x =
      (if unat (x - (a + 1)) < length bs then bs ! unat (x - (a + 1)) else (m(a := b)) x)"
    by simp
  show ?case
  proof (cases "x = a")
    case True
    have "unat (a - (a + 1)) = 2 ^ 32 - 1"
      by (simp add: unsigned_minus_1_eq_mask mask_eq_exp_minus_1)
    with Cons.prems have "\<not> unat (a - (a + 1)) < length bs" by simp
    with IH True show ?thesis by simp
  next
    case False
    with IH show ?thesis by (simp add: unat_diff_Suc)
  qed
qed

lemma load_bytes_eq: "load_bytes m a n = map (\<lambda>i. m (a + of_nat i)) [0..<n]"
proof (induction n arbitrary: a)
  case 0
  then show ?case by simp
next
  case (Suc n)
  have "[0..<Suc n] = 0 # map Suc [0..<n]" by (simp add: upt_conv_Cons map_Suc_upt del: upt_Suc)
  with Suc.IH [of "a + 1"] show ?case by (simp add: comp_def add.assoc del: upt_Suc)
qed

lemma load_store_bytes:
  assumes "length bs \<le> 2 ^ 32"
  shows "load_bytes (store_bytes m a bs) a (length bs) = bs"
proof (rule nth_equalityI)
  fix i assume "i < length (load_bytes (store_bytes m a bs) a (length bs))"
  then have i: "i < length bs" by simp
  with assms have "unat (of_nat i :: u32) = i" by (simp add: unat_of_nat)
  with i show "load_bytes (store_bytes m a bs) a (length bs) ! i = bs ! i"
    by (simp add: load_bytes_eq store_bytes_apply [OF assms])
qed simp

lemma load_store_prefix:
  assumes "length (bs @ ts) \<le> 2 ^ 32"
  shows "load_bytes (store_bytes m a (bs @ ts)) a (length bs) = bs"
proof (rule nth_equalityI)
  fix i assume "i < length (load_bytes (store_bytes m a (bs @ ts)) a (length bs))"
  then have i: "i < length bs" by simp
  with assms have "unat (of_nat i :: u32) = i" by (simp add: unat_of_nat)
  with i show "load_bytes (store_bytes m a (bs @ ts)) a (length bs) ! i = bs ! i"
    by (simp add: load_bytes_eq store_bytes_apply [OF assms] nth_append)
qed simp

lemma store_bytes_4:
  "store_bytes m a [byte_of v 0, byte_of v (Suc 0), byte_of v 2, byte_of v 3] = store32 m a v"
  by (simp add: store32_def add.assoc)

section \<open>Fixed-size tables scanned from index 0\<close>

text \<open>
  \<open>first_slot p t\<close> is the loop \<open>for (m = 0; m < N; ++m) if (p(t[m])) return m;\<close> that the
  breakpoint table, the file descriptor table and the USB drive table all use; \<open>None\<close>
  stands for the code after the loop.
\<close>

fun first_slot :: "('a \<Rightarrow> bool) \<Rightarrow> 'a list \<Rightarrow> nat option" where
  "first_slot p [] = None"
| "first_slot p (x # xs) = (if p x then Some 0 else map_option Suc (first_slot p xs))"

lemma first_slot_None_iff: "first_slot p xs = None \<longleftrightarrow> (\<forall>x \<in> set xs. \<not> p x)"
  by (induction xs) auto

lemma first_slot_SomeD:
  "first_slot p xs = Some i \<Longrightarrow> i < length xs \<and> p (xs ! i) \<and> (\<forall>j < i. \<not> p (xs ! j))"
proof (induction xs arbitrary: i)
  case Nil
  then show ?case by simp
next
  case (Cons x xs)
  then show ?case by (auto split: if_splits simp: less_Suc_eq_0_disj)
qed

lemma first_slot_SomeI:
  "i < length xs \<Longrightarrow> p (xs ! i) \<Longrightarrow> \<exists>j \<le> i. first_slot p xs = Some j"
proof (induction xs arbitrary: i)
  case Nil
  then show ?case by simp
next
  case (Cons x xs)
  show ?case
  proof (cases "p x")
    case True
    then show ?thesis by simp
  next
    case False
    with Cons.prems obtain k where k: "i = Suc k" "k < length xs" "p (xs ! k)" by (cases i) auto
    then obtain j where "j \<le> k" "first_slot p xs = Some j" using Cons.IH by blast
    with False k(1) show ?thesis by auto
  qed
qed

lemma first_slot_unique:
  assumes "i < length xs" and "p (xs ! i)" and "\<And>j. j < length xs \<Longrightarrow> p (xs ! j) \<Longrightarrow> j = i"
  shows "first_slot p xs = Some i"
proof -
  obtain j where j: "first_slot p xs = Some j" using first_slot_SomeI assms(1,2) by blast
  with first_slot_SomeD assms(3) have "j = i" by blast
  with j show ?thesis by simp
qed

section \<open>Decimal numbers\<close>

text \<open>The digits \<open>printf\<close> writes for an unsigned number.\<close>

fun dec_text :: "nat \<Rightarrow> u8 list" where
  "dec_text n = (if n < 10 then [48 + of_nat n] else dec_text (n div 10) @ [48 + of_nat (n mod 10)])"

declare dec_text.simps [simp del]

lemma length_dec_text: "n < 10 ^ Suc k \<Longrightarrow> length (dec_text n) \<le> Suc k"
proof (induction k arbitrary: n)
  case 0
  then show ?case by (simp add: dec_text.simps)
next
  case (Suc k)
  then have "n div 10 < 10 ^ Suc k" by (simp add: less_mult_imp_div_less)
  then show ?case using Suc.IH [of "n div 10"] by (subst dec_text.simps) auto
qed

lemma length_dec_u32: "length (dec_text (unat (w :: u32))) \<le> 10"
proof -
  have "unat w < 4294967296" using unsigned_less [of w] by simp
  then show ?thesis using length_dec_text [of "unat w" 9] by simp
qed

section \<open>Polling a status register\<close>

text \<open>
  \<open>poll f p t\<close> is a busy loop: \<open>f t\<close> is the value the status register shows at the \<open>t\<close>-th
  read, and the loop ends at the first read that satisfies \<open>p\<close>. \<open>None\<close> is a loop that never
  ends; a result is the index of the next read.
\<close>

partial_function (option) poll :: "(nat \<Rightarrow> u32) \<Rightarrow> (u32 \<Rightarrow> bool) \<Rightarrow> nat \<Rightarrow> nat option" where
  "poll f p t = (if p (f t) then Some (Suc t) else poll f p (Suc t))"

lemma poll_stop: "p (f t) \<Longrightarrow> poll f p t = Some (Suc t)"
  by (simp add: poll.simps)

lemma poll_reaches:
  assumes "\<And>i. i < n \<Longrightarrow> \<not> p (f (t + i))" and "p (f (t + n))"
  shows "poll f p t = Some (Suc (t + n))"
  using assms
proof (induction n arbitrary: t)
  case 0
  then show ?case by (simp add: poll_stop)
next
  case (Suc n)
  have "\<not> p (f t)" using Suc.prems(1) [of 0] by simp
  moreover have "poll f p (Suc t) = Some (Suc (Suc t + n))"
    using Suc.prems by (intro Suc.IH) fastforce+
  ultimately show ?case by (subst poll.simps) simp
qed

lemma poll_SomeD:
  assumes "poll f p t = Some t'"
  shows "t < t' \<and> p (f (t' - 1)) \<and> (\<forall>i. t \<le> i \<and> i < t' - 1 \<longrightarrow> \<not> p (f i))"
proof (rule poll.raw_induct
    [where P = "\<lambda>f p t t'. t < t' \<and> p (f (t' - 1)) \<and> (\<forall>i. t \<le> i \<and> i < t' - 1 \<longrightarrow> \<not> p (f i))", OF _ assms])
  fix poll' f p t t'
  assume IH: "\<And>f p t t'. poll' f p t = Some t' \<Longrightarrow>
      t < t' \<and> p (f (t' - 1)) \<and> (\<forall>i. t \<le> i \<and> i < t' - 1 \<longrightarrow> \<not> p (f i))"
    and eq: "(if p (f t) then Some (Suc t) else poll' f p (Suc t)) = Some t'"
  show "t < t' \<and> p (f (t' - 1)) \<and> (\<forall>i. t \<le> i \<and> i < t' - 1 \<longrightarrow> \<not> p (f i))"
  proof (cases "p (f t)")
    case True
    with eq show ?thesis by auto
  next
    case False
    with eq have "poll' f p (Suc t) = Some t'" by simp
    from IH [OF this] False show ?thesis by (metis Suc_lessD Suc_leI le_neq_implies_less)
  qed
qed

text \<open>The loop returns exactly when the awaited value is read at some later time.\<close>

lemma poll_returns_iff: "(\<exists>t'. poll f p t = Some t') \<longleftrightarrow> (\<exists>k \<ge> t. p (f k))"
proof
  assume "\<exists>t'. poll f p t = Some t'"
  then obtain t' where "t < t'" and "p (f (t' - 1))" using poll_SomeD by blast
  then show "\<exists>k \<ge> t. p (f k)" by (metis Suc_pred' less_Suc_eq_le not_less_zero gr_zeroI)
next
  assume "\<exists>k \<ge> t. p (f k)"
  then obtain n where n: "p (f (t + n))" by (metis le_add_diff_inverse)
  define m where "m = (LEAST n. p (f (t + n)))"
  have "p (f (t + m))" unfolding m_def using n by (rule LeastI)
  moreover have "\<not> p (f (t + i))" if "i < m" for i
    using that not_less_Least unfolding m_def by blast
  ultimately show "\<exists>t'. poll f p t = Some t'" using poll_reaches by blast
qed

section \<open>Sequences of operations\<close>

text \<open>
  A component that refines an abstract one step by step refines it along every sequence of calls that
  the abstract component allows. \<open>allowed ok spec cs a\<close>: every call of \<open>cs\<close> satisfies \<open>ok\<close> in the
  abstract state it is made in.
\<close>

fun allowed :: "('c \<Rightarrow> 'a \<Rightarrow> bool) \<Rightarrow> ('c \<Rightarrow> 'a \<Rightarrow> 'a) \<Rightarrow> 'c list \<Rightarrow> 'a \<Rightarrow> bool" where
  "allowed ok spec [] a = True"
| "allowed ok spec (c # cs) a = (ok c a \<and> allowed ok spec cs (spec c a))"

locale simulation =
  fixes exec :: "'c \<Rightarrow> 's \<Rightarrow> 's" and spec :: "'c \<Rightarrow> 'a \<Rightarrow> 'a" and abs :: "'s \<Rightarrow> 'a"
    and inv :: "'s \<Rightarrow> bool" and ok :: "'c \<Rightarrow> 'a \<Rightarrow> bool"
  assumes step: "inv s \<Longrightarrow> ok c (abs s) \<Longrightarrow> inv (exec c s) \<and> abs (exec c s) = spec c (abs s)"
begin

lemma run:
  "inv s \<Longrightarrow> allowed ok spec cs (abs s) \<Longrightarrow> inv (fold exec cs s) \<and> abs (fold exec cs s) = fold spec cs (abs s)"
proof (induction cs arbitrary: s)
  case Nil
  then show ?case by simp
next
  case (Cons c cs)
  with step [of s c] show ?case by simp
qed

end

end
