(* ===== verification/Mmio.thy ===== *)
theory Mmio
  imports Prelude
begin

text \<open>
  The device registers of the H3 as a map from physical address to 32-bit contents, the
  read-modify-write idioms the drivers use on it, and the addresses of the clock control unit
  (\<^verbatim>\<open>ccu.h\<close>). A register that hardware changes on its own is not read through this map: the
  functions that poll one take the sequence of values it shows as an argument.
\<close>

type_synonym mmio = "u32 \<Rightarrow> u32"

section \<open>Register updates\<close>

text \<open>\<open>REG |= v\<close> and \<open>REG &= ~v\<close>.\<close>

definition reg_or :: "u32 \<Rightarrow> u32 \<Rightarrow> mmio \<Rightarrow> mmio" where
  [reg_defs]: "reg_or a v m = m(a := m a OR v)"

definition reg_clear :: "u32 \<Rightarrow> u32 \<Rightarrow> mmio \<Rightarrow> mmio" where
  [reg_defs]: "reg_clear a v m = m(a := m a AND NOT v)"

definition reg_write :: "u32 \<Rightarrow> u32 \<Rightarrow> mmio \<Rightarrow> mmio" where
  [reg_defs]: "reg_write a v m = m(a := v)"

definition BIT :: "nat \<Rightarrow> u32" where
  [reg_defs]: "BIT n = push_bit n 1"

text \<open>\<open>for (addr = base; addr < base + 4 * n; addr += 4) REG(addr) = 0\<close>.\<close>

fun reg_zero_range :: "u32 \<Rightarrow> nat \<Rightarrow> mmio \<Rightarrow> mmio" where
  "reg_zero_range a 0 m = m"
| "reg_zero_range a (Suc n) m = reg_zero_range (a + 4) n (reg_write a 0 m)"

lemma reg_or_other [simp]: "x \<noteq> a \<Longrightarrow> reg_or a v m x = m x"
  and reg_clear_other [simp]: "x \<noteq> a \<Longrightarrow> reg_clear a v m x = m x"
  and reg_write_other [simp]: "x \<noteq> a \<Longrightarrow> reg_write a v m x = m x"
  by (simp_all add: reg_defs)

lemma reg_or_same [simp]: "reg_or a v m a = m a OR v"
  and reg_clear_same [simp]: "reg_clear a v m a = m a AND NOT v"
  and reg_write_same [simp]: "reg_write a v m a = v"
  by (simp_all add: reg_defs)

text \<open>A sequence of stores.\<close>

definition reg_writes :: "(u32 \<times> u32) list \<Rightarrow> mmio \<Rightarrow> mmio" where
  "reg_writes ps m = fold (\<lambda>(a, v). reg_write a v) ps m"

lemma reg_writes_simps [simp]:
  "reg_writes [] m = m"
  "reg_writes ((a, v) # ps) m = reg_writes ps (reg_write a v m)"
  by (simp_all add: reg_writes_def)

lemma reg_writes_append: "reg_writes (ps @ qs) m = reg_writes qs (reg_writes ps m)"
  by (simp add: reg_writes_def)

lemma reg_writes_other: "a \<notin> fst ` set ps \<Longrightarrow> reg_writes ps m a = m a"
  by (induction ps arbitrary: m) auto

lemma reg_writes_same:
  assumes "(a, v) \<in> set ps" and "\<And>w. (a, w) \<in> set ps \<Longrightarrow> w = v"
  shows "reg_writes ps m a = v"
  using assms
proof (induction ps arbitrary: m)
  case Nil
  then show ?case by simp
next
  case (Cons p ps)
  show ?case
  proof (cases "a \<in> fst ` set ps")
    case True
    then obtain w where w: "(a, w) \<in> set ps" by auto
    then have "w = v" using Cons.prems(2) [of w] by simp
    with w have "reg_writes ps n a = v" for n using Cons.prems(2) by (intro Cons.IH) simp_all
    then show ?thesis by (cases p) simp
  next
    case False
    with Cons.prems(1) have "p = (a, v)" by force
    with False show ?thesis by (simp add: reg_writes_other)
  qed
qed

lemma bit_BIT: "bit (BIT n) i \<longleftrightarrow> i = n \<and> n < 32"
  by (auto simp: BIT_def bit_simps)

section \<open>Clock control unit\<close>

definition CCU_BASE :: u32 where [addr_defs]: "CCU_BASE = 0x01C20000"
definition R_PRCM_BASE :: u32 where [addr_defs]: "R_PRCM_BASE = 0x01F01400"
definition PLL_CPUX_CTRL :: u32 where [addr_defs]: "PLL_CPUX_CTRL = CCU_BASE + 0x000"
definition PLL_AUDIO_CTRL :: u32 where [addr_defs]: "PLL_AUDIO_CTRL = CCU_BASE + 0x008"
definition PLL_VIDEO_CTRL :: u32 where [addr_defs]: "PLL_VIDEO_CTRL = CCU_BASE + 0x010"
definition PLL_PERIPH0_CTRL :: u32 where [addr_defs]: "PLL_PERIPH0_CTRL = CCU_BASE + 0x028"
definition PLL_PERIPH1_CTRL :: u32 where [addr_defs]: "PLL_PERIPH1_CTRL = CCU_BASE + 0x044"
definition PLL_DE_CTRL :: u32 where [addr_defs]: "PLL_DE_CTRL = CCU_BASE + 0x048"
definition BUS_CLK_GATING0 :: u32 where [addr_defs]: "BUS_CLK_GATING0 = CCU_BASE + 0x060"
definition BUS_CLK_GATING1 :: u32 where [addr_defs]: "BUS_CLK_GATING1 = CCU_BASE + 0x064"
definition BUS_CLK_GATING2 :: u32 where [addr_defs]: "BUS_CLK_GATING2 = CCU_BASE + 0x068"
definition BUS_CLK_GATING3 :: u32 where [addr_defs]: "BUS_CLK_GATING3 = CCU_BASE + 0x06C"
definition I2S_PCM2_CLK :: u32 where [addr_defs]: "I2S_PCM2_CLK = CCU_BASE + 0x0B8"
definition USBPHY_CFG :: u32 where [addr_defs]: "USBPHY_CFG = CCU_BASE + 0x0CC"
definition DE_CLK :: u32 where [addr_defs]: "DE_CLK = CCU_BASE + 0x104"
definition TCON0_CLK :: u32 where [addr_defs]: "TCON0_CLK = CCU_BASE + 0x118"
definition TVE_CLK :: u32 where [addr_defs]: "TVE_CLK = CCU_BASE + 0x120"
definition BUS_SOFT_RST0 :: u32 where [addr_defs]: "BUS_SOFT_RST0 = CCU_BASE + 0x2C0"
definition BUS_SOFT_RST1 :: u32 where [addr_defs]: "BUS_SOFT_RST1 = CCU_BASE + 0x2C4"
definition BUS_SOFT_RST3 :: u32 where [addr_defs]: "BUS_SOFT_RST3 = CCU_BASE + 0x2D0"
definition BUS_SOFT_RST4 :: u32 where [addr_defs]: "BUS_SOFT_RST4 = CCU_BASE + 0x2D8"
definition APB0_CLK_GATING :: u32 where [addr_defs]: "APB0_CLK_GATING = R_PRCM_BASE + 0x28"

end
