(* ===== verification/Ports.thy ===== *)
theory Ports
  imports Mmio
begin

text \<open>
  The GPIO driver \<^verbatim>\<open>ports.c\<close> with the register layout of \<^verbatim>\<open>ports.h\<close>. The observers
  \<open>pin_mode\<close>, \<open>pin_pull\<close> and \<open>pin_drive\<close> read back the field of one pin; the locale
  \<open>pin_bank\<close> states what a driver of one pin at a time promises, and its interpretations show
  that each setter writes the field of its pin and nothing else.
\<close>

section \<open>Register layout\<close>

definition PIO_BASE :: u32 where [addr_defs]: "PIO_BASE = 0x01C20800"
definition PORTA :: u32 where [addr_defs]: "PORTA = PIO_BASE + 0 * 0x24"
definition PORTF :: u32 where [addr_defs]: "PORTF = PIO_BASE + 5 * 0x24"
definition PORTG :: u32 where [addr_defs]: "PORTG = PIO_BASE + 6 * 0x24"
definition PORTL :: u32 where [addr_defs]: "PORTL = 0x01F02C00"
definition PA_EINT_BASE :: u32 where [addr_defs]: "PA_EINT_BASE = PIO_BASE + 0x200 + (0 * 0x20)"
definition PG_EINT_BASE :: u32 where [addr_defs]: "PG_EINT_BASE = PIO_BASE + 0x200 + (1 * 0x20)"
definition R_PL_EINT_BASE :: u32 where [addr_defs]: "R_PL_EINT_BASE = PORTL + 0x200 + (0 * 0x20)"

text \<open>Offsets of \<open>struct port_registers\<close>; \<open>cfg\<close> also those of \<open>struct port_irq_registers\<close>.\<close>

definition cfg_reg :: "u32 \<Rightarrow> nat \<Rightarrow> u32" where
  "cfg_reg port n = port + 4 * of_nat n"

definition data_reg :: "u32 \<Rightarrow> u32" where "data_reg port = port + 0x10"
definition drv_reg :: "u32 \<Rightarrow> nat \<Rightarrow> u32" where "drv_reg port n = port + 0x14 + 4 * of_nat n"
definition pul_reg :: "u32 \<Rightarrow> nat \<Rightarrow> u32" where "pul_reg port n = port + 0x1C + 4 * of_nat n"
definition ctl_reg :: "u32 \<Rightarrow> u32" where "ctl_reg port = port + 0x10"
definition status_reg :: "u32 \<Rightarrow> u32" where "status_reg port = port + 0x14"

section \<open>Operations\<close>

definition gpio_init :: "mmio \<Rightarrow> mmio" where
  "gpio_init m = reg_or APB0_CLK_GATING (push_bit 0 1) (reg_or BUS_CLK_GATING2 (push_bit 5 1) m)"

text \<open>\<open>reg &= ~(mask << shift); reg |= (value << shift)\<close>.\<close>

definition field_update :: "u32 \<Rightarrow> u32 \<Rightarrow> nat \<Rightarrow> u32 \<Rightarrow> mmio \<Rightarrow> mmio" where
  "field_update a msk sh v m = reg_or a (push_bit sh v) (reg_clear a (push_bit sh msk) m)"

definition set_pin_mode :: "u32 \<Rightarrow> nat \<Rightarrow> u32 \<Rightarrow> mmio \<Rightarrow> mmio" where
  "set_pin_mode port pin mode m =
     (if pin < 8 then field_update (cfg_reg port 0) 7 ((pin - 0) * 4) mode m
      else if pin < 16 then field_update (cfg_reg port 1) 7 ((pin - 8) * 4) mode m
      else if pin < 24 then field_update (cfg_reg port 2) 7 ((pin - 16) * 4) mode m
      else field_update (cfg_reg port 3) 7 ((pin - 24) * 4) mode m)"

definition set_pin_data :: "u32 \<Rightarrow> nat \<Rightarrow> u32 \<Rightarrow> mmio \<Rightarrow> mmio" where
  "set_pin_data port pin data m =
     (if truth data then reg_or (data_reg port) (push_bit pin 1) m
      else reg_clear (data_reg port) (push_bit pin 1) m)"

definition get_pin_data :: "u32 \<Rightarrow> nat \<Rightarrow> mmio \<Rightarrow> int" where
  "get_pin_data port pin m = of_bool (truth (m (data_reg port) AND push_bit pin 1))"

definition set_pin_drive :: "u32 \<Rightarrow> nat \<Rightarrow> u32 \<Rightarrow> mmio \<Rightarrow> mmio" where
  "set_pin_drive port pin strength m =
     (if pin < 16 then field_update (drv_reg port 0) 3 (pin * 2) strength m
      else field_update (drv_reg port 1) 3 ((pin - 16) * 2) strength m)"

definition set_pin_pull :: "u32 \<Rightarrow> nat \<Rightarrow> u32 \<Rightarrow> mmio \<Rightarrow> mmio" where
  "set_pin_pull port pin pull m =
     (if pin < 16 then field_update (pul_reg port 0) 3 (pin * 2) pull m
      else field_update (pul_reg port 1) 3 ((pin - 16) * 2) pull m)"

text \<open>
  The interrupt functions cast the address they are given to \<open>struct port_irq_registers\<close>
  without adding the \<open>0x200\<close> that separates a port from its interrupt block.
\<close>

definition gpio_irq_set_trigger :: "u32 \<Rightarrow> nat \<Rightarrow> u8 \<Rightarrow> mmio \<Rightarrow> mmio" where
  "gpio_irq_set_trigger port pin mode m =
     (if pin < 8 then field_update (cfg_reg port 0) 7 ((pin - 0) * 4) (ucast mode) m
      else if pin < 16 then field_update (cfg_reg port 1) 7 ((pin - 8) * 4) (ucast mode) m
      else if pin < 24 then field_update (cfg_reg port 2) 7 ((pin - 16) * 4) (ucast mode) m
      else field_update (cfg_reg port 3) 7 ((pin - 24) * 4) (ucast mode) m)"

definition gpio_irq_enable :: "u32 \<Rightarrow> nat \<Rightarrow> bool \<Rightarrow> mmio \<Rightarrow> mmio" where
  "gpio_irq_enable port pin enable m =
     (if enable then reg_or (ctl_reg port) (BIT pin) m else reg_clear (ctl_reg port) (BIT pin) m)"

text \<open>The interrupt status register clears the bits a store writes as 1.\<close>

definition status_store :: "u32 \<Rightarrow> u32 \<Rightarrow> mmio \<Rightarrow> mmio" where
  "status_store a v m = m(a := m a AND NOT v)"

definition gpio_irq_ack :: "u32 \<Rightarrow> mmio \<Rightarrow> mmio" where
  "gpio_irq_ack port m = status_store (status_reg port) (m (status_reg port)) m"

section \<open>Fields of one pin\<close>

definition pin_mode :: "u32 \<Rightarrow> nat \<Rightarrow> mmio \<Rightarrow> u32" where
  "pin_mode port pin m = drop_bit (4 * (pin mod 8)) (m (cfg_reg port (pin div 8))) AND 7"

definition pin_drive :: "u32 \<Rightarrow> nat \<Rightarrow> mmio \<Rightarrow> u32" where
  "pin_drive port pin m = drop_bit (2 * (pin mod 16)) (m (drv_reg port (pin div 16))) AND 3"

definition pin_pull :: "u32 \<Rightarrow> nat \<Rightarrow> mmio \<Rightarrow> u32" where
  "pin_pull port pin m = drop_bit (2 * (pin mod 16)) (m (pul_reg port (pin div 16))) AND 3"

lemma mask_consts: "(7::u32) = mask 3" "(3::u32) = mask 2" "(1::u32) = mask 1"
  by (simp_all add: mask_numeral)

lemma bit_field_update:
  "bit (field_update a (mask w) sh v m a) i \<longleftrightarrow>
     (bit (m a) i \<and> \<not> (sh \<le> i \<and> i < sh + w)) \<or> (i < 32 \<and> sh \<le> i \<and> bit v (i - sh))"
  by (auto simp: field_update_def bit_simps dest: bit_imp_le_length)

lemma field_update_other [simp]: "x \<noteq> a \<Longrightarrow> field_update a msk sh v m x = m x"
  by (simp add: field_update_def)

text \<open>A field reads back what was stored if the value fits in the field.\<close>

lemma field_update_same:
  assumes "sh + w \<le> 32" and "v AND mask w = v"
  shows "drop_bit sh (field_update a (mask w) sh v m a) AND mask w = v"
proof (rule bit_word_eqI)
  fix i assume "i < LENGTH(32)"
  have "bit v i \<Longrightarrow> i < w" using assms(2) by (metis bit_and_iff bit_mask_iff)
  with assms(1) show "bit (drop_bit sh (field_update a (mask w) sh v m a) AND mask w) i = bit v i"
    by (auto simp: bit_simps bit_field_update)
qed

text \<open>Another field of the same register is not changed.\<close>

lemma field_update_disjoint:
  assumes "v AND mask w = v" and "sh + w \<le> sh' \<or> sh' + w' \<le> sh"
  shows "drop_bit sh' (field_update a (mask w) sh v m a) AND mask w' = drop_bit sh' (m a) AND mask w'"
proof (rule bit_word_eqI)
  fix i assume "i < LENGTH(32)"
  have "bit v (sh' + i - sh) \<Longrightarrow> sh' + i - sh < w" using assms(1) by (metis bit_and_iff bit_mask_iff)
  with assms(2) show "bit (drop_bit sh' (field_update a (mask w) sh v m a) AND mask w') i =
      bit (drop_bit sh' (m a) AND mask w') i"
    by (auto simp: bit_simps bit_field_update dest: bit_imp_le_length)
qed

section \<open>The interface of a pin setter\<close>

locale pin_bank =
  fixes get :: "nat \<Rightarrow> mmio \<Rightarrow> u32" and set_pin :: "nat \<Rightarrow> u32 \<Rightarrow> mmio \<Rightarrow> mmio"
    and fits :: "u32 \<Rightarrow> bool" and regs :: "u32 set"
  assumes get_set_same: "pin < 32 \<Longrightarrow> fits v \<Longrightarrow> get pin (set_pin pin v m) = v"
    and get_set_other: "pin < 32 \<Longrightarrow> pin' < 32 \<Longrightarrow> pin \<noteq> pin' \<Longrightarrow> fits v \<Longrightarrow>
      get pin' (set_pin pin v m) = get pin' m"
    and frame: "pin < 32 \<Longrightarrow> a \<notin> regs \<Longrightarrow> set_pin pin v m a = m a"
begin

text \<open>A loop that sets a run of pins sets exactly these pins.\<close>

lemma get_fold_set:
  assumes "\<forall>p \<in> set pins. p < 32" and "fits v" and "pin < 32"
  shows "get pin (fold (\<lambda>p. set_pin p v) pins m) = (if pin \<in> set pins then v else get pin m)"
  using assms(1)
proof (induction pins arbitrary: m)
  case Nil
  then show ?case by simp
next
  case (Cons p pins)
  then show ?case
    using assms(2,3) by (cases "pin = p") (auto simp: get_set_same get_set_other)
qed

lemma frame_fold_set:
  assumes "\<forall>p \<in> set pins. p < 32" and "a \<notin> regs"
  shows "fold (\<lambda>p. set_pin p v) pins m a = m a"
  using assms(1) by (induction pins arbitrary: m) (auto simp: frame assms(2))

end

lemma div8_cases: "(p::nat) < 32 \<Longrightarrow> p div 8 = (if p < 8 then 0 else if p < 16 then 1 else if p < 24 then 2 else 3)"
  by (simp add: div_nat_eqI)

lemma div16_cases: "(p::nat) < 32 \<Longrightarrow> p div 16 = (if p < 16 then 0 else 1)"
  by (simp add: div_nat_eqI)

lemma set_pin_mode_eq:
  "pin < 32 \<Longrightarrow> set_pin_mode port pin mode m = field_update (cfg_reg port (pin div 8)) (mask 3) (4 * (pin mod 8)) mode m"
  by (auto simp: set_pin_mode_def mask_consts div8_cases modulo_nat_def mult.commute)

lemma set_pin_drive_eq:
  "pin < 32 \<Longrightarrow> set_pin_drive port pin v m = field_update (drv_reg port (pin div 16)) (mask 2) (2 * (pin mod 16)) v m"
  by (auto simp: set_pin_drive_def mask_consts div16_cases modulo_nat_def mult.commute)

lemma set_pin_pull_eq:
  "pin < 32 \<Longrightarrow> set_pin_pull port pin v m = field_update (pul_reg port (pin div 16)) (mask 2) (2 * (pin mod 16)) v m"
  by (auto simp: set_pin_pull_def mask_consts div16_cases modulo_nat_def mult.commute)

lemma reg_offset_inj:
  assumes "i < 4" and "j < 4" and "4 * of_nat i = 4 * (of_nat j :: u32)"
  shows "i = j"
proof -
  have "unat (4 * of_nat k :: u32) = 4 * k" if "k < 4" for k
    using that by (simp add: unat_word_ariths unat_of_nat)
  with assms show ?thesis by (metis mult_cancel1 zero_neq_numeral)
qed

text \<open>
  Pins are laid out in consecutive registers of \<open>n\<close> fields each, \<open>w\<close> apart; two pins in the
  same register have disjoint fields.
\<close>

lemma fields_disjoint:
  assumes "(p::nat) \<noteq> q" and "p div n = q div n"
  shows "k * (p mod n) + k \<le> k * (q mod n) \<or> k * (q mod n) + k \<le> k * (p mod n)"
proof -
  have "p mod n \<noteq> q mod n" using assms by (metis div_mult_mod_eq)
  then have "Suc (p mod n) \<le> q mod n \<or> Suc (q mod n) \<le> p mod n" by linarith
  then show ?thesis by (metis add.commute mult_Suc_right mult_le_mono2)
qed

lemma pin_shift_bound: "0 < n \<Longrightarrow> k * n \<le> 32 \<Longrightarrow> k * ((p::nat) mod n) + k \<le> 32"
proof -
  assume "0 < n" and le: "k * n \<le> 32"
  then have "k * Suc (p mod n) \<le> k * n" by (intro mult_le_mono2) (simp add: Suc_leI)
  with le show ?thesis by simp
qed

lemma field_other_pin:
  assumes "v AND mask w = v" and "w \<le> k" and "p \<noteq> q" and "p div n = q div n"
  shows "drop_bit (k * (q mod n)) (field_update a (mask w) (k * (p mod n)) v m a) AND mask w =
         drop_bit (k * (q mod n)) (m a) AND mask w"
  using fields_disjoint [OF assms(3,4), of k] assms(2)
  by (intro field_update_disjoint [OF assms(1)]) linarith

lemma pin_bank_fields:
  assumes n: "0 < n" "k * n = 32" "w \<le> k"
    and inj: "\<And>i j. i < 32 div n \<Longrightarrow> j < 32 div n \<Longrightarrow> reg i = reg j \<Longrightarrow> i = j"
    and g: "\<And>p m. get p m = drop_bit (k * (p mod n)) (m (reg (p div n))) AND mask w"
    and s: "\<And>p v m. p < 32 \<Longrightarrow> set_pin p v m = field_update (reg (p div n)) (mask w) (k * (p mod n)) v m"
  shows "pin_bank get set_pin (\<lambda>v. v AND mask w = v) (reg ` {..<32 div n})"
proof
  have lt: "p div n < 32 div n" if "p < 32" for p
    using that n(1,2) by (metis div_mult_self_is_m less_mult_imp_div_less)
  fix pin pin' v m a
  assume p: "pin < (32::nat)"
  show "get pin (set_pin pin v m) = v" if "v AND mask w = v"
    using that p n pin_shift_bound [of n k pin] field_update_same [of "k * (pin mod n)" w v]
    by (simp add: g s)
  show "set_pin pin v m a = m a" if "a \<notin> reg ` {..<32 div n}"
  proof -
    have "a \<noteq> reg (pin div n)" using that lt [OF p] by blast
    then show ?thesis by (simp add: s [OF p])
  qed
  show "get pin' (set_pin pin v m) = get pin' m"
    if "pin' < 32" "pin \<noteq> pin'" "v AND mask w = v"
  proof (cases "pin div n = pin' div n")
    case True
    with that p n(3) field_other_pin [of v w k pin pin' n] show ?thesis by (simp add: g s)
  next
    case False
    with inj lt that(1) p have "reg (pin' div n) \<noteq> reg (pin div n)" by metis
    then show ?thesis by (simp add: g s p)
  qed
qed

interpretation mode: pin_bank "pin_mode port" "set_pin_mode port" "\<lambda>v. v AND mask 3 = v"
    "cfg_reg port ` {..<32 div 8}" for port
  by (rule pin_bank_fields [where k = 4])
     (auto simp: pin_mode_def set_pin_mode_eq mask_consts cfg_reg_def dest: reg_offset_inj)

interpretation drive: pin_bank "pin_drive port" "set_pin_drive port" "\<lambda>v. v AND mask 2 = v"
    "drv_reg port ` {..<32 div 16}" for port
  by (rule pin_bank_fields [where k = 2])
     (auto simp: pin_drive_def set_pin_drive_eq mask_consts drv_reg_def intro: reg_offset_inj)

interpretation pull: pin_bank "pin_pull port" "set_pin_pull port" "\<lambda>v. v AND mask 2 = v"
    "pul_reg port ` {..<32 div 16}" for port
  by (rule pin_bank_fields [where k = 2])
     (auto simp: pin_pull_def set_pin_pull_eq mask_consts pul_reg_def intro: reg_offset_inj)

lemma get_set_pin_data:
  assumes "pin < 32" and "pin' < 32"
  shows "get_pin_data port pin' (set_pin_data port pin v m) =
           (if pin' = pin then of_bool (truth v) else get_pin_data port pin' m)"
  using assms by (auto simp: get_pin_data_def set_pin_data_def and_exp_eq_0_iff_not_bit bit_simps)


section \<open>Properties\<close>

lemma small_fits: "v \<le> (7::u32) \<Longrightarrow> v AND mask 3 = v" "v \<le> (3::u32) \<Longrightarrow> v AND mask 2 = v"
  by (simp_all add: take_bit_eq_mask [symmetric] word_unat_eq_iff take_bit_eq_mod unat_mod word_le_nat_alt)

text \<open>Configuring a run of pins of a port gives exactly these pins the function asked for: afterwards
  every pin of the run has the mode, every other pin of the port keeps its mode, and no
  register outside the four configuration registers of the port changes.\<close>

theorem set_pin_mode_run:
  assumes "\<forall>p \<in> set pins. p < 32" and "mode \<le> 7" and "pin < 32" and "a \<notin> cfg_reg port ` {..<4}"
  shows "pin_mode port pin (fold (\<lambda>p. set_pin_mode port p mode) pins m) =
      (if pin \<in> set pins then mode else pin_mode port pin m) \<and>
    fold (\<lambda>p. set_pin_mode port p mode) pins m a = m a"
  using mode.get_fold_set [OF assms(1) small_fits(1) [OF assms(2)] assms(3)] mode.frame_fold_set [OF assms(1)] assms(4)
  by simp

theorem set_pin_mode_run_witness:
  "pin_mode PORTF 2 (fold (\<lambda>p. set_pin_mode PORTF p 2) [0, 1, 2] (\<lambda>_. 0x77777777)) = 2 \<and>
   fold (\<lambda>p. set_pin_mode PORTF p 2) [0, 1, 2] (\<lambda>_. 0x77777777) (data_reg PORTF) = 0x77777777"
  using set_pin_mode_run [of "[0, 1, 2]" 2 2 "data_reg PORTF" PORTF "\<lambda>_. 0x77777777"]
  by (auto simp: data_reg_def cfg_reg_def lessThan_nat_numeral lessThan_Suc)

text \<open>Drive strength and pull resistors of a pin are set independently of every other pin: the pin
  reads back the two-bit value stored, any other pin of the port keeps its own.\<close>

lemma set_pin_drive_pull:
  assumes "v \<le> 3" and "pin < 32" and "pin' < 32"
  shows "pin_drive port pin' (set_pin_drive port pin v m) = (if pin' = pin then v else pin_drive port pin' m) \<and>
    pin_pull port pin' (set_pin_pull port pin v m) = (if pin' = pin then v else pin_pull port pin' m)"
  using drive.get_set_same drive.get_set_other pull.get_set_same pull.get_set_other small_fits(2) [OF assms(1)] assms(2,3)
  by auto

theorem set_pin_drive_pull_witness:
  "pin_drive PORTA 17 (set_pin_drive PORTA 17 2 (\<lambda>_. 0)) = 2 \<and> pin_pull PORTA 17 (set_pin_pull PORTA 17 2 (\<lambda>_. 0)) = 2"
  using set_pin_drive_pull [of 2 17 17 PORTA "\<lambda>_. 0"] by simp

end
