(* ===== verification/Mmc.thy ===== *)
theory Mmc
  imports Ports "HOL-Library.Monad_Syntax"
begin

text \<open>
  The SD card driver (\<^verbatim>\<open>fatfs/mmc_sunxi.c\<close>) and the hardware it talks to. A state holds the device
  registers, the card behind the controller, what the three polled registers show at each read, and
  the two variables of the driver. An operation returns \<open>None\<close> if one of its busy loops never ends.
  Buffers are lists of 32-bit words, as the driver transfers them.
\<close>

section \<open>The card and its controller\<close>

text \<open>
  A card stores 128 words per sector; a high-capacity card takes sector numbers as addresses, the
  others byte addresses. \<open>out\<close> are the words the controller will deliver, \<open>cursor\<close> and \<open>left\<close> the
  next word and the number of words of a write. A transfer of several blocks that is not stopped
  leaves the card in its data state, where it ignores commands.
\<close>

record card =
  disk :: "nat \<Rightarrow> u32"
  high_capacity :: bool
  version2 :: bool
  not_ready :: nat
  rca :: u32
  csd :: "u32 list"
  app_cmd :: bool
  out :: "u32 list"
  cursor :: nat
  left :: nat
  hung :: bool

definition start_word :: "card \<Rightarrow> u32 \<Rightarrow> nat" where
  "start_word c arg = (if high_capacity c then unat arg * 128 else unat arg div 4)"

definition card_exec :: "u32 \<Rightarrow> u32 \<Rightarrow> u32 \<Rightarrow> card \<Rightarrow> u32 \<times> card" where
  "card_exec cmdreg arg bytcnt c =
     (if hung c then (0, c)
      else
        let i = unat (cmdreg AND 0x3f);
            n = (if bit cmdreg 9 then unat bytcnt div 4 else 0);
            c0 = c\<lparr>app_cmd := False\<rparr>;
            open_ended = ((i = 18 \<or> i = 25) \<and> \<not> bit cmdreg 12)
        in if i = 8 then (if version2 c then arg AND 0xfff else 0, c0)
           else if i = 55 then (0x120, c\<lparr>app_cmd := True\<rparr>)
           else if i = 41 \<and> app_cmd c then
             (if not_ready c = 0
              then (0x80300000 OR (if high_capacity c then arg AND 0x40000000 else 0), c0)
              else (0x00300000, c0\<lparr>not_ready := not_ready c - 1\<rparr>))
           else if i = 3 then (push_bit 16 (rca c), c0)
           else if i = 9 then (0x900, c0\<lparr>out := take n (csd c)\<rparr>)
           else if (i = 17 \<or> i = 18) \<and> \<not> bit cmdreg 10 then
             (0x900, c0\<lparr>out := map (disk c) [start_word c arg..<start_word c arg + n], hung := open_ended\<rparr>)
           else if (i = 24 \<or> i = 25) \<and> bit cmdreg 10 then
             (0x900, c0\<lparr>cursor := start_word c arg, left := n, hung := open_ended\<rparr>)
           else (0x900, c0))"

definition fifo_pop :: "card \<Rightarrow> u32 \<times> card" where
  "fifo_pop c = (case out c of [] \<Rightarrow> (0, c) | w # ws \<Rightarrow> (w, c\<lparr>out := ws\<rparr>))"

definition fifo_push :: "u32 \<Rightarrow> card \<Rightarrow> card" where
  "fifo_push w c =
     (if left c = 0 then c else c\<lparr>disk := (disk c)(cursor c := w), cursor := cursor c + 1, left := left c - 1\<rparr>)"

record mmc =
  mregs :: mmio
  card :: card
  resp0 :: u32
  sd_status :: "nat \<Rightarrow> u32"
  sd_rintsts :: "nat \<Rightarrow> u32"
  sd_cmd :: "nat \<Rightarrow> u32"
  clock :: nat
  Stat :: u8
  CardType :: u8

section \<open>Constants\<close>

definition CT_MMC :: u8 where "CT_MMC = 0x01"
definition CT_SD1 :: u8 where "CT_SD1 = 0x02"
definition CT_SD2 :: u8 where "CT_SD2 = 0x04"
definition CT_SDC :: u8 where "CT_SDC = CT_SD1 OR CT_SD2"
definition CT_BLOCK :: u8 where "CT_BLOCK = 0x08"
definition STA_NOINIT :: u8 where "STA_NOINIT = 0x01"

definition SUNXI_SD_BASE_BASE :: u32 where [addr_defs]: "SUNXI_SD_BASE_BASE = 0x01c0f000"
definition SUNXI_SD_BASE :: "nat \<Rightarrow> u32" where [addr_defs]: "SUNXI_SD_BASE n = SUNXI_SD_BASE_BASE + 0x1000 * of_nat n"
definition SUNXI_SD_CTRL :: "nat \<Rightarrow> u32" where [addr_defs]: "SUNXI_SD_CTRL n = SUNXI_SD_BASE n + 0x000"
definition SUNXI_SD_CLKDIV :: "nat \<Rightarrow> u32" where [addr_defs]: "SUNXI_SD_CLKDIV n = SUNXI_SD_BASE n + 0x004"
definition SUNXI_SD_CTYPE :: "nat \<Rightarrow> u32" where [addr_defs]: "SUNXI_SD_CTYPE n = SUNXI_SD_BASE n + 0x00c"
definition SUNXI_SD_BLKSIZ :: "nat \<Rightarrow> u32" where [addr_defs]: "SUNXI_SD_BLKSIZ n = SUNXI_SD_BASE n + 0x010"
definition SUNXI_SD_BYTCNT :: "nat \<Rightarrow> u32" where [addr_defs]: "SUNXI_SD_BYTCNT n = SUNXI_SD_BASE n + 0x014"
definition SUNXI_SD_CMDARG :: "nat \<Rightarrow> u32" where [addr_defs]: "SUNXI_SD_CMDARG n = SUNXI_SD_BASE n + 0x01c"
definition SDMMC0_CLK :: u32 where [addr_defs]: "SDMMC0_CLK = CCU_BASE + 0x088"

definition SUNXI_MMC_CMD_DATA_EXPIRE :: u32 where "SUNXI_MMC_CMD_DATA_EXPIRE = BIT 9"
definition SUNXI_MMC_CMD_WRITE :: u32 where "SUNXI_MMC_CMD_WRITE = BIT 10"
definition SUNXI_MMC_CMD_AUTO_STOP :: u32 where "SUNXI_MMC_CMD_AUTO_STOP = BIT 12"
definition SUNXI_MMC_CMD_WAIT_PRE_OVER :: u32 where "SUNXI_MMC_CMD_WAIT_PRE_OVER = BIT 13"
definition SUNXI_MMC_STATUS_FIFO_EMPTY :: u32 where "SUNXI_MMC_STATUS_FIFO_EMPTY = BIT 2"
definition SUNXI_MMC_STATUS_FIFO_FULL :: u32 where "SUNXI_MMC_STATUS_FIFO_FULL = BIT 3"
definition SUNXI_MMC_STATUS_CARD_DATA_BUSY :: u32 where "SUNXI_MMC_STATUS_CARD_DATA_BUSY = BIT 9"
definition SUNXI_MMC_STATUS_FSM_BUSY :: u32 where "SUNXI_MMC_STATUS_FSM_BUSY = BIT 10"
definition SUNXI_MMC_RINT_COMMAND_DONE :: u32 where "SUNXI_MMC_RINT_COMMAND_DONE = BIT 2"
definition SUNXI_MMC_RINT_DATA_OVER :: u32 where "SUNXI_MMC_RINT_DATA_OVER = BIT 3"
definition SUNXI_MMC_RINT_AUTO_COMMAND_DONE :: u32 where "SUNXI_MMC_RINT_AUTO_COMMAND_DONE = BIT 14"
definition OCR_HCS :: u32 where "OCR_HCS = 0x40000000"
definition OCR_BUSY :: u32 where "OCR_BUSY = 0x80000000"
definition MMC_VDD_32_33 :: u32 where "MMC_VDD_32_33 = 0x00100000"
definition MMC_VDD_33_34 :: u32 where "MMC_VDD_33_34 = 0x00200000"

section \<open>Busy loops and register stores\<close>

definition wait_for :: "(mmc \<Rightarrow> nat \<Rightarrow> u32) \<Rightarrow> (u32 \<Rightarrow> bool) \<Rightarrow> mmc \<Rightarrow> mmc option" where
  "wait_for reg p s = map_option (\<lambda>t. s\<lparr>clock := t\<rparr>) (poll (reg s) p (clock s))"

definition store :: "u32 \<Rightarrow> u32 \<Rightarrow> mmc \<Rightarrow> mmc" where
  "store a v s = s\<lparr>mregs := reg_write a v (mregs s)\<rparr>"

text \<open>A store to the command register starts the command: the card executes it and its answer shows in \<open>RESP0\<close>.\<close>

definition store_cmd :: "u32 \<Rightarrow> mmc \<Rightarrow> mmc" where
  "store_cmd v s =
     (case card_exec v (mregs s (SUNXI_SD_CMDARG 0)) (mregs s (SUNXI_SD_BYTCNT 0)) (card s) of
        (r, c) \<Rightarrow> s\<lparr>card := c, resp0 := r\<rparr>)"

definition clear :: "u32 \<Rightarrow> u32 \<Rightarrow> bool" where "clear m v \<longleftrightarrow> v AND m = 0"
definition shown :: "u32 \<Rightarrow> u32 \<Rightarrow> bool" where "shown m v \<longleftrightarrow> v AND m \<noteq> 0"

section \<open>Driver\<close>

text \<open>A clock command has bit 21 set and is not sent to the card.\<close>

definition sd_change_clock :: "u32 \<Rightarrow> mmc \<Rightarrow> mmc option" where
  "sd_change_clock divider s = do {
     s1 \<leftarrow> wait_for sd_cmd (clear 0x80000000) (store (SUNXI_SD_CLKDIV 0) 0 s);
     wait_for sd_cmd (clear 0x80000000)
       (store (SUNXI_SD_CLKDIV 0) (0x10000 OR divider)
         (store SDMMC0_CLK (BIT 31 OR push_bit 24 0 OR push_bit 16 0 OR push_bit 0 0) s1))
   }"

fun init_pins :: "nat list \<Rightarrow> mmio \<Rightarrow> mmio" where
  "init_pins [] m = m"
| "init_pins (i # is) m = init_pins is (set_pin_drive PORTF i 2 (set_pin_pull PORTF i 1 (set_pin_mode PORTF i 2 m)))"

definition init_port :: "mmc \<Rightarrow> mmc option" where
  "init_port s =
     (let m1 = reg_or BUS_SOFT_RST0 (BIT 8) (reg_clear BUS_SOFT_RST0 (BIT 8) (reg_or BUS_CLK_GATING0 (BIT 8) (mregs s)));
          s1 = s\<lparr>mregs := init_pins [0, 1, 2, 3, 4, 5] m1\<rparr>
      in sd_change_clock 0 (store SDMMC0_CLK 0x8002000e (store (SUNXI_SD_CTYPE 0) 0 (store (SUNXI_SD_CTRL 0) 0x80000007 s1))))"

definition sd_send_init :: "mmc \<Rightarrow> mmc option" where
  "sd_send_init s =
     wait_for sd_rintsts (shown SUNXI_MMC_RINT_COMMAND_DONE)
       (store_cmd 0x80008000 (store (SUNXI_SD_CMDARG 0) 0 (store (SUNXI_SD_CTYPE 0) 0 s)))"

text \<open>The two directions of the loop over the words of a buffer.\<close>

fun read_fifo :: "nat \<Rightarrow> mmc \<Rightarrow> (u32 list \<times> mmc) option" where
  "read_fifo 0 s = Some ([], s)"
| "read_fifo (Suc n) s = do {
     s1 \<leftarrow> wait_for sd_status (clear SUNXI_MMC_STATUS_FIFO_EMPTY) s;
     (ws, s2) \<leftarrow> read_fifo n (s1\<lparr>card := snd (fifo_pop (card s1))\<rparr>);
     Some (fst (fifo_pop (card s1)) # ws, s2)
   }"

fun write_fifo :: "u32 list \<Rightarrow> mmc \<Rightarrow> mmc option" where
  "write_fifo [] s = Some s"
| "write_fifo (w # ws) s = do {
     s1 \<leftarrow> wait_for sd_status (clear SUNXI_MMC_STATUS_FIFO_FULL) s;
     write_fifo ws (s1\<lparr>card := fifo_push w (card s1)\<rparr>)
   }"

definition is_write :: "nat \<Rightarrow> bool" where "is_write cmd \<longleftrightarrow> cmd = 24 \<or> cmd = 25"

definition cmd_word :: "bool \<Rightarrow> nat \<Rightarrow> bool \<Rightarrow> nat \<Rightarrow> u32" where
  "cmd_word wr cmd data bytes =
     0x80000140 OR of_nat cmd OR
     (if data then (if wr then SUNXI_MMC_CMD_WRITE else 0) OR
        (if bytes > 512 then SUNXI_MMC_CMD_AUTO_STOP else 0) OR
        (SUNXI_MMC_CMD_DATA_EXPIRE OR SUNXI_MMC_CMD_WAIT_PRE_OVER) else 0)"

text \<open>
  The part of \<open>send_cmd_data\<close> after the treatment of application commands. \<open>wr\<close> is the flag \<open>is_write\<close>,
  \<open>buf\<close> is \<open>None\<close> for the null pointer; the result has the buffer's new contents. The flags of
  \<open>RINTSTS\<close> that the function clears at the end are part of the values the register shows.
\<close>

definition send_plain :: "bool \<Rightarrow> nat \<Rightarrow> u32 \<Rightarrow> u32 list option \<Rightarrow> nat \<Rightarrow> mmc \<Rightarrow> (u32 list \<times> mmc) option" where
  "send_plain wr cmd arg buf bytes s =
     (let s1 = (if buf \<noteq> None
                then store (SUNXI_SD_BYTCNT 0) (of_nat bytes) (store (SUNXI_SD_BLKSIZ 0) (of_nat (if bytes < 512 then bytes else 512)) s)
                else s);
          s2 = store_cmd (cmd_word wr cmd (buf \<noteq> None) bytes) (store (SUNXI_SD_CMDARG 0) arg s1)
      in do {
        (data, s3) \<leftarrow> (case buf of
           None \<Rightarrow> Some ([], s2)
         | Some ws \<Rightarrow>
             if wr then map_option (\<lambda>s'. (ws, s')) (write_fifo (take (bytes div 4) ws) s2)
             else map_option (\<lambda>(rs, s'). (rs @ drop (bytes div 4) ws, s')) (read_fifo (bytes div 4) s2));
        s4 \<leftarrow> wait_for sd_rintsts (shown SUNXI_MMC_RINT_COMMAND_DONE) s3;
        s5 \<leftarrow> (if buf = None then Some s4
              else wait_for sd_rintsts (shown (if bytes > 512 then SUNXI_MMC_RINT_AUTO_COMMAND_DONE else SUNXI_MMC_RINT_DATA_OVER)) s4);
        Some (data, store (SUNXI_SD_CTRL 0) (mregs s5 (SUNXI_SD_CTRL 0) OR 2) s5)
      })"

definition BUSY_BITS :: u32 where
  "BUSY_BITS = SUNXI_MMC_STATUS_CARD_DATA_BUSY OR SUNXI_MMC_STATUS_FSM_BUSY"

text \<open>Application commands, 0x80 and more, are sent after \<open>CMD55\<close>, by a call of the function itself.\<close>

function send_cmd_data :: "nat \<Rightarrow> u32 \<Rightarrow> u32 list option \<Rightarrow> nat \<Rightarrow> mmc \<Rightarrow> (nat \<times> u32 list \<times> mmc) option" where
  "send_cmd_data cmd arg buf bytes s = do {
     s1 \<leftarrow> wait_for sd_status (clear BUSY_BITS) s;
     if cmd = 12 then Some (0, [], s1)
     else if 0x80 \<le> cmd then do {
       (n, x, s2) \<leftarrow> send_cmd_data 55 0 None 0 s1;
       if n \<noteq> 0 then Some (n, [], s2)
       else map_option (\<lambda>(d, s'). (0, d, s')) (send_plain (is_write cmd) (cmd mod 0x80) arg buf bytes s2)
     }
     else map_option (\<lambda>(d, s'). (0, d, s')) (send_plain (is_write cmd) cmd arg buf bytes s1)
   }"
  by pat_completeness auto

termination send_cmd_data
  by (relation "measure (\<lambda>(cmd, _). cmd)") auto

declare send_cmd_data.simps [simp del]

definition send_cmd :: "nat \<Rightarrow> u32 \<Rightarrow> mmc \<Rightarrow> (nat \<times> mmc) option" where
  "send_cmd cmd arg s = map_option (\<lambda>(n, d, s'). (n, s')) (send_cmd_data cmd arg None 0 s)"

section \<open>Disk functions\<close>

text \<open>The results of the disk functions, and of the functions of FatFs above them.\<close>

datatype dresult = RES_OK | RES_ERROR | RES_WRPRT | RES_NOTRDY | RES_PARERR

datatype fresult = FR_OK | FR_DISK_ERR | FR_INT_ERR | FR_NOT_READY | FR_NO_FILE | FR_NO_PATH | FR_INVALID_NAME | FR_DENIED |
  FR_EXIST | FR_INVALID_OBJECT | FR_WRITE_PROTECTED | FR_INVALID_DRIVE | FR_NOT_ENABLED | FR_NO_FILESYSTEM | FR_MKFS_ABORTED |
  FR_TIMEOUT | FR_LOCKED | FR_NOT_ENOUGH_CORE | FR_TOO_MANY_OPEN_FILES | FR_INVALID_PARAMETER

definition mmc_disk_status :: "nat \<Rightarrow> mmc \<Rightarrow> (u8 \<times> mmc) option" where
  "mmc_disk_status pdrv s =
     (if pdrv \<noteq> 0 then Some (STA_NOINIT, s)
      else if Stat s AND STA_NOINIT = 0 then do {
        (n, s1) \<leftarrow> send_cmd 13 0 s;
        let st = (if n \<noteq> 0 then STA_NOINIT else Stat s);
        Some (st, s1\<lparr>Stat := st\<rparr>)
      }
      else Some (Stat s, s))"

text \<open>
  The loop that waits for the card to leave its idle state, with \<open>tmr\<close> tries left; the result is the
  value of \<open>tmr\<close> after the loop.
\<close>

fun idle_loop :: "nat \<Rightarrow> nat \<Rightarrow> u32 \<Rightarrow> mmc \<Rightarrow> (nat \<times> mmc) option" where
  "idle_loop 0 cmd arg s = Some (0, s)"
| "idle_loop (Suc tmr) cmd arg s = do {
     (n, s1) \<leftarrow> send_cmd cmd arg s;
     if n = 0 \<and> shown OCR_BUSY (resp0 s1) then Some (Suc tmr, s1) else idle_loop tmr cmd arg s1
   }"

definition HOST_OCR :: u32 where "HOST_OCR = OCR_HCS OR MMC_VDD_32_33 OR MMC_VDD_33_34"

definition ACMD41 :: nat where "ACMD41 = 0x80 + 41"
definition ACMD23 :: nat where "ACMD23 = 0x80 + 23"

text \<open>Identification of the card's type: after \<open>CMD8\<close> is accepted, and after it is rejected.\<close>

definition identify_v2 :: "mmc \<Rightarrow> (u8 \<times> mmc) option" where
  "identify_v2 s =
     (if resp0 s = 0x01AA then do {
        (tmr, s1) \<leftarrow> idle_loop 1000 ACMD41 HOST_OCR s;
        Some (if shown OCR_HCS (resp0 s1) then CT_SD2 OR CT_BLOCK else CT_SD2, s1)
      }
      else Some (0, s))"

definition identify_v1 :: "mmc \<Rightarrow> (u8 \<times> mmc) option" where
  "identify_v1 s = do {
     (n, s1) \<leftarrow> send_cmd ACMD41 0 s;
     let ty = (if n = 0 then CT_SD1 else CT_MMC);
     (tmr, s2) \<leftarrow> idle_loop 1000 (if n = 0 then ACMD41 else 1) 0 s1;
     if tmr = 0 then Some (0, s2)
     else do {
       (n2, s3) \<leftarrow> send_cmd 16 512 s2;
       Some (if n2 \<noteq> 0 then 0 else ty, s3)
     }
   }"

definition select_card :: "u8 \<Rightarrow> mmc \<Rightarrow> (u8 \<times> mmc) option" where
  "select_card ty s = do {
     (n, s1) \<leftarrow> send_cmd 2 0 s;
     if n = 0 then do {
       (n3, s2) \<leftarrow> send_cmd 3 0 s1;
       if n3 = 0 then do {
         (n7, s3) \<leftarrow> send_cmd 7 (push_bit 16 (drop_bit 16 (resp0 s2))) s2;
         Some (if n7 \<noteq> 0 then 0 else ty, s3)
       } else Some (ty, s2)
     } else Some (0, s1)
   }"

definition mmc_disk_initialize :: "nat \<Rightarrow> mmc \<Rightarrow> (u8 \<times> mmc) option" where
  "mmc_disk_initialize pdrv s =
     (if pdrv \<noteq> 0 then Some (3, s)
      else do {
        s1 \<leftarrow> init_port s;
        s2 \<leftarrow> sd_send_init s1;
        (n0, s3) \<leftarrow> send_cmd 0 0 s2;
        (ty, s4) \<leftarrow> (if n0 = 0 then do {
            (n8, s5) \<leftarrow> send_cmd 8 0x1AA s3;
            (ty, s6) \<leftarrow> (if n8 = 0 then identify_v2 s5 else identify_v1 s5);
            select_card ty s6
          } else Some (0, s3));
        let st = (if ty \<noteq> 0 then 0 else STA_NOINIT);
        Some (st, s4\<lparr>CardType := ty, Stat := st\<rparr>)
      })"

definition card_address :: "u32 \<Rightarrow> mmc \<Rightarrow> u32" where
  "card_address sector s = (if CardType s AND CT_BLOCK = 0 then sector * 512 else sector)"

definition mmc_disk_read :: "nat \<Rightarrow> u32 list \<Rightarrow> u32 \<Rightarrow> nat \<Rightarrow> mmc \<Rightarrow> (dresult \<times> u32 list \<times> mmc) option" where
  "mmc_disk_read pdrv buff sector count s = do {
     (st, s1) \<leftarrow> mmc_disk_status pdrv s;
     if st AND STA_NOINIT \<noteq> 0 then Some (RES_NOTRDY, buff, s1)
     else if count = 0 then Some (RES_PARERR, buff, s1)
     else do {
       (n, d, s2) \<leftarrow> (if count = 1 then send_cmd_data 17 (card_address sector s1) (Some buff) 512 s1
                      else send_cmd_data 18 (card_address sector s1) (Some buff) (count * 512) s1);
       Some (if n = 0 then RES_OK else RES_ERROR, d, s2)
     }
   }"

definition mmc_disk_write :: "nat \<Rightarrow> u32 list \<Rightarrow> u32 \<Rightarrow> nat \<Rightarrow> mmc \<Rightarrow> (dresult \<times> mmc) option" where
  "mmc_disk_write pdrv buff sector count s = do {
     (st, s1) \<leftarrow> mmc_disk_status pdrv s;
     if st AND STA_NOINIT \<noteq> 0 then Some (RES_NOTRDY, s1)
     else if count = 0 then Some (RES_PARERR, s1)
     else do {
       (n, d, s2) \<leftarrow> (if count = 1 then send_cmd_data 24 (card_address sector s1) (Some buff) 512 s1
                      else do {
                        s3 \<leftarrow> (if CardType s1 AND CT_SDC \<noteq> 0 then map_option snd (send_cmd ACMD23 (of_nat count) s1) else Some s1);
                        send_cmd_data 25 (card_address sector s3) (Some buff) (count * 512) s3
                      });
       Some (if n = 0 then RES_OK else RES_ERROR, s2)
     }
   }"

text \<open>The number of sectors computed from the card-specific data.\<close>

definition csd_sectors :: "u8 list \<Rightarrow> u32" where
  "csd_sectors b =
     (if drop_bit 6 (b ! 0) = 1
      then push_bit 10 (ucast (b ! 9) + push_bit 8 (ucast (b ! 8)) + push_bit 8 (ucast (b ! 7 AND 63)) + 1)
      else
        let n = unat (b ! 5 AND 15) + unat (drop_bit 7 (b ! 10 AND 128)) + 2 * unat (b ! 9 AND 3) + 2;
            cs = ucast (drop_bit 6 (b ! 8)) + push_bit 2 (ucast (b ! 7)) + push_bit 10 (ucast (b ! 6 AND 3)) + 1
        in push_bit (n - 9) cs)"

definition bytes_of_words :: "u32 list \<Rightarrow> u8 list" where
  "bytes_of_words ws = concat (map (\<lambda>w. [byte_of w 0, byte_of w 1, byte_of w 2, byte_of w 3]) ws)"

text \<open>\<open>buff\<close> is the double word the caller provides.\<close>

definition mmc_disk_ioctl :: "nat \<Rightarrow> nat \<Rightarrow> u32 \<Rightarrow> mmc \<Rightarrow> (dresult \<times> u32 \<times> mmc) option" where
  "mmc_disk_ioctl pdrv cmd buff s = do {
     (st, s1) \<leftarrow> mmc_disk_status pdrv s;
     if st AND STA_NOINIT \<noteq> 0 then Some (RES_NOTRDY, buff, s1)
     else if cmd = 0 then Some (RES_OK, buff, s1)
     else if cmd = 1 then do {
       (n, d, s2) \<leftarrow> send_cmd_data 9 0 (Some [0, 0, 0, 0]) 16 s1;
       if n = 0 then Some (RES_OK, csd_sectors (bytes_of_words d), s2) else Some (RES_ERROR, buff, s2)
     }
     else if cmd = 3 then Some (RES_OK, 128, s1)
     else Some (RES_PARERR, buff, s1)
   }"

end
