(* ===== verification/Mmc_Storage.thy ===== *)
theory Mmc_Storage
  imports Mmc
begin

text \<open>
  What the SD card driver promises: on a controller whose flags do not stay busy forever every
  operation returns, initialisation finds the card's addressing, and sectors that are written read
  back. The locale \<open>block_device\<close> is the contract of a disk the file system is mounted on.
\<close>

section \<open>Busy loops end\<close>

definition mmc_live :: "mmc \<Rightarrow> bool" where
  "mmc_live s \<longleftrightarrow>
     (\<forall>m \<in> {BUSY_BITS, SUNXI_MMC_STATUS_FIFO_EMPTY, SUNXI_MMC_STATUS_FIFO_FULL}. \<forall>t. \<exists>k \<ge> t. clear m (sd_status s k)) \<and>
     (\<forall>m \<in> {SUNXI_MMC_RINT_COMMAND_DONE, SUNXI_MMC_RINT_DATA_OVER, SUNXI_MMC_RINT_AUTO_COMMAND_DONE}. \<forall>t. \<exists>k \<ge> t. shown m (sd_rintsts s k)) \<and>
     (\<forall>t. \<exists>k \<ge> t. clear 0x80000000 (sd_cmd s k))"

text \<open>What no command changes.\<close>

definition keeps :: "mmc \<Rightarrow> mmc \<Rightarrow> bool" where
  "keeps s s' \<longleftrightarrow> sd_status s' = sd_status s \<and> sd_rintsts s' = sd_rintsts s \<and> sd_cmd s' = sd_cmd s \<and>
     Stat s' = Stat s \<and> CardType s' = CardType s"

lemma keeps_refl [simp]: "keeps s s"
  and keeps_trans: "keeps s s1 \<Longrightarrow> keeps s1 s2 \<Longrightarrow> keeps s s2"
  and keeps_live: "keeps s s' \<Longrightarrow> mmc_live s' = mmc_live s"
  by (simp_all add: keeps_def mmc_live_def)

lemma keeps_updates [simp]:
  "keeps s (s'\<lparr>clock := t\<rparr>) = keeps s s'" "keeps s (s'\<lparr>card := c\<rparr>) = keeps s s'" "keeps s (s'\<lparr>resp0 := r\<rparr>) = keeps s s'"
  "keeps s (s'\<lparr>mregs := m\<rparr>) = keeps s s'" "keeps s (store a v s') = keeps s s'" "keeps s (store_cmd v s') = keeps s s'"
  by (simp_all add: keeps_def store_def store_cmd_def split: prod.splits)

lemma card_store [simp]: "card (store a v s) = card s"
  by (simp add: store_def)

lemma keeps_from [simp]:
  "keeps (s\<lparr>mregs := m\<rparr>) s' = keeps s s'" "keeps (s\<lparr>clock := t\<rparr>) s' = keeps s s'"
  by (simp_all add: keeps_def)

lemma live_updates [simp]:
  "mmc_live (s\<lparr>clock := t\<rparr>) = mmc_live s" "mmc_live (s\<lparr>card := c\<rparr>) = mmc_live s" "mmc_live (s\<lparr>mregs := m\<rparr>) = mmc_live s"
  "mmc_live (store a v s) = mmc_live s" "mmc_live (store_cmd v s) = mmc_live s"
  by (rule keeps_live, simp)+

lemma wait_for_live:
  assumes "\<forall>t. \<exists>k \<ge> t. p (reg s k)"
  obtains t where "wait_for reg p s = Some (s\<lparr>clock := t\<rparr>)"
  using assms poll_returns_iff [of "reg s" p "clock s"] by (auto simp: wait_for_def)

lemma wait_status:
  assumes "mmc_live s" and "m \<in> {BUSY_BITS, SUNXI_MMC_STATUS_FIFO_EMPTY, SUNXI_MMC_STATUS_FIFO_FULL}"
  shows "\<exists>t. wait_for sd_status (clear m) s = Some (s\<lparr>clock := t\<rparr>)"
proof -
  from assms have "\<forall>t. \<exists>k \<ge> t. clear m (sd_status s k)" unfolding mmc_live_def by blast
  from wait_for_live [of "clear m" sd_status s, OF this] show ?thesis by blast
qed

lemma wait_rint:
  assumes "mmc_live s" and "m \<in> {SUNXI_MMC_RINT_COMMAND_DONE, SUNXI_MMC_RINT_DATA_OVER, SUNXI_MMC_RINT_AUTO_COMMAND_DONE}"
  shows "\<exists>t. wait_for sd_rintsts (shown m) s = Some (s\<lparr>clock := t\<rparr>)"
proof -
  from assms have "\<forall>t. \<exists>k \<ge> t. shown m (sd_rintsts s k)" unfolding mmc_live_def by blast
  from wait_for_live [of "shown m" sd_rintsts s, OF this] show ?thesis by blast
qed

lemma wait_cmd:
  assumes "mmc_live s"
  shows "\<exists>t. wait_for sd_cmd (clear 0x80000000) s = Some (s\<lparr>clock := t\<rparr>)"
proof -
  from assms have "\<forall>t. \<exists>k \<ge> t. clear 0x80000000 (sd_cmd s k)" unfolding mmc_live_def by blast
  from wait_for_live [of "clear 0x80000000" sd_cmd s, OF this] show ?thesis by blast
qed

section \<open>Data transfers\<close>

lemma read_fifo_ok:
  "mmc_live s \<Longrightarrow> n \<le> length (out (card s)) \<Longrightarrow>
     \<exists>t. read_fifo n s = Some (take n (out (card s)), s\<lparr>card := (card s)\<lparr>out := drop n (out (card s))\<rparr>, clock := t\<rparr>)"
proof (induction n arbitrary: s)
  case 0
  then show ?case by (auto intro!: exI [of _ "clock s"])
next
  case (Suc n)
  then obtain w ws where o: "out (card s) = w # ws" "n \<le> length ws" by (cases "out (card s)") auto
  obtain t where t: "wait_for sd_status (clear SUNXI_MMC_STATUS_FIFO_EMPTY) s = Some (s\<lparr>clock := t\<rparr>)"
    using wait_status [OF Suc.prems(1)] by blast
  let ?s = "s\<lparr>clock := t, card := (card s)\<lparr>out := ws\<rparr>\<rparr>"
  obtain t' where "read_fifo n ?s = Some (take n ws, ?s\<lparr>card := (card ?s)\<lparr>out := drop n ws\<rparr>, clock := t'\<rparr>)"
    using Suc.IH [of ?s] Suc.prems(1) o(2) by auto
  then show ?case using t o(1) by (auto simp: fifo_pop_def)
qed

definition write_words :: "(nat \<Rightarrow> u32) \<Rightarrow> nat \<Rightarrow> u32 list \<Rightarrow> nat \<Rightarrow> u32" where
  "write_words d a ws x = (if a \<le> x \<and> x < a + length ws then ws ! (x - a) else d x)"

lemma write_words_Nil: "write_words d a [] = d"
  by (auto simp: write_words_def fun_eq_iff)

lemma write_words_Cons: "write_words (d(a := w)) (Suc a) ws = write_words d a (w # ws)"
  by (auto simp: write_words_def fun_eq_iff nth_Cons' Suc_diff_le split: nat.splits)

lemma write_fifo_ok:
  "mmc_live s \<Longrightarrow> left (card s) = length ws \<Longrightarrow>
     \<exists>t. write_fifo ws s = Some (s\<lparr>card := (card s)\<lparr>disk := write_words (disk (card s)) (cursor (card s)) ws,
       cursor := cursor (card s) + length ws, left := 0\<rparr>, clock := t\<rparr>)"
proof (induction ws arbitrary: s)
  case Nil
  then show ?case by (auto simp: write_words_Nil intro!: exI [of _ "clock s"])
next
  case (Cons w ws)
  obtain t where t: "wait_for sd_status (clear SUNXI_MMC_STATUS_FIFO_FULL) s = Some (s\<lparr>clock := t\<rparr>)"
    using wait_status [OF Cons.prems(1)] by blast
  let ?c = "(card s)\<lparr>disk := (disk (card s))(cursor (card s) := w), cursor := Suc (cursor (card s)), left := length ws\<rparr>"
  let ?s = "s\<lparr>clock := t, card := ?c\<rparr>"
  have push: "fifo_push w (card s) = ?c" using Cons.prems(2) by (simp add: fifo_push_def)
  obtain t' where IH: "write_fifo ws ?s = Some (?s\<lparr>card := (card ?s)\<lparr>disk := write_words (disk (card ?s)) (cursor (card ?s)) ws,
       cursor := cursor (card ?s) + length ws, left := 0\<rparr>, clock := t'\<rparr>)"
    using Cons.IH [of ?s] Cons.prems(1) by (auto simp del: fun_upd_apply)
  have "write_fifo (w # ws) s = write_fifo ws ?s" using t push by (simp del: fun_upd_apply)
  then show ?case using IH by (auto simp del: fun_upd_apply simp: write_words_Cons)
qed

section \<open>Commands\<close>

lemma card_exec_no_data: "\<not> bit v 9 \<Longrightarrow> card_exec v arg b c = card_exec v arg 0 c"
  by (simp add: card_exec_def)

lemma cmd_word_no_data: "cmd_word wr cmd False bytes = 0x80000140 OR of_nat cmd"
  by (simp add: cmd_word_def)

text \<open>The answer of the card to a command without data and its state after it.\<close>

definition answer :: "nat \<Rightarrow> u32 \<Rightarrow> card \<Rightarrow> u32 \<times> card" where
  "answer cmd arg c = card_exec (0x80000140 OR of_nat cmd) arg 0 c"

lemma no_data_bit: "cmd < 0x80 \<Longrightarrow> \<not> bit (0x80000140 OR of_nat cmd :: u32) 9"
  by (simp add: bit_or_iff bit_of_nat_iff bit_iff_odd [of cmd])

lemma send_plain_none:
  assumes "mmc_live s" and "cmd < 0x80"
  shows "\<exists>s'. send_plain wr cmd arg None bytes s = Some ([], s') \<and> keeps s s' \<and> (resp0 s', card s') = answer cmd arg (card s)"
proof -
  let ?s = "store_cmd (0x80000140 OR of_nat cmd) (store (SUNXI_SD_CMDARG 0) arg s)"
  obtain t where t: "wait_for sd_rintsts (shown SUNXI_MMC_RINT_COMMAND_DONE) ?s = Some (?s\<lparr>clock := t\<rparr>)"
    using wait_rint [of ?s SUNXI_MMC_RINT_COMMAND_DONE] assms(1) by auto
  have "(resp0 ?s, card ?s) = answer cmd arg (card s)"
    using card_exec_no_data [OF no_data_bit [OF assms(2)], of arg "mregs s (SUNXI_SD_BYTCNT 0)" "card s"]
    by (simp add: answer_def store_cmd_def store_def SUNXI_SD_CMDARG_def SUNXI_SD_BYTCNT_def split: prod.splits)
  then show ?thesis using t by (simp add: send_plain_def cmd_word_no_data store_def)
qed

lemma send_cmd_ok:
  assumes "mmc_live s" and "cmd < 0x80" and "cmd \<noteq> 12"
  shows "\<exists>s'. send_cmd cmd arg s = Some (0, s') \<and> keeps s s' \<and> (resp0 s', card s') = answer cmd arg (card s)"
proof -
  obtain t where t: "wait_for sd_status (clear BUSY_BITS) s = Some (s\<lparr>clock := t\<rparr>)"
    using wait_status [OF assms(1)] by blast
  show ?thesis using send_plain_none [of "s\<lparr>clock := t\<rparr>" cmd "is_write cmd" arg 0] assms t
    by (auto simp: send_cmd_def send_cmd_data.simps [of cmd] keeps_def)
qed

lemma send_acmd_ok:
  assumes "mmc_live s" and "cmd < 0x80"
  shows "\<exists>s'. send_cmd (0x80 + cmd) arg s = Some (0, s') \<and> keeps s s' \<and>
     (resp0 s', card s') = answer cmd arg (snd (answer 55 0 (card s)))"
proof -
  obtain t where t: "wait_for sd_status (clear BUSY_BITS) s = Some (s\<lparr>clock := t\<rparr>)"
    using wait_status [OF assms(1)] by blast
  let ?s = "s\<lparr>clock := t\<rparr>"
  obtain s1 where s1: "send_cmd 55 0 ?s = Some (0, s1)" "keeps ?s s1" "(resp0 s1, card s1) = answer 55 0 (card s)"
    using send_cmd_ok [of ?s 55 0] assms(1) by auto
  then obtain d where d: "send_cmd_data 55 0 None 0 ?s = Some (0, d, s1)" by (auto simp: send_cmd_def)
  have live: "mmc_live s1" using keeps_live [OF s1(2)] assms(1) by simp
  have c1: "card s1 = snd (answer 55 0 (card s))" using s1(3) by (metis snd_conv)
  obtain s2 where "send_plain (is_write (0x80 + cmd)) cmd arg None 0 s1 = Some ([], s2)" "keeps s1 s2"
    "(resp0 s2, card s2) = answer cmd arg (card s1)"
    using send_plain_none [OF live assms(2)] by blast
  moreover have "keeps s s1" using s1(2) by (simp add: keeps_def)
  ultimately show ?thesis
    using t d c1 assms(2) keeps_trans by (auto simp: send_cmd_def send_cmd_data.simps [of "0x80 + cmd"])
qed

text \<open>The answers to the commands of the driver.\<close>

lemma answer_8: "\<not> hung c \<Longrightarrow> answer 8 0x1AA c = (if version2 c then 0x1AA else 0, c\<lparr>app_cmd := False\<rparr>)"
  by (simp add: answer_def card_exec_def)

lemma answer_55: "\<not> hung c \<Longrightarrow> answer 55 arg c = (0x120, c\<lparr>app_cmd := True\<rparr>)"
  by (simp add: answer_def card_exec_def)

lemma answer_41:
  "\<not> hung c \<Longrightarrow> app_cmd c \<Longrightarrow> answer 41 arg c =
     (if not_ready c = 0 then (0x80300000 OR (if high_capacity c then arg AND 0x40000000 else 0), c\<lparr>app_cmd := False\<rparr>)
      else (0x00300000, c\<lparr>app_cmd := False, not_ready := not_ready c - 1\<rparr>))"
  by (simp add: answer_def card_exec_def)

lemma answer_3: "\<not> hung c \<Longrightarrow> answer 3 arg c = (push_bit 16 (rca c), c\<lparr>app_cmd := False\<rparr>)"
  by (simp add: answer_def card_exec_def)

lemma answer_others:
  assumes "\<not> hung c"
  shows "answer 0 arg c = (0x900, c\<lparr>app_cmd := False\<rparr>)" "answer 2 arg c = (0x900, c\<lparr>app_cmd := False\<rparr>)"
    "answer 7 arg c = (0x900, c\<lparr>app_cmd := False\<rparr>)" "answer 13 arg c = (0x900, c\<lparr>app_cmd := False\<rparr>)"
    "answer 23 arg c = (0x900, c\<lparr>app_cmd := False\<rparr>)"
  using assms by (simp_all add: answer_def card_exec_def)

lemmas answers = answer_8 answer_55 answer_41 answer_3 answer_others

section \<open>Initialisation\<close>

lemma sd_change_clock_ok:
  assumes "mmc_live s"
  shows "\<exists>s'. sd_change_clock d s = Some s' \<and> keeps s s' \<and> card s' = card s"
proof -
  let ?s = "store (SUNXI_SD_CLKDIV 0) 0 s"
  obtain t where t: "wait_for sd_cmd (clear 0x80000000) ?s = Some (?s\<lparr>clock := t\<rparr>)"
    using wait_cmd [of ?s] assms by auto
  let ?r = "store (SUNXI_SD_CLKDIV 0) (0x10000 OR d) (store SDMMC0_CLK (BIT 31) (?s\<lparr>clock := t\<rparr>))"
  obtain t' where "wait_for sd_cmd (clear 0x80000000) ?r = Some (?r\<lparr>clock := t'\<rparr>)"
    using wait_cmd [of ?r] assms by auto
  then show ?thesis using t by (simp add: sd_change_clock_def)
qed

lemma init_port_ok:
  assumes "mmc_live s"
  shows "\<exists>s'. init_port s = Some s' \<and> keeps s s' \<and> card s' = card s"
  unfolding init_port_def Let_def
  using sd_change_clock_ok [of "store SDMMC0_CLK v1 (store (SUNXI_SD_CTYPE 0) v2 (store (SUNXI_SD_CTRL 0) v3 (s\<lparr>mregs := m\<rparr>)))" 0 for v1 v2 v3 m] assms
  by (simp add: store_def)

lemma sd_send_init_ok:
  assumes "mmc_live s" and "\<not> hung (card s)"
  shows "\<exists>s'. sd_send_init s = Some s' \<and> keeps s s' \<and> card s' = (card s)\<lparr>app_cmd := False\<rparr>"
proof -
  let ?s = "store_cmd 0x80008000 (store (SUNXI_SD_CMDARG 0) 0 (store (SUNXI_SD_CTYPE 0) 0 s))"
  obtain t where t: "wait_for sd_rintsts (shown SUNXI_MMC_RINT_COMMAND_DONE) ?s = Some (?s\<lparr>clock := t\<rparr>)"
    using wait_rint [of ?s SUNXI_MMC_RINT_COMMAND_DONE] assms(1) by auto
  have "card ?s = (card s)\<lparr>app_cmd := False\<rparr>"
    using assms(2) by (simp add: store_cmd_def store_def card_exec_def)
  with t show ?thesis by (simp add: sd_send_init_def)
qed

text \<open>The loop returns with the card's answer when the card gets ready in time, and with \<open>tmr = 0\<close> otherwise.\<close>

lemma ACMD41_ok:
  assumes "mmc_live s" and "\<not> hung (card s)"
  shows "\<exists>s'. send_cmd ACMD41 HOST_OCR s = Some (0, s') \<and> keeps s s' \<and>
     card s' = (card s)\<lparr>not_ready := not_ready (card s) - 1, app_cmd := False\<rparr> \<and>
     resp0 s' = (if 0 < not_ready (card s) then 0x00300000 else if high_capacity (card s) then 0xC0300000 else 0x80300000)"
  using send_acmd_ok [OF assms(1), of 41 HOST_OCR] assms(2)
  by (auto simp: ACMD41_def answers HOST_OCR_def OCR_HCS_def MMC_VDD_32_33_def MMC_VDD_33_34_def
      split: if_splits)

lemma idle_loop_ok:
  "mmc_live s \<Longrightarrow> \<not> hung (card s) \<Longrightarrow> 0 < tmr \<Longrightarrow>
     \<exists>n s'. idle_loop tmr ACMD41 HOST_OCR s = Some (n, s') \<and> keeps s s' \<and>
       card s' = (card s)\<lparr>not_ready := not_ready (card s) - tmr, app_cmd := False\<rparr> \<and>
       resp0 s' = (if tmr \<le> not_ready (card s) then 0x00300000 else if high_capacity (card s) then 0xC0300000 else 0x80300000)"
proof (induction tmr arbitrary: s)
  case 0
  then show ?case by simp
next
  case (Suc tmr)
  obtain s1 where s1: "send_cmd ACMD41 HOST_OCR s = Some (0, s1)" "keeps s s1"
    "card s1 = (card s)\<lparr>not_ready := not_ready (card s) - 1, app_cmd := False\<rparr>"
    "resp0 s1 = (if 0 < not_ready (card s) then 0x00300000 else if high_capacity (card s) then 0xC0300000 else 0x80300000)"
    using ACMD41_ok [OF Suc.prems(1,2)] by blast
  have live: "mmc_live s1" using keeps_live [OF s1(2)] Suc.prems(1) by simp
  consider "not_ready (card s) = 0" | "0 < not_ready (card s)" "tmr = 0" | "0 < not_ready (card s)" "0 < tmr" by auto
  then show ?case
  proof cases
    case 3
    obtain n s' where "idle_loop tmr ACMD41 HOST_OCR s1 = Some (n, s')" "keeps s1 s'"
      "card s' = (card s1)\<lparr>not_ready := not_ready (card s1) - tmr, app_cmd := False\<rparr>"
      "resp0 s' = (if tmr \<le> not_ready (card s1) then 0x00300000 else if high_capacity (card s1) then 0xC0300000 else 0x80300000)"
      using Suc.IH [OF live] s1(3) Suc.prems(2) 3(2) by auto
    moreover have "keeps s s'" using keeps_trans s1(2) \<open>keeps s1 s'\<close> by blast
    moreover have "(Suc tmr \<le> not_ready (card s)) = (tmr \<le> not_ready (card s1))" using 3(1) s1(3) by auto
    ultimately show ?thesis using s1(1,3,4) 3(1) by (auto simp: shown_def OCR_BUSY_def)
  qed (use s1 in \<open>auto simp: shown_def OCR_BUSY_def\<close>)
qed

definition found_type :: "card \<Rightarrow> u8" where
  "found_type c = (if not_ready c < 1000 \<and> high_capacity c then CT_SD2 OR CT_BLOCK else CT_SD2)"

lemma identify_v2_ok:
  assumes "mmc_live s" and "\<not> hung (card s)" and "resp0 s = 0x1AA"
  shows "\<exists>s'. identify_v2 s = Some (found_type (card s), s') \<and> keeps s s' \<and>
     card s' = (card s)\<lparr>not_ready := not_ready (card s) - 1000, app_cmd := False\<rparr>"
  using idle_loop_ok [OF assms(1,2), of 1000] assms(3)
  by (auto simp: identify_v2_def shown_def OCR_HCS_def found_type_def split: if_splits)

lemma select_card_ok:
  assumes "mmc_live s" and "\<not> hung (card s)"
  shows "\<exists>s'. select_card ty s = Some (ty, s') \<and> keeps s s' \<and> card s' = (card s)\<lparr>app_cmd := False\<rparr>"
proof -
  obtain s2 where s2: "send_cmd 2 0 s = Some (0, s2)" "keeps s s2" "card s2 = (card s)\<lparr>app_cmd := False\<rparr>"
    using send_cmd_ok [OF assms(1), of 2 0] assms(2) by (auto simp: answers)
  obtain s3 where s3: "send_cmd 3 0 s2 = Some (0, s3)" "keeps s2 s3" "card s3 = (card s)\<lparr>app_cmd := False\<rparr>"
    using send_cmd_ok [of s2 3 0] keeps_live [OF s2(2)] s2(3) assms by (auto simp: answers)
  obtain s7 where "send_cmd 7 (push_bit 16 (drop_bit 16 (resp0 s3))) s3 = Some (0, s7)" "keeps s3 s7" "card s7 = (card s)\<lparr>app_cmd := False\<rparr>"
    using send_cmd_ok [of s3 7 "push_bit 16 (drop_bit 16 (resp0 s3))"] keeps_live [OF s2(2)] keeps_live [OF s3(2)] s3(3) assms by (auto simp: answers)
  with s2 s3 show ?thesis unfolding select_card_def by (auto intro: keeps_trans)
qed

text \<open>Initialisation of a version 2 card that is not left in a data transfer.\<close>

lemma initialize_ok:
  assumes "mmc_live s" and "\<not> hung (card s)" and "version2 (card s)"
  shows "\<exists>s'. mmc_disk_initialize 0 s = Some (0, s') \<and> mmc_live s' \<and> Stat s' = 0 \<and> CardType s' = found_type (card s) \<and>
     card s' = (card s)\<lparr>not_ready := not_ready (card s) - 1000, app_cmd := False\<rparr>"
proof -
  obtain s1 where s1: "init_port s = Some s1" "keeps s s1" "card s1 = card s" using init_port_ok [OF assms(1)] by blast
  obtain s2 where s2: "sd_send_init s1 = Some s2" "keeps s1 s2" "card s2 = (card s)\<lparr>app_cmd := False\<rparr>"
    using sd_send_init_ok [of s1] keeps_live [OF s1(2)] s1(3) assms by auto
  obtain s3 where s3: "send_cmd 0 0 s2 = Some (0, s3)" "keeps s2 s3" "card s3 = (card s)\<lparr>app_cmd := False\<rparr>"
    using send_cmd_ok [of s2 0 0] keeps_live [OF s1(2)] keeps_live [OF s2(2)] s2(3) assms by (auto simp: answers)
  have l3: "mmc_live s3" using keeps_live [OF s1(2)] keeps_live [OF s2(2)] keeps_live [OF s3(2)] assms by simp
  obtain s5 where s5: "send_cmd 8 0x1AA s3 = Some (0, s5)" "keeps s3 s5" "card s5 = (card s)\<lparr>app_cmd := False\<rparr>" "resp0 s5 = 0x1AA"
    using send_cmd_ok [of s3 8 "0x1AA"] l3 s3(3) assms by (auto simp: answers)
  obtain s6 where s6: "identify_v2 s5 = Some (found_type (card s), s6)" "keeps s5 s6"
    "card s6 = (card s)\<lparr>not_ready := not_ready (card s) - 1000, app_cmd := False\<rparr>"
    using identify_v2_ok [of s5] keeps_live [OF s5(2)] l3 s5(3,4) assms by (auto simp: found_type_def)
  obtain s7 where s7: "select_card (found_type (card s)) s6 = Some (found_type (card s), s7)" "keeps s6 s7"
    "card s7 = (card s)\<lparr>not_ready := not_ready (card s) - 1000, app_cmd := False\<rparr>"
    using select_card_ok [of s6 "found_type (card s)"] keeps_live [OF s5(2)] keeps_live [OF s6(2)] l3 s6(3) assms by auto
  have "mmc_live s7" using keeps_live [OF s5(2)] keeps_live [OF s6(2)] keeps_live [OF s7(2)] l3 by simp
  then have "mmc_live (s7\<lparr>CardType := a, Stat := b\<rparr>)" for a b by (simp add: mmc_live_def)
  moreover have "found_type (card s) \<noteq> 0" by (simp add: found_type_def CT_SD2_def CT_BLOCK_def)
  ultimately show ?thesis using s1(1) s2(1) s3(1) s5(1) s6(1) s7(1,3)
    by (simp add: mmc_disk_initialize_def)
qed

section \<open>Sectors\<close>

lemmas cmd_bits = SUNXI_MMC_CMD_WRITE_def SUNXI_MMC_CMD_AUTO_STOP_def SUNXI_MMC_CMD_DATA_EXPIRE_def
  SUNXI_MMC_CMD_WAIT_PRE_OVER_def BIT_def

lemma exec_read:
  assumes "\<not> hung c" and "0 < count" and "count < 2 ^ 22"
  shows "card_exec (cmd_word False (if count = 1 then 17 else 18) True (count * 512)) arg (of_nat (count * 512)) c =
     (0x900, c\<lparr>app_cmd := False, out := map (disk c) [start_word c arg..<start_word c arg + count * 128], hung := False\<rparr>)"
proof -
  have u: "unat (of_nat (count * 512) :: u32) = count * 512" by (rule unat_of_nat_small) (use assms(3) in simp)
  have w: "cmd_word False (if count = 1 then 17 else 18) True (count * 512) = (if count = 1 then 0x80002351 else 0x80003352)"
    using assms(2) by (auto simp: cmd_word_def cmd_bits)
  show ?thesis unfolding w card_exec_def u using assms(1) by (simp add: u mult.commute [of 128])
qed

lemma exec_write:
  assumes "\<not> hung c" and "0 < count" and "count < 2 ^ 22"
  shows "card_exec (cmd_word True (if count = 1 then 24 else 25) True (count * 512)) arg (of_nat (count * 512)) c =
     (0x900, c\<lparr>app_cmd := False, cursor := start_word c arg, left := count * 128, hung := False\<rparr>)"
proof -
  have u: "unat (of_nat (count * 512) :: u32) = count * 512" by (rule unat_of_nat_small) (use assms(3) in simp)
  have w: "cmd_word True (if count = 1 then 24 else 25) True (count * 512) = (if count = 1 then 0x80002758 else 0x80003759)"
    using assms(2) by (auto simp: cmd_word_def cmd_bits)
  show ?thesis unfolding w card_exec_def u using assms(1) by (simp add: u mult.commute [of 128])
qed

text \<open>The waits after the data of a command.\<close>

lemma data_waits:
  assumes "mmc_live s"
  shows "\<exists>t. Option.bind (wait_for sd_rintsts (shown SUNXI_MMC_RINT_COMMAND_DONE) s)
     (wait_for sd_rintsts (shown (if b then SUNXI_MMC_RINT_AUTO_COMMAND_DONE else SUNXI_MMC_RINT_DATA_OVER))) = Some (s\<lparr>clock := t\<rparr>)"
proof -
  obtain t where t: "wait_for sd_rintsts (shown SUNXI_MMC_RINT_COMMAND_DONE) s = Some (s\<lparr>clock := t\<rparr>)"
    using wait_rint [OF assms] by blast
  show ?thesis
    using wait_rint [of "s\<lparr>clock := t\<rparr>" "if b then SUNXI_MMC_RINT_AUTO_COMMAND_DONE else SUNXI_MMC_RINT_DATA_OVER"] assms t
    by auto
qed

text \<open>The state in which a data command has been given to the card.\<close>

definition issued :: "bool \<Rightarrow> nat \<Rightarrow> u32 \<Rightarrow> nat \<Rightarrow> mmc \<Rightarrow> mmc" where
  "issued wr cmd arg bytes s = store_cmd (cmd_word wr cmd True bytes) (store (SUNXI_SD_CMDARG 0) arg
     (store (SUNXI_SD_BYTCNT 0) (of_nat bytes) (store (SUNXI_SD_BLKSIZ 0) (of_nat (if bytes < 512 then bytes else 512)) s)))"

lemma issued_card:
  "card (issued wr cmd arg bytes s) = snd (card_exec (cmd_word wr cmd True bytes) arg (of_nat bytes) (card s))"
  by (simp add: issued_def store_cmd_def store_def SUNXI_SD_CMDARG_def SUNXI_SD_BYTCNT_def split: prod.splits)

lemma issued_keeps [simp]: "keeps s (issued wr cmd arg bytes s)" "mmc_live (issued wr cmd arg bytes s) = mmc_live s"
  by (simp_all add: issued_def)

lemma send_plain_read:
  assumes live: "mmc_live s" and n: "bytes div 4 \<le> length (out (card (issued False cmd arg bytes s)))"
  defines "c \<equiv> card (issued False cmd arg bytes s)"
  shows "\<exists>s'. send_plain False cmd arg (Some buf) bytes s = Some (take (bytes div 4) (out c) @ drop (bytes div 4) buf, s') \<and>
     keeps s s' \<and> card s' = c\<lparr>out := drop (bytes div 4) (out c)\<rparr>"
proof -
  let ?s = "issued False cmd arg bytes s"
  obtain t where r: "read_fifo (bytes div 4) ?s = Some (take (bytes div 4) (out c),
      ?s\<lparr>card := c\<lparr>out := drop (bytes div 4) (out c)\<rparr>, clock := t\<rparr>)"
    using read_fifo_ok [of ?s "bytes div 4"] live n unfolding c_def by auto
  let ?r = "?s\<lparr>card := c\<lparr>out := drop (bytes div 4) (out c)\<rparr>, clock := t\<rparr>"
  obtain t' where "Option.bind (wait_for sd_rintsts (shown SUNXI_MMC_RINT_COMMAND_DONE) ?r)
     (wait_for sd_rintsts (shown (if 512 < bytes then SUNXI_MMC_RINT_AUTO_COMMAND_DONE else SUNXI_MMC_RINT_DATA_OVER))) = Some (?r\<lparr>clock := t'\<rparr>)"
    using data_waits [of ?r "512 < bytes"] live by auto
  with r show ?thesis
    by (auto simp: send_plain_def issued_def [symmetric] Option.bind_eq_Some_conv)
qed

lemma send_plain_write:
  assumes live: "mmc_live s" and n: "left (card (issued True cmd arg bytes s)) = length buf" and b: "bytes div 4 = length buf"
  defines "c \<equiv> card (issued True cmd arg bytes s)"
  shows "\<exists>s'. send_plain True cmd arg (Some buf) bytes s = Some (buf, s') \<and> keeps s s' \<and>
     card s' = c\<lparr>disk := write_words (disk c) (cursor c) buf, cursor := cursor c + length buf, left := 0\<rparr>"
proof -
  let ?s = "issued True cmd arg bytes s"
  let ?c = "c\<lparr>disk := write_words (disk c) (cursor c) buf, cursor := cursor c + length buf, left := 0\<rparr>"
  obtain t where r: "write_fifo buf ?s = Some (?s\<lparr>card := ?c, clock := t\<rparr>)"
    using write_fifo_ok [of ?s buf] live n unfolding c_def by auto
  let ?r = "?s\<lparr>card := ?c, clock := t\<rparr>"
  obtain t' where "Option.bind (wait_for sd_rintsts (shown SUNXI_MMC_RINT_COMMAND_DONE) ?r)
     (wait_for sd_rintsts (shown (if 512 < bytes then SUNXI_MMC_RINT_AUTO_COMMAND_DONE else SUNXI_MMC_RINT_DATA_OVER))) = Some (?r\<lparr>clock := t'\<rparr>)"
    using data_waits [of ?r "512 < bytes"] live by auto
  with r b show ?thesis
    by (auto simp: send_plain_def issued_def [symmetric] Option.bind_eq_Some_conv)
qed

lemma read_command:
  assumes "mmc_live s" and "\<not> hung (card s)" and "0 < count" and "count < 2 ^ 22" and "length buf = count * 128"
  shows "\<exists>s'. send_cmd_data (if count = 1 then 17 else 18) arg (Some buf) (count * 512) s =
       Some (0, map (disk (card s)) [start_word (card s) arg..<start_word (card s) arg + count * 128], s') \<and>
     keeps s s' \<and> card s' = (card s)\<lparr>app_cmd := False, out := [], hung := False\<rparr>"
proof -
  obtain t where t: "wait_for sd_status (clear BUSY_BITS) s = Some (s\<lparr>clock := t\<rparr>)"
    using wait_status [OF assms(1)] by blast
  let ?cmd = "if count = 1 then 17 else 18"
  have c: "card (issued False ?cmd arg (count * 512) (s\<lparr>clock := t\<rparr>)) =
     (card s)\<lparr>app_cmd := False, out := map (disk (card s)) [start_word (card s) arg..<start_word (card s) arg + count * 128], hung := False\<rparr>"
    using exec_read [of "card s" count arg] assms by (simp add: issued_card del: of_nat_mult)
  obtain s' where "send_plain False ?cmd arg (Some buf) (count * 512) (s\<lparr>clock := t\<rparr>) =
       Some (map (disk (card s)) [start_word (card s) arg..<start_word (card s) arg + count * 128], s')"
     "keeps s s'" "card s' = (card s)\<lparr>app_cmd := False, out := [], hung := False\<rparr>"
    using send_plain_read [of "s\<lparr>clock := t\<rparr>" "count * 512" ?cmd arg buf] assms unfolding c by auto
  then show ?thesis using t by (auto simp: send_cmd_data.simps [of 17] send_cmd_data.simps [of 18] is_write_def)
qed

lemma write_command:
  assumes "mmc_live s" and "\<not> hung (card s)" and "0 < count" and "count < 2 ^ 22" and "length buf = count * 128"
  shows "\<exists>s'. send_cmd_data (if count = 1 then 24 else 25) arg (Some buf) (count * 512) s = Some (0, buf, s') \<and> keeps s s' \<and>
     card s' = (card s)\<lparr>app_cmd := False, disk := write_words (disk (card s)) (start_word (card s) arg) buf,
       cursor := start_word (card s) arg + count * 128, left := 0, hung := False\<rparr>"
proof -
  obtain t where t: "wait_for sd_status (clear BUSY_BITS) s = Some (s\<lparr>clock := t\<rparr>)"
    using wait_status [OF assms(1)] by blast
  let ?cmd = "if count = 1 then 24 else 25"
  have c: "card (issued True ?cmd arg (count * 512) (s\<lparr>clock := t\<rparr>)) =
     (card s)\<lparr>app_cmd := False, cursor := start_word (card s) arg, left := count * 128, hung := False\<rparr>"
    using exec_write [of "card s" count arg] assms by (simp add: issued_card del: of_nat_mult)
  obtain s' where "send_plain True ?cmd arg (Some buf) (count * 512) (s\<lparr>clock := t\<rparr>) = Some (buf, s')"
     "keeps s s'" "card s' = (card s)\<lparr>app_cmd := False, disk := write_words (disk (card s)) (start_word (card s) arg) buf,
       cursor := start_word (card s) arg + count * 128, left := 0, hung := False\<rparr>"
    using send_plain_write [of "s\<lparr>clock := t\<rparr>" ?cmd arg "count * 512" buf] assms unfolding c by auto
  then show ?thesis using t by (auto simp: send_cmd_data.simps [of 24] send_cmd_data.simps [of 25] is_write_def)
qed

section \<open>The contract of a disk\<close>

text \<open>A request has the words, the first sector and the number of sectors.\<close>

type_synonym request = "u32 list \<times> u32 \<times> nat"

fun write_requests :: "(u32 list \<Rightarrow> u32 \<Rightarrow> nat \<Rightarrow> 's \<Rightarrow> (dresult \<times> 's) option) \<Rightarrow> request list \<Rightarrow> 's \<Rightarrow> 's option" where
  "write_requests wr [] s = Some s"
| "write_requests wr ((buf, sector, count) # rs) s = do {
     (r, s1) \<leftarrow> wr buf sector count s;
     if r = RES_OK then write_requests wr rs s1 else None
   }"

text \<open>What the requests mean for the words of the disk.\<close>

fun written :: "request list \<Rightarrow> (nat \<Rightarrow> u32) \<Rightarrow> nat \<Rightarrow> u32" where
  "written [] d = d"
| "written ((buf, sector, count) # rs) d = written rs (write_words d (unat sector * 128) buf)"

definition sectors :: "(nat \<Rightarrow> u32) \<Rightarrow> u32 \<Rightarrow> nat \<Rightarrow> u32 list" where
  "sectors d sector count = map d [unat sector * 128..<unat sector * 128 + count * 128]"

lemma sectors_write_words:
  "length buf = count * 128 \<Longrightarrow> sectors (write_words d (unat sector * 128) buf) sector count = buf"
  by (rule nth_equalityI) (auto simp: sectors_def write_words_def)

locale block_device =
  fixes ready :: "'s \<Rightarrow> bool"
    and content :: "'s \<Rightarrow> nat \<Rightarrow> u32"
    and fits :: "'s \<Rightarrow> u32 \<Rightarrow> nat \<Rightarrow> bool"
    and rd :: "u32 list \<Rightarrow> u32 \<Rightarrow> nat \<Rightarrow> 's \<Rightarrow> (dresult \<times> u32 list \<times> 's) option"
    and wr :: "u32 list \<Rightarrow> u32 \<Rightarrow> nat \<Rightarrow> 's \<Rightarrow> (dresult \<times> 's) option"
  assumes rd_law: "ready s \<Longrightarrow> fits s sector count \<Longrightarrow> length buf = count * 128 \<Longrightarrow>
      \<exists>s'. rd buf sector count s = Some (RES_OK, sectors (content s) sector count, s') \<and>
        ready s' \<and> content s' = content s \<and> fits s' = fits s"
    and wr_law: "ready s \<Longrightarrow> fits s sector count \<Longrightarrow> length buf = count * 128 \<Longrightarrow>
      \<exists>s'. wr buf sector count s = Some (RES_OK, s') \<and>
        ready s' \<and> content s' = write_words (content s) (unat sector * 128) buf \<and> fits s' = fits s"
begin

lemma writes:
  "ready s \<Longrightarrow> \<forall>(buf, sector, count) \<in> set rs. fits s sector count \<and> length buf = count * 128 \<Longrightarrow>
     \<exists>s'. write_requests wr rs s = Some s' \<and> ready s' \<and> content s' = written rs (content s) \<and> fits s' = fits s"
proof (induction rs arbitrary: s)
  case Nil
  then show ?case by simp
next
  case (Cons r rs)
  obtain buf sector count where r: "r = (buf, sector, count)" by (cases r)
  obtain s1 where s1: "wr buf sector count s = Some (RES_OK, s1)" "ready s1"
    "content s1 = write_words (content s) (unat sector * 128) buf" "fits s1 = fits s"
    using wr_law [OF Cons.prems(1), of sector count buf] Cons.prems(2) r by auto
  show ?case using Cons.IH [OF s1(2)] Cons.prems(2) s1 r by simp
qed

lemma read_after_writes:
  assumes "ready s" and "\<forall>(buf, sector, count) \<in> set rs. fits s sector count \<and> length buf = count * 128"
    and "fits s sector count" and "length buf = count * 128"
  shows "\<exists>s' s''. write_requests wr rs s = Some s' \<and>
     rd buf sector count s' = Some (RES_OK, sectors (written rs (content s)) sector count, s'')"
  using writes [OF assms(1,2)] rd_law assms(3,4) by metis

end

section \<open>The card is a disk\<close>

definition card_ready :: "mmc \<Rightarrow> bool" where
  "card_ready s \<longleftrightarrow> mmc_live s \<and> \<not> hung (card s) \<and> Stat s = 0 \<and>
     CardType s = (if high_capacity (card s) then CT_SD2 OR CT_BLOCK else CT_SD2)"

text \<open>A byte address has 32 bits, and so has the number of bytes of a transfer.\<close>

definition card_fits :: "mmc \<Rightarrow> u32 \<Rightarrow> nat \<Rightarrow> bool" where
  "card_fits s sector count \<longleftrightarrow> 0 < count \<and> count < 2 ^ 22 \<and> (high_capacity (card s) \<or> unat sector < 2 ^ 23)"

lemma start_word_address:
  assumes "card_ready s" and "card_fits s sector count"
  shows "start_word (card s) (card_address sector s) = unat sector * 128"
proof -
  have "unat (sector * 512) = unat sector * 512" if "unat sector < 2 ^ 23"
    using that by (simp add: unat_word_ariths)
  then show ?thesis using assms
    by (auto simp: start_word_def card_address_def card_ready_def card_fits_def CT_SD2_def CT_BLOCK_def)
qed

lemma status_ready:
  assumes "card_ready s"
  shows "\<exists>s'. mmc_disk_status 0 s = Some (0, s') \<and> card_ready s' \<and> card s' = (card s)\<lparr>app_cmd := False\<rparr> \<and> CardType s' = CardType s"
proof -
  obtain s' where "send_cmd 13 0 s = Some (0, s')" "keeps s s'" "card s' = (card s)\<lparr>app_cmd := False\<rparr>"
    using send_cmd_ok [of s 13 0] assms by (auto simp: answers card_ready_def)
  then show ?thesis using assms keeps_live [of s s']
    by (auto simp: mmc_disk_status_def card_ready_def STA_NOINIT_def keeps_def mmc_live_def)
qed

lemma ready_read:
  assumes "card_ready s" and "card_fits s sector count" and "length buf = count * 128"
  shows "\<exists>s'. mmc_disk_read 0 buf sector count s = Some (RES_OK, sectors (disk (card s)) sector count, s') \<and>
     card_ready s' \<and> disk (card s') = disk (card s) \<and> card_fits s' = card_fits s"
proof -
  obtain s1 where s1: "mmc_disk_status 0 s = Some (0, s1)" "card_ready s1" "card s1 = (card s)\<lparr>app_cmd := False\<rparr>"
    using status_ready [OF assms(1)] by blast
  have f: "card_fits s1 sector count" using assms(2) s1(3) by (simp add: card_fits_def)
  obtain s2 where s2: "send_cmd_data (if count = 1 then 17 else 18) (card_address sector s1) (Some buf) (count * 512) s1 =
      Some (0, sectors (disk (card s)) sector count, s2)" "keeps s1 s2"
      "card s2 = (card s1)\<lparr>app_cmd := False, out := [], hung := False\<rparr>"
    using read_command [of s1 count buf "card_address sector s1"] s1(2,3) f assms(3) start_word_address [OF s1(2) f]
    by (auto simp: card_ready_def card_fits_def sectors_def)
  have "card_ready s2" using s1(2) s2(2,3) keeps_live [OF s2(2)] by (simp add: card_ready_def keeps_def)
  moreover have "card_fits s2 = card_fits s" using s1(3) s2(3) by (simp add: card_fits_def fun_eq_iff)
  moreover have "mmc_disk_read 0 buf sector count s = Some (RES_OK, sectors (disk (card s)) sector count, s2)"
    using s1(1) s2(1) f by (cases "count = 1") (simp_all add: mmc_disk_read_def card_fits_def)
  ultimately show ?thesis using s1(3) s2(3) by simp
qed

lemma block_count_ok:
  assumes "card_ready s"
  shows "\<exists>s'. (if CardType s AND CT_SDC \<noteq> 0 then map_option snd (send_cmd ACMD23 n s) else Some s) = Some s' \<and>
     keeps s s' \<and> card s' = (card s)\<lparr>app_cmd := False\<rparr>"
proof -
  obtain s' where "send_cmd ACMD23 n s = Some (0, s')" "keeps s s'" "card s' = (card s)\<lparr>app_cmd := False\<rparr>"
    using send_acmd_ok [of s 23 n] assms by (auto simp: answers card_ready_def ACMD23_def)
  moreover have "CardType s AND CT_SDC \<noteq> 0"
    using assms by (auto simp: card_ready_def CT_SDC_def CT_SD1_def CT_SD2_def CT_BLOCK_def)
  ultimately show ?thesis by simp
qed

lemma keeps_ready:
  assumes "card_ready s" and "keeps s s'" and "\<not> hung (card s')" and "high_capacity (card s') = high_capacity (card s)"
  shows "card_ready s'"
  using assms keeps_live [OF assms(2)] by (simp add: card_ready_def keeps_def)

lemma ready_write:
  assumes "card_ready s" and "card_fits s sector count" and "length buf = count * 128"
  shows "\<exists>s'. mmc_disk_write 0 buf sector count s = Some (RES_OK, s') \<and>
     card_ready s' \<and> disk (card s') = write_words (disk (card s)) (unat sector * 128) buf \<and> card_fits s' = card_fits s"
proof -
  obtain s1 where s1: "mmc_disk_status 0 s = Some (0, s1)" "card_ready s1" "card s1 = (card s)\<lparr>app_cmd := False\<rparr>"
    using status_ready [OF assms(1)] by blast
  obtain s3 where s3: "(if CardType s1 AND CT_SDC \<noteq> 0 then map_option snd (send_cmd ACMD23 (of_nat count) s1) else Some s1) = Some s3"
    "keeps s1 s3" "card s3 = (card s)\<lparr>app_cmd := False\<rparr>"
    using block_count_ok [OF s1(2)] s1(3) by auto
  let ?r = "if count = 1 then s1 else s3"
  have r: "card_ready ?r" "card ?r = (card s)\<lparr>app_cmd := False\<rparr>"
    using s1(2,3) s3(2,3) keeps_ready [OF s1(2) s3(2)] by (auto simp: card_ready_def)
  have f: "card_fits ?r sector count" using assms(2) r(2) by (simp add: card_fits_def)
  obtain s2 where s2: "send_cmd_data (if count = 1 then 24 else 25) (card_address sector ?r) (Some buf) (count * 512) ?r = Some (0, buf, s2)"
      "keeps ?r s2" "card s2 = (card s)\<lparr>app_cmd := False, disk := write_words (disk (card s)) (unat sector * 128) buf,
        cursor := unat sector * 128 + count * 128, left := 0, hung := False\<rparr>"
    using write_command [of ?r count buf "card_address sector ?r"] r f assms(3) start_word_address [OF r(1) f]
    by (auto simp: card_ready_def card_fits_def)
  have "card_ready s2" using keeps_ready [OF r(1) s2(2)] s2(3) r(2) by simp
  moreover have "card_fits s2 = card_fits s" using s2(3) by (simp add: card_fits_def fun_eq_iff)
  moreover have "mmc_disk_write 0 buf sector count s = Some (RES_OK, s2)"
    using s1(1) s2(1) s3(1) f by (cases "count = 1") (simp_all add: mmc_disk_write_def card_fits_def split: if_splits)
  ultimately show ?thesis using s2(3) by simp
qed

interpretation sd_card: block_device card_ready "\<lambda>s. disk (card s)" card_fits "mmc_disk_read 0" "mmc_disk_write 0"
  by unfold_locales (fact ready_read, fact ready_write)

lemma initialize_ready:
  assumes "mmc_live s" and "\<not> hung (card s)" and "version2 (card s)" and "not_ready (card s) < 1000"
  shows "\<exists>s'. mmc_disk_initialize 0 s = Some (0, s') \<and> card_ready s' \<and> disk (card s') = disk (card s) \<and> card_fits s' = card_fits s"
  using initialize_ok [OF assms(1-3)] assms(2,4)
  by (auto simp: card_ready_def found_type_def card_fits_def fun_eq_iff)

section \<open>Properties\<close>

text \<open>
  The SD card as a disk. On a controller whose flags do not stay busy, \<open>mmc_disk_initialize\<close>
  brings up every version 2 card that gets ready within 1000 polls, with byte or block addressing as
  the card needs it; after any sequence of successful \<open>mmc_disk_write\<close> calls, of one or of several
  sectors, \<open>mmc_disk_read\<close> returns the words that the same writes leave on an abstract disk.
  Every busy loop ends.
\<close>

lemma mmc_storage_round_trip:
  assumes "mmc_live s" and "\<not> hung (card s)" and "version2 (card s)" and "not_ready (card s) < 1000"
    and "\<forall>(buf, sector, count) \<in> set rs. card_fits s sector count \<and> length buf = count * 128"
    and "card_fits s sector count" and "length buf = count * 128"
  shows "\<exists>s0 s1 s2. mmc_disk_initialize 0 s = Some (0, s0) \<and> write_requests (mmc_disk_write 0) rs s0 = Some s1 \<and>
     mmc_disk_read 0 buf sector count s1 = Some (RES_OK, sectors (written rs (disk (card s))) sector count, s2)"
proof -
  obtain s0 where s0: "mmc_disk_initialize 0 s = Some (0, s0)" "card_ready s0" "disk (card s0) = disk (card s)" "card_fits s0 = card_fits s"
    using initialize_ready [OF assms(1-4)] by blast
  show ?thesis
    using sd_card.read_after_writes [OF s0(2), of rs sector count buf] s0 assms(5-7) by simp
qed

definition demo_card :: "bool \<Rightarrow> nat \<Rightarrow> u32 list \<Rightarrow> mmc" where
  "demo_card hc n specific =
     \<lparr>mregs = (\<lambda>_. 0), card = \<lparr>disk = (\<lambda>_. 0), high_capacity = hc, version2 = True, not_ready = n, rca = 0x1234,
        csd = specific, app_cmd = False, out = [], cursor = 0, left = 0, hung = False\<rparr>, resp0 = 0,
      sd_status = (\<lambda>_. 0), sd_rintsts = (\<lambda>_. 0xFFFFFFFF), sd_cmd = (\<lambda>_. 0), clock = 0, Stat = STA_NOINIT, CardType = 0\<rparr>"

lemma demo_live: "mmc_live (demo_card hc n specific)"
  by (auto simp: mmc_live_def demo_card_def clear_def shown_def SUNXI_MMC_RINT_COMMAND_DONE_def
      SUNXI_MMC_RINT_DATA_OVER_def SUNXI_MMC_RINT_AUTO_COMMAND_DONE_def BIT_def)

lemma mmc_storage_example:
  "\<exists>s0 s1 s2. mmc_disk_initialize 0 (demo_card False 3 []) = Some (0, s0) \<and>
     write_requests (mmc_disk_write 0) [(replicate 256 7, 9, 2), (replicate 128 5, 10, 1)] s0 = Some s1 \<and>
     mmc_disk_read 0 (replicate 128 0) 9 1 s1 =
       Some (RES_OK, sectors (written [(replicate 256 7, 9, 2), (replicate 128 5, 10, 1)] (\<lambda>_. 0)) 9 1, s2)"
  using mmc_storage_round_trip [OF demo_live, of False 3 "[]" "[(replicate 256 7, 9, 2), (replicate 128 5, 10, 1)]" 9 1 "replicate 128 0"]
  by (simp add: demo_card_def card_fits_def)

text \<open>The capacity in sectors that version 2 of the card-specific data stands for: 22 bits of \<open>C_SIZE\<close> in units of 512 KiB.\<close>

definition csd_capacity :: "u8 list \<Rightarrow> nat" where
  "csd_capacity b = (unat (b ! 7 AND 63) * 65536 + unat (b ! 8) * 256 + unat (b ! 9) + 1) * 1024"

lemma byte_u32: "\<exists>k < 256. ucast (b :: u8) = (of_nat k :: u32) \<and> unat b = k"
  using unsigned_less [of b] by (intro exI [of _ "unat b"]) (simp add: word_unat_eq_iff unsigned_ucast_eq)

lemma csd_sectors_v2:
  assumes "drop_bit 6 (b ! 0) = 1"
  shows "unat (csd_sectors b) = (unat (b ! 7 AND 63) * 256 + unat (b ! 8) * 256 + unat (b ! 9) + 1) * 1024"
proof -
  obtain x y z where k: "x < 256" "ucast (b ! 7 AND 63) = (of_nat x :: u32)" "unat (b ! 7 AND 63) = x"
      "y < 256" "ucast (b ! 8) = (of_nat y :: u32)" "unat (b ! 8) = y" "z < 256" "ucast (b ! 9) = (of_nat z :: u32)" "unat (b ! 9) = z"
    using byte_u32 [of "b ! 7 AND 63"] byte_u32 [of "b ! 8"] byte_u32 [of "b ! 9"] by blast
  have "csd_sectors b = of_nat ((x * 256 + y * 256 + z + 1) * 1024)"
    using assms k by (simp add: csd_sectors_def push_bit_eq_mult algebra_simps)
  moreover have "(x * 256 + y * 256 + z + 1) * 1024 < 4294967296" using k by simp
  ultimately show ?thesis using k unat_of_nat_small by metis
qed

lemma ioctl_sector_count:
  assumes "card_ready s" and "length (csd (card s)) = 4"
  shows "\<exists>s'. mmc_disk_ioctl 0 1 buff s = Some (RES_OK, csd_sectors (bytes_of_words (csd (card s))), s')"
proof -
  obtain s1 where s1: "mmc_disk_status 0 s = Some (0, s1)" "card_ready s1" "card s1 = (card s)\<lparr>app_cmd := False\<rparr>"
    using status_ready [OF assms(1)] by blast
  obtain t where t: "wait_for sd_status (clear BUSY_BITS) s1 = Some (s1\<lparr>clock := t\<rparr>)"
    using wait_status [of s1] s1(2) by (auto simp: card_ready_def)
  have c: "card (issued False 9 0 16 (s1\<lparr>clock := t\<rparr>)) = (card s)\<lparr>app_cmd := False, out := csd (card s)\<rparr>"
    using s1(2,3) assms(2) by (simp add: issued_card card_exec_def cmd_word_def cmd_bits card_ready_def)
  obtain s2 where "send_plain False 9 0 (Some [0, 0, 0, 0]) 16 (s1\<lparr>clock := t\<rparr>) = Some (csd (card s), s2)"
    using send_plain_read [of "s1\<lparr>clock := t\<rparr>" 16 9 0 "[0, 0, 0, 0]"] s1(2) assms(2) unfolding c by (auto simp: card_ready_def)
  then have "send_cmd_data 9 0 (Some [0, 0, 0, 0]) 16 s1 = Some (0, csd (card s), s2)"
    using t by (simp add: send_cmd_data.simps [of 9] is_write_def)
  then show ?thesis using s1(1) by (simp add: mmc_disk_ioctl_def)
qed


lemma demo_ready: "card_ready ((demo_card True 0 specific)\<lparr>Stat := 0, CardType := CT_SD2 OR CT_BLOCK\<rparr>)"
proof -
  have "mmc_live ((demo_card True 0 specific)\<lparr>Stat := 0, CardType := CT_SD2 OR CT_BLOCK\<rparr>) = mmc_live (demo_card True 0 specific)"
    by (simp add: mmc_live_def)
  then show ?thesis using demo_live [of True 0 specific] by (simp add: card_ready_def) (simp add: demo_card_def)
qed


text \<open>
  A version 2 card that stays in its idle state is not detected. \<open>mmc_disk_initialize\<close> gives up
  after 1000 polls without looking at its counter: it reports success, and a card with block
  addresses is then driven with byte addresses.
\<close>

lemma mmc_unready_card_accepted:
  assumes "mmc_live s" and "\<not> hung (card s)" and "version2 (card s)" and "1000 \<le> not_ready (card s)"
  shows "\<exists>s'. mmc_disk_initialize 0 s = Some (0, s') \<and> Stat s' = 0 \<and> card_address sector s' = sector * 512 \<and>
     not_ready (card s') = not_ready (card s) - 1000"
  using initialize_ok [OF assms(1-3)] assms(4)
  by (auto simp: found_type_def card_address_def CT_SD2_def CT_BLOCK_def)

theorem mmc_unready_card_accepted_witness:
  "\<exists>s'. mmc_disk_initialize 0 (demo_card True 1001 []) = Some (0, s') \<and> Stat s' = 0 \<and> card_address 7 s' = 3584 \<and>
     not_ready (card s') = 1"
  using mmc_unready_card_accepted [OF demo_live, of True 1001 "[]" 7] by (simp add: demo_card_def)

end
