(* ===== verification/Display_Regs.thy ===== *)
theory Display_Regs
  imports Mmio
begin

text \<open>
  The registers of the display engine, the LCD controllers and the HDMI controller that the display,
  television and audio drivers use (\<^verbatim>\<open>display.h\<close>). The eight-bit registers of the HDMI controller are
  entries of the same map, at their own addresses.
\<close>

definition HDMI_BASE :: u32 where [addr_defs]: "HDMI_BASE = 0x01EE0000"
definition HDMI_PHY_UNSCRAMBLE :: u32 where [addr_defs]: "HDMI_PHY_UNSCRAMBLE = HDMI_BASE + 0x10014"
definition HDMI_MC_CLKDIS :: u32 where [addr_defs]: "HDMI_MC_CLKDIS = HDMI_BASE + 0x4001"
definition HDMI_MC_SWRSTZREQ :: u32 where [addr_defs]: "HDMI_MC_SWRSTZREQ = HDMI_BASE + 0x4002"
definition HDMI_FC_AUDIOCONF0 :: u32 where [addr_defs]: "HDMI_FC_AUDIOCONF0 = HDMI_BASE + 0x1025"
definition HDMI_FC_AUDIOCONF1 :: u32 where [addr_defs]: "HDMI_FC_AUDIOCONF1 = HDMI_BASE + 0x1026"
definition HDMI_FC_AUDIOCONF2 :: u32 where [addr_defs]: "HDMI_FC_AUDIOCONF2 = HDMI_BASE + 0x1027"
definition HDMI_FC_AUDIOCONF3 :: u32 where [addr_defs]: "HDMI_FC_AUDIOCONF3 = HDMI_BASE + 0x1028"
definition HDMI_FC_AUDSCONF :: u32 where [addr_defs]: "HDMI_FC_AUDSCONF = HDMI_BASE + 0x1063"
definition HDMI_FC_AUDSV :: u32 where [addr_defs]: "HDMI_FC_AUDSV = HDMI_BASE + 0x1065"
definition HDMI_FC_AUDSU :: u32 where [addr_defs]: "HDMI_FC_AUDSU = HDMI_BASE + 0x1066"
definition HDMI_FC_AUDSCHNL0 :: u32 where [addr_defs]: "HDMI_FC_AUDSCHNL0 = HDMI_BASE + 0x1067"
definition HDMI_FC_AUDSCHNL1 :: u32 where [addr_defs]: "HDMI_FC_AUDSCHNL1 = HDMI_BASE + 0x1068"
definition HDMI_FC_AUDSCHNL2 :: u32 where [addr_defs]: "HDMI_FC_AUDSCHNL2 = HDMI_BASE + 0x1069"
definition HDMI_FC_AUDSCHNL3 :: u32 where [addr_defs]: "HDMI_FC_AUDSCHNL3 = HDMI_BASE + 0x106a"
definition HDMI_FC_AUDSCHNL4 :: u32 where [addr_defs]: "HDMI_FC_AUDSCHNL4 = HDMI_BASE + 0x106b"
definition HDMI_FC_AUDSCHNL5 :: u32 where [addr_defs]: "HDMI_FC_AUDSCHNL5 = HDMI_BASE + 0x106c"
definition HDMI_FC_AUDSCHNL6 :: u32 where [addr_defs]: "HDMI_FC_AUDSCHNL6 = HDMI_BASE + 0x106d"
definition HDMI_FC_AUDSCHNL7 :: u32 where [addr_defs]: "HDMI_FC_AUDSCHNL7 = HDMI_BASE + 0x106e"
definition HDMI_FC_AUDSCHNL8 :: u32 where [addr_defs]: "HDMI_FC_AUDSCHNL8 = HDMI_BASE + 0x106f"
definition HDMI_AUD_CONF0 :: u32 where [addr_defs]: "HDMI_AUD_CONF0 = HDMI_BASE + 0x3100"
definition HDMI_AUD_CONF1 :: u32 where [addr_defs]: "HDMI_AUD_CONF1 = HDMI_BASE + 0x3101"
definition HDMI_AUD_INT :: u32 where [addr_defs]: "HDMI_AUD_INT = HDMI_BASE + 0x3102"
definition HDMI_AUD_CONF2 :: u32 where [addr_defs]: "HDMI_AUD_CONF2 = HDMI_BASE + 0x3103"
definition HDMI_AUD_N1 :: u32 where [addr_defs]: "HDMI_AUD_N1 = HDMI_BASE + 0x3200"
definition HDMI_AUD_N2 :: u32 where [addr_defs]: "HDMI_AUD_N2 = HDMI_BASE + 0x3201"
definition HDMI_AUD_N3 :: u32 where [addr_defs]: "HDMI_AUD_N3 = HDMI_BASE + 0x3102"
definition HDMI_AUD_CTS3 :: u32 where [addr_defs]: "HDMI_AUD_CTS3 = HDMI_BASE + 0x3205"
definition HDMI_AUD_INPUTCLKFS :: u32 where [addr_defs]: "HDMI_AUD_INPUTCLKFS = HDMI_BASE + 0x3206"
definition LCD0_BASE :: u32 where [addr_defs]: "LCD0_BASE = 0x01C0C000"
definition LCD0_GINT0 :: u32 where [addr_defs]: "LCD0_GINT0 = LCD0_BASE + 0x004"
definition LCD0_GINT1 :: u32 where [addr_defs]: "LCD0_GINT1 = LCD0_BASE + 0x008"
definition LCD1_BASE :: u32 where [addr_defs]: "LCD1_BASE = 0x01C0D000"
definition LCD1_GCTL :: u32 where [addr_defs]: "LCD1_GCTL = LCD1_BASE + 0x000"
definition LCD1_GINT0 :: u32 where [addr_defs]: "LCD1_GINT0 = LCD1_BASE + 0x004"
definition LCD1_GINT1 :: u32 where [addr_defs]: "LCD1_GINT1 = LCD1_BASE + 0x008"
definition LCD1_TCON1_CTL :: u32 where [addr_defs]: "LCD1_TCON1_CTL = LCD1_BASE + 0x090"
definition LCD1_TCON1_BASIC0 :: u32 where [addr_defs]: "LCD1_TCON1_BASIC0 = LCD1_BASE + 0x094"
definition LCD1_TCON1_BASIC1 :: u32 where [addr_defs]: "LCD1_TCON1_BASIC1 = LCD1_BASE + 0x098"
definition LCD1_TCON1_BASIC2 :: u32 where [addr_defs]: "LCD1_TCON1_BASIC2 = LCD1_BASE + 0x09C"
definition LCD1_TCON1_BASIC3 :: u32 where [addr_defs]: "LCD1_TCON1_BASIC3 = LCD1_BASE + 0x0A0"
definition LCD1_TCON1_BASIC4 :: u32 where [addr_defs]: "LCD1_TCON1_BASIC4 = LCD1_BASE + 0x0A4"
definition LCD1_TCON1_BASIC5 :: u32 where [addr_defs]: "LCD1_TCON1_BASIC5 = LCD1_BASE + 0x0A8"
definition LCD1_TCON1_PS_SYNC :: u32 where [addr_defs]: "LCD1_TCON1_PS_SYNC = LCD1_BASE + 0x0B0"
definition LCD1_TCON1_IO_POL :: u32 where [addr_defs]: "LCD1_TCON1_IO_POL = LCD1_BASE + 0x0F0"
definition LCD1_TCON1_IO_TRI :: u32 where [addr_defs]: "LCD1_TCON1_IO_TRI = LCD1_BASE + 0x0F4"
definition LCD1_TCON_CEU_CTL :: u32 where [addr_defs]: "LCD1_TCON_CEU_CTL = LCD1_BASE + 0x100"
definition LCD1_TCON_CEU_COEF_MUL :: "nat \<Rightarrow> u32" where [addr_defs]: "LCD1_TCON_CEU_COEF_MUL n = LCD1_BASE + 0x110 + of_nat n * 4"
definition LCD1_TCON_CEU_COEF_RANG :: "nat \<Rightarrow> u32" where [addr_defs]: "LCD1_TCON_CEU_COEF_RANG n = LCD1_BASE + 0x140 + of_nat n * 4"
definition LCD1_TCON1_GAMMA_TABLE :: "nat \<Rightarrow> u32" where [addr_defs]: "LCD1_TCON1_GAMMA_TABLE n = LCD1_BASE + 0x400 + of_nat n * 4"
definition DE_BASE :: u32 where [addr_defs]: "DE_BASE = 0x01000000"
definition DE_SCLK_GATE :: u32 where [addr_defs]: "DE_SCLK_GATE = DE_BASE + 0x000"
definition DE_HCLK_GATE :: u32 where [addr_defs]: "DE_HCLK_GATE = DE_BASE + 0x004"
definition DE_AHB_RESET :: u32 where [addr_defs]: "DE_AHB_RESET = DE_BASE + 0x008"
definition DE_SCLK_DIV :: u32 where [addr_defs]: "DE_SCLK_DIV = DE_BASE + 0x00C"
definition DE_DE2TCON_MUX :: u32 where [addr_defs]: "DE_DE2TCON_MUX = DE_BASE + 0x010"
definition DE_CMD_CTL :: u32 where [addr_defs]: "DE_CMD_CTL = DE_BASE + 0x014"
definition DE_MIXER0 :: u32 where [addr_defs]: "DE_MIXER0 = DE_BASE + 0x100000"
definition DE_MIXER0_GLB :: u32 where [addr_defs]: "DE_MIXER0_GLB = DE_MIXER0 + 0x0"
definition DE_MIXER0_GLB_CTL :: u32 where [addr_defs]: "DE_MIXER0_GLB_CTL = DE_MIXER0_GLB + 0x000"
definition DE_MIXER0_GLB_DBUFFER :: u32 where [addr_defs]: "DE_MIXER0_GLB_DBUFFER = DE_MIXER0_GLB + 0x008"
definition DE_MIXER0_GLB_SIZE :: u32 where [addr_defs]: "DE_MIXER0_GLB_SIZE = DE_MIXER0_GLB + 0x00C"
definition DE_MIXER0_BLD :: u32 where [addr_defs]: "DE_MIXER0_BLD = DE_MIXER0 + 0x1000"
definition DE_MIXER0_BLD_FILL_COLOR_CTL :: u32 where [addr_defs]: "DE_MIXER0_BLD_FILL_COLOR_CTL = DE_MIXER0_BLD + 0x000"
definition DE_MIXER0_BLD_CH_ISIZE :: "nat \<Rightarrow> u32" where [addr_defs]: "DE_MIXER0_BLD_CH_ISIZE x = DE_MIXER0_BLD + 0x008 + of_nat x * 0x10"
definition DE_MIXER0_BLD_CH_RTCTL :: u32 where [addr_defs]: "DE_MIXER0_BLD_CH_RTCTL = DE_MIXER0_BLD + 0x080"
definition DE_MIXER0_BLD_SIZE :: u32 where [addr_defs]: "DE_MIXER0_BLD_SIZE = DE_MIXER0_BLD + 0x08C"
definition DE_MIXER0_OVL_V :: u32 where [addr_defs]: "DE_MIXER0_OVL_V = DE_MIXER0 + 0x2000"
definition DE_MIXER0_OVL_V_ATTCTL :: "nat \<Rightarrow> u32" where [addr_defs]: "DE_MIXER0_OVL_V_ATTCTL x = DE_MIXER0_OVL_V + 0x00 + of_nat x * 0x30"
definition DE_MIXER0_OVL_V_MBSIZE :: "nat \<Rightarrow> u32" where [addr_defs]: "DE_MIXER0_OVL_V_MBSIZE x = DE_MIXER0_OVL_V + 0x04 + of_nat x * 0x30"
definition DE_MIXER0_OVL_V_COOR :: "nat \<Rightarrow> u32" where [addr_defs]: "DE_MIXER0_OVL_V_COOR x = DE_MIXER0_OVL_V + 0x08 + of_nat x * 0x30"
definition DE_MIXER0_OVL_V_PITCH0 :: "nat \<Rightarrow> u32" where [addr_defs]: "DE_MIXER0_OVL_V_PITCH0 x = DE_MIXER0_OVL_V + 0x0C + of_nat x * 0x30"
definition DE_MIXER0_OVL_V_TOP_LADD0 :: "nat \<Rightarrow> u32" where [addr_defs]: "DE_MIXER0_OVL_V_TOP_LADD0 x = DE_MIXER0_OVL_V + 0x18 + of_nat x * 0x30"
definition DE_MIXER0_OVL_V_SIZE :: u32 where [addr_defs]: "DE_MIXER0_OVL_V_SIZE = DE_MIXER0_OVL_V + 0xE8"
definition DE_MIXER0_VS_BASE :: u32 where [addr_defs]: "DE_MIXER0_VS_BASE = DE_MIXER0 + 0x20000"
definition DE_MIXER0_VS_CTRL :: u32 where [addr_defs]: "DE_MIXER0_VS_CTRL = DE_MIXER0_VS_BASE + 0x00"
definition DE_MIXER0_VS_OUT_SIZE :: u32 where [addr_defs]: "DE_MIXER0_VS_OUT_SIZE = DE_MIXER0_VS_BASE + 0x40"
definition DE_MIXER0_VS_Y_SIZE :: u32 where [addr_defs]: "DE_MIXER0_VS_Y_SIZE = DE_MIXER0_VS_BASE + 0x80"
definition DE_MIXER0_VS_Y_HSTEP :: u32 where [addr_defs]: "DE_MIXER0_VS_Y_HSTEP = DE_MIXER0_VS_BASE + 0x88"
definition DE_MIXER0_VS_Y_VSTEP :: u32 where [addr_defs]: "DE_MIXER0_VS_Y_VSTEP = DE_MIXER0_VS_BASE + 0x8C"
definition DE_MIXER0_VS_C_SIZE :: u32 where [addr_defs]: "DE_MIXER0_VS_C_SIZE = DE_MIXER0_VS_BASE + 0xC0"
definition DE_MIXER0_VS_C_HSTEP :: u32 where [addr_defs]: "DE_MIXER0_VS_C_HSTEP = DE_MIXER0_VS_BASE + 0xC8"
definition DE_MIXER0_VS_C_VSTEP :: u32 where [addr_defs]: "DE_MIXER0_VS_C_VSTEP = DE_MIXER0_VS_BASE + 0xCC"
definition DE_MIXER0_VS_Y_HCOEF0 :: "nat \<Rightarrow> u32" where [addr_defs]: "DE_MIXER0_VS_Y_HCOEF0 x = DE_MIXER0_VS_BASE + 0x200 + of_nat x * 4"
definition DE_MIXER0_VS_Y_HCOEF1 :: "nat \<Rightarrow> u32" where [addr_defs]: "DE_MIXER0_VS_Y_HCOEF1 x = DE_MIXER0_VS_BASE + 0x300 + of_nat x * 4"
definition DE_MIXER0_VS_Y_VCOEF :: "nat \<Rightarrow> u32" where [addr_defs]: "DE_MIXER0_VS_Y_VCOEF x = DE_MIXER0_VS_BASE + 0x400 + of_nat x * 4"
definition DE_MIXER0_VS_C_HCOEF0 :: "nat \<Rightarrow> u32" where [addr_defs]: "DE_MIXER0_VS_C_HCOEF0 x = DE_MIXER0_VS_BASE + 0x600 + of_nat x * 4"
definition DE_MIXER0_VS_C_HCOEF1 :: "nat \<Rightarrow> u32" where [addr_defs]: "DE_MIXER0_VS_C_HCOEF1 x = DE_MIXER0_VS_BASE + 0x700 + of_nat x * 4"
definition DE_MIXER0_VS_C_VCOEF :: "nat \<Rightarrow> u32" where [addr_defs]: "DE_MIXER0_VS_C_VCOEF x = DE_MIXER0_VS_BASE + 0x800 + of_nat x * 4"
definition DE_MIXER1 :: u32 where [addr_defs]: "DE_MIXER1 = DE_BASE + 0x200000"
definition DE_MIXER1_GLB :: u32 where [addr_defs]: "DE_MIXER1_GLB = DE_MIXER1 + 0x0"
definition DE_MIXER1_GLB_CTL :: u32 where [addr_defs]: "DE_MIXER1_GLB_CTL = DE_MIXER1_GLB + 0x000"
definition DE_MIXER1_GLB_DBUFFER :: u32 where [addr_defs]: "DE_MIXER1_GLB_DBUFFER = DE_MIXER1_GLB + 0x008"
definition DE_MIXER1_GLB_SIZE :: u32 where [addr_defs]: "DE_MIXER1_GLB_SIZE = DE_MIXER1_GLB + 0x00C"
definition DE_MIXER1_BLD :: u32 where [addr_defs]: "DE_MIXER1_BLD = DE_MIXER1 + 0x1000"
definition DE_MIXER1_BLD_FILL_COLOR_CTL :: u32 where [addr_defs]: "DE_MIXER1_BLD_FILL_COLOR_CTL = DE_MIXER1_BLD + 0x000"
definition DE_MIXER1_BLD_FILL_COLOR :: "nat \<Rightarrow> u32" where [addr_defs]: "DE_MIXER1_BLD_FILL_COLOR x = DE_MIXER1_BLD + 0x004 + of_nat x * 0x10"
definition DE_MIXER1_BLD_CH_ISIZE :: "nat \<Rightarrow> u32" where [addr_defs]: "DE_MIXER1_BLD_CH_ISIZE x = DE_MIXER1_BLD + 0x008 + of_nat x * 0x10"
definition DE_MIXER1_BLD_CH_RTCTL :: u32 where [addr_defs]: "DE_MIXER1_BLD_CH_RTCTL = DE_MIXER1_BLD + 0x080"
definition DE_MIXER1_BLD_PREMUL_CTL :: u32 where [addr_defs]: "DE_MIXER1_BLD_PREMUL_CTL = DE_MIXER1_BLD + 0x084"
definition DE_MIXER1_BLD_BK_COLOR :: u32 where [addr_defs]: "DE_MIXER1_BLD_BK_COLOR = DE_MIXER1_BLD + 0x088"
definition DE_MIXER1_BLD_SIZE :: u32 where [addr_defs]: "DE_MIXER1_BLD_SIZE = DE_MIXER1_BLD + 0x08C"
definition DE_MIXER1_BLD_CTL :: "nat \<Rightarrow> u32" where [addr_defs]: "DE_MIXER1_BLD_CTL x = DE_MIXER1_BLD + 0x090 + of_nat x * 0x4"
definition DE_MIXER1_OVL_UI :: u32 where [addr_defs]: "DE_MIXER1_OVL_UI = DE_MIXER1 + 0x3000"
definition DE_MIXER1_OVL_UI_ATTR_CTL :: "nat \<Rightarrow> u32" where [addr_defs]: "DE_MIXER1_OVL_UI_ATTR_CTL x = DE_MIXER1_OVL_UI + 0x00 + of_nat x * 0x20"
definition DE_MIXER1_OVL_UI_MBSIZE :: "nat \<Rightarrow> u32" where [addr_defs]: "DE_MIXER1_OVL_UI_MBSIZE x = DE_MIXER1_OVL_UI + 0x04 + of_nat x * 0x20"
definition DE_MIXER1_OVL_UI_COOR :: "nat \<Rightarrow> u32" where [addr_defs]: "DE_MIXER1_OVL_UI_COOR x = DE_MIXER1_OVL_UI + 0x08 + of_nat x * 0x20"
definition DE_MIXER1_OVL_UI_PITCH :: "nat \<Rightarrow> u32" where [addr_defs]: "DE_MIXER1_OVL_UI_PITCH x = DE_MIXER1_OVL_UI + 0x0C + of_nat x * 0x20"
definition DE_MIXER1_OVL_UI_TOP_LADD :: "nat \<Rightarrow> u32" where [addr_defs]: "DE_MIXER1_OVL_UI_TOP_LADD x = DE_MIXER1_OVL_UI + 0x10 + of_nat x * 0x20"
definition DE_MIXER1_OVL_UI_BOT_LADD :: "nat \<Rightarrow> u32" where [addr_defs]: "DE_MIXER1_OVL_UI_BOT_LADD x = DE_MIXER1_OVL_UI + 0x14 + of_nat x * 0x20"
definition DE_MIXER1_OVL_UI_SIZE :: u32 where [addr_defs]: "DE_MIXER1_OVL_UI_SIZE = DE_MIXER1_OVL_UI + 0x88"
definition DE_MIXER1_UIS_BASE :: "nat \<Rightarrow> u32" where [addr_defs]: "DE_MIXER1_UIS_BASE n = DE_MIXER1 + 0x40000 + 0x10000 * of_nat n"
definition DE_MIXER1_UIS_CTRL :: "nat \<Rightarrow> u32" where [addr_defs]: "DE_MIXER1_UIS_CTRL n = DE_MIXER1_UIS_BASE n + 0x00"
definition DE_MIXER1_UIS_OUT_SIZE :: "nat \<Rightarrow> u32" where [addr_defs]: "DE_MIXER1_UIS_OUT_SIZE n = DE_MIXER1_UIS_BASE n + 0x40"
definition DE_MIXER1_UIS_IN_SIZE :: "nat \<Rightarrow> u32" where [addr_defs]: "DE_MIXER1_UIS_IN_SIZE n = DE_MIXER1_UIS_BASE n + 0x80"
definition DE_MIXER1_UIS_HSTEP :: "nat \<Rightarrow> u32" where [addr_defs]: "DE_MIXER1_UIS_HSTEP n = DE_MIXER1_UIS_BASE n + 0x88"
definition DE_MIXER1_UIS_VSTEP :: "nat \<Rightarrow> u32" where [addr_defs]: "DE_MIXER1_UIS_VSTEP n = DE_MIXER1_UIS_BASE n + 0x8C"
definition DE_MIXER1_UIS_HCOEF :: "nat \<Rightarrow> nat \<Rightarrow> u32" where [addr_defs]: "DE_MIXER1_UIS_HCOEF n x = DE_MIXER1_UIS_BASE n + 0x200 + of_nat x * 4"

text \<open>A size in the format of the display engine: height and width, each minus one.\<close>

definition DE_SIZE :: "u32 \<Rightarrow> u32 \<Rightarrow> u32" where
  "DE_SIZE x y = push_bit 16 (y - 1) OR (x - 1)"

end
