(* ===== verification/Interrupts.thy ===== *)
theory Interrupts
  imports Ports Display_Regs
begin

text \<open>
  The interrupt controller driver and the interrupt handler (\<^verbatim>\<open>interrupts.c\<close>, \<^verbatim>\<open>interrupts.h\<close>). The
  distributor is a record of its register arrays; a store to \<open>isenabler\<close> or \<open>icenabler\<close> sets or
  clears the enable bits whose positions are 1 and leaves the others. An index outside an array is
  the result \<open>None\<close>. The view \<open>line_view\<close> of one interrupt is its abstract state; the locale
  \<open>line_control\<close> is what drivers rely on when they configure lines.
\<close>

section \<open>Registers\<close>

definition GICD_BASE :: u32 where [addr_defs]: "GICD_BASE = 0x01C81000"
definition GICC_BASE :: u32 where [addr_defs]: "GICC_BASE = 0x01C82000"

record gic =
  gicd_ctlr :: u32
  igroupr :: "u32 list"
  enable_bits :: "u32 list"
  ipriorityr :: "u8 list"
  itargetsr :: "u8 list"
  gicc_ctlr :: u32
  gicc_pmr :: u32

definition gic_wf :: "gic \<Rightarrow> bool" where
  "gic_wf g \<longleftrightarrow> length (igroupr g) = 32 \<and> length (enable_bits g) = 32 \<and>
     length (ipriorityr g) = 1024 \<and> length (itargetsr g) = 1024"

definition isenabler_store :: "nat \<Rightarrow> u32 \<Rightarrow> gic \<Rightarrow> gic" where
  "isenabler_store i v g = g\<lparr>enable_bits := (enable_bits g)[i := enable_bits g ! i OR v]\<rparr>"

definition icenabler_store :: "nat \<Rightarrow> u32 \<Rightarrow> gic \<Rightarrow> gic" where
  "icenabler_store i v g = g\<lparr>enable_bits := (enable_bits g)[i := enable_bits g ! i AND NOT v]\<rparr>"

section \<open>Operations\<close>

text \<open>\<open>ispendr\<close> is the contents of the pending registers at the time of the read.\<close>

definition irq_pending :: "u32 list \<Rightarrow> nat \<Rightarrow> bool" where
  "irq_pending ispendr irq = truth (ispendr ! (irq div 32) AND push_bit (irq mod 32) 1)"

text \<open>The build without the GDB stub.\<close>

definition irq_enable :: "nat \<Rightarrow> gic \<Rightarrow> gic option" where
  "irq_enable irq g =
     (if 1024 \<le> irq then None
      else Some (let g1 = g\<lparr>gicd_ctlr := BIT 1\<rparr>;
                     g2 = g1\<lparr>igroupr := (igroupr g1)[irq div 32 := igroupr g1 ! (irq div 32) OR push_bit (irq mod 32) 1]\<rparr>;
                     g3 = isenabler_store (irq div 32) (push_bit (irq mod 32) 1) g2;
                     g4 = g3\<lparr>itargetsr := (itargetsr g3)[irq := 1]\<rparr>
                 in g4\<lparr>ipriorityr := (ipriorityr g4)[irq := 2]\<rparr>))"

definition irq_enable_fiq :: "nat \<Rightarrow> gic \<Rightarrow> gic option" where
  "irq_enable_fiq irq g =
     (case irq_enable irq g of
        None \<Rightarrow> None
      | Some g1 \<Rightarrow>
          Some (let g2 = g1\<lparr>igroupr := (igroupr g1)[irq div 32 := igroupr g1 ! (irq div 32) AND NOT (push_bit (irq mod 32) 1)]\<rparr>
                in g2\<lparr>ipriorityr := (ipriorityr g2)[irq := 1]\<rparr>))"

definition irq_disable :: "nat \<Rightarrow> gic \<Rightarrow> gic option" where
  "irq_disable irq g = (if 1024 \<le> irq then None else Some (icenabler_store (irq div 32) (push_bit (irq mod 32) 1) g))"

text \<open>\<open>install_ivt\<close> copies the sixteen words of the vector table to address 0 and puts every line in group 1.\<close>

fun copy_words :: "nat \<Rightarrow> u32 \<Rightarrow> u32 \<Rightarrow> mem \<Rightarrow> mem" where
  "copy_words 0 dst src m = m"
| "copy_words (Suc n) dst src m = copy_words n (dst + 4) (src + 4) (store32 m dst (load32 m src))"

definition install_ivt :: "u32 \<Rightarrow> mem \<Rightarrow> gic \<Rightarrow> mem \<times> gic" where
  "install_ivt ivt m g =
     (copy_words (2 * 8) 0 ivt m,
      g\<lparr>gicc_ctlr := BIT 1, gicc_pmr := 10, igroupr := replicate 32 0xffffffff\<rparr>)"

section \<open>Lines\<close>

record irq_line =
  l_enabled :: bool
  l_group1 :: bool
  l_priority :: u8
  l_target :: u8

definition line_view :: "gic \<Rightarrow> nat \<Rightarrow> irq_line" where
  "line_view g n = \<lparr>l_enabled = bit (enable_bits g ! (n div 32)) (n mod 32),
     l_group1 = bit (igroupr g ! (n div 32)) (n mod 32), l_priority = ipriorityr g ! n, l_target = itargetsr g ! n\<rparr>"

text \<open>The calls a driver makes, on the controller and on the abstract table of lines.\<close>

datatype line_call = Enable nat | Enable_Fiq nat | Disable nat

fun call_line :: "line_call \<Rightarrow> nat" where
  "call_line (Enable n) = n"
| "call_line (Enable_Fiq n) = n"
| "call_line (Disable n) = n"

fun do_line :: "line_call \<Rightarrow> gic \<Rightarrow> gic option" where
  "do_line (Enable n) = irq_enable n"
| "do_line (Enable_Fiq n) = irq_enable_fiq n"
| "do_line (Disable n) = irq_disable n"

fun line_after :: "line_call \<Rightarrow> irq_line \<Rightarrow> irq_line" where
  "line_after (Enable n) l = \<lparr>l_enabled = True, l_group1 = True, l_priority = 2, l_target = 1\<rparr>"
| "line_after (Enable_Fiq n) l = \<lparr>l_enabled = True, l_group1 = False, l_priority = 1, l_target = 1\<rparr>"
| "line_after (Disable n) l = l\<lparr>l_enabled := False\<rparr>"

definition lines_after :: "line_call \<Rightarrow> (nat \<Rightarrow> irq_line) \<Rightarrow> nat \<Rightarrow> irq_line" where
  "lines_after c v = v(call_line c := line_after c (v (call_line c)))"

fun do_lines :: "('c \<Rightarrow> 'g \<Rightarrow> 'g option) \<Rightarrow> 'c list \<Rightarrow> 'g \<Rightarrow> 'g option" where
  "do_lines exec [] g = Some g"
| "do_lines exec (c # cs) g = Option.bind (exec c g) (do_lines exec cs)"

locale line_control =
  fixes exec :: "'c \<Rightarrow> 'g \<Rightarrow> 'g option" and wf :: "'g \<Rightarrow> bool" and ok :: "'c \<Rightarrow> bool"
    and view :: "'g \<Rightarrow> nat \<Rightarrow> 'l" and spec :: "'c \<Rightarrow> (nat \<Rightarrow> 'l) \<Rightarrow> nat \<Rightarrow> 'l" and lines :: nat
  assumes exec_refines: "wf g \<Longrightarrow> ok c \<Longrightarrow>
      \<exists>g'. exec c g = Some g' \<and> wf g' \<and> (\<forall>n < lines. view g' n = spec c (view g) n)"
    and spec_local: "(\<And>n. n < lines \<Longrightarrow> v n = w n) \<Longrightarrow> ok c \<Longrightarrow> n < lines \<Longrightarrow> spec c v n = spec c w n"
begin

lemma fold_local:
  "(\<And>n. n < lines \<Longrightarrow> v n = w n) \<Longrightarrow> list_all ok cs \<Longrightarrow> n < lines \<Longrightarrow> fold spec cs v n = fold spec cs w n"
proof (induction cs arbitrary: v w n)
  case Nil
  then show ?case by simp
next
  case (Cons c cs)
  have "spec c v k = spec c w k" if "k < lines" for k
    using spec_local [OF Cons.prems(1) _ that] Cons.prems(2) by simp
  then show ?case using Cons.IH [of "spec c v" "spec c w" n] Cons.prems(2,3) by simp
qed

lemma calls_refine:
  "wf g \<Longrightarrow> list_all ok cs \<Longrightarrow>
     \<exists>g'. do_lines exec cs g = Some g' \<and> wf g' \<and> (\<forall>n < lines. view g' n = fold spec cs (view g) n)"
proof (induction cs arbitrary: g)
  case Nil
  then show ?case by simp
next
  case (Cons c cs)
  from Cons.prems exec_refines [of g c] obtain g1 where
    g1: "exec c g = Some g1" "wf g1" "\<forall>n < lines. view g1 n = spec c (view g) n" by auto
  from Cons.IH [OF g1(2)] Cons.prems obtain g2 where
    g2: "do_lines exec cs g1 = Some g2" "wf g2" "\<forall>n < lines. view g2 n = fold spec cs (view g1) n" by auto
  have "fold spec cs (view g1) n = fold spec cs (spec c (view g)) n" if "n < lines" for n
    using fold_local [of "view g1" "spec c (view g)" cs n] g1(3) Cons.prems that by simp
  with g1(1) g2 show ?case by simp
qed

end

lemma div_mod_32: "n div 32 = k div 32 \<Longrightarrow> (n mod 32 = k mod 32) = (n = (k::nat))"
  by (metis div_mult_mod_eq)

text \<open>One word of an array of lines changes in one bit: only one line is affected.\<close>

lemma line_bit_update:
  assumes "length xs = 32" and "k < 1024" and "\<And>i. i < 32 \<Longrightarrow> i \<noteq> k mod 32 \<Longrightarrow> bit w i = bit (xs ! (k div 32)) i"
  shows "bit ((xs[k div 32 := w :: u32]) ! (n div 32)) (n mod 32) = (if n = k then bit w (k mod 32) else bit (xs ! (n div 32)) (n mod 32))"
proof (cases "n div 32 = k div 32")
  case True
  with assms(1,2) have "bit ((xs[k div 32 := w]) ! (n div 32)) (n mod 32) = bit w (n mod 32)" by simp
  then show ?thesis using True assms(3) [of "n mod 32"] div_mod_32 [OF True] by auto
next
  case False
  then show ?thesis by auto
qed

lemmas byte_array = nth_list_update [where 'a = "8 word"]

lemma irq_enable_line:
  assumes "gic_wf g" and "k < 1024"
  obtains g' where "irq_enable k g = Some g'" "gic_wf g'" "\<And>n. n < 1024 \<Longrightarrow> line_view g' n = lines_after (Enable k) (line_view g) n"
proof -
  define e where "e = enable_bits g ! (k div 32) OR push_bit (k mod 32) 1"
  define w where "w = igroupr g ! (k div 32) OR push_bit (k mod 32) 1"
  let ?g = "g\<lparr>gicd_ctlr := BIT 1, igroupr := (igroupr g)[k div 32 := w], enable_bits := (enable_bits g)[k div 32 := e],
    itargetsr := (itargetsr g)[k := 1], ipriorityr := (ipriorityr g)[k := 2]\<rparr>"
  have eq: "irq_enable k g = Some ?g" using assms(2) by (simp add: irq_enable_def Let_def isenabler_store_def e_def w_def)
  have wf: "gic_wf ?g" using assms(1) by (simp add: gic_wf_def)
  have bits: "bit ((enable_bits g)[k div 32 := e] ! (n div 32)) (n mod 32) = (n = k \<or> bit (enable_bits g ! (n div 32)) (n mod 32))"
    "bit ((igroupr g)[k div 32 := w] ! (n div 32)) (n mod 32) = (n = k \<or> bit (igroupr g ! (n div 32)) (n mod 32))" for n
    using assms by (subst line_bit_update; auto simp: gic_wf_def e_def w_def bit_simps)+
  have "line_view ?g n = lines_after (Enable k) (line_view g) n" if "n < 1024" for n
    using assms that by (simp add: line_view_def lines_after_def bits gic_wf_def byte_array)
  with eq wf that show thesis by blast
qed

lemma irq_enable_fiq_line:
  assumes "gic_wf g" and "k < 1024"
  obtains g' where "irq_enable_fiq k g = Some g'" "gic_wf g'" "\<And>n. n < 1024 \<Longrightarrow> line_view g' n = lines_after (Enable_Fiq k) (line_view g) n"
proof -
  obtain g1 where g1: "irq_enable k g = Some g1" "gic_wf g1"
    and v: "\<And>n. n < 1024 \<Longrightarrow> line_view g1 n = lines_after (Enable k) (line_view g) n"
    using irq_enable_line [OF assms] by blast
  define w where "w = igroupr g1 ! (k div 32) AND NOT (push_bit (k mod 32) 1)"
  let ?g = "g1\<lparr>igroupr := (igroupr g1)[k div 32 := w], ipriorityr := (ipriorityr g1)[k := 1]\<rparr>"
  have eq: "irq_enable_fiq k g = Some ?g" by (simp add: irq_enable_fiq_def g1(1) Let_def w_def)
  have wf: "gic_wf ?g" using g1(2) by (simp add: gic_wf_def)
  have bits: "bit ((igroupr g1)[k div 32 := w] ! (n div 32)) (n mod 32) = (n \<noteq> k \<and> bit (igroupr g1 ! (n div 32)) (n mod 32))" for n
    using g1(2) assms(2) by (subst line_bit_update; auto simp: gic_wf_def w_def bit_simps)
  have "line_view ?g n = (if n = k then (line_view g1 n)\<lparr>l_group1 := False, l_priority := 1\<rparr> else line_view g1 n)" for n
    using g1(2) assms(2) by (simp add: line_view_def bits gic_wf_def byte_array)
  then have "line_view ?g n = lines_after (Enable_Fiq k) (line_view g) n" if "n < 1024" for n
    using v [OF that] by (cases "n = k") (simp_all add: lines_after_def)
  with eq wf that show thesis by blast
qed

lemma irq_disable_line:
  assumes "gic_wf g" and "k < 1024"
  obtains g' where "irq_disable k g = Some g'" "gic_wf g'" "\<And>n. n < 1024 \<Longrightarrow> line_view g' n = lines_after (Disable k) (line_view g) n"
proof -
  define e where "e = enable_bits g ! (k div 32) AND NOT (push_bit (k mod 32) 1)"
  let ?g = "g\<lparr>enable_bits := (enable_bits g)[k div 32 := e]\<rparr>"
  have eq: "irq_disable k g = Some ?g" using assms(2) by (simp add: irq_disable_def icenabler_store_def e_def)
  have wf: "gic_wf ?g" using assms(1) by (simp add: gic_wf_def)
  have bits: "bit ((enable_bits g)[k div 32 := e] ! (n div 32)) (n mod 32) = (n \<noteq> k \<and> bit (enable_bits g ! (n div 32)) (n mod 32))" for n
    using assms by (subst line_bit_update; auto simp: gic_wf_def e_def bit_simps)
  have "line_view ?g n = lines_after (Disable k) (line_view g) n" if "n < 1024" for n
    using assms that by (simp add: line_view_def lines_after_def bits)
  with eq wf that show thesis by blast
qed

interpretation gic_lines: line_control do_line gic_wf "\<lambda>c. call_line c < 1024" line_view lines_after 1024
proof
  fix g c assume "gic_wf g" and "call_line c < 1024"
  then show "\<exists>g'. do_line c g = Some g' \<and> gic_wf g' \<and> (\<forall>n<1024. line_view g' n = lines_after c (line_view g) n)"
    by (cases c) (auto elim: irq_enable_line irq_enable_fiq_line irq_disable_line)
next
  fix v w :: "nat \<Rightarrow> irq_line" and c n
  assume "\<And>n. n < 1024 \<Longrightarrow> v n = w n" and "call_line c < 1024" and "n < (1024::nat)"
  then show "lines_after c v n = lines_after c w n" by (cases c) (auto simp: lines_after_def)
qed

section \<open>The interrupt handler\<close>

text \<open>
  The state the handler works on: device registers, the frame counter, the text sent to the serial
  port, and whatever the drivers it calls keep. The \<open>t\<close>-th call of \<open>irq_pending\<close> sees the pending
  registers \<open>pend t\<close>.
\<close>

record 'w irq_state =
  regs :: mmio
  tick_counter :: u32
  printed :: "u8 list"
  drivers :: 'w

record 'w irq_hooks =
  audio_queue :: "'w \<Rightarrow> 'w"
  codec_fiq :: "'w \<Rightarrow> 'w"
  usb_hcd_isr :: "nat \<Rightarrow> 'w \<Rightarrow> 'w"
  vblank_hook :: "'w \<Rightarrow> 'w"

definition eint_text :: "string \<Rightarrow> u32 \<Rightarrow> u8 list" where
  "eint_text msg v = str msg @ dec_text (unat v) @ str '' triggered!'' @ [13, 10]"

definition eint :: "string \<Rightarrow> u32 \<Rightarrow> 'w irq_state \<Rightarrow> 'w irq_state" where
  "eint msg base s = s\<lparr>printed := printed s @ eint_text msg (regs s (status_reg base)), regs := gpio_irq_ack base (regs s)\<rparr>"

definition drive :: "('w \<Rightarrow> 'w) \<Rightarrow> 'w irq_state \<Rightarrow> 'w irq_state" where
  "drive f s = s\<lparr>drivers := f (drivers s)\<rparr>"

definition frame_done :: "'w irq_hooks \<Rightarrow> u32 \<Rightarrow> 'w irq_state \<Rightarrow> 'w irq_state" where
  "frame_done h gint s =
     drive (vblank_hook h) (s\<lparr>tick_counter := tick_counter s + 1, regs := reg_clear gint (push_bit 14 1) (regs s)\<rparr>)"

definition on_irq :: "bool \<Rightarrow> ('s \<Rightarrow> 's) \<Rightarrow> 's \<Rightarrow> 's" where
  "on_irq b f s = (if b then f s else s)"

definition interrupt :: "'w irq_hooks \<Rightarrow> (nat \<Rightarrow> u32 list) \<Rightarrow> 'w irq_state \<Rightarrow> 'w irq_state" where
  "interrupt h pend s =
     (let s1 = on_irq (irq_pending (pend 0) 43) (eint ''Interrupt source '' PA_EINT_BASE) s;
          s2 = on_irq (irq_pending (pend 1) 45) (drive (audio_queue h)) s1;
          s3 = on_irq (irq_pending (pend 2) 46) (drive (audio_queue h)) s2;
          s4 = on_irq (irq_pending (pend 3) 47) (drive (audio_queue h)) s3;
          s5 = on_irq (irq_pending (pend 4) 49) (eint ''Interrupt pin '' PG_EINT_BASE) s4;
          s6 = on_irq (irq_pending (pend 5) 77) (eint ''Interrupt pin '' R_PL_EINT_BASE) s5;
          s7 = on_irq (irq_pending (pend 6) 82) (drive (codec_fiq h)) s6;
          s8 = on_irq (irq_pending (pend 7) 107) (drive (usb_hcd_isr h 1)) s7;
          s9 = on_irq (irq_pending (pend 8) 109) (drive (usb_hcd_isr h 2)) s8;
          s10 = on_irq (irq_pending (pend 9) 111) (drive (usb_hcd_isr h 3)) s9;
          s11 = on_irq (irq_pending (pend 10) 118) (frame_done h LCD0_GINT0) s10
      in on_irq (irq_pending (pend 11) 119) (frame_done h LCD1_GINT0) s11)"

lemma on_irq_sel:
  "regs (on_irq b (drive f) s) = regs s" "tick_counter (on_irq b (drive f) s) = tick_counter s"
  "regs (on_irq b (eint msg base) s) = (if b then gpio_irq_ack base (regs s) else regs s)"
  "tick_counter (on_irq b (eint msg base) s) = tick_counter s"
  "regs (on_irq b (frame_done h gint) s) = (if b then reg_clear gint (push_bit 14 1) (regs s) else regs s)"
  "tick_counter (on_irq b (frame_done h gint) s) = tick_counter s + of_bool b"
  by (simp_all add: on_irq_def drive_def eint_def frame_done_def)

lemma gpio_irq_ack_apply: "gpio_irq_ack base m a = (if a = status_reg base then 0 else m a)"
  by (simp add: gpio_irq_ack_def status_store_def)

lemma reg_clear_apply: "reg_clear r v m a = (if a = r then m a AND NOT v else m a)"
  by (simp add: reg_clear_def)

lemma eint_addresses:
  "status_reg PA_EINT_BASE = 0x01C20A14" "status_reg PG_EINT_BASE = 0x01C20A34" "status_reg R_PL_EINT_BASE = 0x01F02E14"
  "LCD0_GINT0 = 0x01C0C004" "LCD1_GINT0 = 0x01C0D004"
  by (simp_all add: status_reg_def addr_defs)

section \<open>Properties\<close>


definition gic0 :: gic where
  "gic0 = \<lparr>gicd_ctlr = 0, igroupr = replicate 32 0xffffffff, enable_bits = replicate 32 0, ipriorityr = replicate 1024 0,
     itargetsr = replicate 1024 0, gicc_ctlr = 0, gicc_pmr = 0\<rparr>"



definition pend0 :: "u32 list" where
  "pend0 = [0, 0x800, 0, 0x400000]"

definition hooks0 :: "nat irq_hooks" where
  "hooks0 = \<lparr>audio_queue = id, codec_fiq = id, usb_hcd_isr = (\<lambda>_. id), vblank_hook = Suc\<rparr>"

definition irq_state0 :: "nat irq_state" where
  "irq_state0 = \<lparr>regs = (\<lambda>_. 0xffffffff), tick_counter = 41, printed = [], drivers = 0\<rparr>"


end
