(* ===== verification/Rtc.thy ===== *)
theory Rtc
  imports Prelude
begin

text \<open>
  The real-time clock (\<^verbatim>\<open>rtc.c\<close>): packing of date, time and weekday into two registers. The control
  register tells when a write has arrived in the slow clock domain; it is a sequence of values, so the
  waiting loops may not end.
\<close>

section \<open>State and operations\<close>

record rtc =
  RTC_YY_MM_DD :: u32
  RTC_HH_MM_SS :: u32
  RTC_LOSC_CTRL :: "nat \<Rightarrow> u32"
  losc_reads :: nat

definition time_written :: "u32 \<Rightarrow> bool" where "time_written v = (v AND push_bit 8 1 = 0)"
definition date_written :: "u32 \<Rightarrow> bool" where "date_written v = (v AND push_bit 7 1 = 0)"

definition wait_for_time_write :: "rtc \<Rightarrow> rtc option" where
  "wait_for_time_write r = map_option (\<lambda>t. r\<lparr>losc_reads := t\<rparr>) (poll (RTC_LOSC_CTRL r) time_written (losc_reads r))"

definition wait_for_date_write :: "rtc \<Rightarrow> rtc option" where
  "wait_for_date_write r = map_option (\<lambda>t. r\<lparr>losc_reads := t\<rparr>) (poll (RTC_LOSC_CTRL r) date_written (losc_reads r))"

text \<open>The new contents of a register: the fields written, and the bits of the old contents that are kept.\<close>

definition pack_date :: "u32 \<Rightarrow> int \<Rightarrow> int \<Rightarrow> int \<Rightarrow> u32" where
  "pack_date old day month year =
     (old AND push_bit 22 1) OR
     push_bit 16 (word_of_int (year - 2000) AND 0x3f) OR
     push_bit 8 (word_of_int month AND 0x0f) OR
     push_bit 0 (word_of_int day AND 0x1f)"

definition pack_weekday :: "u32 \<Rightarrow> int \<Rightarrow> u32" where
  "pack_weekday old wday = (old AND 0x1fffffff) OR push_bit 29 (word_of_int wday AND 0x7)"

definition pack_time :: "u32 \<Rightarrow> int \<Rightarrow> int \<Rightarrow> int \<Rightarrow> u32" where
  "pack_time old hour minute second =
     (old AND push_bit 29 7) OR
     push_bit 16 (word_of_int hour AND 0x1f) OR
     push_bit 8 (word_of_int minute AND 0x3f) OR
     push_bit 0 (word_of_int second AND 0x3f)"

definition rtc_set_date :: "int \<Rightarrow> int \<Rightarrow> int \<Rightarrow> rtc \<Rightarrow> rtc option" where
  "rtc_set_date day month year r =
     wait_for_date_write (r\<lparr>RTC_YY_MM_DD := pack_date (RTC_YY_MM_DD r) day month year\<rparr>)"

definition rtc_set_weekday :: "int \<Rightarrow> rtc \<Rightarrow> rtc option" where
  "rtc_set_weekday wday r = wait_for_time_write (r\<lparr>RTC_HH_MM_SS := pack_weekday (RTC_HH_MM_SS r) wday\<rparr>)"

definition rtc_set_time :: "int \<Rightarrow> int \<Rightarrow> int \<Rightarrow> rtc \<Rightarrow> rtc option" where
  "rtc_set_time hour minute second r =
     wait_for_time_write (r\<lparr>RTC_HH_MM_SS := pack_time (RTC_HH_MM_SS r) hour minute second\<rparr>)"

definition rtc_get_year :: "rtc \<Rightarrow> int" where
  "rtc_get_year r = uint (drop_bit 16 (RTC_YY_MM_DD r) AND 0x3f) + 2000"
definition rtc_get_month :: "rtc \<Rightarrow> int" where
  "rtc_get_month r = uint (drop_bit 8 (RTC_YY_MM_DD r) AND 0x0f)"
definition rtc_get_day :: "rtc \<Rightarrow> int" where
  "rtc_get_day r = uint (drop_bit 0 (RTC_YY_MM_DD r) AND 0x1f)"
definition rtc_get_weekday :: "rtc \<Rightarrow> int" where
  "rtc_get_weekday r = uint (drop_bit 29 (RTC_HH_MM_SS r))"
definition rtc_get_hour :: "rtc \<Rightarrow> int" where
  "rtc_get_hour r = uint (drop_bit 16 (RTC_HH_MM_SS r) AND 0x1f)"
definition rtc_get_minute :: "rtc \<Rightarrow> int" where
  "rtc_get_minute r = uint (drop_bit 8 (RTC_HH_MM_SS r) AND 0x3f)"
definition rtc_get_second :: "rtc \<Rightarrow> int" where
  "rtc_get_second r = uint (drop_bit 0 (RTC_HH_MM_SS r) AND 0x3f)"

lemmas rtc_get_defs = rtc_get_year_def rtc_get_month_def rtc_get_day_def rtc_get_weekday_def rtc_get_hour_def
  rtc_get_minute_def rtc_get_second_def

section \<open>Fields\<close>

lemma field_masks:
  "(0x1f::u32) = mask 5" "(0x3f::u32) = mask 6" "(0x0f::u32) = mask 4" "(0x7::u32) = mask 3"
  "(0x1fffffff::u32) = mask 29" "(1::u32) = mask 1"
  by (simp_all add: mask_numeral)

lemma bit_single: "bit (push_bit n 1 :: u32) i \<longleftrightarrow> i = n \<and> n < 32"
  by (auto simp: bit_simps)

text \<open>What each getter reads from the register a setter wrote.\<close>

lemma date_fields:
  "drop_bit 16 (pack_date old d m y) AND 0x3f = word_of_int (y - 2000) AND 0x3f"
  "drop_bit 8 (pack_date old d m y) AND 0x0f = word_of_int m AND 0x0f"
  "drop_bit 0 (pack_date old d m y) AND 0x1f = word_of_int d AND 0x1f"
  "pack_date old d m y AND push_bit 22 1 = old AND push_bit 22 1"
proof -
  define p :: u32 where "p = push_bit 22 1"
  have p: "bit p i \<longleftrightarrow> i = 22" for i unfolding p_def bit_single by auto
  define y' :: u32 where "y' = word_of_int (y - 2000)"
  define m' :: u32 where "m' = word_of_int m"
  define d' :: u32 where "d' = word_of_int d"
  have w: "pack_date old d m y = (old AND p) OR push_bit 16 (y' AND mask 6) OR push_bit 8 (m' AND mask 4) OR push_bit 0 (d' AND mask 5)"
    by (simp only: pack_date_def p_def y'_def m'_def d'_def field_masks)
  show "drop_bit 16 (pack_date old d m y) AND 0x3f = word_of_int (y - 2000) AND 0x3f"
    "drop_bit 8 (pack_date old d m y) AND 0x0f = word_of_int m AND 0x0f"
    "drop_bit 0 (pack_date old d m y) AND 0x1f = word_of_int d AND 0x1f"
    unfolding w field_masks y'_def [symmetric] m'_def [symmetric] d'_def [symmetric]
    by (rule bit_word_eqI; auto simp: bit_simps p)+
  show "pack_date old d m y AND push_bit 22 1 = old AND push_bit 22 1"
    unfolding w p_def [symmetric] by (rule bit_word_eqI) (auto simp: bit_simps p)
qed

lemma time_fields:
  "drop_bit 16 (pack_time old h m s) AND 0x1f = word_of_int h AND 0x1f"
  "drop_bit 8 (pack_time old h m s) AND 0x3f = word_of_int m AND 0x3f"
  "drop_bit 0 (pack_time old h m s) AND 0x3f = word_of_int s AND 0x3f"
  "drop_bit 29 (pack_time old h m s) = drop_bit 29 old"
  unfolding pack_time_def field_masks by (rule bit_word_eqI; auto simp: bit_simps dest: bit_imp_le_length)+

lemma weekday_fields:
  "drop_bit 29 (pack_weekday old d) = word_of_int d AND 0x7"
  "drop_bit 16 (pack_weekday old d) AND 0x1f = drop_bit 16 old AND 0x1f"
  "drop_bit 8 (pack_weekday old d) AND 0x3f = drop_bit 8 old AND 0x3f"
  "drop_bit 0 (pack_weekday old d) AND 0x3f = drop_bit 0 old AND 0x3f"
  unfolding pack_weekday_def field_masks by (rule bit_word_eqI; auto simp: bit_simps)+

lemma uint_and_mask: "uint (word_of_int k AND mask n :: u32) = k mod 2 ^ min n 32"
proof -
  have u: "uint (word_of_int k :: u32) = take_bit 32 k" by (simp add: take_bit_eq_mod uint_word_of_int)
  have "uint (word_of_int k AND mask n :: u32) = take_bit n (uint (word_of_int k :: u32))"
    by (simp only: take_bit_eq_mask [symmetric] unsigned_take_bit_eq)
  also have "\<dots> = take_bit (min n 32) k" by (simp only: u take_bit_take_bit)
  finally show ?thesis by (simp only: take_bit_eq_mod)
qed

lemma field_value: "0 \<le> k \<Longrightarrow> k < 2 ^ n \<Longrightarrow> n \<le> 32 \<Longrightarrow> uint (word_of_int k AND mask n :: u32) = k"
  by (simp add: uint_and_mask min_def)

text \<open>A setter returns as soon as the control register shows, at some later read, that the write arrived.\<close>

lemma wait_for_date_write_returns:
  assumes "\<exists>k \<ge> losc_reads r. date_written (RTC_LOSC_CTRL r k)"
  shows "\<exists>t. wait_for_date_write r = Some (r\<lparr>losc_reads := t\<rparr>)"
proof -
  obtain t where "poll (RTC_LOSC_CTRL r) date_written (losc_reads r) = Some t" using assms poll_returns_iff by meson
  then show ?thesis by (auto simp: wait_for_date_write_def)
qed

lemma wait_for_time_write_returns:
  assumes "\<exists>k \<ge> losc_reads r. time_written (RTC_LOSC_CTRL r k)"
  shows "\<exists>t. wait_for_time_write r = Some (r\<lparr>losc_reads := t\<rparr>)"
proof -
  obtain t where "poll (RTC_LOSC_CTRL r) time_written (losc_reads r) = Some t" using assms poll_returns_iff by meson
  then show ?thesis by (auto simp: wait_for_time_write_def)
qed

section \<open>Properties\<close>

text \<open>C26. The date reads back: once the clock reports that the write has arrived, \<open>rtc_set_date\<close> returns, and for a day
  below 32, a month below 16 and a year from 2000 to 2063 the three getters return what was set; the leap-year bit and
  the time register are as before.\<close>

theorem rtc_date_round_trip:
  assumes "0 \<le> day" "day < 32" "0 \<le> month" "month < 16" "2000 \<le> year" "year < 2064"
    and "\<exists>k \<ge> losc_reads r. date_written (RTC_LOSC_CTRL r k)"
  shows "\<exists>r'. rtc_set_date day month year r = Some r' \<and> rtc_get_day r' = day \<and> rtc_get_month r' = month \<and>
    rtc_get_year r' = year \<and> RTC_YY_MM_DD r' AND push_bit 22 1 = RTC_YY_MM_DD r AND push_bit 22 1 \<and>
    RTC_HH_MM_SS r' = RTC_HH_MM_SS r"
proof -
  let ?w = "pack_date (RTC_YY_MM_DD r) day month year"
  obtain t where t: "rtc_set_date day month year r = Some (r\<lparr>RTC_YY_MM_DD := ?w, losc_reads := t\<rparr>)"
    using wait_for_date_write_returns [of "r\<lparr>RTC_YY_MM_DD := ?w\<rparr>"] assms(7) by (auto simp: rtc_set_date_def)
  have v: "uint (word_of_int (year - 2000) AND 0x3f :: u32) = year - 2000" "uint (word_of_int month AND 0x0f :: u32) = month"
    "uint (word_of_int day AND 0x1f :: u32) = day"
    unfolding field_masks using assms by (intro field_value; simp)+
  show ?thesis
    by (rule exI, rule conjI [OF t]) (simp add: rtc_get_defs date_fields [simplified] v [simplified])
qed

definition rtc0 :: rtc where
  "rtc0 = \<lparr>RTC_YY_MM_DD = 0, RTC_HH_MM_SS = 0, RTC_LOSC_CTRL = (\<lambda>t. if t < 5 then 0x180 else 0), losc_reads = 0\<rparr>"

theorem rtc_date_round_trip_witness:
  "\<exists>r'. rtc_set_date 29 2 2024 rtc0 = Some r' \<and> rtc_get_day r' = 29 \<and> rtc_get_month r' = 2 \<and> rtc_get_year r' = 2024"
proof -
  have "\<exists>k \<ge> losc_reads rtc0. date_written (RTC_LOSC_CTRL rtc0 k)"
    by (rule exI [of _ 5]) (simp add: rtc0_def date_written_def)
  from rtc_date_round_trip [OF _ _ _ _ _ _ this, of 29 2 2024] show ?thesis by auto
qed

text \<open>Time and weekday share a register and do not disturb each other: \<open>rtc_set_time\<close> returns and reads back for hours
  below 32, minutes and seconds below 64, keeping the weekday; \<open>rtc_set_weekday\<close> reads back for days below 8, keeping the time.\<close>

theorem rtc_time_round_trip:
  assumes "0 \<le> h" "h < 32" "0 \<le> m" "m < 64" "0 \<le> s" "s < 64" "0 \<le> wd" "wd < 8"
    and "\<exists>k \<ge> losc_reads r. time_written (RTC_LOSC_CTRL r k)"
  shows "(\<exists>r'. rtc_set_time h m s r = Some r' \<and> rtc_get_hour r' = h \<and> rtc_get_minute r' = m \<and> rtc_get_second r' = s \<and>
      rtc_get_weekday r' = rtc_get_weekday r) \<and>
    (\<exists>r'. rtc_set_weekday wd r = Some r' \<and> rtc_get_weekday r' = wd \<and> rtc_get_hour r' = rtc_get_hour r \<and>
      rtc_get_minute r' = rtc_get_minute r \<and> rtc_get_second r' = rtc_get_second r)"
proof -
  let ?w = "pack_time (RTC_HH_MM_SS r) h m s" and ?d = "pack_weekday (RTC_HH_MM_SS r) wd"
  obtain t where t: "rtc_set_time h m s r = Some (r\<lparr>RTC_HH_MM_SS := ?w, losc_reads := t\<rparr>)"
    using wait_for_time_write_returns [of "r\<lparr>RTC_HH_MM_SS := ?w\<rparr>"] assms(9) by (auto simp: rtc_set_time_def)
  obtain u where u: "rtc_set_weekday wd r = Some (r\<lparr>RTC_HH_MM_SS := ?d, losc_reads := u\<rparr>)"
    using wait_for_time_write_returns [of "r\<lparr>RTC_HH_MM_SS := ?d\<rparr>"] assms(9) by (auto simp: rtc_set_weekday_def)
  have v: "uint (word_of_int h AND 0x1f :: u32) = h" "uint (word_of_int m AND 0x3f :: u32) = m"
    "uint (word_of_int s AND 0x3f :: u32) = s" "uint (word_of_int wd AND 0x7 :: u32) = wd"
    unfolding field_masks using assms by (intro field_value; simp)+
  have "\<exists>r'. rtc_set_time h m s r = Some r' \<and> rtc_get_hour r' = h \<and> rtc_get_minute r' = m \<and> rtc_get_second r' = s \<and>
      rtc_get_weekday r' = rtc_get_weekday r"
    by (rule exI, rule conjI [OF t]) (simp add: rtc_get_defs time_fields [simplified] v [simplified])
  moreover have "\<exists>r'. rtc_set_weekday wd r = Some r' \<and> rtc_get_weekday r' = wd \<and> rtc_get_hour r' = rtc_get_hour r \<and>
      rtc_get_minute r' = rtc_get_minute r \<and> rtc_get_second r' = rtc_get_second r"
    by (rule exI, rule conjI [OF u]) (simp add: rtc_get_defs weekday_fields [simplified] v [simplified])
  ultimately show ?thesis ..
qed

theorem rtc_time_round_trip_witness:
  "\<exists>r'. rtc_set_time 23 59 58 rtc0 = Some r' \<and> rtc_get_hour r' = 23 \<and> rtc_get_minute r' = 59 \<and> rtc_get_second r' = 58"
proof -
  have "\<exists>k \<ge> losc_reads rtc0. time_written (RTC_LOSC_CTRL rtc0 k)"
    by (rule exI [of _ 5]) (simp add: rtc0_def time_written_def)
  from rtc_time_round_trip [OF _ _ _ _ _ _ _ _ this, of 23 59 58 1] show ?thesis by auto
qed

end
