(* ===== verification/System.thy ===== *)
theory System
  imports Mmio Rtc
begin

text \<open>
  Delays, the system timer, the CPU clock (\<^verbatim>\<open>system.c\<close>) and the time of day of the C library
  (\<^verbatim>\<open>_gettimeofday_r\<close> of \<^verbatim>\<open>libc_io.c\<close>). The counter of the ARM architected timer and the frame counter
  are sequences of values, indexed by the reads the code makes.
\<close>

section \<open>Start-up and delays\<close>

fun clear_loop :: "nat \<Rightarrow> u32 \<Rightarrow> mem \<Rightarrow> mem" where
  "clear_loop 0 dst m = m"
| "clear_loop (Suc n) dst m = clear_loop n (dst + 1) (m(dst := 0))"

text \<open>The four linker symbols are the bounds of the two parts of the uninitialised data.\<close>

definition init_bss :: "u32 \<Rightarrow> u32 \<Rightarrow> u32 \<Rightarrow> u32 \<Rightarrow> mem \<Rightarrow> mem" where
  "init_bss bstart1 bend1 bstart2 bend2 m =
     clear_loop (unat bend2 - unat bstart2) bstart2 (clear_loop (unat bend1 - unat bstart1) bstart1 m)"

text \<open>The loop executes one \<open>NOP\<close> per iteration; its bound is computed in 32 bits.\<close>

definition udelay :: "u32 \<Rightarrow> nat" where
  "udelay d = unat (d * 200)"

section \<open>Timer\<close>

record sys_timer =
  sys_freq :: u32
  sys_per_usec :: u32

definition sys_get_tick :: "u32 \<Rightarrow> u32 \<Rightarrow> u64" where
  "sys_get_tick low high = push_bit 32 (ucast high) OR ucast low"

text \<open>\<open>None\<close> is a division by zero, before the timer has been calibrated.\<close>

definition sys_get_usec :: "sys_timer \<Rightarrow> u64 \<Rightarrow> u64 option" where
  "sys_get_usec t tick = (if sys_per_usec t = 0 then None else Some (tick div ucast (sys_per_usec t)))"

definition sys_get_msec :: "sys_timer \<Rightarrow> u64 \<Rightarrow> u64 option" where
  "sys_get_msec t tick = (if sys_per_usec t = 0 then None else Some (tick div ucast (sys_per_usec t) div 1000))"

text \<open>
  \<open>frames r\<close> is the frame counter at the \<open>r\<close>-th read, \<open>ticks r\<close> the timer read just after
  \<open>r\<close> reads of it. Two waits for the next frame give the ticks of one frame at 60 Hz.
\<close>

definition sys_init_timer :: "(nat \<Rightarrow> u32) \<Rightarrow> (nat \<Rightarrow> u64) \<Rightarrow> sys_timer option" where
  "sys_init_timer frames ticks =
     (case poll frames (\<lambda>v. v \<noteq> frames 0) 1 of
        None \<Rightarrow> None
      | Some r1 \<Rightarrow>
          (case poll frames (\<lambda>v. v \<noteq> frames r1) (Suc r1) of
             None \<Rightarrow> None
           | Some r2 \<Rightarrow>
               (let freq = ucast ((ticks r2 - ticks r1) * 60)
                in Some \<lparr>sys_freq = freq, sys_per_usec = freq div 1000000\<rparr>)))"

section \<open>CPU clock\<close>

definition SYS_CPU_MULTIPLIER_MIN :: int where "SYS_CPU_MULTIPLIER_MIN = 1"
definition SYS_CPU_MULTIPLIER_MAX :: int where "SYS_CPU_MULTIPLIER_MAX = 108"

definition clamp_factor :: "int \<Rightarrow> nat" where
  "clamp_factor factor =
     nat (if factor > SYS_CPU_MULTIPLIER_MAX then SYS_CPU_MULTIPLIER_MAX
          else if factor < SYS_CPU_MULTIPLIER_MIN then SYS_CPU_MULTIPLIER_MIN else factor)"

function factor_loop :: "nat \<Rightarrow> nat \<Rightarrow> nat \<Rightarrow> nat \<times> nat" where
  "factor_loop factor factor_n factor_k =
     (if factor_n > 32 then factor_loop factor (factor div (factor_k + 1)) (factor_k + 1) else (factor_n, factor_k))"
  by pat_completeness auto

termination factor_loop
proof (relation "measure (\<lambda>(f, n, k). if n \<le> 32 then 0 else Suc (f - k))")
  fix f n k :: nat assume n: "32 < n"
  have "f - Suc k < f - k" if "32 < f div Suc k"
  proof -
    have "k < f" using that by (metis Suc_lessD div_less not_less_eq not_less_zero not_less_iff_gr_or_eq)
    then show ?thesis by simp
  qed
  with n show "((f, f div (k + 1), k + 1), (f, n, k)) \<in> measure (\<lambda>(f, n, k). if n \<le> 32 then 0 else Suc (f - k))" by auto
qed simp

declare factor_loop.simps [simp del]

definition PLL_CPUX_FACTOR_K_MASK :: u32 where "PLL_CPUX_FACTOR_K_MASK = 0x30"
definition PLL_CPUX_FACTOR_N_MASK :: u32 where "PLL_CPUX_FACTOR_N_MASK = 0x1f00"

definition sys_set_cpu_multiplier :: "int \<Rightarrow> mmio \<Rightarrow> mmio" where
  "sys_set_cpu_multiplier factor m =
     (let (n, k) = factor_loop (clamp_factor factor) (clamp_factor factor) 1
      in reg_write PLL_CPUX_CTRL
           ((m PLL_CPUX_CTRL AND NOT (PLL_CPUX_FACTOR_K_MASK OR PLL_CPUX_FACTOR_N_MASK)) OR
            push_bit 8 (of_nat (n - 1)) OR push_bit 4 (of_nat (k - 1))) m)"

section \<open>Time of day\<close>

record tm =
  tm_sec :: int
  tm_min :: int
  tm_hour :: int
  tm_mday :: int
  tm_mon :: int
  tm_year :: int

text \<open>
  \<open>mktime\<close> of the C library in UTC: \<open>tm_mon\<close> counts from 0 and is brought into 0 to 11 first,
  \<open>tm_year\<close> counts from 1900.
\<close>

definition leap :: "int \<Rightarrow> bool" where
  "leap y \<longleftrightarrow> y mod 4 = 0 \<and> (y mod 100 \<noteq> 0 \<or> y mod 400 = 0)"

definition days_before_month :: "int \<Rightarrow> int \<Rightarrow> int" where
  "days_before_month y mon =
     [0, 31, 59, 90, 120, 151, 181, 212, 243, 273, 304, 334] ! nat mon + (if mon \<ge> 2 \<and> leap y then 1 else 0)"

definition days_before_year :: "int \<Rightarrow> int" where
  "days_before_year y = 365 * (y - 1970) + ((y - 1) div 4 - 492) - ((y - 1) div 100 - 19) + ((y - 1) div 400 - 4)"

definition mktime :: "tm \<Rightarrow> int" where
  "mktime t =
     (let y = tm_year t + 1900 + tm_mon t div 12; mon = tm_mon t mod 12
      in (days_before_year y + days_before_month y mon + (tm_mday t - 1)) * 86400 + tm_hour t * 3600 + tm_min t * 60 + tm_sec t)"

text \<open>
  \<open>timeoff\<close> is set at the first call and kept. \<open>us1\<close> and \<open>us2\<close> are the two values of
  \<open>sys_get_usec ()\<close> the call reads.
\<close>

definition rtc_tm :: "rtc \<Rightarrow> tm" where
  "rtc_tm r = \<lparr>tm_sec = rtc_get_second r, tm_min = rtc_get_minute r, tm_hour = rtc_get_hour r,
     tm_mday = rtc_get_day r, tm_mon = rtc_get_month r, tm_year = rtc_get_year r - 1900\<rparr>"

definition gettimeofday_r :: "rtc \<Rightarrow> u64 \<Rightarrow> u64 \<Rightarrow> u64 \<Rightarrow> (u64 \<times> u64) \<times> u64" where
  "gettimeofday_r r us1 us2 timeoff =
     (let timeoff' = (if timeoff = 0 then word_of_int (mktime (rtc_tm r) * 1000000) - us1 else timeoff);
          us = us2 + timeoff'
      in ((us div 1000000, us mod 1000000), timeoff'))"

section \<open>Lemmas\<close>

lemma clear_loop_store: "clear_loop n a m = store_bytes m a (replicate n 0)"
  by (induction n arbitrary: a m) auto

lemma init_bss_clears:
  assumes "bstart1 \<le> x \<and> x < bend1 \<or> bstart2 \<le> x \<and> x < bend2"
  shows "init_bss bstart1 bend1 bstart2 bend2 m x = 0"
proof -
  have sub: "unat (x - a) = unat x - unat a" if "a \<le> x" for a :: u32
    using that by (simp add: unat_sub)
  have len: "unat b - unat a \<le> 2 ^ 32" for a b :: u32
    using unsigned_less [of b, where ?'a = nat] by simp
  have in_range: "unat (x - a) < unat b - unat a" if "a \<le> x" "x < b" for a b :: u32
    using that sub [OF that(1)] by (simp add: word_less_nat_alt word_le_nat_alt)
  from assms show ?thesis
    using in_range len by (auto simp: init_bss_def clear_loop_store store_bytes_apply)
qed

lemma factor_loop_all:
  "list_all (\<lambda>f. let (n, k) = factor_loop f f 1
     in 1 \<le> n \<and> n \<le> 32 \<and> 1 \<le> k \<and> k \<le> 4 \<and> n * k \<le> f \<and> f < n * k + k) [1..<109]"
  by code_simp

lemma factor_loop_bounds:
  assumes "1 \<le> f" and "f \<le> 108" and "factor_loop f f 1 = (n, k)"
  shows "1 \<le> n" "n \<le> 32" "1 \<le> k" "k \<le> 4" "n * k \<le> f" "f < n * k + k"
proof -
  have "f \<in> set [1..<109]" using assms(1,2) by simp
  with factor_loop_all assms(3) have "1 \<le> n \<and> n \<le> 32 \<and> 1 \<le> k \<and> k \<le> 4 \<and> n * k \<le> f \<and> f < n * k + k"
    unfolding list_all_iff by fastforce
  then show "1 \<le> n" "n \<le> 32" "1 \<le> k" "k \<le> 4" "n * k \<le> f" "f < n * k + k" by auto
qed

lemma clamp_factor_range: "1 \<le> clamp_factor f" "clamp_factor f \<le> 108"
  by (auto simp: clamp_factor_def SYS_CPU_MULTIPLIER_MAX_def SYS_CPU_MULTIPLIER_MIN_def)

lemma pll_fields:
  fixes old n k :: u32
  defines "w \<equiv> (old AND NOT (push_bit 4 (mask 2) OR push_bit 8 (mask 5))) OR push_bit 8 n OR push_bit 4 k"
  assumes n: "n AND mask 5 = n" and k: "k AND mask 2 = k"
  shows "drop_bit 8 w AND mask 5 = n" and "drop_bit 4 w AND mask 2 = k"
    and "w AND NOT (push_bit 4 (mask 2) OR push_bit 8 (mask 5)) = old AND NOT (push_bit 4 (mask 2) OR push_bit 8 (mask 5))"
proof -
  have bn: "bit n i \<Longrightarrow> i < 5" for i using n by (metis bit_and_iff bit_mask_iff)
  have bk: "bit k i \<Longrightarrow> i < 2" for i using k by (metis bit_and_iff bit_mask_iff)
  show "drop_bit 8 w AND mask 5 = n" "drop_bit 4 w AND mask 2 = k"
    "w AND NOT (push_bit 4 (mask 2) OR push_bit 8 (mask 5)) = old AND NOT (push_bit 4 (mask 2) OR push_bit 8 (mask 5))"
    unfolding w_def
    by (rule bit_word_eqI; auto simp: bit_simps dest: bn bk)+
qed

section \<open>Properties\<close>

text \<open>The CPU clock never runs faster than asked for: for every requested factor the loop ends with an N of 1 to 32 and a K of 1
  to 4, both stored minus one in their register fields, whose product is at most the factor clamped to 1..108 and less than K short of
  it; the other bits of the PLL register and all other registers are unchanged.\<close>

theorem sys_set_cpu_multiplier_correct:
  "\<exists>n k. 1 \<le> n \<and> n \<le> 32 \<and> 1 \<le> k \<and> k \<le> 4 \<and> n * k \<le> clamp_factor factor \<and> clamp_factor factor < n * k + k \<and>
     unat (drop_bit 8 (sys_set_cpu_multiplier factor m PLL_CPUX_CTRL) AND mask 5) = n - 1 \<and>
     unat (drop_bit 4 (sys_set_cpu_multiplier factor m PLL_CPUX_CTRL) AND mask 2) = k - 1 \<and>
     sys_set_cpu_multiplier factor m PLL_CPUX_CTRL AND NOT (PLL_CPUX_FACTOR_K_MASK OR PLL_CPUX_FACTOR_N_MASK) =
       m PLL_CPUX_CTRL AND NOT (PLL_CPUX_FACTOR_K_MASK OR PLL_CPUX_FACTOR_N_MASK) \<and>
     (sys_set_cpu_multiplier factor m)(PLL_CPUX_CTRL := m PLL_CPUX_CTRL) = m"
proof -
  obtain n k where nk: "factor_loop (clamp_factor factor) (clamp_factor factor) 1 = (n, k)" by fastforce
  note b = factor_loop_bounds [OF clamp_factor_range nk]
  define N :: u32 where "N = of_nat (n - 1)"
  define K :: u32 where "K = of_nat (k - 1)"
  have small: "unat (of_nat j :: u32) = j" if "j < 32" for j using that by (simp add: unat_of_nat)
  have u: "unat N = n - 1" "unat K = k - 1"
    unfolding N_def K_def using b(1-4) by (intro small; simp)+
  have f: "N AND mask 5 = N" "K AND mask 2 = K"
    using u b(1-4) by (simp_all add: take_bit_eq_mask [symmetric] word_unat_eq_iff take_bit_eq_mod unat_mod)
  have masks: "PLL_CPUX_FACTOR_K_MASK = push_bit 4 (mask 2)" "PLL_CPUX_FACTOR_N_MASK = push_bit 8 (mask 5)"
    by (simp_all add: PLL_CPUX_FACTOR_K_MASK_def PLL_CPUX_FACTOR_N_MASK_def mask_numeral)
  have w: "sys_set_cpu_multiplier factor m = reg_write PLL_CPUX_CTRL
      ((m PLL_CPUX_CTRL AND NOT (push_bit 4 (mask 2) OR push_bit 8 (mask 5))) OR push_bit 8 N OR push_bit 4 K) m"
    by (simp only: sys_set_cpu_multiplier_def nk masks N_def K_def prod.case Let_def or.assoc)
  show ?thesis
    by (intro exI [of _ n] exI [of _ k])
       (use b u pll_fields [OF f, of "m PLL_CPUX_CTRL"] in \<open>simp only: w masks reg_write_same\<close>, simp add: reg_write_def)
qed

lemma month_lengths:
  assumes "1 \<le> m" and "m \<le> 11"
  shows "days_before_month y (m - 1) + 28 \<le> days_before_month y m"
proof -
  have "m = 1 \<or> m = 2 \<or> m = 3 \<or> m = 4 \<or> m = 5 \<or> m = 6 \<or> m = 7 \<or> m = 8 \<or> m = 9 \<or> m = 10 \<or> m = 11"
    using assms by presburger
  then show ?thesis by (auto simp: days_before_month_def)
qed

lemma rtc_ranges:
  "2000 \<le> rtc_get_year r" "rtc_get_year r \<le> 2063" "0 \<le> rtc_get_day r" "rtc_get_day r \<le> 31"
  "0 \<le> rtc_get_hour r" "rtc_get_hour r \<le> 31" "0 \<le> rtc_get_minute r" "rtc_get_minute r \<le> 63"
  "0 \<le> rtc_get_second r" "rtc_get_second r \<le> 63" "0 \<le> rtc_get_month r" "rtc_get_month r \<le> 15"
proof -
  have le: "uint (w AND mask n :: u32) < 2 ^ n" for w n by (rule and_mask_lt_2p)
  show "rtc_get_year r \<le> 2063" using le [of "drop_bit 16 (RTC_YY_MM_DD r)" 6] by (simp add: rtc_get_year_def mask_numeral)
  show "rtc_get_day r \<le> 31" using le [of "RTC_YY_MM_DD r" 5] by (simp add: rtc_get_day_def mask_numeral)
  show "rtc_get_month r \<le> 15" using le [of "drop_bit 8 (RTC_YY_MM_DD r)" 4] by (simp add: rtc_get_month_def mask_numeral)
  show "rtc_get_hour r \<le> 31" using le [of "drop_bit 16 (RTC_HH_MM_SS r)" 5] by (simp add: rtc_get_hour_def mask_numeral)
  show "rtc_get_minute r \<le> 63" using le [of "drop_bit 8 (RTC_HH_MM_SS r)" 6] by (simp add: rtc_get_minute_def mask_numeral)
  show "rtc_get_second r \<le> 63" using le [of "RTC_HH_MM_SS r" 6] by (simp add: rtc_get_second_def mask_numeral)
qed (simp_all add: rtc_get_defs)


text \<open>The seconds since 1970 that the clock can show, in the range where the microseconds fit in 64 bits.\<close>

lemma mktime_range:
  assumes "1 \<le> rtc_get_month r" and "rtc_get_month r \<le> 11"
  shows "0 \<le> mktime (rtc_tm r)" and "mktime (rtc_tm r) < 10 ^ 10"
proof -
  have m: "rtc_get_month r div 12 = 0" "rtc_get_month r mod 12 = rtc_get_month r" using assms by auto
  have "rtc_get_month r = 1 \<or> rtc_get_month r = 2 \<or> rtc_get_month r = 3 \<or> rtc_get_month r = 4 \<or> rtc_get_month r = 5 \<or>
     rtc_get_month r = 6 \<or> rtc_get_month r = 7 \<or> rtc_get_month r = 8 \<or> rtc_get_month r = 9 \<or> rtc_get_month r = 10 \<or>
     rtc_get_month r = 11" using assms by presburger
  then have d: "0 \<le> days_before_month y (rtc_get_month r)" "days_before_month y (rtc_get_month r) \<le> 335" for y
    by (auto simp: days_before_month_def)
  have y: "10000 \<le> days_before_year (rtc_get_year r)" "days_before_year (rtc_get_year r) \<le> 36000"
  proof -
    let ?a = "rtc_get_year r - 1"
    have a: "1999 \<le> ?a" "?a \<le> 2062" using rtc_ranges(1,2) [of r] by auto
    have "1999 div 4 \<le> ?a div 4" "?a div 4 \<le> 2062 div 4" "1999 div 100 \<le> ?a div 100" "?a div 100 \<le> 2062 div 100"
      "1999 div 400 \<le> ?a div 400" "?a div 400 \<le> 2062 div 400"
      using a by (intro zdiv_mono1; simp)+
    then show "10000 \<le> days_before_year (rtc_get_year r)" "days_before_year (rtc_get_year r) \<le> 36000"
      using a unfolding days_before_year_def by simp_all
  qed
  show "0 \<le> mktime (rtc_tm r)" "mktime (rtc_tm r) < 10 ^ 10"
    using d [of "rtc_get_year r"] y rtc_ranges [of r] by (simp_all add: mktime_def rtc_tm_def m Let_def)
qed

text \<open>The time of day is at least four weeks ahead of the real-time clock: the months of the clock count from 1 and
  \<open>mktime\<close> expects them from 0, so for any date of January to November the first call reports a time at least 28 days after
  the one the clock shows, with the microseconds that have passed since.\<close>

theorem gettimeofday_month_ahead:
  assumes "1 \<le> rtc_get_month r" and "rtc_get_month r \<le> 11"
  shows "mktime ((rtc_tm r)\<lparr>tm_mon := rtc_get_month r - 1\<rparr>) + 28 * 86400 \<le> uint (fst (fst (gettimeofday_r r us us 0)))"
proof -
  let ?M = "mktime (rtc_tm r)"
  note b = mktime_range [OF assms]
  define w where "w = (word_of_int (?M * 1000000) :: u64)"
  have "uint w = ?M * 1000000"
    unfolding w_def by (subst uint_word_of_int) (use b in simp)
  then have "uint (w div 1000000) = ?M"
    by (simp add: uint_div)
  moreover have "fst (fst (gettimeofday_r r us us 0)) = w div 1000000"
    by (simp add: gettimeofday_r_def Let_def w_def)
  ultimately have t: "uint (fst (fst (gettimeofday_r r us us 0))) = ?M" by simp
  have "rtc_get_month r div 12 = 0" "rtc_get_month r mod 12 = rtc_get_month r"
    "(rtc_get_month r - 1) div 12 = 0" "(rtc_get_month r - 1) mod 12 = rtc_get_month r - 1" using assms by auto
  then have "mktime ((rtc_tm r)\<lparr>tm_mon := rtc_get_month r - 1\<rparr>) + 28 * 86400 \<le> ?M"
    using month_lengths [OF assms, of "rtc_get_year r"] by (simp add: mktime_def rtc_tm_def Let_def)
  with t show ?thesis by simp
qed

theorem gettimeofday_month_ahead_witness:
  "mktime ((rtc_tm (rtc0\<lparr>RTC_YY_MM_DD := 0x180101\<rparr>))\<lparr>tm_mon := 0\<rparr>) + 28 * 86400
     \<le> uint (fst (fst (gettimeofday_r (rtc0\<lparr>RTC_YY_MM_DD := 0x180101\<rparr>) 7 7 0)))"
  using gettimeofday_month_ahead [of "rtc0\<lparr>RTC_YY_MM_DD := 0x180101\<rparr>" 7] by (simp add: rtc_get_month_def)

end
