(* ===== verification/Usb.thy ===== *)
theory Usb
  imports Interrupts System Mmc
begin

text \<open>
  The USB glue (\<^verbatim>\<open>usb.c\<close>) between the tinyusb host stacks, one per controller 1 to 3, the human interface
  devices, and the four USB volumes of the file system; and the disk layer of tinyusb as the build
  compiles it once per controller (\<^verbatim>\<open>tinyusb/lib/fatfs/diskio.c\<close>). The host stacks, the file system and
  the application's hooks are parameters: functions on a state \<open>'w\<close> of their own.
\<close>

section \<open>State\<close>

text \<open>\<open>disk_state h\<close> is the array of the disk layer of controller \<open>h\<close>; \<open>printed\<close> lists the calls of \<open>printf\<close>.\<close>

record usb_drive_t =
  name :: string
  hcd :: nat
  dev_addr :: u8

record 'w usb =
  usb_drives :: "usb_drive_t list"
  disk_state :: "nat \<Rightarrow> u8 list"
  printed :: "(string \<times> int list) list"
  world :: 'w

datatype xfer_result_t = XFER_RESULT_SUCCESS | XFER_RESULT_FAILED | XFER_RESULT_STALLED

record usb_generic_device_t =
  g_hcd :: nat
  g_dev_addr :: u8
  report_desc :: "u8 list"
  report_desc_len :: int
  report_len :: int
  vendor_id :: u16
  product_id :: u16

text \<open>
  What the glue calls. The first argument is the number of the controller whose stack is meant.
  \<open>msc_read10\<close> and \<open>msc_write10\<close> start a transfer; \<open>msc_busy\<close> is what \<open>tuh_msc_is_busy\<close> returns at each
  call until it is done. The result of \<open>msc_read10\<close> includes the words that are then in the buffer.
\<close>

record 'w usb_env =
  tusb_init :: "nat \<Rightarrow> 'w \<Rightarrow> 'w"
  tusb_task :: "nat \<Rightarrow> 'w \<Rightarrow> 'w"
  tuh_keyboard_get_report :: "nat \<Rightarrow> u8 \<Rightarrow> 'w \<Rightarrow> 'w"
  tuh_mouse_get_report :: "nat \<Rightarrow> u8 \<Rightarrow> 'w \<Rightarrow> 'w"
  tuh_generic_get_report :: "nat \<Rightarrow> u8 \<Rightarrow> 'w \<Rightarrow> 'w"
  tuh_generic_report_size :: "nat \<Rightarrow> u8 \<Rightarrow> 'w \<Rightarrow> int"
  tuh_set_report :: "nat \<Rightarrow> u8 \<Rightarrow> u8 \<Rightarrow> 'w \<Rightarrow> bool \<times> 'w"
  usbh_devices :: "nat \<Rightarrow> 'w \<Rightarrow> (u16 \<times> u16) list"
  msc_read10 :: "nat \<Rightarrow> u8 \<Rightarrow> u32 \<Rightarrow> u8 \<Rightarrow> 'w \<Rightarrow> bool \<times> u32 list \<times> 'w"
  msc_write10 :: "nat \<Rightarrow> u8 \<Rightarrow> u32 list \<Rightarrow> u32 \<Rightarrow> u8 \<Rightarrow> 'w \<Rightarrow> bool \<times> 'w"
  msc_busy :: "nat \<Rightarrow> u8 \<Rightarrow> 'w \<Rightarrow> nat \<Rightarrow> u32"
  hook_keyboard_report :: "nat \<Rightarrow> u8 \<Rightarrow> 'w \<Rightarrow> 'w"
  hook_mouse_report :: "nat \<Rightarrow> u8 \<Rightarrow> 'w \<Rightarrow> 'w"
  hook_generic_report :: "nat \<Rightarrow> u8 \<Rightarrow> 'w \<Rightarrow> 'w"
  hook_generic_mounted :: "usb_generic_device_t \<Rightarrow> 'w \<Rightarrow> 'w"
  hook_generic_unmounted :: "nat \<Rightarrow> u8 \<Rightarrow> 'w \<Rightarrow> 'w"
  f_mount :: "nat \<Rightarrow> string \<Rightarrow> 'w \<Rightarrow> int \<times> 'w"
  f_unmount :: "string \<Rightarrow> 'w \<Rightarrow> 'w"

definition printf :: "string \<Rightarrow> int list \<Rightarrow> 'w usb \<Rightarrow> 'w usb" where
  "printf fmt args s = s\<lparr>printed := printed s @ [(fmt, args)]\<rparr>"

definition on_world :: "('w \<Rightarrow> 'w) \<Rightarrow> 'w usb \<Rightarrow> 'w usb" where
  "on_world f s = s\<lparr>world := f (world s)\<rparr>"

section \<open>Controllers\<close>

definition USB_HCI_GATING :: u32 where
  "USB_HCI_GATING = BIT 31 OR BIT 30 OR BIT 29 OR BIT 27 OR BIT 26 OR BIT 25"

definition USB_PHY_BITS :: u32 where
  "USB_PHY_BITS = BIT 19 OR BIT 18 OR BIT 17 OR BIT 11 OR BIT 10 OR BIT 9 OR BIT 3 OR BIT 2 OR BIT 1"

definition USB_BASE :: "nat \<Rightarrow> u32" where [addr_defs]: "USB_BASE h = 0x01C1A000 + 0x1000 * of_nat h"
definition USB_HCI_ICR :: "nat \<Rightarrow> u32" where [addr_defs]: "USB_HCI_ICR h = USB_BASE h + 0x800"
definition USB_HCI_UNK1 :: "nat \<Rightarrow> u32" where [addr_defs]: "USB_HCI_UNK1 h = USB_BASE h + 0x810"

definition usb_init_regs :: "mmio \<Rightarrow> mmio" where
  "usb_init_regs m =
     (let m1 = reg_clear USBPHY_CFG USB_PHY_BITS (reg_clear BUS_SOFT_RST0 USB_HCI_GATING (reg_clear BUS_CLK_GATING0 USB_HCI_GATING m));
          m2 = reg_or USBPHY_CFG USB_PHY_BITS (reg_or BUS_SOFT_RST0 USB_HCI_GATING (reg_or BUS_CLK_GATING0 USB_HCI_GATING m1))
      in reg_writes [(USB_HCI_ICR 1, 0x701), (USB_HCI_UNK1 1, 0), (USB_HCI_ICR 2, 0x701), (USB_HCI_UNK1 2, 0),
           (USB_HCI_ICR 3, 0x701), (USB_HCI_UNK1 3, 0)] m2)"

text \<open>The disk layer of one controller.\<close>

definition DEVICE_MAX :: nat where "DEVICE_MAX = 5"

definition diskio_init :: "nat \<Rightarrow> 'w usb \<Rightarrow> 'w usb" where
  "diskio_init h s = s\<lparr>disk_state := (disk_state s)(h := replicate DEVICE_MAX STA_NOINIT)\<rparr>"

definition usb_init :: "'w usb_env \<Rightarrow> mmio \<times> 'w usb \<Rightarrow> mmio \<times> 'w usb" where
  "usb_init e = (\<lambda>(m, s). (usb_init_regs m,
     diskio_init 3 (diskio_init 2 (diskio_init 1
       (on_world (tusb_init e 3) (on_world (tusb_init e 2) (on_world (tusb_init e 1) s)))))))"

definition hcd_int_enable :: "nat \<Rightarrow> gic \<Rightarrow> gic option" where
  "hcd_int_enable h = irq_enable (if h = 1 then 107 else if h = 2 then 109 else 111)"

definition hcd_int_disable :: "nat \<Rightarrow> gic \<Rightarrow> gic option" where
  "hcd_int_disable h = irq_disable (if h = 1 then 107 else if h = 2 then 109 else 111)"

definition tusb_hal_millis :: "sys_timer \<Rightarrow> u64 \<Rightarrow> u32 option" where
  "tusb_hal_millis t tick = map_option ucast (sys_get_msec t tick)"

definition usb_task :: "'w usb_env \<Rightarrow> 'w usb \<Rightarrow> 'w usb" where
  "usb_task e s = on_world (tusb_task e 3) (on_world (tusb_task e 2) (on_world (tusb_task e 1) s))"

section \<open>Human interface devices\<close>

text \<open>\<open>by_hcd\<close> is the switch over the controller number that every dispatcher has.\<close>

definition by_hcd :: "nat \<Rightarrow> (nat \<Rightarrow> 'a) \<Rightarrow> 'a \<Rightarrow> 'a" where
  "by_hcd h f d = (if h = 1 then f 1 else if h = 2 then f 2 else if h = 3 then f 3 else d)"

definition keyboard_get_report :: "'w usb_env \<Rightarrow> nat \<Rightarrow> u8 \<Rightarrow> 'w usb \<Rightarrow> 'w usb" where
  "keyboard_get_report e h a s = by_hcd h (\<lambda>i. on_world (tuh_keyboard_get_report e i a) s) s"

definition keyboard_mounted :: "'w usb_env \<Rightarrow> nat \<Rightarrow> u8 \<Rightarrow> 'w usb \<Rightarrow> 'w usb" where
  "keyboard_mounted e h a s =
     keyboard_get_report e h a (printf ''\<newline>a Keyboard device (hcd %d, address %d) is mounted\<newline>'' [int h, uint a] s)"

definition keyboard_unmounted :: "nat \<Rightarrow> u8 \<Rightarrow> 'w usb \<Rightarrow> 'w usb" where
  "keyboard_unmounted h a s = printf ''\<newline>a Keyboard device (hcd %d, address %d) is unmounted\<newline>'' [int h, uint a] s"

definition usb_keyboard_set_leds :: "'w usb_env \<Rightarrow> nat \<Rightarrow> u8 \<Rightarrow> u8 \<Rightarrow> 'w usb \<Rightarrow> bool \<times> 'w usb" where
  "usb_keyboard_set_leds e h a leds s =
     by_hcd h (\<lambda>i. case tuh_set_report e i a leds (world s) of (r, w) \<Rightarrow> (r, s\<lparr>world := w\<rparr>)) (False, s)"

definition keyboard_isr :: "'w usb_env \<Rightarrow> nat \<Rightarrow> u8 \<Rightarrow> xfer_result_t \<Rightarrow> 'w usb \<Rightarrow> 'w usb" where
  "keyboard_isr e h a event s =
     (case event of
        XFER_RESULT_SUCCESS \<Rightarrow> keyboard_get_report e h a (on_world (hook_keyboard_report e h a) s)
      | XFER_RESULT_FAILED \<Rightarrow> keyboard_get_report e h a s
      | _ \<Rightarrow> s)"

definition mouse_get_report :: "'w usb_env \<Rightarrow> nat \<Rightarrow> u8 \<Rightarrow> 'w usb \<Rightarrow> 'w usb" where
  "mouse_get_report e h a s = by_hcd h (\<lambda>i. on_world (tuh_mouse_get_report e i a) s) s"

definition mouse_mounted :: "'w usb_env \<Rightarrow> nat \<Rightarrow> u8 \<Rightarrow> 'w usb \<Rightarrow> 'w usb" where
  "mouse_mounted e h a s =
     mouse_get_report e h a (printf ''\<newline>a Mouse device (hcd %d, address %d) is mounted\<newline>'' [int h, uint a] s)"

definition mouse_unmounted :: "nat \<Rightarrow> u8 \<Rightarrow> 'w usb \<Rightarrow> 'w usb" where
  "mouse_unmounted h a s = printf ''\<newline>a Mouse device (hcd %d, address %d) is unmounted\<newline>'' [int h, uint a] s"

definition mouse_isr :: "'w usb_env \<Rightarrow> nat \<Rightarrow> u8 \<Rightarrow> xfer_result_t \<Rightarrow> 'w usb \<Rightarrow> 'w usb" where
  "mouse_isr e h a event s =
     (case event of
        XFER_RESULT_SUCCESS \<Rightarrow> mouse_get_report e h a (on_world (hook_mouse_report e h a) s)
      | XFER_RESULT_FAILED \<Rightarrow> mouse_get_report e h a s
      | _ \<Rightarrow> s)"

definition generic_get_report :: "'w usb_env \<Rightarrow> nat \<Rightarrow> u8 \<Rightarrow> 'w usb \<Rightarrow> 'w usb" where
  "generic_get_report e h a s = by_hcd h (\<lambda>i. on_world (tuh_generic_get_report e i a) s) s"

definition generic_report_size :: "'w usb_env \<Rightarrow> nat \<Rightarrow> u8 \<Rightarrow> 'w usb \<Rightarrow> int" where
  "generic_report_size e h a s = by_hcd h (\<lambda>i. tuh_generic_report_size e i a (world s)) (-1)"

text \<open>The stack's table of devices is indexed with the address: outside of it there is no result.\<close>

definition generic_mounted :: "'w usb_env \<Rightarrow> nat \<Rightarrow> u8 \<Rightarrow> u8 list \<Rightarrow> int \<Rightarrow> 'w usb \<Rightarrow> 'w usb option" where
  "generic_mounted e h a desc len s =
     (if unat a < length (usbh_devices e h (world s)) then
        let (vid, pid) = usbh_devices e h (world s) ! unat a;
            s1 = printf ''\<newline>a generic device (hcd %d, address %d, vid %x, pid %x) is mounted\<newline>'' [int h, uint a, uint vid, uint pid] s;
            dev = \<lparr>g_hcd = h, g_dev_addr = a, report_desc = desc, report_desc_len = len,
              report_len = generic_report_size e h a s1, vendor_id = vid, product_id = pid\<rparr>
        in Some (generic_get_report e h a (on_world (hook_generic_mounted e dev) s1))
      else None)"

definition generic_unmounted :: "'w usb_env \<Rightarrow> nat \<Rightarrow> u8 \<Rightarrow> 'w usb \<Rightarrow> 'w usb" where
  "generic_unmounted e h a s =
     on_world (hook_generic_unmounted e h a) (printf ''\<newline>a generic device (hcd %d, address %d) is unmounted\<newline>'' [int h, uint a] s)"

definition generic_isr :: "'w usb_env \<Rightarrow> nat \<Rightarrow> u8 \<Rightarrow> xfer_result_t \<Rightarrow> 'w usb \<Rightarrow> 'w usb" where
  "generic_isr e h a event s =
     (case event of
        XFER_RESULT_SUCCESS \<Rightarrow> generic_get_report e h a (on_world (hook_generic_report e h a) s)
      | XFER_RESULT_FAILED \<Rightarrow> generic_get_report e h a s
      | _ \<Rightarrow> s)"

definition msc_isr :: "nat \<Rightarrow> u8 \<Rightarrow> xfer_result_t \<Rightarrow> u32 \<Rightarrow> 'w usb \<Rightarrow> 'w usb" where
  "msc_isr h a event xferred s = s"

section \<open>The disk layer of tinyusb\<close>

text \<open>\<open>None\<close> is an access outside of \<open>disk_state\<close>, or a wait that does not end.\<close>

definition tusb_disk_initialize :: "nat \<Rightarrow> u8 \<Rightarrow> 'w usb \<Rightarrow> (u8 \<times> 'w usb) option" where
  "tusb_disk_initialize h pdrv s =
     (if unat pdrv < length (disk_state s h) then
        let st = (disk_state s h ! unat pdrv) AND NOT STA_NOINIT
        in Some (st, s\<lparr>disk_state := (disk_state s)(h := (disk_state s h)[unat pdrv := st])\<rparr>)
      else None)"

definition tusb_disk_deinitialize :: "nat \<Rightarrow> u8 \<Rightarrow> 'w usb \<Rightarrow> 'w usb option" where
  "tusb_disk_deinitialize h pdrv s =
     (if unat pdrv < length (disk_state s h) then
        let st = (disk_state s h ! unat pdrv) OR STA_NOINIT
        in Some (s\<lparr>disk_state := (disk_state s)(h := (disk_state s h)[unat pdrv := st])\<rparr>)
      else None)"

definition tusb_disk_status :: "nat \<Rightarrow> u8 \<Rightarrow> 'w usb \<Rightarrow> u8 option" where
  "tusb_disk_status h pdrv s =
     (if unat pdrv < length (disk_state s h) then Some (disk_state s h ! unat pdrv) else None)"

definition wait_for_io_complete :: "'w usb_env \<Rightarrow> nat \<Rightarrow> u8 \<Rightarrow> 'w \<Rightarrow> dresult option" where
  "wait_for_io_complete e h a w = map_option (\<lambda>_. RES_OK) (poll (msc_busy e h a w) (\<lambda>v. v = 0) 0)"

definition tusb_disk_read :: "'w usb_env \<Rightarrow> nat \<Rightarrow> u8 \<Rightarrow> u32 list \<Rightarrow> u32 \<Rightarrow> u8 \<Rightarrow> 'w usb \<Rightarrow> (dresult \<times> u32 list \<times> 'w usb) option" where
  "tusb_disk_read e h pdrv buff sector count s =
     (case msc_read10 e h (pdrv + 1) sector count (world s) of
        (ok, d, w) \<Rightarrow>
          if \<not> ok then Some (RES_ERROR, buff, s\<lparr>world := w\<rparr>)
          else map_option (\<lambda>r. (r, d, s\<lparr>world := w\<rparr>)) (wait_for_io_complete e h (pdrv + 1) w))"

definition tusb_disk_write :: "'w usb_env \<Rightarrow> nat \<Rightarrow> u8 \<Rightarrow> u32 list \<Rightarrow> u32 \<Rightarrow> u8 \<Rightarrow> 'w usb \<Rightarrow> (dresult \<times> 'w usb) option" where
  "tusb_disk_write e h pdrv buff sector count s =
     (case msc_write10 e h (pdrv + 1) buff sector count (world s) of
        (ok, w) \<Rightarrow>
          if \<not> ok then Some (RES_ERROR, s\<lparr>world := w\<rparr>)
          else map_option (\<lambda>r. (r, s\<lparr>world := w\<rparr>)) (wait_for_io_complete e h (pdrv + 1) w))"

definition tusb_disk_ioctl :: "nat \<Rightarrow> dresult" where
  "tusb_disk_ioctl cmd = (if cmd \<noteq> 0 then RES_ERROR else RES_OK)"

section \<open>Volumes\<close>

definition initial_drives :: "usb_drive_t list" where
  "initial_drives = map (\<lambda>n. \<lparr>name = n, hcd = 0, dev_addr = 0\<rparr>) [''/usb0'', ''/usb1'', ''/usb2'', ''/usb3'']"

definition msc_mounted_cb :: "'w usb_env \<Rightarrow> nat \<Rightarrow> u8 \<Rightarrow> 'w usb \<Rightarrow> 'w usb option" where
  "msc_mounted_cb e h a s =
     (let s0 = printf ''\<newline>a MassStorage device is mounted, hcd %d, dev_addr %d\<newline>'' [int h, uint a] s
      in case first_slot (\<lambda>d. dev_addr d = 0) (usb_drives s) of
           None \<Rightarrow> Some (printf ''max number of USB drives reached\<newline>'' [] s0)
         | Some v \<Rightarrow>
             let s1 = s0\<lparr>usb_drives := (usb_drives s)[v := (usb_drives s ! v)\<lparr>dev_addr := a, hcd := h\<rparr>]\<rparr>
             in map_option (\<lambda>s2.
                  case f_mount e v (name (usb_drives s2 ! v)) (world s2) of
                    (res, w) \<Rightarrow>
                      if res \<noteq> 0 then printf ''mount failed, %d\<newline>'' [res] (s2\<lparr>world := w\<rparr>) else s2\<lparr>world := w\<rparr>)
                (by_hcd h (\<lambda>i. map_option snd (tusb_disk_initialize i (a - 1) s1)) (Some s1)))"

definition get_logical_volume :: "nat \<Rightarrow> u8 \<Rightarrow> 'w usb \<Rightarrow> nat option \<times> 'w usb" where
  "get_logical_volume h a s =
     (case first_slot (\<lambda>d. hcd d = h \<and> dev_addr d = a) (usb_drives s) of
        None \<Rightarrow> (None, printf ''unknown drive\<newline>'' [] s)
      | Some v \<Rightarrow> (Some v, s))"

definition msc_unmounted_cb :: "'w usb_env \<Rightarrow> nat \<Rightarrow> u8 \<Rightarrow> 'w usb \<Rightarrow> 'w usb option" where
  "msc_unmounted_cb e h a s =
     (case get_logical_volume h a (printf ''\<newline>a MassStorage device is unmounted, hcd %d, dev_addr %d\<newline>'' [int h, uint a] s) of
        (None, s1) \<Rightarrow> Some s1
      | (Some v, s1) \<Rightarrow>
          let s2 = on_world (f_unmount e (name (usb_drives s1 ! v))) s1;
              s3 = s2\<lparr>usb_drives := (usb_drives s2)[v := (usb_drives s2 ! v)\<lparr>dev_addr := 0\<rparr>]\<rparr>
          in by_hcd h (\<lambda>i. tusb_disk_deinitialize i (a - 1) s3) (Some s3))"

text \<open>Volume \<open>pdrv - 2\<close>; \<open>None\<close> outside of the table.\<close>

definition drive_of :: "nat \<Rightarrow> 'w usb \<Rightarrow> usb_drive_t option" where
  "drive_of pdrv s = (if 2 \<le> pdrv \<and> pdrv - 2 < length (usb_drives s) then Some (usb_drives s ! (pdrv - 2)) else None)"

definition usb_disk_read :: "'w usb_env \<Rightarrow> nat \<Rightarrow> u32 list \<Rightarrow> u32 \<Rightarrow> nat \<Rightarrow> 'w usb \<Rightarrow> (dresult \<times> u32 list \<times> 'w usb) option" where
  "usb_disk_read e pdrv buff sector count s = Option.bind (drive_of pdrv s) (\<lambda>dr.
     by_hcd (hcd dr) (\<lambda>i. tusb_disk_read e i (dev_addr dr - 1) buff sector (of_nat count) s) (Some (RES_NOTRDY, buff, s)))"

definition usb_disk_write :: "'w usb_env \<Rightarrow> nat \<Rightarrow> u32 list \<Rightarrow> u32 \<Rightarrow> nat \<Rightarrow> 'w usb \<Rightarrow> (dresult \<times> 'w usb) option" where
  "usb_disk_write e pdrv buff sector count s = Option.bind (drive_of pdrv s) (\<lambda>dr.
     by_hcd (hcd dr) (\<lambda>i. tusb_disk_write e i (dev_addr dr - 1) buff sector (of_nat count) s) (Some (RES_NOTRDY, s)))"

definition usb_disk_status :: "nat \<Rightarrow> 'w usb \<Rightarrow> u8 option" where
  "usb_disk_status pdrv s = Option.bind (drive_of pdrv s) (\<lambda>dr.
     by_hcd (hcd dr) (\<lambda>i. tusb_disk_status i (dev_addr dr - 1) s) (Some STA_NOINIT))"

definition usb_disk_initialize :: "nat \<Rightarrow> 'w usb \<Rightarrow> (u8 \<times> 'w usb) option" where
  "usb_disk_initialize pdrv s = Option.bind (drive_of pdrv s) (\<lambda>dr.
     by_hcd (hcd dr) (\<lambda>i. tusb_disk_initialize i (dev_addr dr - 1) s) (Some (STA_NOINIT, s)))"

definition usb_disk_ioctl :: "nat \<Rightarrow> nat \<Rightarrow> 'w usb \<Rightarrow> dresult option" where
  "usb_disk_ioctl pdrv cmd s = Option.bind (drive_of pdrv s) (\<lambda>dr.
     by_hcd (hcd dr) (\<lambda>i. Some (tusb_disk_ioctl cmd)) (Some RES_NOTRDY))"

section \<open>The set of mounted devices\<close>

definition active :: "usb_drive_t \<Rightarrow> bool" where "active d \<longleftrightarrow> dev_addr d \<noteq> 0"
definition key :: "usb_drive_t \<Rightarrow> nat \<times> u8" where "key d = (hcd d, dev_addr d)"

definition keys :: "usb_drive_t list \<Rightarrow> (nat \<times> u8) list" where
  "keys ds = map key (filter active ds)"

definition devices :: "(nat \<times> u8) set" where
  "devices = {1, 2, 3} \<times> {a. 1 \<le> a \<and> a \<le> 5}"

definition status_for :: "(nat \<times> u8) set \<Rightarrow> nat \<times> u8 \<Rightarrow> u8" where
  "status_for S k = (if k \<in> S then 0 else STA_NOINIT)"

text \<open>
  The invariant: no device has two volumes, every volume in use belongs to a device the stacks can
  report, and the disk layer of each controller has initialised exactly the devices that have a volume.
\<close>

definition usb_inv :: "'w usb \<Rightarrow> bool" where
  "usb_inv s \<longleftrightarrow> map name (usb_drives s) = map name initial_drives \<and> distinct (keys (usb_drives s)) \<and>
     set (keys (usb_drives s)) \<subseteq> devices \<and>
     (\<forall>h \<in> {1, 2, 3}. disk_state s h = map (\<lambda>k. status_for (set (keys (usb_drives s))) (h, of_nat (Suc k))) [0..<5])"

datatype msc_event = Mounted nat u8 | Unmounted nat u8

fun usb_event :: "'w usb_env \<Rightarrow> msc_event \<Rightarrow> 'w usb \<Rightarrow> 'w usb option" where
  "usb_event e (Mounted h a) s = msc_mounted_cb e h a s"
| "usb_event e (Unmounted h a) s = msc_unmounted_cb e h a s"

fun set_event :: "msc_event \<Rightarrow> (nat \<times> u8) set \<Rightarrow> (nat \<times> u8) set" where
  "set_event (Mounted h a) S = (if Finite_Set.card S < 4 then insert (h, a) S else S)"
| "set_event (Unmounted h a) S = S - {(h, a)}"

text \<open>A stack reports only its own devices, and a device again only after it was removed.\<close>

fun sound_event :: "msc_event \<Rightarrow> (nat \<times> u8) set \<Rightarrow> bool" where
  "sound_event (Mounted h a) S \<longleftrightarrow> (h, a) \<in> devices \<and> (h, a) \<notin> S"
| "sound_event (Unmounted h a) S \<longleftrightarrow> (h, a) \<in> devices"

lemma devicesD: "(h, a) \<in> devices \<Longrightarrow> h \<in> {1, 2, 3} \<and> a \<noteq> 0 \<and> unat (a - 1) < 5 \<and> Suc (unat (a - 1)) = unat a"
proof -
  assume d: "(h, a) \<in> devices"
  then have a: "1 \<le> a" "a \<le> 5" by (auto simp: devices_def)
  then have "1 \<le> unat a" "unat a \<le> 5" by (simp_all add: word_le_nat_alt)
  moreover from this have "unat (a - 1) = unat a - 1" by (intro unat_minus_one) auto
  ultimately have "unat (a - 1) = unat a - 1" "1 \<le> unat a" "unat a \<le> 5" by simp_all
  then show ?thesis using d by (auto simp: devices_def)
qed

lemma device_index:
  assumes "(h, a) \<in> devices" and "k < 5"
  shows "(of_nat (Suc k) = a) = (k = unat (a - 1))"
proof -
  have "(of_nat (Suc k) = a) = (unat (of_nat (Suc k) :: u8) = unat a)" by (simp add: word_unat_eq_iff)
  also have "unat (of_nat (Suc k) :: u8) = Suc k" using assms(2) by (simp add: unat_of_nat del: of_nat_Suc)
  finally show ?thesis using devicesD [OF assms(1)] by auto
qed

text \<open>One volume of the table replaced.\<close>

lemma slot_split:
  assumes "v < length ds"
  obtains xs ys where "ds = xs @ ds ! v # ys" and "\<And>x. ds[v := x] = xs @ x # ys"
  using that [of "take v ds" "drop (Suc v) ds"] id_take_nth_drop [OF assms] assms
  by (simp add: upd_conv_take_nth_drop)

lemma keys_mount:
  fixes h :: nat
  assumes "first_slot (\<lambda>d. dev_addr d = 0) ds = Some v" and "a \<noteq> 0"
  defines "ds' \<equiv> ds[v := (ds ! v)\<lparr>dev_addr := a, hcd := h\<rparr>]"
  shows "set (keys ds') = insert (h, a) (set (keys ds))" "distinct (keys ds) \<Longrightarrow> (h, a) \<notin> set (keys ds) \<Longrightarrow> distinct (keys ds')"
    "map name ds' = map name ds"
proof -
  have v: "v < length ds" "dev_addr (ds ! v) = 0" using first_slot_SomeD [OF assms(1)] by auto
  obtain xs ys where ds: "ds = xs @ ds ! v # ys" and upd: "\<And>x. ds[v := x] = xs @ x # ys" using slot_split [OF v(1)] by blast
  have "keys ds = keys xs @ keys ys" using v(2) by (subst ds) (simp add: keys_def active_def)
  moreover have "keys ds' = keys xs @ (h, a) # keys ys"
    using assms(2) unfolding ds'_def upd by (simp add: keys_def active_def key_def)
  ultimately show "set (keys ds') = insert (h, a) (set (keys ds))"
    "distinct (keys ds) \<Longrightarrow> (h, a) \<notin> set (keys ds) \<Longrightarrow> distinct (keys ds')" by auto
  show "map name ds' = map name ds" using v(1) by (simp add: ds'_def map_update list_update_same_conv)
qed

lemma keys_unmount:
  assumes "v < length ds" and "key (ds ! v) = (h, a)" and "a \<noteq> 0" and "distinct (keys ds)"
  defines "ds' \<equiv> ds[v := (ds ! v)\<lparr>dev_addr := 0\<rparr>]"
  shows "set (keys ds') = set (keys ds) - {(h, a)}" "distinct (keys ds')" "map name ds' = map name ds"
proof -
  obtain xs ys where ds: "ds = xs @ ds ! v # ys" and upd: "\<And>x. ds[v := x] = xs @ x # ys" using slot_split [OF assms(1)] by blast
  have k: "keys ds = keys xs @ (h, a) # keys ys"
    using assms(2,3) by (subst ds) (simp add: keys_def active_def key_def)
  have "keys ds' = keys xs @ keys ys" unfolding ds'_def upd by (simp add: keys_def active_def)
  with k assms(4) show "set (keys ds') = set (keys ds) - {(h, a)}" "distinct (keys ds')" by auto
  show "map name ds' = map name ds" using assms(1) by (simp add: ds'_def map_update list_update_same_conv)
qed

lemma slot_of_key:
  assumes "(h, a) \<in> set (keys ds)"
  shows "\<exists>v. first_slot (\<lambda>d. hcd d = h \<and> dev_addr d = a) ds = Some v \<and> v < length ds \<and> key (ds ! v) = (h, a)"
proof -
  from assms obtain i where "i < length ds" "key (ds ! i) = (h, a)"
    by (auto simp: keys_def in_set_conv_nth)
  then obtain v where "first_slot (\<lambda>d. hcd d = h \<and> dev_addr d = a) ds = Some v"
    using first_slot_SomeI [of i ds "\<lambda>d. hcd d = h \<and> dev_addr d = a"] by (auto simp: key_def)
  with first_slot_SomeD [OF this] show ?thesis by (auto simp: key_def)
qed

lemma no_slot_of_key:
  assumes "(h, a) \<notin> set (keys ds)" and "a \<noteq> 0"
  shows "first_slot (\<lambda>d. hcd d = h \<and> dev_addr d = a) ds = None"
  using assms by (auto simp: first_slot_None_iff keys_def active_def key_def image_iff)

lemma free_slot:
  assumes "length ds = 4" and "distinct (keys ds)"
  shows "(first_slot (\<lambda>d. dev_addr d = 0) ds = None) = (\<not> Finite_Set.card (set (keys ds)) < 4)"
proof -
  have "Finite_Set.card (set (keys ds)) = length (filter active ds)" using distinct_card [OF assms(2)] by (simp add: keys_def)
  moreover have "(length (filter active ds) < length ds) = (\<exists>d \<in> set ds. \<not> active d)"
    using length_filter_less [of _ ds active] filter_True [of ds active] by (metis less_irrefl)
  ultimately show ?thesis using assms(1) by (auto simp: first_slot_None_iff active_def)
qed

text \<open>The array of a controller after one of its devices changed.\<close>

lemma statuses_update:
  assumes "(h, a) \<in> devices" and "S' - {(h, a)} = S - {(h, a)}"
  shows "(map (\<lambda>k. status_for S (h, of_nat (Suc k))) [0..<5])[unat (a - 1) := status_for S' (h, a)] =
     map (\<lambda>k. status_for S' (h, of_nat (Suc k))) [0..<5]"
    and "h' \<noteq> h \<Longrightarrow> map (\<lambda>k. status_for S (h', of_nat (Suc k))) [0..<5] = map (\<lambda>k. status_for S' (h', of_nat (Suc k))) [0..<5]"
proof -
  have other: "x \<noteq> (h, a) \<Longrightarrow> status_for S x = status_for S' x" for x using assms(2) by (auto simp: status_for_def)
  show "(map (\<lambda>k. status_for S (h, of_nat (Suc k))) [0..<5])[unat (a - 1) := status_for S' (h, a)] =
     map (\<lambda>k. status_for S' (h, of_nat (Suc k))) [0..<5]"
  proof (rule nth_equalityI)
    fix i assume "i < length ((map (\<lambda>k. status_for S (h, of_nat (Suc k))) [0..<5])[unat (a - 1) := status_for S' (h, a)])"
    then have i: "i < 5" by simp
    show "(map (\<lambda>k. status_for S (h, of_nat (Suc k))) [0..<5])[unat (a - 1) := status_for S' (h, a)] ! i =
      map (\<lambda>k. status_for S' (h, of_nat (Suc k))) [0..<5] ! i"
      using i device_index [OF assms(1) i] other [of "(h, of_nat (Suc i))"]
      by (cases "i = unat (a - 1)") (simp_all del: of_nat_Suc upt_rec_numeral)
  qed simp
  show "h' \<noteq> h \<Longrightarrow> map (\<lambda>k. status_for S (h', of_nat (Suc k))) [0..<5] = map (\<lambda>k. status_for S' (h', of_nat (Suc k))) [0..<5]"
    using other by simp
qed

lemma by_hcd_devices [simp]: "(h, a) \<in> devices \<Longrightarrow> by_hcd h f d = f h"
  by (auto simp: by_hcd_def devices_def)

lemma inv_length: "usb_inv s \<Longrightarrow> length (usb_drives s) = 4"
  by (auto simp: usb_inv_def initial_drives_def dest: map_eq_imp_length_eq)

lemma inv_status:
  assumes "usb_inv s" and "(h, a) \<in> devices"
  shows "length (disk_state s h) = 5" "disk_state s h ! unat (a - 1) = status_for (set (keys (usb_drives s))) (h, a)"
proof -
  have d: "disk_state s h = map (\<lambda>k. status_for (set (keys (usb_drives s))) (h, of_nat (Suc k))) [0..<5]"
    using assms devicesD [OF assms(2)] by (auto simp: usb_inv_def simp del: of_nat_Suc upt_rec_numeral)
  show "length (disk_state s h) = 5" unfolding d by simp
  show "disk_state s h ! unat (a - 1) = status_for (set (keys (usb_drives s))) (h, a)"
    using devicesD [OF assms(2)] device_index [OF assms(2), of "unat (a - 1)"] unfolding d
    by (simp del: of_nat_Suc upt_rec_numeral)
qed

lemma inv_change:
  assumes "usb_inv s" and "(h, a) \<in> devices"
    and "map name (usb_drives s') = map name (usb_drives s)" and "distinct (keys (usb_drives s'))"
    and "set (keys (usb_drives s')) \<subseteq> devices"
    and "set (keys (usb_drives s')) - {(h, a)} = set (keys (usb_drives s)) - {(h, a)}"
    and "disk_state s' = (disk_state s)(h := (disk_state s h)[unat (a - 1) := status_for (set (keys (usb_drives s'))) (h, a)])"
  shows "usb_inv s'"
proof -
  have "disk_state s' g = map (\<lambda>k. status_for (set (keys (usb_drives s'))) (g, of_nat (Suc k))) [0..<5]" if "g \<in> {1, 2, 3}" for g
  proof -
    have g: "disk_state s g = map (\<lambda>k. status_for (set (keys (usb_drives s))) (g, of_nat (Suc k))) [0..<5]"
      using assms(1) that by (auto simp: usb_inv_def simp del: of_nat_Suc upt_rec_numeral)
    show ?thesis
      using statuses_update(1) [OF assms(2,6)] statuses_update(2) [OF assms(2,6), of g] g
      unfolding assms(7) by (cases "g = h") (simp_all del: of_nat_Suc upt_rec_numeral)
  qed
  then show ?thesis using assms(1,3-5) by (simp add: usb_inv_def del: of_nat_Suc upt_rec_numeral)
qed

lemma mount_step:
  assumes inv: "usb_inv s" and dev: "(h, a) \<in> devices" and new: "(h, a) \<notin> set (keys (usb_drives s))"
  shows "\<exists>s'. msc_mounted_cb e h a s = Some s' \<and> usb_inv s' \<and>
     set (keys (usb_drives s')) = set_event (Mounted h a) (set (keys (usb_drives s)))"
proof (cases "first_slot (\<lambda>d. dev_addr d = 0) (usb_drives s)")
  case None
  then show ?thesis using inv free_slot [of "usb_drives s"] inv_length [OF inv]
    by (auto simp: msc_mounted_cb_def printf_def usb_inv_def)
next
  case (Some v)
  let ?ds = "(usb_drives s)[v := (usb_drives s ! v)\<lparr>dev_addr := a, hcd := h\<rparr>]"
  note k = keys_mount [OF Some, of a h] devicesD [OF dev]
  have room: "Finite_Set.card (set (keys (usb_drives s))) < 4"
    using inv free_slot [of "usb_drives s"] inv_length [OF inv] Some by (auto simp: usb_inv_def)
  have st: "disk_state s h ! unat (a - 1) = STA_NOINIT" "length (disk_state s h) = 5"
    using inv_status [OF inv dev] new by (simp_all add: status_for_def)
  let ?D = "(disk_state s)(h := (disk_state s h)[unat (a - 1) := 0])"
  have i: "unat (a - 1) < 5" using k by simp
  have "\<exists>s'. msc_mounted_cb e h a s = Some s' \<and> usb_drives s' = ?ds \<and> disk_state s' = ?D"
    using Some dev i st by (simp add: msc_mounted_cb_def tusb_disk_initialize_def printf_def STA_NOINIT_def Let_def split: prod.split)
  then obtain s' where s': "msc_mounted_cb e h a s = Some s'" "usb_drives s' = ?ds" "disk_state s' = ?D" by blast
  have set: "set (keys (usb_drives s')) = insert (h, a) (set (keys (usb_drives s)))" using k s'(2) by simp
  have "usb_inv s'"
    using k set inv dev new s'(2,3) by (intro inv_change [OF inv dev]) (auto simp: usb_inv_def status_for_def)
  then show ?thesis using s'(1) set room by simp
qed

lemma unmount_step:
  assumes inv: "usb_inv s" and dev: "(h, a) \<in> devices"
  shows "\<exists>s'. msc_unmounted_cb e h a s = Some s' \<and> usb_inv s' \<and>
     set (keys (usb_drives s')) = set_event (Unmounted h a) (set (keys (usb_drives s)))"
proof (cases "(h, a) \<in> set (keys (usb_drives s))")
  case False
  then have "first_slot (\<lambda>d. hcd d = h \<and> dev_addr d = a) (usb_drives s) = None"
    using no_slot_of_key [OF False] devicesD [OF dev] by simp
  then show ?thesis using inv False by (auto simp: msc_unmounted_cb_def get_logical_volume_def printf_def usb_inv_def)
next
  case True
  from slot_of_key [OF this] obtain v where v: "first_slot (\<lambda>d. hcd d = h \<and> dev_addr d = a) (usb_drives s) = Some v"
    "v < length (usb_drives s)" "key (usb_drives s ! v) = (h, a)" by blast
  let ?ds = "(usb_drives s)[v := (usb_drives s ! v)\<lparr>dev_addr := 0\<rparr>]"
  have dist: "distinct (keys (usb_drives s))" using inv by (simp add: usb_inv_def)
  note k = keys_unmount [OF v(2,3) _ dist] devicesD [OF dev]
  have st: "disk_state s h ! unat (a - 1) = 0" "length (disk_state s h) = 5"
    using inv_status [OF inv dev] True by (simp_all add: status_for_def)
  let ?D = "(disk_state s)(h := (disk_state s h)[unat (a - 1) := STA_NOINIT])"
  obtain s' where s': "msc_unmounted_cb e h a s = Some s'" "usb_drives s' = ?ds" "disk_state s' = ?D"
    using v(1) dev k st
    by (auto simp: msc_unmounted_cb_def get_logical_volume_def tusb_disk_deinitialize_def printf_def on_world_def)
  have "set (keys (usb_drives s')) = set (keys (usb_drives s)) - {(h, a)}" using k s'(2) by simp
  moreover have "usb_inv s'"
    using k inv dev s'(2,3) by (intro inv_change [OF inv dev]) (auto simp: usb_inv_def status_for_def)
  ultimately show ?thesis using s'(1) by simp
qed

text \<open>The callbacks along a sequence of events; \<open>None\<close> once one of them has accessed an array out of its bounds.\<close>

definition usb_step :: "'w usb_env \<Rightarrow> msc_event \<Rightarrow> 'w usb option \<Rightarrow> 'w usb option" where
  "usb_step e ev r = Option.bind r (usb_event e ev)"

definition volumes :: "'w usb option \<Rightarrow> (nat \<times> u8) set" where
  "volumes r = set (keys (usb_drives (the r)))"

definition usb_ok :: "'w usb option \<Rightarrow> bool" where
  "usb_ok r \<longleftrightarrow> (\<exists>s. r = Some s \<and> usb_inv s)"

interpretation usb_volumes: simulation "usb_step e" set_event volumes usb_ok sound_event for e :: "'w usb_env"
proof
  fix r :: "'w usb option" and ev
  assume "usb_ok r" and ok: "sound_event ev (volumes r)"
  then obtain s where s: "r = Some s" "usb_inv s" by (auto simp: usb_ok_def)
  show "usb_ok (usb_step e ev r) \<and> volumes (usb_step e ev r) = set_event ev (volumes r)"
  proof (cases ev)
    case (Mounted h a)
    then show ?thesis using mount_step [OF s(2), of h a e] ok s(1) by (auto simp: usb_step_def volumes_def usb_ok_def)
  next
    case (Unmounted h a)
    then obtain s' where "msc_unmounted_cb e h a s = Some s'" "usb_inv s'"
      "set (keys (usb_drives s')) = set (keys (usb_drives s)) - {(h, a)}"
      using unmount_step [OF s(2), of h a e] ok by auto
    then show ?thesis using s(1) Unmounted by (simp add: usb_step_def volumes_def usb_ok_def)
  qed
qed

lemma usb_init_inv:
  assumes "usb_drives s = initial_drives"
  shows "usb_inv (snd (usb_init e (m, s)))" "usb_drives (snd (usb_init e (m, s))) = initial_drives"
proof -
  have "keys initial_drives = []" by (simp add: keys_def initial_drives_def active_def)
  moreover have "replicate 5 STA_NOINIT = map (\<lambda>k. status_for {} (h, of_nat (Suc k))) [0..<5]" for h
    by (simp add: status_for_def map_replicate_const)
  ultimately show "usb_inv (snd (usb_init e (m, s)))" "usb_drives (snd (usb_init e (m, s))) = initial_drives"
    using assms by (simp_all add: usb_init_def on_world_def diskio_init_def DEVICE_MAX_def usb_inv_def)
qed

text \<open>A volume that is in use leads to its device.\<close>

lemma volume_routes:
  assumes inv: "usb_inv s" and k: "(h, a) \<in> set (keys (usb_drives s))"
  shows "\<exists>v < 4. key (usb_drives s ! v) = (h, a) \<and> usb_disk_status (v + 2) s = Some 0 \<and>
     usb_disk_read e (v + 2) buff sector count s = tusb_disk_read e h (a - 1) buff sector (of_nat count) s \<and>
     usb_disk_write e (v + 2) buff sector count s = tusb_disk_write e h (a - 1) buff sector (of_nat count) s"
proof -
  have dev: "(h, a) \<in> devices" using inv k by (auto simp: usb_inv_def)
  obtain v where v: "v < 4" "key (usb_drives s ! v) = (h, a)"
    using slot_of_key [OF k] inv_length [OF inv] by auto
  then have "drive_of (v + 2) s = Some (usb_drives s ! v)" "hcd (usb_drives s ! v) = h" "dev_addr (usb_drives s ! v) = a"
    using inv_length [OF inv] by (simp_all add: drive_of_def key_def)
  then show ?thesis using v dev inv_status [OF inv dev] k devicesD [OF dev]
    by (intro exI [of _ v]) (simp add: usb_disk_status_def usb_disk_read_def usb_disk_write_def tusb_disk_status_def status_for_def)
qed

section \<open>Properties\<close>

text \<open>C12. The table of USB volumes implements a set of at most four mounted devices. After
  \<open>usb_init\<close> and any sequence of mount and unmount callbacks of the three host stacks, no callback has
  left the bounds of an array, the devices with a volume are those of the abstract set, a fifth device
  is refused, and every device of the set has a volume whose reads, writes and status requests reach
  that device, with status 0.
\<close>

theorem usb_volumes_refine:
  assumes "usb_drives s = initial_drives" and "allowed sound_event set_event evs {}"
  shows "\<exists>s'. fold (usb_step e) evs (Some (snd (usb_init e (m, s)))) = Some s' \<and>
     set (keys (usb_drives s')) = fold set_event evs {} \<and>
     (\<forall>(h, a) \<in> fold set_event evs {}. \<exists>v < 4. key (usb_drives s' ! v) = (h, a) \<and> usb_disk_status (v + 2) s' = Some 0 \<and>
        usb_disk_read e (v + 2) buff sector count s' = tusb_disk_read e h (a - 1) buff sector (of_nat count) s' \<and>
        usb_disk_write e (v + 2) buff sector count s' = tusb_disk_write e h (a - 1) buff sector (of_nat count) s')"
proof -
  let ?r = "Some (snd (usb_init e (m, s)))"
  have "usb_ok ?r" "volumes ?r = {}"
    using usb_init_inv [OF assms(1), of e m] by (auto simp: usb_ok_def volumes_def keys_def initial_drives_def active_def)
  then have "usb_ok (fold (usb_step e) evs ?r)" "volumes (fold (usb_step e) evs ?r) = fold set_event evs {}"
    using usb_volumes.run [of ?r evs e] assms(2) by simp_all
  then show ?thesis using volume_routes [of _ _ _ e buff sector count] by (fastforce simp: usb_ok_def volumes_def)
qed

definition env0 :: "'w usb_env" where
  "env0 = \<lparr>tusb_init = (\<lambda>_ w. w), tusb_task = (\<lambda>_ w. w), tuh_keyboard_get_report = (\<lambda>_ _ w. w), tuh_mouse_get_report = (\<lambda>_ _ w. w),
     tuh_generic_get_report = (\<lambda>_ _ w. w), tuh_generic_report_size = (\<lambda>_ _ _. 8), tuh_set_report = (\<lambda>_ _ _ w. (True, w)),
     usbh_devices = (\<lambda>_ _. []), msc_read10 = (\<lambda>_ _ _ _ w. (True, [], w)), msc_write10 = (\<lambda>_ _ _ _ _ w. (True, w)),
     msc_busy = (\<lambda>_ _ _ _. 0), hook_keyboard_report = (\<lambda>_ _ w. w), hook_mouse_report = (\<lambda>_ _ w. w),
     hook_generic_report = (\<lambda>_ _ w. w), hook_generic_mounted = (\<lambda>_ w. w), hook_generic_unmounted = (\<lambda>_ _ w. w),
     f_mount = (\<lambda>_ _ w. (0, w)), f_unmount = (\<lambda>_ w. w)\<rparr>"

definition usb0 :: "unit usb" where
  "usb0 = \<lparr>usb_drives = initial_drives, disk_state = (\<lambda>_. []), printed = [], world = ()\<rparr>"

theorem usb_volumes_refine_witness:
  "\<exists>s'. fold (usb_step env0) [Mounted 1 1, Mounted 2 1, Unmounted 1 1, Mounted 3 2] (Some (snd (usb_init env0 (\<lambda>_. 0, usb0)))) = Some s' \<and>
     set (keys (usb_drives s')) = {(2, 1), (3, 2)}"
proof -
  have a: "allowed sound_event set_event [Mounted 1 1, Mounted 2 1, Unmounted 1 1, Mounted 3 2] {}"
    by (simp add: devices_def card_insert_if)
  have u: "usb_drives usb0 = initial_drives" by (simp add: usb0_def)
  have f: "fold set_event [Mounted 1 1, Mounted 2 1, Unmounted 1 1, Mounted 3 2] {} = {(2, 1), (3, 2)}"
    by (auto simp: card_insert_if)
  show ?thesis using usb_volumes_refine [OF u a, of env0 "\<lambda>_. 0" "[]" 0 0] unfolding f by (elim exE conjE) (intro exI conjI)
qed

text \<open>
  A volume whose device was removed is not recognised as empty. \<open>msc_unmounted_cb\<close> clears the address
  of the volume and leaves its controller number: a status request then reads entry 255 of the
  five-entry array of that controller, while a volume that was never used reports \<open>STA_NOINIT\<close>.
\<close>

lemma usb_stale_volume:
  assumes "usb_inv s" and "(h, a) \<in> set (keys (usb_drives s))"
  shows "\<exists>s'. \<exists>v < 4. msc_unmounted_cb e h a s = Some s' \<and> dev_addr (usb_drives s' ! v) = 0 \<and> usb_disk_status (v + 2) s' = None \<and>
     usb_disk_read e (v + 2) buff sector count s' = tusb_disk_read e h 255 buff sector (of_nat count) s'"
proof -
  have dev: "(h, a) \<in> devices" using assms by (auto simp: usb_inv_def)
  obtain v where v: "first_slot (\<lambda>d. hcd d = h \<and> dev_addr d = a) (usb_drives s) = Some v" "v < length (usb_drives s)"
    "key (usb_drives s ! v) = (h, a)" using slot_of_key [OF assms(2)] by blast
  obtain s' where s': "msc_unmounted_cb e h a s = Some s'" "usb_inv s'" using unmount_step [OF assms(1) dev] by blast
  then have "usb_drives s' ! v = (usb_drives s ! v)\<lparr>dev_addr := 0\<rparr>"
    using v dev by (auto simp: msc_unmounted_cb_def get_logical_volume_def tusb_disk_deinitialize_def printf_def on_world_def Let_def split: if_splits)
  then have "drive_of (v + 2) s' = Some ((usb_drives s ! v)\<lparr>dev_addr := 0\<rparr>)" "dev_addr (usb_drives s' ! v) = 0"
    using v(2) inv_length [OF s'(2)] inv_length [OF assms(1)] by (simp_all add: drive_of_def)
  moreover have "hcd (usb_drives s ! v) = h" using v(3) by (simp add: key_def)
  moreover have "v < 4" using v(2) inv_length [OF assms(1)] by simp
  moreover have m: "(- 1 :: u8) = 255" by simp
  ultimately show ?thesis using s'(1) dev inv_status(1) [OF s'(2) dev]
    by (intro exI [of _ s'] exI [of _ v]) (simp add: m usb_disk_status_def tusb_disk_status_def usb_disk_read_def)
qed

definition usb1 :: "unit usb" where
  "usb1 = \<lparr>usb_drives = [\<lparr>name = ''/usb0'', hcd = 1, dev_addr = 1\<rparr>, \<lparr>name = ''/usb1'', hcd = 0, dev_addr = 0\<rparr>,
       \<lparr>name = ''/usb2'', hcd = 0, dev_addr = 0\<rparr>, \<lparr>name = ''/usb3'', hcd = 0, dev_addr = 0\<rparr>],
     disk_state = (\<lambda>h. if h = 1 then [0, 1, 1, 1, 1] else [1, 1, 1, 1, 1]), printed = [], world = ()\<rparr>"

theorem usb_stale_volume_witness:
  "\<exists>s'. \<exists>v < 4. msc_unmounted_cb env0 1 1 usb1 = Some s' \<and> usb_disk_status (v + 2) s' = None"
proof -
  have "usb_inv usb1" "(1, 1) \<in> set (keys (usb_drives usb1))"
    by (auto simp: usb1_def usb_inv_def keys_def active_def key_def initial_drives_def devices_def status_for_def STA_NOINIT_def upt_rec)
  from usb_stale_volume [OF this, of env0 "[]" 0 0] show ?thesis by blast
qed

end
