(* ===== verification/Fs.thy ===== *)
theory Fs
  imports Mmc_Storage Usb
begin

text \<open>
  The file system glue (\<^verbatim>\<open>fs.c\<close>, in the build with the driver of \<^verbatim>\<open>fatfs/mmc_sunxi.c\<close>): card detection, the time
  stamp of files, and the dispatch of the disk functions to the SD card and to the USB volumes. Of FatFs
  (\<^verbatim>\<open>fatfs/ff.c\<close>) the part that registers volumes is modelled, with the options of \<^verbatim>\<open>fatfs/ffconf.h\<close>; what
  mounting a volume at once does (\<open>find_volume\<close>) is a parameter.
\<close>

section \<open>Volumes of FatFs\<close>

text \<open>The file system objects of the program: \<open>Fatfs\<close> of \<^verbatim>\<open>fs.c\<close> and the array \<open>fatfs\<close> of \<^verbatim>\<open>usb.c\<close>.\<close>

datatype fatfs_object = Fatfs | Usb_Fatfs nat

record ff =
  FatFs :: "fatfs_object option list"
  fs_type :: "fatfs_object \<Rightarrow> u8"
  CurrVol :: u8

definition FF_VOLUMES :: nat where "FF_VOLUMES = 6"

definition VolumeStr :: "u8 list list" where
  "VolumeStr = map str [''sd'', ''flash'', ''usb0'', ''usb1'', ''usb2'', ''usb3'']"

text \<open>The number of a result, as the USB glue sees it.\<close>

definition fresult_code :: "fresult \<Rightarrow> int" where
  "fresult_code r = int (length (takeWhile (\<lambda>x. x \<noteq> r)
     [FR_OK, FR_DISK_ERR, FR_INT_ERR, FR_NOT_READY, FR_NO_FILE, FR_NO_PATH, FR_INVALID_NAME, FR_DENIED, FR_EXIST, FR_INVALID_OBJECT,
      FR_WRITE_PROTECTED, FR_INVALID_DRIVE, FR_NOT_ENABLED, FR_NO_FILESYSTEM, FR_MKFS_ABORTED, FR_TIMEOUT, FR_LOCKED,
      FR_NOT_ENOUGH_CORE, FR_TOO_MANY_OPEN_FILES, FR_INVALID_PARAMETER]))"

text \<open>The character a pointer into a string points to; the string ends with a zero.\<close>

definition char_at :: "u8 list \<Rightarrow> u8" where
  "char_at p = (case p of [] \<Rightarrow> 0 | c # _ \<Rightarrow> c)"

definition to_upper :: "u8 \<Rightarrow> u8" where
  "to_upper c = (if 97 \<le> c \<and> c \<le> 122 then c - 0x20 else c)"

definition is_digit :: "u8 \<Rightarrow> bool" where
  "is_digit c \<longleftrightarrow> 48 \<le> c \<and> c \<le> 57"

text \<open>The loop that looks for a colon: the character it stops at and the number of characters it read.\<close>

fun find_colon :: "u8 list \<Rightarrow> u8 \<times> nat" where
  "find_colon [] = (0, 1)"
| "find_colon (c # cs) = (if 32 \<le> c \<and> c \<noteq> 58 then (case find_colon cs of (t, n) \<Rightarrow> (t, Suc n)) else (c, 1))"

text \<open>The comparison of a volume name with a path, up to case: the rest of the path if the name is all of a path component.\<close>

fun match_volume :: "u8 list \<Rightarrow> u8 list \<Rightarrow> u8 list option" where
  "match_volume [] p = (if to_upper (char_at p) = 47 \<or> to_upper (char_at p) < 32 then Some p else None)"
| "match_volume (c # cs) p = (if to_upper c = to_upper (char_at p) then match_volume cs (tl p) else None)"

fun find_volume_name :: "nat \<Rightarrow> u8 list list \<Rightarrow> u8 list \<Rightarrow> (nat \<times> u8 list) option" where
  "find_volume_name i [] p = None"
| "find_volume_name i (n # ns) p =
     (case match_volume n p of Some r \<Rightarrow> Some (i, r) | None \<Rightarrow> find_volume_name (Suc i) ns p)"

text \<open>The drive number, -1 for an invalid one, and the path after it; \<open>None\<close> is the null pointer.\<close>

definition get_ldnumber :: "u8 list option \<Rightarrow> ff \<Rightarrow> int \<times> u8 list option" where
  "get_ldnumber path s =
     (case path of
        None \<Rightarrow> (-1, None)
      | Some tp \<Rightarrow>
          (case find_colon tp of
             (tc, n) \<Rightarrow>
               if tc = 58 then
                 let i = (if is_digit (char_at tp) \<and> n = 2 then unat (char_at tp - 48) else FF_VOLUMES)
                 in if i < FF_VOLUMES then (int i, Some (drop n tp)) else (-1, Some tp)
               else
                 (case (if char_at tp = 47 then find_volume_name 0 VolumeStr (tl tp) else None) of
                    Some (i, r) \<Rightarrow> (int i, Some r)
                  | None \<Rightarrow> (uint (CurrVol s), Some tp))))"

definition clear_type :: "fatfs_object option \<Rightarrow> (fatfs_object \<Rightarrow> u8) \<Rightarrow> fatfs_object \<Rightarrow> u8" where
  "clear_type fs t = (case fs of None \<Rightarrow> t | Some x \<Rightarrow> t(x := 0))"

text \<open>\<open>f_mount\<close>, with \<open>find_volume\<close> for the volumes that are mounted at once.\<close>

definition ff_mount :: "(u8 list option \<Rightarrow> ff \<Rightarrow> fresult \<times> ff) \<Rightarrow> fatfs_object option \<Rightarrow> u8 list option \<Rightarrow> nat \<Rightarrow> ff \<Rightarrow> fresult \<times> ff" where
  "ff_mount find_volume fs path opt s =
     (let vol = fst (get_ldnumber path s)
      in if vol < 0 then (FR_INVALID_DRIVE, s)
         else
           let cfs = FatFs s ! nat vol;
               s1 = s\<lparr>fs_type := clear_type fs (clear_type cfs (fs_type s)), FatFs := (FatFs s)[nat vol := fs]\<rparr>
           in if opt = 0 then (FR_OK, s1) else find_volume path s1)"

section \<open>fs.c\<close>

text \<open>The world of the USB glue is the state of FatFs. \<open>sd_messages\<close> are the messages of card detection.\<close>

record fs =
  sd :: mmc
  usbs :: "ff usb"
  detected :: bool
  sd_messages :: "string list"

definition on_ff :: "(ff \<Rightarrow> fresult \<times> ff) \<Rightarrow> fs \<Rightarrow> fs" where
  "on_ff f s = s\<lparr>usbs := (usbs s)\<lparr>world := snd (f (world (usbs s)))\<rparr>\<rparr>"

definition say :: "string \<Rightarrow> fs \<Rightarrow> fs" where
  "say m s = s\<lparr>sd_messages := sd_messages s @ [m]\<rparr>"

text \<open>Dispatch: drives 0 and 1 are the SD card, the others USB volumes.\<close>

definition disk_status :: "nat \<Rightarrow> fs \<Rightarrow> (u8 \<times> fs) option" where
  "disk_status pdrv s =
     (if pdrv = 0 \<or> pdrv = 1 then map_option (\<lambda>(r, m). (r, s\<lparr>sd := m\<rparr>)) (mmc_disk_status pdrv (sd s))
      else map_option (\<lambda>r. (r, s)) (usb_disk_status pdrv (usbs s)))"

definition disk_initialize :: "nat \<Rightarrow> fs \<Rightarrow> (u8 \<times> fs) option" where
  "disk_initialize pdrv s =
     (if pdrv = 0 \<or> pdrv = 1 then map_option (\<lambda>(r, m). (r, s\<lparr>sd := m\<rparr>)) (mmc_disk_initialize pdrv (sd s))
      else map_option (\<lambda>(r, u). (r, s\<lparr>usbs := u\<rparr>)) (usb_disk_initialize pdrv (usbs s)))"

definition disk_read :: "ff usb_env \<Rightarrow> nat \<Rightarrow> u32 list \<Rightarrow> u32 \<Rightarrow> nat \<Rightarrow> fs \<Rightarrow> (dresult \<times> u32 list \<times> fs) option" where
  "disk_read e pdrv buff sector count s =
     (if pdrv = 0 \<or> pdrv = 1 then map_option (\<lambda>(r, d, m). (r, d, s\<lparr>sd := m\<rparr>)) (mmc_disk_read pdrv buff sector count (sd s))
      else map_option (\<lambda>(r, d, u). (r, d, s\<lparr>usbs := u\<rparr>)) (usb_disk_read e pdrv buff sector count (usbs s)))"

definition disk_write :: "ff usb_env \<Rightarrow> nat \<Rightarrow> u32 list \<Rightarrow> u32 \<Rightarrow> nat \<Rightarrow> fs \<Rightarrow> (dresult \<times> fs) option" where
  "disk_write e pdrv buff sector count s =
     (if pdrv = 0 \<or> pdrv = 1 then map_option (\<lambda>(r, m). (r, s\<lparr>sd := m\<rparr>)) (mmc_disk_write pdrv buff sector count (sd s))
      else map_option (\<lambda>(r, u). (r, s\<lparr>usbs := u\<rparr>)) (usb_disk_write e pdrv buff sector count (usbs s)))"

definition disk_ioctl :: "nat \<Rightarrow> nat \<Rightarrow> u32 \<Rightarrow> fs \<Rightarrow> (dresult \<times> u32 \<times> fs) option" where
  "disk_ioctl pdrv cmd buff s =
     (if pdrv = 0 \<or> pdrv = 1 then map_option (\<lambda>(r, d, m). (r, d, s\<lparr>sd := m\<rparr>)) (mmc_disk_ioctl pdrv cmd buff (sd s))
      else map_option (\<lambda>r. (r, buff, s)) (usb_disk_ioctl pdrv cmd (usbs s)))"

definition fs_init :: "fs \<Rightarrow> (int \<times> fs) option" where
  "fs_init s = Option.bind (disk_initialize 0 s) (\<lambda>(st, s1).
     if st \<noteq> 0 then Some (uint st, s1)
     else Some (0, on_ff (ff_mount (\<lambda>_ f. (FR_OK, f)) (Some Fatfs) (Some (str ''/sd'')) 0) (say ''SD initialized'' s1)))"

definition fs_deinit :: "fs \<Rightarrow> int \<times> fs" where
  "fs_deinit s = (0, on_ff (ff_mount (\<lambda>_ f. (FR_OK, f)) None None 0) s)"

definition get_fattime :: "rtc \<Rightarrow> u32" where
  "get_fattime r =
     push_bit 25 (word_of_int (rtc_get_year r - 1980)) OR
     push_bit 21 (word_of_int (rtc_get_month r)) OR
     push_bit 16 (word_of_int (rtc_get_day r)) OR
     push_bit 11 (word_of_int (rtc_get_hour r)) OR
     push_bit 5 (word_of_int (rtc_get_minute r)) OR
     drop_bit 1 (word_of_int (rtc_get_second r))"

text \<open>\<open>m\<close> are the port registers at the time of the call; the card detect pin is high without a card.\<close>

definition sd_detect :: "mmio \<Rightarrow> fs \<Rightarrow> (int \<times> fs) option" where
  "sd_detect m s =
     (if \<not> detected s \<and> get_pin_data PORTF 6 m = 0 then
        map_option (\<lambda>(r, s1). let s2 = (if r = 0 then s1\<lparr>detected := True\<rparr> else s1) in (of_bool (detected s2), s2))
          (fs_init (say ''card in'' s))
      else if detected s \<and> get_pin_data PORTF 6 m \<noteq> 0 then
        Some (0, (snd (fs_deinit (say ''card out'' s)))\<lparr>detected := False\<rparr>)
      else Some (of_bool (detected s), s))"

text \<open>The calls of the USB glue into FatFs.\<close>

definition ff_env :: "(u8 list option \<Rightarrow> ff \<Rightarrow> fresult \<times> ff) \<Rightarrow> ff usb_env \<Rightarrow> ff usb_env" where
  "ff_env find_volume e = e\<lparr>f_mount := \<lambda>v n w. (case ff_mount find_volume (Some (Usb_Fatfs v)) (Some (str n)) 1 w of (r, w1) \<Rightarrow> (fresult_code r, w1)),
     f_unmount := \<lambda>n w. snd (ff_mount find_volume None (Some (str n)) 0 w)\<rparr>"

section \<open>Volume names\<close>

lemma drive_number:
  assumes "v < 4"
  shows "fst (get_ldnumber (Some (str (name (initial_drives ! v)))) s) = int v + 2"
proof -
  consider "v = 0" | "v = 1" | "v = 2" | "v = 3" using assms by linarith
  then show ?thesis
    by cases (simp_all add: get_ldnumber_def initial_drives_def char_at_def VolumeStr_def to_upper_def)
qed

lemma sd_number: "fst (get_ldnumber (Some (str ''/sd'')) s) = 0"
  by (simp add: get_ldnumber_def char_at_def VolumeStr_def to_upper_def)

lemma mount_registers:
  assumes "v < 4" and "\<And>p w. FatFs (snd (fv p w)) = FatFs w"
  shows "FatFs (snd (ff_mount fv fs (Some (str (name (initial_drives ! v)))) opt w)) = (FatFs w)[v + 2 := fs]"
proof -
  have "nat (int v + 2) = v + 2" by simp
  then show ?thesis using drive_number [OF assms(1), of w] assms(2) by (simp add: ff_mount_def Let_def)
qed

section \<open>Registered volumes\<close>

definition registered :: "ff usb \<Rightarrow> bool" where
  "registered s \<longleftrightarrow> length (FatFs (world s)) = FF_VOLUMES \<and>
     (\<forall>v < 4. FatFs (world s) ! (v + 2) = (if active (usb_drives s ! v) then Some (Usb_Fatfs v) else None))"

lemma registered_update:
  assumes "registered s" and "v < 4" and "usb_drives s' = (usb_drives s)[v := d]" and "length (usb_drives s) = 4"
    and "FatFs (world s') = (FatFs (world s))[v + 2 := if active d then Some (Usb_Fatfs v) else None]"
  shows "registered s'"
  using assms by (auto simp: registered_def nth_list_update FF_VOLUMES_def)

lemma inv_names: "usb_inv s \<Longrightarrow> v < 4 \<Longrightarrow> name (usb_drives s ! v) = name (initial_drives ! v)"
  using inv_length [of s] nth_map [of v "usb_drives s" name] nth_map [of v initial_drives name]
  by (simp add: usb_inv_def) (simp add: initial_drives_def)

lemma mount_registered:
  assumes "usb_inv s" and "registered s" and dev: "(h, a) \<in> devices" and "\<And>p w. FatFs (snd (fv p w)) = FatFs w"
    and "msc_mounted_cb (ff_env fv e) h a s = Some s'"
  shows "registered s'"
proof (cases "first_slot (\<lambda>d. dev_addr d = 0) (usb_drives s)")
  case None
  then show ?thesis using assms(2,5) by (auto simp: msc_mounted_cb_def printf_def registered_def)
next
  case (Some v)
  then have v: "v < 4" using first_slot_SomeD inv_length [OF assms(1)] by metis
  let ?d = "(usb_drives s ! v)\<lparr>dev_addr := a, hcd := h\<rparr>"
  have n: "name ?d = name (initial_drives ! v)" using inv_names [OF assms(1) v] by simp
  have "usb_drives s' = (usb_drives s)[v := ?d] \<and>
      world s' = snd (ff_mount fv (Some (Usb_Fatfs v)) (Some (str (name (initial_drives ! v)))) 1 (world s))"
    using assms(5) Some dev n v inv_length [OF assms(1)]
    by (auto simp: msc_mounted_cb_def ff_env_def printf_def tusb_disk_initialize_def Let_def split: if_splits prod.splits)
  then show ?thesis
    using registered_update [OF assms(2) v, of s' ?d] mount_registers [OF v assms(4)] inv_length [OF assms(1)] devicesD [OF dev]
    by (simp add: active_def)
qed

lemma unmount_registered:
  assumes "usb_inv s" and "registered s" and dev: "(h, a) \<in> devices" and "\<And>p w. FatFs (snd (fv p w)) = FatFs w"
    and "msc_unmounted_cb (ff_env fv e) h a s = Some s'"
  shows "registered s'"
proof (cases "first_slot (\<lambda>d. hcd d = h \<and> dev_addr d = a) (usb_drives s)")
  case None
  then show ?thesis using assms(2,5) by (auto simp: msc_unmounted_cb_def get_logical_volume_def printf_def registered_def)
next
  case (Some v)
  then have v: "v < 4" using first_slot_SomeD inv_length [OF assms(1)] by metis
  let ?d = "(usb_drives s ! v)\<lparr>dev_addr := 0\<rparr>"
  have n: "name (usb_drives s ! v) = name (initial_drives ! v)" using inv_names [OF assms(1) v] by simp
  have "usb_drives s' = (usb_drives s)[v := ?d] \<and>
      world s' = snd (ff_mount fv None (Some (str (name (initial_drives ! v)))) 0 (world s))"
    using assms(5) Some dev n
    by (auto simp: msc_unmounted_cb_def get_logical_volume_def ff_env_def printf_def on_world_def tusb_disk_deinitialize_def Let_def
        split: if_splits)
  then show ?thesis
    using registered_update [OF assms(2) v, of s' ?d] mount_registers [OF v assms(4)] inv_length [OF assms(1)]
    by (simp add: active_def)
qed

text \<open>
  The part of \<open>find_volume\<close> that matters: it works on the file system object and leaves the table of volumes alone.
\<close>

definition keeps_table :: "(u8 list option \<Rightarrow> ff \<Rightarrow> fresult \<times> ff) \<Rightarrow> bool" where
  "keeps_table find_volume \<longleftrightarrow> (\<forall>p w. FatFs (snd (find_volume p w)) = FatFs w)"

definition fs_ok :: "(u8 list option \<Rightarrow> ff \<Rightarrow> fresult \<times> ff) \<Rightarrow> ff usb option \<Rightarrow> bool" where
  "fs_ok fv r \<longleftrightarrow> keeps_table fv \<and> (\<exists>s. r = Some s \<and> usb_inv s \<and> registered s)"

lemma event_registered:
  assumes "keeps_table fv" and "usb_inv s" and "registered s" and "sound_event ev S" and "usb_event (ff_env fv e) ev s = Some s'"
  shows "registered s'"
proof -
  have fv: "FatFs (snd (fv p w)) = FatFs w" for p w using assms(1) by (simp add: keeps_table_def)
  show ?thesis
    using mount_registered [OF assms(2,3) _ fv] unmount_registered [OF assms(2,3) _ fv] assms(4,5) by (cases ev) auto
qed

interpretation fs_volumes: simulation "usb_step (ff_env fv e)" set_event volumes "fs_ok fv" sound_event for fv e
proof
  fix r ev
  assume r: "fs_ok fv r" and ok: "sound_event ev (volumes r)"
  then obtain s where s: "r = Some s" "usb_inv s" "registered s" and fv: "keeps_table fv" by (auto simp: fs_ok_def)
  have step: "usb_ok (usb_step (ff_env fv e) ev r) \<and> volumes (usb_step (ff_env fv e) ev r) = set_event ev (volumes r)"
    using usb_volumes.step [of r ev "ff_env fv e"] s(1,2) ok by (simp add: usb_ok_def)
  then obtain s' where s': "usb_event (ff_env fv e) ev s = Some s'" "usb_inv s'"
    using s(1) by (auto simp: usb_step_def usb_ok_def)
  have "registered s'" using event_registered [OF fv s(2,3) ok s'(1)] .
  then show "fs_ok fv (usb_step (ff_env fv e) ev r) \<and> volumes (usb_step (ff_env fv e) ev r) = set_event ev (volumes r)"
    using step s' s(1) fv by (simp add: fs_ok_def usb_step_def)
qed

section \<open>Time stamps\<close>

text \<open>A field of the time stamp.\<close>

definition fat_field :: "nat \<Rightarrow> nat \<Rightarrow> u32 \<Rightarrow> int" where
  "fat_field pos width t = uint (drop_bit pos t AND mask width)"

lemma rtc_bounds:
  "rtc_get_month r < 16" "rtc_get_day r < 32" "rtc_get_hour r < 32" "rtc_get_minute r < 64" "rtc_get_second r < 64"
  "2000 \<le> rtc_get_year r" "rtc_get_year r < 2064"
  "0 \<le> rtc_get_month r" "0 \<le> rtc_get_day r" "0 \<le> rtc_get_hour r" "0 \<le> rtc_get_minute r" "0 \<le> rtc_get_second r"
proof -
  have "uint (w AND mask n :: u32) < 2 ^ n" for w n
    using uint_lt2p [of w] by (simp add: take_bit_eq_mask [symmetric] unsigned_take_bit_eq)
  from this [of _ 4] this [of _ 5] this [of _ 6]
  show "rtc_get_month r < 16" "rtc_get_day r < 32" "rtc_get_hour r < 32" "rtc_get_minute r < 64" "rtc_get_second r < 64"
    "2000 \<le> rtc_get_year r" "rtc_get_year r < 2064"
    by (simp_all add: rtc_get_defs mask_eq_exp_minus_1)
qed (simp_all add: rtc_get_defs)

lemma fattime_fields:
  fixes y mo d h mi sec :: u32
  defines "t \<equiv> push_bit 25 (y AND mask 7) OR push_bit 21 (mo AND mask 4) OR push_bit 16 (d AND mask 5) OR
    push_bit 11 (h AND mask 5) OR push_bit 5 (mi AND mask 6) OR (sec AND mask 5)"
  shows "drop_bit 25 t AND mask 7 = y AND mask 7" "drop_bit 21 t AND mask 4 = mo AND mask 4" "drop_bit 16 t AND mask 5 = d AND mask 5"
    "drop_bit 11 t AND mask 5 = h AND mask 5" "drop_bit 5 t AND mask 6 = mi AND mask 6" "drop_bit 0 t AND mask 5 = sec AND mask 5"
proof -
  have eq: "a AND mask n = b AND mask n" if "\<And>i. i < n \<Longrightarrow> bit a i = bit b i" for a b :: u32 and n
    using that by (intro bit_word_eqI) (auto simp: bit_simps)
  show "drop_bit 25 t AND mask 7 = y AND mask 7" "drop_bit 21 t AND mask 4 = mo AND mask 4" "drop_bit 16 t AND mask 5 = d AND mask 5"
    "drop_bit 11 t AND mask 5 = h AND mask 5" "drop_bit 5 t AND mask 6 = mi AND mask 6" "drop_bit 0 t AND mask 5 = sec AND mask 5"
    unfolding t_def by (rule eq, simp add: bit_simps)+
qed

lemma get_fattime_fields:
  "fat_field 25 7 (get_fattime r) = rtc_get_year r - 1980" "fat_field 21 4 (get_fattime r) = rtc_get_month r"
  "fat_field 16 5 (get_fattime r) = rtc_get_day r" "fat_field 11 5 (get_fattime r) = rtc_get_hour r"
  "fat_field 5 6 (get_fattime r) = rtc_get_minute r" "fat_field 0 5 (get_fattime r) = rtc_get_second r div 2"
proof -
  have m: "word_of_int k AND mask n = (word_of_int k :: u32)" "uint (word_of_int k :: u32) = k"
    if "0 \<le> k" "k < 2 ^ n" "n \<le> 32" for k n
  proof -
    show "word_of_int k AND mask n = (word_of_int k :: u32)" using field_value [OF that] by (metis word_of_int_uint)
    with field_value [OF that] show "uint (word_of_int k :: u32) = k" by simp
  qed
  define y mo d h mi where w: "y = (word_of_int (rtc_get_year r - 1980) :: u32)" "mo = (word_of_int (rtc_get_month r) :: u32)"
    "d = (word_of_int (rtc_get_day r) :: u32)" "h = (word_of_int (rtc_get_hour r) :: u32)" "mi = (word_of_int (rtc_get_minute r) :: u32)"
  define sec where sec: "sec = (drop_bit 1 (word_of_int (rtc_get_second r)) :: u32)"
  have s2: "sec = word_of_int (rtc_get_second r div 2)"
  proof -
    have "uint sec = rtc_get_second r div 2"
      using m [of "rtc_get_second r" 6] rtc_bounds [of r] by (simp add: sec drop_bit_eq_div uint_div_distrib)
    then show ?thesis by (metis word_of_int_uint)
  qed
  note b = m [of "rtc_get_year r - 1980" 7] m [of "rtc_get_month r" 4] m [of "rtc_get_day r" 5] m [of "rtc_get_hour r" 5]
    m [of "rtc_get_minute r" 6] m [of "rtc_get_second r div 2" 5]
  have v: "y AND mask 7 = y" "mo AND mask 4 = mo" "d AND mask 5 = d" "h AND mask 5 = h" "mi AND mask 6 = mi" "sec AND mask 5 = sec"
    "uint y = rtc_get_year r - 1980" "uint mo = rtc_get_month r" "uint d = rtc_get_day r" "uint h = rtc_get_hour r"
    "uint mi = rtc_get_minute r" "uint sec = rtc_get_second r div 2"
    using b rtc_bounds [of r] unfolding w s2 by simp_all
  have t: "get_fattime r = push_bit 25 (y AND mask 7) OR push_bit 21 (mo AND mask 4) OR push_bit 16 (d AND mask 5) OR
    push_bit 11 (h AND mask 5) OR push_bit 5 (mi AND mask 6) OR (sec AND mask 5)"
    unfolding v by (simp only: get_fattime_def w sec)
  show "fat_field 25 7 (get_fattime r) = rtc_get_year r - 1980" "fat_field 21 4 (get_fattime r) = rtc_get_month r"
    "fat_field 16 5 (get_fattime r) = rtc_get_day r" "fat_field 11 5 (get_fattime r) = rtc_get_hour r"
    "fat_field 5 6 (get_fattime r) = rtc_get_minute r" "fat_field 0 5 (get_fattime r) = rtc_get_second r div 2"
    unfolding fat_field_def t fattime_fields by (simp_all only: v)
qed

section \<open>Drive 0 is a disk\<close>

interpretation sd_volume: block_device "\<lambda>s. card_ready (sd s)" "\<lambda>s. disk (card (sd s))" "\<lambda>s. card_fits (sd s)" "disk_read e 0" "disk_write e 0" for e
proof
  fix s :: fs and sector count and buf :: "u32 list"
  assume r: "card_ready (sd s)" "card_fits (sd s) sector count" "length buf = count * 128"
  show "\<exists>s'. disk_read e 0 buf sector count s = Some (RES_OK, sectors (disk (card (sd s))) sector count, s') \<and>
      card_ready (sd s') \<and> disk (card (sd s')) = disk (card (sd s)) \<and> card_fits (sd s') = card_fits (sd s)"
    using ready_read [OF r] by (auto simp: disk_read_def)
  show "\<exists>s'. disk_write e 0 buf sector count s = Some (RES_OK, s') \<and>
      card_ready (sd s') \<and> disk (card (sd s')) = write_words (disk (card (sd s))) (unat sector * 128) buf \<and> card_fits (sd s') = card_fits (sd s)"
    using ready_write [OF r] by (auto simp: disk_write_def)
qed

lemma sd_detect_card_in:
  assumes "mmc_disk_initialize 0 (sd s) = Some (0, c)" and "\<not> detected s" and "get_pin_data PORTF 6 m = 0"
  shows "\<exists>s'. sd_detect m s = Some (1, s') \<and> sd s' = c"
  using assms by (simp add: sd_detect_def fs_init_def disk_initialize_def say_def on_ff_def)

section \<open>Properties\<close>

text \<open>C13. FatFs and the USB glue agree on the volumes. Along every sequence of mount and unmount callbacks,
  volume \<open>v + 2\<close> of FatFs, which the name \<open>/usb<v>\<close> leads to, is registered with the file system object of
  USB drive \<open>v\<close> exactly while that drive has a device, and the disk functions of \<^verbatim>\<open>fs.c\<close> for drive
  \<open>v + 2\<close> then reach a disk that is initialised.
\<close>

theorem fs_volumes_registered:
  assumes "keeps_table fv" and "usb_inv s" and "registered s" and "allowed sound_event set_event evs (set (keys (usb_drives s)))"
  shows "\<exists>s'. fold (usb_step (ff_env fv e)) evs (Some s) = Some s' \<and> set (keys (usb_drives s')) = fold set_event evs (set (keys (usb_drives s))) \<and>
     (\<forall>v < 4. FatFs (world s') ! (v + 2) = (if active (usb_drives s' ! v) then Some (Usb_Fatfs v) else None) \<and>
        (active (usb_drives s' ! v) \<longrightarrow> disk_status (v + 2) (f\<lparr>usbs := s'\<rparr>) = Some (0, f\<lparr>usbs := s'\<rparr>)))"
proof -
  have "fs_ok fv (Some s)" using assms(1-3) by (simp add: fs_ok_def)
  then obtain s' where s': "fold (usb_step (ff_env fv e)) evs (Some s) = Some s'" "usb_inv s'" "registered s'"
    "set (keys (usb_drives s')) = fold set_event evs (set (keys (usb_drives s)))"
    using fs_volumes.run [of fv "Some s" evs e] assms(4) by (auto simp: fs_ok_def volumes_def)
  have "usb_disk_status (v + 2) s' = Some 0" if "v < 4" "active (usb_drives s' ! v)" for v
  proof -
    have "key (usb_drives s' ! v) \<in> set (keys (usb_drives s'))"
      using that inv_length [OF s'(2)] by (auto simp: keys_def)
    then have dev: "(hcd (usb_drives s' ! v), dev_addr (usb_drives s' ! v)) \<in> devices" and
      k: "(hcd (usb_drives s' ! v), dev_addr (usb_drives s' ! v)) \<in> set (keys (usb_drives s'))"
      using s'(2) by (auto simp: usb_inv_def key_def)
    show ?thesis using inv_status [OF s'(2) dev] devicesD [OF dev] dev k that(1) inv_length [OF s'(2)]
      by (simp add: usb_disk_status_def drive_of_def tusb_disk_status_def status_for_def)
  qed
  then show ?thesis using s' by (auto simp: registered_def disk_status_def)
qed

definition ff0 :: ff where
  "ff0 = \<lparr>FatFs = replicate 6 None, fs_type = (\<lambda>_. 0), CurrVol = 0\<rparr>"

definition ffusb0 :: "ff usb" where
  "ffusb0 = \<lparr>usb_drives = initial_drives, disk_state = (\<lambda>_. replicate 5 STA_NOINIT), printed = [], world = ff0\<rparr>"

lemma ffusb0_ok: "usb_inv ffusb0" "registered ffusb0" "set (keys (usb_drives ffusb0)) = {}"
proof -
  have k: "keys initial_drives = []" by (simp add: keys_def initial_drives_def active_def)
  show "usb_inv ffusb0" by (simp add: ffusb0_def usb_inv_def k status_for_def map_replicate_const)
  have "v < 4 \<Longrightarrow> \<not> active (initial_drives ! v)" for v
    by (auto simp: initial_drives_def active_def nth_Cons split: nat.splits)
  then show "registered ffusb0" by (auto simp: ffusb0_def registered_def ff0_def FF_VOLUMES_def)
  show "set (keys (usb_drives ffusb0)) = {}" using k by (simp add: ffusb0_def)
qed

theorem fs_volumes_registered_witness:
  "\<exists>s'. fold (usb_step (ff_env (\<lambda>_ w. (FR_OK, w)) env0)) [Mounted 2 1] (Some ffusb0) = Some s' \<and> set (keys (usb_drives s')) = {(2, 1)}"
proof -
  have f: "keeps_table (\<lambda>_ w. (FR_OK, w))" by (simp add: keeps_table_def)
  have a: "allowed sound_event set_event [Mounted 2 1] (set (keys (usb_drives ffusb0)))" "fold set_event [Mounted 2 1] (set (keys (usb_drives ffusb0))) = {(2, 1)}"
    unfolding ffusb0_ok(3) by (simp_all add: devices_def)
  show ?thesis using fs_volumes_registered [OF f ffusb0_ok(1,2) a(1), of env0 f] a(2) by metis
qed

text \<open>C38. \<open>sd_detect\<close> follows the card detect pin, for a version 2 card: its result, and the variable
  \<open>detected\<close>, is 1 exactly when the pin is low. A card that comes in is registered as volume 0 of FatFs. A card
  that is taken out stays registered: \<open>fs_deinit\<close> passes a null pointer for the volume's name, which
  \<open>f_mount\<close> rejects before it has changed anything.
\<close>

theorem sd_detect_follows_pin:
  assumes "mmc_live (sd s)" and "\<not> hung (card (sd s))" and "version2 (card (sd s))"
  shows "\<exists>s'. sd_detect m s = Some (of_bool (get_pin_data PORTF 6 m = 0), s') \<and> detected s' = (get_pin_data PORTF 6 m = 0) \<and>
     FatFs (world (usbs s')) = (if \<not> detected s \<and> get_pin_data PORTF 6 m = 0 then (FatFs (world (usbs s)))[0 := Some Fatfs]
       else FatFs (world (usbs s)))"
proof -
  obtain c where c: "mmc_disk_initialize 0 (sd s) = Some (0, c)" using initialize_ok [OF assms] by blast
  have d: "ff_mount fv None None 0 w = (FR_INVALID_DRIVE, w)" for fv w by (simp add: ff_mount_def get_ldnumber_def)
  have i: "fs_init (say msg s) = Some (0, on_ff (ff_mount (\<lambda>_ f. (FR_OK, f)) (Some Fatfs) (Some (str ''/sd'')) 0) (say ''SD initialized'' ((say msg s)\<lparr>sd := c\<rparr>)))" for msg
    using c by (simp add: fs_init_def disk_initialize_def say_def)
  have r: "FatFs (snd (ff_mount fv (Some Fatfs) (Some (str ''/sd'')) 0 w)) = (FatFs w)[0 := Some Fatfs]" for fv w
    using sd_number [of w] by (simp add: ff_mount_def Let_def)
  show ?thesis
    by (cases "detected s"; cases "get_pin_data PORTF 6 m = 0")
      (simp_all add: sd_detect_def i r d fs_deinit_def del: str_simps, simp_all add: on_ff_def say_def r d del: str_simps)
qed

definition sdfs0 :: "bool \<Rightarrow> fs" where
  "sdfs0 b = \<lparr>sd = demo_card True 2 [], usbs = ffusb0, detected = b, sd_messages = []\<rparr>"

theorem sd_detect_follows_pin_witness:
  "\<exists>s'. sd_detect (\<lambda>_. 0) (sdfs0 False) = Some (1, s') \<and> FatFs (world (usbs s')) ! 0 = Some Fatfs"
proof -
  have p: "get_pin_data PORTF 6 (\<lambda>_. 0) = 0" by (simp add: get_pin_data_def)
  have "mmc_live (sd (sdfs0 False))" "\<not> hung (card (sd (sdfs0 False)))" "version2 (card (sd (sdfs0 False)))"
    using demo_live by (simp_all add: sdfs0_def) (simp_all add: demo_card_def)
  from sd_detect_follows_pin [OF this, of "\<lambda>_. 0"] p show ?thesis
    by (auto simp: sdfs0_def ffusb0_def ff0_def)
qed

end
