(* ===== verification/Fat_Window.thy ===== *)
theory Fat_Window
  imports Mmc
begin

text \<open>
  The foundation of FatFs (\<^verbatim>\<open>fatfs/ff.c\<close>) in the configuration of \<^verbatim>\<open>fatfs/ffconf.h\<close>: the file system
  object \<open>FATFS\<close> of a mounted volume, multi-byte fields of a sector, and the window, a cache of one
  sector through which all accesses to the FAT and to directories go. The disk functions FatFs calls are an
  argument, a record \<open>dio\<close>; \<^verbatim>\<open>Fat_Disk.thy\<close> fills it in with the functions of \<^verbatim>\<open>fs.c\<close>. What FatFs
  relies on is the locale \<open>disk_layer\<close>. As in the layers below, \<open>None\<close> is a disk function that never returns.
\<close>

section \<open>Disk functions and the file system object\<close>

text \<open>A read takes the buffer and returns it as the call leaves it; buffers are bytes, 512 for each sector.\<close>

record 'd dio =
  dio_status :: "u8 \<Rightarrow> 'd \<Rightarrow> (u8 \<times> 'd) option"
  dio_initialize :: "u8 \<Rightarrow> 'd \<Rightarrow> (u8 \<times> 'd) option"
  dio_read :: "u8 \<Rightarrow> u8 list \<Rightarrow> u32 \<Rightarrow> nat \<Rightarrow> 'd \<Rightarrow> (dresult \<times> u8 list \<times> 'd) option"
  dio_write :: "u8 \<Rightarrow> u8 list \<Rightarrow> u32 \<Rightarrow> nat \<Rightarrow> 'd \<Rightarrow> (dresult \<times> 'd) option"
  dio_sync :: "u8 \<Rightarrow> 'd \<Rightarrow> (dresult \<times> 'd) option"

text \<open>The file system object, and behind it the state \<open>dev\<close> of the disk layer.\<close>

record 'd FATFS =
  fs_type :: u8
  pdrv :: u8
  n_fats :: u8
  wflag :: bool
  fsi_flag :: u8
  fs_id :: u16
  n_rootdir :: u16
  csize :: u16
  last_clst :: u32
  free_clst :: u32
  cdir :: u32
  n_fatent :: u32
  fsize :: u32
  volbase :: u32
  fatbase :: u32
  dirbase :: u32
  database :: u32
  winsect :: u32
  win :: "u8 list"
  dev :: 'd

definition FS_FAT12 :: u8 where "FS_FAT12 = 1"
definition FS_FAT16 :: u8 where "FS_FAT16 = 2"
definition FS_FAT32 :: u8 where "FS_FAT32 = 3"

text \<open>The sector size, \<open>FF_MAX_SS\<close>.\<close>

definition SS :: u32 where "SS = 512"

section \<open>Multi-byte fields\<close>

definition ld_word :: "u8 list \<Rightarrow> nat \<Rightarrow> u16" where
  "ld_word b i = push_bit 8 (ucast (b ! (i + 1))) OR ucast (b ! i)"

definition ld_dword :: "u8 list \<Rightarrow> nat \<Rightarrow> u32" where
  "ld_dword b i =
     (let rv = ucast (b ! (i + 3));
          rv = push_bit 8 rv OR ucast (b ! (i + 2));
          rv = push_bit 8 rv OR ucast (b ! (i + 1))
      in push_bit 8 rv OR ucast (b ! i))"

definition st_word :: "nat \<Rightarrow> u16 \<Rightarrow> u8 list \<Rightarrow> u8 list" where
  "st_word i v b = b[i := ucast v, i + 1 := ucast (drop_bit 8 v)]"

definition st_dword :: "nat \<Rightarrow> u32 \<Rightarrow> u8 list \<Rightarrow> u8 list" where
  "st_dword i v b =
     b[i := ucast v, i + 1 := ucast (drop_bit 8 v), i + 2 := ucast (drop_bit 8 (drop_bit 8 v)),
       i + 3 := ucast (drop_bit 8 (drop_bit 8 (drop_bit 8 v)))]"

section \<open>The window\<close>

definition sync_window :: "'d dio \<Rightarrow> 'd FATFS \<Rightarrow> (fresult \<times> 'd FATFS) option" where
  "sync_window io fs =
     (if wflag fs then do {
        (r, d) \<leftarrow> dio_write io (pdrv fs) (win fs) (winsect fs) 1 (dev fs);
        if r = RES_OK then
          let fs1 = fs\<lparr>wflag := False, dev := d\<rparr>
          in if winsect fs1 - fatbase fs1 < fsize fs1 \<and> n_fats fs1 = 2 then do {
               (_, d2) \<leftarrow> dio_write io (pdrv fs1) (win fs1) (winsect fs1 + fsize fs1) 1 (dev fs1);
               Some (FR_OK, fs1\<lparr>dev := d2\<rparr>)
             }
             else Some (FR_OK, fs1)
        else Some (FR_DISK_ERR, fs\<lparr>dev := d\<rparr>)
      }
      else Some (FR_OK, fs))"

definition move_window :: "'d dio \<Rightarrow> u32 \<Rightarrow> 'd FATFS \<Rightarrow> (fresult \<times> 'd FATFS) option" where
  "move_window io sector fs =
     (if sector \<noteq> winsect fs then do {
        (res, fs1) \<leftarrow> sync_window io fs;
        if res = FR_OK then do {
          (r, b, d) \<leftarrow> dio_read io (pdrv fs1) (win fs1) sector 1 (dev fs1);
          let fs2 = fs1\<lparr>win := b, dev := d\<rparr>;
          if r \<noteq> RES_OK then Some (FR_DISK_ERR, fs2\<lparr>winsect := 0xFFFFFFFF\<rparr>)
          else Some (FR_OK, fs2\<lparr>winsect := sector\<rparr>)
        }
        else Some (res, fs1)
      }
      else Some (FR_OK, fs))"

definition BS_55AA :: nat where "BS_55AA = 510"
definition FSI_LeadSig :: nat where "FSI_LeadSig = 0"
definition FSI_StrucSig :: nat where "FSI_StrucSig = 484"
definition FSI_Free_Count :: nat where "FSI_Free_Count = 488"
definition FSI_Nxt_Free :: nat where "FSI_Nxt_Free = 492"

definition sync_fs :: "'d dio \<Rightarrow> 'd FATFS \<Rightarrow> (fresult \<times> 'd FATFS) option" where
  "sync_fs io fs = do {
     (res, fs1) \<leftarrow> sync_window io fs;
     if res = FR_OK then do {
       fs2 \<leftarrow> (if fs_type fs1 = FS_FAT32 \<and> fsi_flag fs1 = 1 then do {
           let b = st_dword FSI_Nxt_Free (last_clst fs1) (st_dword FSI_Free_Count (free_clst fs1)
             (st_dword FSI_StrucSig 0x61417272 (st_dword FSI_LeadSig 0x41615252 (st_word BS_55AA 0xAA55 (replicate 512 0)))));
           let n = volbase fs1 + 1;
           (_, d) \<leftarrow> dio_write io (pdrv fs1) b n 1 (dev fs1);
           Some (fs1\<lparr>win := b, winsect := n, dev := d, fsi_flag := 0\<rparr>)
         } else Some fs1);
       (r, d) \<leftarrow> dio_sync io (pdrv fs2) (dev fs2);
       Some (if r \<noteq> RES_OK then FR_DISK_ERR else FR_OK, fs2\<lparr>dev := d\<rparr>)
     }
     else Some (res, fs1)
   }"

section \<open>Fields that were stored are read back\<close>

lemma bit_ld_word: "bit (ld_word b i) n \<longleftrightarrow> (if n < 8 then bit (b ! i) n else n < 16 \<and> bit (b ! (i + 1)) (n - 8))"
  by (auto simp: ld_word_def bit_simps bit_u8_high)

lemma ld_dword_le32: "ld_dword b i = le32 (b ! i) (b ! (i + 1)) (b ! (i + 2)) (b ! (i + 3))"
  by (rule bit_word_eqI) (auto simp: ld_dword_def Let_def le32_def bit_simps)

lemma st_dword_byte_of:
  "st_dword i v b = b[i := byte_of v 0, i + 1 := byte_of v 1, i + 2 := byte_of v 2, i + 3 := byte_of v 3]"
  by (simp add: st_dword_def byte_of_def drop_bit_drop_bit)

lemma length_st [simp]: "length (st_word i v b) = length b" "length (st_dword i w b) = length b"
  by (simp_all add: st_word_def st_dword_def)

lemma ld_st_word: "i + 1 < length b \<Longrightarrow> ld_word (st_word i v b) i = v"
  by (rule bit_word_eqI) (auto simp: bit_ld_word st_word_def bit_simps)

lemma ld_st_dword: "i + 3 < length b \<Longrightarrow> ld_dword (st_dword i v b) i = v"
  by (simp add: ld_dword_le32 st_dword_byte_of)

lemma nth_st_word: "j \<noteq> i \<Longrightarrow> j \<noteq> i + 1 \<Longrightarrow> st_word i v b ! j = b ! j"
  by (simp add: st_word_def)

lemma nth_st_dword: "j < i \<or> i + 4 \<le> j \<Longrightarrow> st_dword i v b ! j = b ! j"
  by (auto simp: st_dword_def)

text \<open>The unsigned comparison that tests if \<open>a\<close> is one of \<open>c\<close> numbers from \<open>b\<close>.\<close>

lemma word_in_range:
  fixes a b c :: u32
  assumes "unat b + unat c < 2 ^ 32"
  shows "a - b < c \<longleftrightarrow> unat b \<le> unat a \<and> unat a < unat b + unat c"
proof (cases "b \<le> a")
  case True
  then show ?thesis by (auto simp: word_less_nat_alt word_le_nat_alt unat_sub)
next
  case False
  have "unat a < 2 ^ 32" "unat b < 2 ^ 32" using unsigned_less [of a] unsigned_less [of b] by simp_all
  then have "unat (a - b) = 2 ^ 32 + unat a - unat b" using False by (simp add: unat_sub_if' word_le_nat_alt)
  then show ?thesis using assms False by (simp add: word_less_nat_alt word_le_nat_alt)
qed

section \<open>What FatFs relies on\<close>

text \<open>
  The disk layer behind a drive: \<open>sec d n\<close> is sector \<open>n\<close> of a disk of \<open>nsec d\<close> sectors. Transfers that stay on the disk
  succeed; sector 0xFFFFFFFF, which FatFs uses as \<open>no sector\<close>, is not on a disk.
\<close>

definition sector_bytes :: "(nat \<Rightarrow> u8 list) \<Rightarrow> nat \<Rightarrow> nat \<Rightarrow> u8 list" where
  "sector_bytes c n count = concat (map c [n..<n + count])"

definition put_sectors :: "(nat \<Rightarrow> u8 list) \<Rightarrow> nat \<Rightarrow> u8 list \<Rightarrow> nat \<Rightarrow> u8 list" where
  "put_sectors c n b k = (if n \<le> k \<and> 512 * (k - n) < length b then take 512 (drop (512 * (k - n)) b) else c k)"

lemma put_sector: "length b = 512 \<Longrightarrow> put_sectors c n b = c(n := b)"
  by (auto simp: put_sectors_def fun_eq_iff)

lemma sector_bytes_1: "sector_bytes c n (Suc 0) = c n"
  by (simp add: sector_bytes_def)

locale disk_layer =
  fixes io :: "'d dio" and drive :: u8
    and ready :: "'d \<Rightarrow> bool" and sec :: "'d \<Rightarrow> nat \<Rightarrow> u8 list" and nsec :: "'d \<Rightarrow> nat"
  assumes sec_length: "length (sec d k) = 512"
    and nsec_less: "nsec d < 2 ^ 32"
    and read_law: "ready d \<Longrightarrow> 0 < count \<Longrightarrow> count < 2 ^ 22 \<Longrightarrow> unat n + count \<le> nsec d \<Longrightarrow> length b = 512 * count \<Longrightarrow>
      \<exists>d'. dio_read io drive b n count d = Some (RES_OK, sector_bytes (sec d) (unat n) count, d') \<and>
        ready d' \<and> sec d' = sec d \<and> nsec d' = nsec d"
    and write_law: "ready d \<Longrightarrow> 0 < count \<Longrightarrow> count < 2 ^ 22 \<Longrightarrow> unat n + count \<le> nsec d \<Longrightarrow> length b = 512 * count \<Longrightarrow>
      \<exists>d'. dio_write io drive b n count d = Some (RES_OK, d') \<and>
        ready d' \<and> sec d' = put_sectors (sec d) (unat n) b \<and> nsec d' = nsec d"
    and status_law: "ready d \<Longrightarrow> \<exists>st d'. dio_status io drive d = Some (st, d') \<and> st AND STA_NOINIT = 0 \<and>
        ready d' \<and> sec d' = sec d \<and> nsec d' = nsec d"
    and sync_law: "ready d \<Longrightarrow> \<exists>d'. dio_sync io drive d = Some (RES_OK, d') \<and> ready d' \<and> sec d' = sec d \<and> nsec d' = nsec d"

section \<open>The contents of a volume\<close>

text \<open>Sector \<open>n\<close> of a volume, as the window and the disk give it together.\<close>

definition vsec :: "('d \<Rightarrow> nat \<Rightarrow> u8 list) \<Rightarrow> 'd FATFS \<Rightarrow> nat \<Rightarrow> u8 list" where
  "vsec sec fs n = (if n = unat (winsect fs) then win fs else sec (dev fs) n)"

definition fat_area :: "'d FATFS \<Rightarrow> nat set" where
  "fat_area fs = {unat (fatbase fs)..<unat (fatbase fs) + unat (fsize fs)}"

text \<open>The second FAT, which FatFs writes and never reads.\<close>

definition mirror :: "'d FATFS \<Rightarrow> nat set" where
  "mirror fs = (if n_fats fs = 2 then {unat (fatbase fs) + unat (fsize fs)..<unat (fatbase fs) + 2 * unat (fsize fs)} else {})"

definition window_ok :: "u8 \<Rightarrow> ('d \<Rightarrow> bool) \<Rightarrow> ('d \<Rightarrow> nat \<Rightarrow> u8 list) \<Rightarrow> ('d \<Rightarrow> nat) \<Rightarrow> 'd FATFS \<Rightarrow> bool" where
  "window_ok drive ready sec nsec fs \<longleftrightarrow>
     ready (dev fs) \<and> pdrv fs = drive \<and> length (win fs) = 512 \<and> unat (winsect fs) \<notin> mirror fs \<and>
     (if wflag fs then unat (winsect fs) < nsec (dev fs)
      else unat (winsect fs) < nsec (dev fs) \<longrightarrow> win fs = sec (dev fs) (unat (winsect fs))) \<and>
     unat (fatbase fs) + (if n_fats fs = 2 then 2 * unat (fsize fs) else unat (fsize fs)) \<le> nsec (dev fs)"

text \<open>Two states that differ only in what the window shows: the volume has the same contents.\<close>

definition volume_fields where
  "volume_fields fs = (fs_type fs, pdrv fs, n_fats fs, fsi_flag fs, fs_id fs, n_rootdir fs, csize fs, last_clst fs, free_clst fs, cdir fs,
     n_fatent fs, fsize fs, volbase fs, fatbase fs, dirbase fs, database fs)"

definition kept :: "('d \<Rightarrow> nat \<Rightarrow> u8 list) \<Rightarrow> ('d \<Rightarrow> nat) \<Rightarrow> 'd FATFS \<Rightarrow> 'd FATFS \<Rightarrow> bool" where
  "kept sec nsec fs fs' \<longleftrightarrow>
     volume_fields fs' = volume_fields fs \<and> nsec (dev fs') = nsec (dev fs) \<and> (wflag fs' \<longrightarrow> wflag fs \<and> winsect fs' = winsect fs) \<and>
     (\<forall>n < nsec (dev fs). n \<notin> mirror fs \<longrightarrow> vsec sec fs' n = vsec sec fs n)"

lemma kept_fields:
  assumes "kept sec nsec fs fs'"
  shows "fs_type fs' = fs_type fs" "pdrv fs' = pdrv fs" "n_fats fs' = n_fats fs" "fsi_flag fs' = fsi_flag fs" "fs_id fs' = fs_id fs"
    "n_rootdir fs' = n_rootdir fs" "csize fs' = csize fs" "last_clst fs' = last_clst fs" "free_clst fs' = free_clst fs"
    "cdir fs' = cdir fs" "n_fatent fs' = n_fatent fs" "fsize fs' = fsize fs" "volbase fs' = volbase fs" "fatbase fs' = fatbase fs"
    "dirbase fs' = dirbase fs" "database fs' = database fs" "nsec (dev fs') = nsec (dev fs)" "mirror fs' = mirror fs" "fat_area fs' = fat_area fs"
  using assms by (simp_all add: kept_def volume_fields_def mirror_def fat_area_def)

lemma kept_refl: "kept sec nsec fs fs"
  by (simp add: kept_def)

lemma kept_sec: "kept sec nsec fs fs' \<Longrightarrow> n < nsec (dev fs) \<Longrightarrow> n \<notin> mirror fs \<Longrightarrow> vsec sec fs' n = vsec sec fs n"
  by (simp add: kept_def)

lemma kept_trans: "kept sec nsec fs fs' \<Longrightarrow> kept sec nsec fs' fs'' \<Longrightarrow> kept sec nsec fs fs''"
  using kept_fields(17,18) [of sec nsec fs fs'] by (auto simp: kept_def)

section \<open>The window shows the volume\<close>

context disk_layer
begin

abbreviation ok :: "'d FATFS \<Rightarrow> bool" where "ok \<equiv> window_ok drive ready sec nsec"
abbreviation keeps :: "'d FATFS \<Rightarrow> 'd FATFS \<Rightarrow> bool" where "keeps \<equiv> kept sec nsec"
abbreviation view :: "'d FATFS \<Rightarrow> nat \<Rightarrow> u8 list" where "view \<equiv> vsec sec"

lemma read_one:
  assumes "ready d" and "unat n < nsec d" and "length b = 512"
  shows "\<exists>d'. dio_read io drive b n (Suc 0) d = Some (RES_OK, sec d (unat n), d') \<and> ready d' \<and> sec d' = sec d \<and> nsec d' = nsec d"
  using read_law [of d 1 n b] assms by (auto simp: sector_bytes_1)

lemma write_one:
  assumes "ready d" and "unat n < nsec d" and "length b = 512"
  shows "\<exists>d'. dio_write io drive b n (Suc 0) d = Some (RES_OK, d') \<and> ready d' \<and> sec d' = (sec d)(unat n := b) \<and> nsec d' = nsec d"
  using write_law [of d 1 n b] assms by (auto simp: put_sector)

lemma length_view: "ok fs \<Longrightarrow> length (view fs n) = 512"
  by (simp add: vsec_def window_ok_def sec_length)

lemma fat_limit: "ok fs \<Longrightarrow> unat (fatbase fs) + unat (fsize fs) \<le> nsec (dev fs)"
  by (simp add: window_ok_def split: if_splits)

text \<open>The test by which \<open>sync_window\<close> recognises a sector of the first FAT.\<close>

lemma in_fat_area:
  assumes "unat (fatbase fs) + (if n_fats fs = 2 then 2 * unat (fsize fs) else unat (fsize fs)) \<le> nsec d"
  shows "n - fatbase fs < fsize fs \<longleftrightarrow> unat n \<in> fat_area fs"
    and "unat n \<in> fat_area fs \<Longrightarrow> n_fats fs = 2 \<Longrightarrow> unat (n + fsize fs) = unat n + unat (fsize fs)"
  using assms nsec_less [of d] word_in_range [of "fatbase fs" "fsize fs" n]
  by (auto simp: fat_area_def unat_word_ariths split: if_splits)

lemma sync_ok:
  assumes "ok fs"
  shows "\<exists>fs'. sync_window io fs = Some (FR_OK, fs') \<and> ok fs' \<and> keeps fs fs' \<and> \<not> wflag fs' \<and> winsect fs' = winsect fs \<and> win fs' = win fs"
proof (cases "wflag fs")
  case False
  then show ?thesis using assms by (simp add: sync_window_def kept_refl)
next
  case True
  have w: "ready (dev fs)" "pdrv fs = drive" "length (win fs) = 512" "unat (winsect fs) < nsec (dev fs)" "unat (winsect fs) \<notin> mirror fs"
    and lim: "unat (fatbase fs) + (if n_fats fs = 2 then 2 * unat (fsize fs) else unat (fsize fs)) \<le> nsec (dev fs)"
    using assms True by (simp_all add: window_ok_def)
  obtain d where d: "dio_write io drive (win fs) (winsect fs) (Suc 0) (dev fs) = Some (RES_OK, d)" "ready d"
    "sec d = (sec (dev fs))(unat (winsect fs) := win fs)" "nsec d = nsec (dev fs)"
    using write_one [OF w(1,4,3)] by blast
  let ?f = "fs\<lparr>wflag := False, dev := d\<rparr>"
  have k: "ok ?f \<and> keeps fs ?f"
    using w lim d by (auto simp: window_ok_def kept_def volume_fields_def vsec_def mirror_def)
  show ?thesis
  proof (cases "winsect fs - fatbase fs < fsize fs \<and> n_fats fs = 2")
    case False
    then show ?thesis using True d(1) w(2) k by (auto simp: sync_window_def Let_def)
  next
    case both: True
    then have a: "unat (winsect fs) \<in> fat_area fs" "unat (winsect fs + fsize fs) = unat (winsect fs) + unat (fsize fs)"
      using in_fat_area [OF lim] by auto
    then have m: "unat (winsect fs + fsize fs) \<in> mirror fs" "unat (winsect fs + fsize fs) < nsec d"
      using both lim d(4) by (auto simp: mirror_def fat_area_def)
    obtain d2 where d2: "dio_write io drive (win fs) (winsect fs + fsize fs) (Suc 0) d = Some (RES_OK, d2)" "ready d2"
      "sec d2 = (sec d)(unat (winsect fs + fsize fs) := win fs)" "nsec d2 = nsec d"
      using write_one [OF d(2) m(2) w(3)] by blast
    have "ok (fs\<lparr>wflag := False, dev := d2\<rparr>) \<and> keeps fs (fs\<lparr>wflag := False, dev := d2\<rparr>)"
      using k w m d d2 lim by (auto simp: window_ok_def kept_def volume_fields_def vsec_def mirror_def)
    then show ?thesis using True both d(1) d2(1) w(2) by (simp add: sync_window_def)
  qed
qed

lemma move_ok:
  assumes "ok fs" and "unat n < nsec (dev fs)" and "unat n \<notin> mirror fs"
  shows "\<exists>fs'. move_window io n fs = Some (FR_OK, fs') \<and> ok fs' \<and> keeps fs fs' \<and> winsect fs' = n \<and> win fs' = view fs (unat n)"
proof (cases "n = winsect fs")
  case True
  then show ?thesis using assms by (simp add: move_window_def kept_refl vsec_def)
next
  case False
  obtain f where f: "sync_window io fs = Some (FR_OK, f)" "ok f" "keeps fs f" "\<not> wflag f" "winsect f = winsect fs"
    using sync_ok [OF assms(1)] by blast
  have n: "unat n < nsec (dev f)" "unat n \<notin> mirror f" using assms(2,3) kept_fields [OF f(3)] by simp_all
  obtain d where d: "dio_read io drive (win f) n (Suc 0) (dev f) = Some (RES_OK, sec (dev f) (unat n), d)" "ready d" "sec d = sec (dev f)" "nsec d = nsec (dev f)"
    using read_one [of "dev f" n "win f"] f(2) n(1) by (auto simp: window_ok_def)
  let ?g = "f\<lparr>win := sec (dev f) (unat n), dev := d, winsect := n\<rparr>"
  have v: "sec (dev f) (unat n) = view fs (unat n)"
    using kept_sec [OF f(3) assms(2,3)] False f(5) by (simp add: vsec_def word_unat_eq_iff)
  have w: "unat (winsect f) < nsec (dev f) \<Longrightarrow> win f = sec (dev f) (unat (winsect f))" using f(2,4) by (simp add: window_ok_def)
  have "keeps f ?g" using d w f(4) by (auto simp: kept_def volume_fields_def vsec_def)
  then have "keeps fs ?g" by (rule kept_trans [OF f(3)])
  moreover have "ok ?g" using f(2,4) d n sec_length by (auto simp: window_ok_def mirror_def)
  moreover have "pdrv f = drive" using f(2) by (simp add: window_ok_def)
  ultimately show ?thesis using False f(1) d(1) v by (simp add: move_window_def)
qed

text \<open>A sector outside the window's dirty sector is on the disk as the volume has it.\<close>

lemma clean_sector:
  assumes "ok fs" and "n < nsec (dev fs)" and "\<not> (wflag fs \<and> n = unat (winsect fs))"
  shows "sec (dev fs) n = view fs n"
  using assms by (auto simp: vsec_def window_ok_def)

lemma modify_ok:
  assumes "ok fs" and "unat (winsect fs) < nsec (dev fs)" and "length b = 512"
  shows "ok (fs\<lparr>win := b, wflag := True\<rparr>)" and "view (fs\<lparr>win := b, wflag := True\<rparr>) = (view fs)(unat (winsect fs) := b)"
  using assms by (auto simp: window_ok_def mirror_def vsec_def fun_eq_iff)

end

end
