(* ===== verification/Fat_Table.thy ===== *)
theory Fat_Table
  imports Fat_Window
begin

text \<open>
  The file allocation table of FatFs (\<^verbatim>\<open>fatfs/ff.c\<close>): the entry of a cluster is read and written through the window, in the
  three formats of 12, 16 and 32 bits. An entry of 12 bits shares a byte with its neighbour and may lie in two sectors.
\<close>

section \<open>Operations\<close>

definition clst2sect :: "'d FATFS \<Rightarrow> u32 \<Rightarrow> u32" where
  "clst2sect fs clst =
     (let clst = clst - 2
      in if clst \<ge> n_fatent fs - 2 then 0 else database fs + ucast (csize fs) * clst)"

definition get_fat :: "'d dio \<Rightarrow> u32 \<Rightarrow> 'd FATFS \<Rightarrow> (u32 \<times> 'd FATFS) option" where
  "get_fat io clst fs =
     (if clst < 2 \<or> clst \<ge> n_fatent fs then Some (1, fs)
      else if fs_type fs = FS_FAT12 then do {
        let bc = clst + clst div 2;
        (res, fs1) \<leftarrow> move_window io (fatbase fs + bc div SS) fs;
        if res \<noteq> FR_OK then Some (0xFFFFFFFF, fs1) else do {
          let wc = (ucast (win fs1 ! unat (bc mod SS)) :: u32);
          let bc = bc + 1;
          (res, fs2) \<leftarrow> move_window io (fatbase fs1 + bc div SS) fs1;
          if res \<noteq> FR_OK then Some (0xFFFFFFFF, fs2)
          else
            let wc = wc OR push_bit 8 (ucast (win fs2 ! unat (bc mod SS)))
            in Some (if clst AND 1 \<noteq> 0 then drop_bit 4 wc else wc AND 0xFFF, fs2)
        }
      }
      else if fs_type fs = FS_FAT16 then do {
        (res, fs1) \<leftarrow> move_window io (fatbase fs + clst div (SS div 2)) fs;
        Some (if res \<noteq> FR_OK then 0xFFFFFFFF else ucast (ld_word (win fs1) (unat (clst * 2 mod SS))), fs1)
      }
      else if fs_type fs = FS_FAT32 then do {
        (res, fs1) \<leftarrow> move_window io (fatbase fs + clst div (SS div 4)) fs;
        Some (if res \<noteq> FR_OK then 0xFFFFFFFF else ld_dword (win fs1) (unat (clst * 4 mod SS)) AND 0x0FFFFFFF, fs1)
      }
      else Some (1, fs))"

definition put_fat :: "'d dio \<Rightarrow> u32 \<Rightarrow> u32 \<Rightarrow> 'd FATFS \<Rightarrow> (fresult \<times> 'd FATFS) option" where
  "put_fat io clst val fs =
     (if clst \<ge> 2 \<and> clst < n_fatent fs then
        if fs_type fs = FS_FAT12 then do {
          let bc = clst + clst div 2;
          (res, fs1) \<leftarrow> move_window io (fatbase fs + bc div SS) fs;
          if res \<noteq> FR_OK then Some (res, fs1) else do {
            let p = unat (bc mod SS);
            let x = (if clst AND 1 \<noteq> 0 then (win fs1 ! p AND 0x0F) OR push_bit 4 (ucast val) else ucast val);
            let fs2 = fs1\<lparr>win := (win fs1)[p := x], wflag := True\<rparr>;
            let bc = bc + 1;
            (res, fs3) \<leftarrow> move_window io (fatbase fs2 + bc div SS) fs2;
            if res \<noteq> FR_OK then Some (res, fs3) else
              let q = unat (bc mod SS);
                  y = (if clst AND 1 \<noteq> 0 then ucast (drop_bit 4 val) else (win fs3 ! q AND 0xF0) OR (ucast (drop_bit 8 val) AND 0x0F))
              in Some (FR_OK, fs3\<lparr>win := (win fs3)[q := y], wflag := True\<rparr>)
          }
        }
        else if fs_type fs = FS_FAT16 then do {
          (res, fs1) \<leftarrow> move_window io (fatbase fs + clst div (SS div 2)) fs;
          if res \<noteq> FR_OK then Some (res, fs1)
          else Some (FR_OK, fs1\<lparr>win := st_word (unat (clst * 2 mod SS)) (ucast val) (win fs1), wflag := True\<rparr>)
        }
        else if fs_type fs = FS_FAT32 then do {
          (res, fs1) \<leftarrow> move_window io (fatbase fs + clst div (SS div 4)) fs;
          if res \<noteq> FR_OK then Some (res, fs1)
          else
            let p = unat (clst * 4 mod SS);
                v = (val AND 0x0FFFFFFF) OR (ld_dword (win fs1) p AND 0xF0000000)
            in Some (FR_OK, fs1\<lparr>win := st_dword p v (win fs1), wflag := True\<rparr>)
        }
        else Some (FR_INT_ERR, fs)
      else Some (FR_INT_ERR, fs))"

section \<open>The table as bytes and as a function on clusters\<close>

text \<open>The byte of a table of sectors, and the value of an entry in a table of bytes.\<close>

definition byte_at :: "(nat \<Rightarrow> u8 list) \<Rightarrow> nat \<Rightarrow> nat \<Rightarrow> u8" where
  "byte_at c base i = c (base + i div 512) ! (i mod 512)"

definition fat_value :: "u8 \<Rightarrow> (nat \<Rightarrow> u8) \<Rightarrow> nat \<Rightarrow> u32" where
  "fat_value ty b c =
     (if ty = FS_FAT12 then
        let w = ucast (b (c + c div 2)) OR push_bit 8 (ucast (b (c + c div 2 + 1)))
        in if odd c then drop_bit 4 w else w AND 0xFFF
      else if ty = FS_FAT16 then ucast (b (2 * c)) OR push_bit 8 (ucast (b (2 * c + 1)))
      else le32 (b (4 * c)) (b (4 * c + 1)) (b (4 * c + 2)) (b (4 * c + 3)) AND 0x0FFFFFFF)"

text \<open>The bytes a new value leaves, and the number of bits of a value that the table stores.\<close>

definition put_value :: "u8 \<Rightarrow> nat \<Rightarrow> u32 \<Rightarrow> (nat \<Rightarrow> u8) \<Rightarrow> nat \<Rightarrow> u8" where
  "put_value ty c v b =
     (if ty = FS_FAT12 then
        let k = c + c div 2
        in b(k := if odd c then (b k AND 0x0F) OR push_bit 4 (ucast v) else ucast v,
             k + 1 := if odd c then ucast (drop_bit 4 v) else (b (k + 1) AND 0xF0) OR (ucast (drop_bit 8 v) AND 0x0F))
      else if ty = FS_FAT16 then b(2 * c := byte_of v 0, 2 * c + 1 := byte_of v 1)
      else
        let w = (v AND 0x0FFFFFFF) OR (le32 (b (4 * c)) (b (4 * c + 1)) (b (4 * c + 2)) (b (4 * c + 3)) AND 0xF0000000)
        in b(4 * c := byte_of w 0, 4 * c + 1 := byte_of w 1, 4 * c + 2 := byte_of w 2, 4 * c + 3 := byte_of w 3))"

definition fat_bits :: "u8 \<Rightarrow> nat" where
  "fat_bits ty = (if ty = FS_FAT12 then 12 else if ty = FS_FAT16 then 16 else 28)"

lemma hex_masks:
  "(0x0FFFFFFF :: u32) = mask 28" "(0xF0000000 :: u32) = push_bit 28 (mask 4)" "(0xFFF :: u32) = mask 12"
  "(0x0F :: u8) = mask 4" "(0xF0 :: u8) = push_bit 4 (mask 4)"
  by (simp_all add: mask_eq_exp_minus_1 push_bit_eq_mult)

lemma bit_u8_less: "bit (b :: u8) n \<Longrightarrow> n < 8"
  using bit_imp_le_length [of b n] by simp

lemma fat_put_same: "fat_value ty (put_value ty c v b) c = v AND mask (fat_bits ty)"
proof -
  consider "ty = FS_FAT12" | "ty = FS_FAT16" | "ty \<noteq> FS_FAT12" "ty \<noteq> FS_FAT16" by blast
  then show ?thesis
  proof cases
    case 1
    then show ?thesis
      by (cases "odd c")
        (rule bit_word_eqI, auto simp: fat_value_def put_value_def fat_bits_def Let_def hex_masks bit_simps bit_u8_high)+
  next
    case 2
    then show ?thesis
      by (intro bit_word_eqI)
        (auto simp: fat_value_def put_value_def fat_bits_def FS_FAT12_def FS_FAT16_def hex_masks bit_simps bit_byte_of bit_u8_high)
  next
    case 3
    then show ?thesis
      by (intro bit_word_eqI) (auto simp: fat_value_def put_value_def fat_bits_def Let_def hex_masks bit_simps)
  qed
qed

lemma fat_put_other:
  assumes "c' \<noteq> c"
  shows "fat_value ty (put_value ty c v b) c' = fat_value ty b c'"
proof -
  consider "ty = FS_FAT12" | "ty = FS_FAT16" | "ty \<noteq> FS_FAT12" "ty \<noteq> FS_FAT16" by blast
  then show ?thesis
  proof cases
    case 1
    have r: "c = 2 * (c div 2) + c mod 2" "c' = 2 * (c' div 2) + c' mod 2" by simp_all
    let ?k = "c + c div 2" and ?l = "c' + c' div 2"
    consider "?l + 1 < ?k" | "?k + 1 < ?l" | "even c" "odd c'" "?l = ?k + 1" | "odd c" "even c'" "?k = ?l + 1"
      using assms r by (cases "even c"; cases "even c'") (auto elim!: evenE oddE, linarith+)
    then show ?thesis using 1
      by cases (auto simp: fat_value_def put_value_def Let_def hex_masks bit_simps bit_u8_high intro!: bit_word_eqI, (drule bit_u8_less, linarith)+)
  next
    case 2
    have "2 * c' \<noteq> 2 * c + 1" "2 * c' + 1 \<noteq> 2 * c" by presburger+
    with 2 show ?thesis using assms by (simp add: fat_value_def put_value_def FS_FAT12_def FS_FAT16_def)
  next
    case 3
    have "4 * c' + i \<noteq> 4 * c + j" if "i < 4" "j < 4" for i j using assms that by presburger
    from this [of 0] this [of 1] this [of 2] this [of 3] 3 assms show ?thesis
      by (simp add: fat_value_def put_value_def Let_def)
  qed
qed


section \<open>Reading and writing entries\<close>

definition fat_bytes :: "u8 \<Rightarrow> nat \<Rightarrow> nat" where
  "fat_bytes ty n = (if ty = FS_FAT12 then n + n div 2 + n mod 2 else if ty = FS_FAT16 then 2 * n else 4 * n)"

text \<open>The table has an entry for every cluster, and its largest value is not a cluster. \<open>find_volume\<close> mounts no other volumes.\<close>

definition table_ok :: "'d FATFS \<Rightarrow> bool" where
  "table_ok fs \<longleftrightarrow> fs_type fs \<in> {FS_FAT12, FS_FAT16, FS_FAT32} \<and> unat (n_fatent fs) + 9 \<le> 2 ^ fat_bits (fs_type fs) \<and>
     fat_bytes (fs_type fs) (unat (n_fatent fs)) \<le> 512 * unat (fsize fs)"

lemma table_bound: "table_ok fs \<Longrightarrow> unat (n_fatent fs) < 2 ^ 28"
  by (auto simp: table_ok_def fat_bits_def split: if_splits)

text \<open>The entry of a cluster.\<close>

definition fat_bytes_of :: "('d \<Rightarrow> nat \<Rightarrow> u8 list) \<Rightarrow> 'd FATFS \<Rightarrow> nat \<Rightarrow> u8" where
  "fat_bytes_of sec fs = byte_at (vsec sec fs) (unat (fatbase fs))"

definition fat :: "('d \<Rightarrow> nat \<Rightarrow> u8 list) \<Rightarrow> 'd FATFS \<Rightarrow> u32 \<Rightarrow> u32" where
  "fat sec fs c = fat_value (fs_type fs) (fat_bytes_of sec fs) (unat c)"

definition cluster :: "'d FATFS \<Rightarrow> u32 \<Rightarrow> bool" where
  "cluster fs c \<longleftrightarrow> 2 \<le> c \<and> c < n_fatent fs"

text \<open>A change of the table: the other sectors of the volume are as before, and the window shows a sector of the table, or the
  sector it showed before.\<close>

definition win_moved :: "'d FATFS \<Rightarrow> 'd FATFS \<Rightarrow> bool" where
  "win_moved fs fs' \<longleftrightarrow> unat (winsect fs') \<in> fat_area fs \<or> winsect fs' = winsect fs \<and> (wflag fs' \<longrightarrow> wflag fs)"

definition table_step :: "('d \<Rightarrow> nat \<Rightarrow> u8 list) \<Rightarrow> ('d \<Rightarrow> nat) \<Rightarrow> 'd FATFS \<Rightarrow> 'd FATFS \<Rightarrow> bool" where
  "table_step sec nsec fs fs' \<longleftrightarrow> volume_fields fs' = volume_fields fs \<and> nsec (dev fs') = nsec (dev fs) \<and>
     win_moved fs fs' \<and>
     (\<forall>n < nsec (dev fs). n \<notin> mirror fs \<union> fat_area fs \<longrightarrow> vsec sec fs' n = vsec sec fs n)"

lemma fat_index:
  fixes c :: u32
  assumes "unat c < 2 ^ 28"
  shows "unat (c div (SS div 2)) = 2 * unat c div 512" "unat (c * 2 mod SS) = 2 * unat c mod 512"
    "unat (c div (SS div 4)) = 4 * unat c div 512" "unat (c * 4 mod SS) = 4 * unat c mod 512"
    "unat (c + c div 2) = unat c + unat c div 2" "unat (c + c div 2 + 1) = unat c + unat c div 2 + 1"
    "c AND 1 \<noteq> 0 \<longleftrightarrow> odd (unat c)"
proof -
  have "unat (c * 2) = 2 * unat c" "unat (c * 4) = 4 * unat c"
    using assms by (simp_all add: unat_word_ariths)
  then show "unat (c * 2 mod SS) = 2 * unat c mod 512" "unat (c * 4 mod SS) = 4 * unat c mod 512"
    by (simp_all add: SS_def unat_mod_distrib)
  show "unat (c div (SS div 2)) = 2 * unat c div 512" "unat (c div (SS div 4)) = 4 * unat c div 512"
    by (simp_all add: SS_def unat_div_distrib)
  have d: "unat (c div 2) = unat c div 2" by (simp add: unat_div_distrib)
  show e: "unat (c + c div 2) = unat c + unat c div 2" using assms d by (simp add: unat_word_ariths)
  then show "unat (c + c div 2 + 1) = unat c + unat c div 2 + 1" using assms by (simp add: unat_word_ariths)
  show "c AND 1 \<noteq> 0 \<longleftrightarrow> odd (unat c)"
    using bit_unsigned_iff [of c 0, where 'a = nat] by (simp add: and_one_eq bit_0 even_iff_mod_2_eq_zero [of c, symmetric])
qed

lemmas sector_offset = mod_offset [where m = 512]

lemma entry_in_sector: "2 * c mod 512 + 1 < 512" "i < 4 \<Longrightarrow> 4 * c mod 512 + i < 512" for c i :: nat
  using mult_mod_right [of 2 c 256] mult_mod_right [of 4 c 128] mod_less_divisor [of 256 c] mod_less_divisor [of 128 c] by simp_all

lemmas entry_sector = sector_offset [OF entry_in_sector(1)] sector_offset [OF entry_in_sector(2)]

lemma fat12_bytes: "c < n \<Longrightarrow> c + c div 2 + 1 < n + n div 2 + n mod 2" for c n :: nat
  by (cases "even n"; cases "even c") (auto elim!: evenE oddE)

lemma entry_bytes:
  "byte_at c base (2 * k) = c (base + 2 * k div 512) ! (2 * k mod 512)"
  "byte_at c base (2 * k + 1) = c (base + 2 * k div 512) ! (2 * k mod 512 + 1)"
  "byte_at c base (4 * k) = c (base + 4 * k div 512) ! (4 * k mod 512)"
  "byte_at c base (4 * k + 1) = c (base + 4 * k div 512) ! (4 * k mod 512 + 1)"
  "byte_at c base (4 * k + 2) = c (base + 4 * k div 512) ! (4 * k mod 512 + 2)"
  "byte_at c base (4 * k + 3) = c (base + 4 * k div 512) ! (4 * k mod 512 + 3)"
  using entry_sector(3,4) [of 1 k] entry_sector(3,4) [of 2 k] entry_sector(3,4) [of 3 k] entry_sector(1,2) [of k]
  by (simp_all only: byte_at_def)

lemma ucast_ld_word: "ucast (ld_word b i) = (ucast (b ! i) OR push_bit 8 (ucast (b ! (i + 1))) :: u32)"
  by (rule bit_word_eqI) (auto simp: bit_ld_word bit_simps bit_u8_high dest: bit_u8_less)

text \<open>A run of bytes copied into a buffer.\<close>

definition splice_bytes :: "nat \<Rightarrow> u8 list \<Rightarrow> u8 list \<Rightarrow> u8 list" where
  "splice_bytes i bs b = take i b @ bs @ drop (i + length bs) b"

lemma length_splice_bytes: "i + length bs \<le> length b \<Longrightarrow> length (splice_bytes i bs b) = length b"
  by (simp add: splice_bytes_def)

lemma nth_splice_bytes:
  "i + length bs \<le> length b \<Longrightarrow> j < length b \<Longrightarrow> splice_bytes i bs b ! j = (if i \<le> j \<and> j < i + length bs then bs ! (j - i) else b ! j)"
  by (auto simp: splice_bytes_def nth_append)

lemma put_byte: "i < length b \<Longrightarrow> b[i := x] = splice_bytes i [x] b"
  by (simp add: splice_bytes_def upd_conv_take_nth_drop)

lemma st_word_put: "i + 2 \<le> length b \<Longrightarrow> st_word i v b = splice_bytes i [ucast v, ucast (drop_bit 8 v)] b"
  by (rule nth_equalityI) (auto simp: st_word_def length_splice_bytes nth_splice_bytes nth_list_update nth_Cons')

lemma st_dword_put: "i + 4 \<le> length b \<Longrightarrow> st_dword i v b = splice_bytes i [byte_of v 0, byte_of v 1, byte_of v 2, byte_of v 3] b"
  by (rule nth_equalityI) (auto simp: st_dword_byte_of length_splice_bytes nth_splice_bytes nth_list_update nth_Cons')

definition poke :: "nat \<Rightarrow> u8 list \<Rightarrow> 'd FATFS \<Rightarrow> 'd FATFS" where
  "poke k bs fs = fs\<lparr>win := splice_bytes (k mod 512) bs (win fs), wflag := True\<rparr>"

definition fat_poke :: "nat \<Rightarrow> u8 list \<Rightarrow> (nat \<Rightarrow> u8) \<Rightarrow> nat \<Rightarrow> u8" where
  "fat_poke k bs b j = (if k \<le> j \<and> j < k + length bs then bs ! (j - k) else b j)"

context disk_layer
begin

abbreviation step where "step \<equiv> table_step sec nsec"

lemma fat_sector:
  assumes "ok fs" and "i < 512 * unat (fsize fs)" and "unat q = i div 512"
  shows "unat (fatbase fs + q) = unat (fatbase fs) + i div 512" "unat (fatbase fs + q) < nsec (dev fs)"
    "unat (fatbase fs + q) \<in> fat_area fs" "unat (fatbase fs + q) \<notin> mirror fs"
proof -
  have "unat (fatbase fs) + unat (fsize fs) \<le> nsec (dev fs)" using assms(1) by (rule fat_limit)
  moreover have "i div 512 < unat (fsize fs)" using assms(2) by (simp add: less_mult_imp_div_less)
  ultimately show e: "unat (fatbase fs + q) = unat (fatbase fs) + i div 512"
    and "unat (fatbase fs + q) < nsec (dev fs)" "unat (fatbase fs + q) \<in> fat_area fs" "unat (fatbase fs + q) \<notin> mirror fs"
    using assms(3) nsec_less [of "dev fs"] by (auto simp: unat_word_ariths fat_area_def mirror_def)
qed

lemma step_refl: "step fs fs"
  by (simp add: table_step_def win_moved_def)

lemma step_trans: "step fs fs' \<Longrightarrow> step fs' fs'' \<Longrightarrow> step fs fs''"
  by (auto simp: table_step_def volume_fields_def mirror_def fat_area_def win_moved_def)

lemma move_fat:
  assumes "ok fs" and "i < 512 * unat (fsize fs)" and "unat q = i div 512"
  shows "\<exists>fs'. move_window io (fatbase fs + q) fs = Some (FR_OK, fs') \<and> ok fs' \<and> keeps fs fs' \<and>
     unat (winsect fs') = unat (fatbase fs) + i div 512 \<and> win fs' = view fs (unat (fatbase fs) + i div 512) \<and> step fs fs'"
proof -
  obtain f where f: "move_window io (fatbase fs + q) fs = Some (FR_OK, f)" "ok f" "keeps fs f" "winsect f = fatbase fs + q" "win f = view fs (unat (fatbase fs + q))"
    using move_ok [OF assms(1) fat_sector(2,4) [OF assms]] by blast
  have "step fs f" using f(3,4) fat_sector(3) [OF assms] by (simp add: kept_def table_step_def win_moved_def)
  then show ?thesis using f fat_sector(1) [OF assms] by metis
qed

lemma kept_fat_bytes:
  assumes "ok fs" and "keeps fs fs'" and "i < 512 * unat (fsize fs)"
  shows "fat_bytes_of sec fs' i = fat_bytes_of sec fs i"
proof -
  let ?n = "unat (fatbase fs) + i div 512"
  have "?n < nsec (dev fs) \<and> ?n \<notin> mirror fs"
    using assms(3) fat_limit [OF assms(1)] less_mult_imp_div_less [of i "unat (fsize fs)" 512] by (auto simp: mirror_def)
  then show ?thesis using kept_sec [OF assms(2)] kept_fields [OF assms(2)] by (simp add: fat_bytes_of_def byte_at_def)
qed

lemma get_fat_ok:
  assumes "ok fs" and "table_ok fs" and "cluster fs c"
  shows "\<exists>fs'. get_fat io c fs = Some (fat sec fs c, fs') \<and> ok fs' \<and> keeps fs fs' \<and> step fs fs'"
proof -
  have c: "2 \<le> c" "c < n_fatent fs" and u: "unat c < unat (n_fatent fs)" and s: "unat c < 2 ^ 28"
    using table_bound [OF assms(2)] assms(3) by (simp_all add: cluster_def word_less_nat_alt)
  have nc: "\<not> (c < 2 \<or> n_fatent fs \<le> c)" using c by (simp add: not_less not_le)
  note ix = fat_index [OF s]
  consider "fs_type fs = FS_FAT12" | "fs_type fs = FS_FAT16" | "fs_type fs = FS_FAT32" using assms(2) by (auto simp: table_ok_def)
  then show ?thesis
  proof cases
    case 1
    let ?k = "unat c + unat c div 2"
    have k: "?k + 1 < 512 * unat (fsize fs)" "?k < 512 * unat (fsize fs)" using assms(2) 1 fat12_bytes [OF u] by (auto simp: table_ok_def fat_bytes_def)
    have q: "unat ((c + c div 2) div SS) = ?k div 512" "unat ((c + c div 2 + 1) div SS) = (?k + 1) div 512"
      "unat ((c + c div 2) mod SS) = ?k mod 512" "unat ((c + c div 2 + 1) mod SS) = (?k + 1) mod 512"
      using ix(5,6) by (simp_all add: SS_def unat_div_distrib unat_mod_distrib)
    obtain f where f: "move_window io (fatbase fs + (c + c div 2) div SS) fs = Some (FR_OK, f)" "ok f" "keeps fs f" "step fs f"
      "win f = view fs (unat (fatbase fs) + ?k div 512)" using move_fat [OF assms(1) k(2) q(1)] by blast
    have kf: "?k + 1 < 512 * unat (fsize f)" using k kept_fields [OF f(3)] by simp
    obtain g where g: "move_window io (fatbase f + (c + c div 2 + 1) div SS) f = Some (FR_OK, g)" "ok g" "keeps f g" "step f g"
      "win g = view f (unat (fatbase f) + (?k + 1) div 512)" using move_fat [OF f(2) kf q(2)] by blast
    have "win g ! ((?k + 1) mod 512) = fat_bytes_of sec fs (?k + 1)"
      using kept_fat_bytes [OF assms(1) f(3) k(1)] g(5) by (simp add: fat_bytes_of_def byte_at_def)
    moreover have "win f ! (?k mod 512) = fat_bytes_of sec fs ?k" using f(5) by (simp add: fat_bytes_of_def byte_at_def)
    ultimately have "get_fat io c fs = Some (fat sec fs c, g)"
      using nc 1 f(1) g(1) ix(7) by (simp add: get_fat_def q Let_def fat_def fat_value_def)
    then show ?thesis using g(2) kept_trans [OF f(3) g(3)] step_trans [OF f(4) g(4)] by blast
  next
    case 2
    have k: "2 * unat c < 512 * unat (fsize fs)" using assms(2) 2 u by (simp add: table_ok_def fat_bytes_def FS_FAT12_def FS_FAT16_def)
    obtain f where f: "move_window io (fatbase fs + c div (SS div 2)) fs = Some (FR_OK, f)" "ok f" "keeps fs f" "step fs f"
      "win f = view fs (unat (fatbase fs) + 2 * unat c div 512)" using move_fat [OF assms(1) k ix(1)] by blast
    have "ucast (ld_word (win f) (2 * unat c mod 512)) = fat sec fs c"
      using 2 by (simp only: ucast_ld_word f(5) fat_def fat_value_def fat_bytes_of_def entry_bytes) (simp add: FS_FAT12_def FS_FAT16_def)
    then show ?thesis using nc 2 f ix(2) by (simp add: get_fat_def FS_FAT12_def FS_FAT16_def)
  next
    case 3
    have k: "4 * unat c < 512 * unat (fsize fs)" using assms(2) 3 u by (simp add: table_ok_def fat_bytes_def FS_FAT12_def FS_FAT16_def FS_FAT32_def)
    obtain f where f: "move_window io (fatbase fs + c div (SS div 4)) fs = Some (FR_OK, f)" "ok f" "keeps fs f" "step fs f"
      "win f = view fs (unat (fatbase fs) + 4 * unat c div 512)" using move_fat [OF assms(1) k ix(3)] by blast
    have "ld_dword (win f) (4 * unat c mod 512) AND 0x0FFFFFFF = fat sec fs c"
      using 3 by (simp only: ld_dword_le32 f(5) fat_def fat_value_def fat_bytes_of_def entry_bytes) (simp add: FS_FAT12_def FS_FAT16_def FS_FAT32_def)
    then show ?thesis using nc 3 f ix(4) by (simp add: get_fat_def FS_FAT12_def FS_FAT16_def FS_FAT32_def)
  qed
qed


text \<open>Some bytes of the table are changed in the window.\<close>

lemma poke_ok:
  assumes "ok fs" and "unat (winsect fs) = unat (fatbase fs) + k div 512" and "k < 512 * unat (fsize fs)" and fit: "k mod 512 + length bs \<le> 512"
  shows "ok (poke k bs fs)" "step fs (poke k bs fs)" "fat_bytes_of sec (poke k bs fs) = fat_poke k bs (fat_bytes_of sec fs)"
proof -
  have w: "unat (winsect fs) < nsec (dev fs)" "unat (winsect fs) \<in> fat_area fs" and l: "length (win fs) = 512"
    using assms fat_limit [OF assms(1)] less_mult_imp_div_less [of k "unat (fsize fs)" 512] by (auto simp: window_ok_def fat_area_def)
  have lp: "length (splice_bytes (k mod 512) bs (win fs)) = 512" using l fit by (simp add: length_splice_bytes)
  note m = modify_ok [OF assms(1) w(1) lp]
  show "ok (poke k bs fs)" using m(1) by (simp add: poke_def)
  show "step fs (poke k bs fs)" using w m(2) by (auto simp: poke_def table_step_def volume_fields_def win_moved_def)
  have e: "view fs (unat (fatbase fs) + k div 512) = win fs" by (simp add: vsec_def assms(2))
  show "fat_bytes_of sec (poke k bs fs) = fat_poke k bs (fat_bytes_of sec fs)"
  proof
    fix j
    show "fat_bytes_of sec (poke k bs fs) j = fat_poke k bs (fat_bytes_of sec fs) j"
    proof (cases "j div 512 = k div 512")
      case True
      have d: "j = 512 * (k div 512) + j mod 512" "k = 512 * (k div 512) + k mod 512" using True by (metis mult_div_mod_eq, simp)
      have "k mod 512 \<le> j mod 512 \<longleftrightarrow> k \<le> j" "j mod 512 < k mod 512 + length bs \<longleftrightarrow> j < k + length bs" "j mod 512 - k mod 512 = j - k"
        using d by linarith+
      then show ?thesis using True m(2) l e fit
        by (simp add: fat_bytes_of_def poke_def byte_at_def assms(2) nth_splice_bytes fat_poke_def)
    next
      case False
      have "\<not> (k \<le> j \<and> j < k + length bs)"
      proof
        assume j: "k \<le> j \<and> j < k + length bs"
        then have "(k + (j - k)) div 512 = k div 512" using fit by (intro sector_offset) linarith
        with j False show False by simp
      qed
      then show ?thesis using False m(2) by (auto simp: fat_bytes_of_def poke_def byte_at_def assms(2) fat_poke_def)
    qed
  qed
qed

lemma win_byte:
  assumes "unat (winsect fs) = unat (fatbase fs) + k div 512" and "k mod 512 + i < 512"
  shows "win fs ! (k mod 512 + i) = fat_bytes_of sec fs (k + i)"
  using sector_offset [OF assms(2)] by (simp add: fat_bytes_of_def byte_at_def vsec_def assms(1))

text \<open>The window is moved to a sector of the table.\<close>

lemma move_poke:
  assumes "ok fs" and "k < 512 * unat (fsize fs)" and "unat q = k div 512"
  shows "\<exists>f. move_window io (fatbase fs + q) fs = Some (FR_OK, f) \<and> length (win f) = 512 \<and>
     unat (winsect f) = unat (fatbase f) + k div 512 \<and> ok f \<and> step fs f \<and> (\<forall>i < 512 * unat (fsize fs). fat_bytes_of sec f i = fat_bytes_of sec fs i)"
proof -
  obtain f where f: "move_window io (fatbase fs + q) fs = Some (FR_OK, f)" "ok f" "keeps fs f" "unat (winsect f) = unat (fatbase fs) + k div 512" "step fs f"
    using move_fat [OF assms] by blast
  have ff: "fatbase f = fatbase fs" "fsize f = fsize fs" using kept_fields [OF f(3)] by simp_all
  show ?thesis
    using f kept_fat_bytes [OF assms(1) f(3)] ff by (auto simp: window_ok_def)
qed

lemma step_fields:
  assumes "step fs fs'"
  shows "fatbase fs' = fatbase fs" "fsize fs' = fsize fs" "fs_type fs' = fs_type fs" "n_fatent fs' = n_fatent fs"
    "mirror fs' = mirror fs" "fat_area fs' = fat_area fs" "table_ok fs' = table_ok fs"
  using assms by (auto simp: table_step_def volume_fields_def mirror_def fat_area_def table_ok_def)

lemma put_fat12_ok:
  assumes "ok fs" and "table_ok fs" and "cluster fs c" and ty: "fs_type fs = FS_FAT12"
  shows "\<exists>fs'. put_fat io c v fs = Some (FR_OK, fs') \<and> ok fs' \<and> step fs fs' \<and>
     (\<forall>i < 512 * unat (fsize fs). fat_bytes_of sec fs' i = put_value (fs_type fs) (unat c) v (fat_bytes_of sec fs) i)"
proof -
  have c: "2 \<le> c" "c < n_fatent fs" and u: "unat c < unat (n_fatent fs)" and s: "unat c < 2 ^ 28"
    using table_bound [OF assms(2)] assms(3) by (simp_all add: cluster_def word_less_nat_alt)
  note ix = fat_index [OF s]
  let ?k = "unat c + unat c div 2" and ?b = "fat_bytes_of sec fs" and ?o = "odd (unat c)"
  have k: "?k + 1 < 512 * unat (fsize fs)" "?k < 512 * unat (fsize fs)" using assms(2) ty fat12_bytes [OF u] by (auto simp: table_ok_def fat_bytes_def)
  have q: "unat ((c + c div 2) div SS) = ?k div 512" "unat ((c + c div 2 + 1) div SS) = (?k + 1) div 512"
    "unat ((c + c div 2) mod SS) = ?k mod 512" "unat ((c + c div 2 + 1) mod SS) = (?k + 1) mod 512"
    using ix(5,6) by (simp_all add: SS_def unat_div_distrib unat_mod_distrib)
  obtain f where f: "move_window io (fatbase fs + (c + c div 2) div SS) fs = Some (FR_OK, f)" "length (win f) = 512"
    "unat (winsect f) = unat (fatbase f) + ?k div 512" "ok f" "step fs f" "\<forall>i < 512 * unat (fsize fs). fat_bytes_of sec f i = ?b i"
    using move_poke [OF assms(1) k(2) q(1)] by blast
  let ?x = "if ?o then (?b ?k AND 0x0F) OR push_bit 4 (ucast v) else ucast v"
  let ?f = "poke ?k [?x] f"
  note ff = step_fields [OF f(5)]
  have p: "ok ?f" "step f ?f" "fat_bytes_of sec ?f = fat_poke ?k [?x] (fat_bytes_of sec f)"
    using poke_ok [OF f(4,3), of "[?x]"] k(2) ff(2) by (simp_all add: Suc_le_eq)
  note fp = step_fields [OF p(2)]
  obtain g where g: "move_window io (fatbase ?f + (c + c div 2 + 1) div SS) ?f = Some (FR_OK, g)" "length (win g) = 512"
    "unat (winsect g) = unat (fatbase g) + (?k + 1) div 512" "ok g" "step ?f g"
    "\<forall>i < 512 * unat (fsize ?f). fat_bytes_of sec g i = fat_bytes_of sec ?f i"
    using move_poke [OF p(1) _ q(2)] k(1) ff(2) fp(2) by (metis (lifting))
  let ?y = "if ?o then ucast (drop_bit 4 v) else (?b (?k + 1) AND 0xF0) OR (ucast (drop_bit 8 v) AND 0x0F)"
  let ?g = "poke (?k + 1) [?y] g"
  note fg = step_fields [OF g(5)]
  have r: "ok ?g" "step g ?g" "fat_bytes_of sec ?g = fat_poke (?k + 1) [?y] (fat_bytes_of sec g)"
    using poke_ok [OF g(4,3), of "[?y]"] k(1) ff(2) fp(2) fg(2) by (simp_all add: Suc_le_eq)
  have x: "win f ! (?k mod 512) = ?b ?k" using win_byte [OF f(3), of 0] f(6) k(2) by simp
  have y: "win g ! ((?k + 1) mod 512) = ?b (?k + 1)" using win_byte [OF g(3), of 0] g(6) p(3) f(6) k(1) ff(2) fp(2) by (simp add: fat_poke_def)
  have "put_fat io c v fs = Some (FR_OK, ?g)"
    using c ty f(1,2) g(1,2) x y ix(7)
    by (simp add: put_fat_def q poke_def Let_def put_byte [symmetric] split del: if_split cong: if_cong)
  moreover have "step fs ?g" using f(5) p(2) g(5) r(2) step_trans by blast
  moreover have "fat_bytes_of sec ?g i = put_value (fs_type fs) (unat c) v ?b i" if "i < 512 * unat (fsize fs)" for i
    using r(3) g(6) p(3) f(6) that k ff(2) fp(2) ty by (auto simp add: put_value_def Let_def fat_poke_def)
  ultimately show ?thesis using r(1) by blast
qed

lemma put_fat16_ok:
  assumes "ok fs" and "table_ok fs" and "cluster fs c" and ty: "fs_type fs = FS_FAT16"
  shows "\<exists>fs'. put_fat io c v fs = Some (FR_OK, fs') \<and> ok fs' \<and> step fs fs' \<and>
     (\<forall>i < 512 * unat (fsize fs). fat_bytes_of sec fs' i = put_value (fs_type fs) (unat c) v (fat_bytes_of sec fs) i)"
proof -
  have c: "2 \<le> c" "c < n_fatent fs" and u: "unat c < unat (n_fatent fs)" and s: "unat c < 2 ^ 28"
    using table_bound [OF assms(2)] assms(3) by (simp_all add: cluster_def word_less_nat_alt)
  note ix = fat_index [OF s]
  let ?k = "2 * unat c"
  have k: "?k < 512 * unat (fsize fs)" using assms(2) ty u by (simp_all add: table_ok_def fat_bytes_def FS_FAT12_def FS_FAT16_def)
  obtain f where f: "move_window io (fatbase fs + c div (SS div 2)) fs = Some (FR_OK, f)" "length (win f) = 512"
    "unat (winsect f) = unat (fatbase f) + ?k div 512" "ok f" "step fs f" "\<forall>i < 512 * unat (fsize fs). fat_bytes_of sec f i = fat_bytes_of sec fs i"
    using move_poke [OF assms(1) k ix(1)] by blast
  let ?g = "poke ?k [byte_of v 0, byte_of v 1] f"
  have fit: "?k mod 512 + length [byte_of v 0, byte_of v 1] \<le> 512" using entry_in_sector(1) [of "unat c"] by simp
  have r: "ok ?g" "step f ?g" "fat_bytes_of sec ?g = fat_poke ?k [byte_of v 0, byte_of v 1] (fat_bytes_of sec f)"
    using poke_ok [OF f(4,3) _ fit] k step_fields [OF f(5)] by simp_all
  have "ucast (ucast v :: u16) = byte_of v 0" "ucast (drop_bit 8 (ucast v :: u16)) = byte_of v 1"
    by (rule bit_word_eqI, auto simp: bit_simps bit_byte_of)+
  then have "put_fat io c v fs = Some (FR_OK, ?g)"
    using c ty f(1,2) fit by (simp add: put_fat_def ix(2) poke_def st_word_put FS_FAT12_def FS_FAT16_def)
  moreover have "step fs ?g" using f(5) r(2) step_trans by blast
  moreover have "fat_bytes_of sec ?g i = put_value (fs_type fs) (unat c) v (fat_bytes_of sec fs) i" if "i < 512 * unat (fsize fs)" for i
    using r(3) f(6) that ty by (auto simp: put_value_def fat_poke_def FS_FAT12_def FS_FAT16_def nth_Cons')
  ultimately show ?thesis using r(1) by blast
qed

lemma put_fat32_ok:
  assumes "ok fs" and "table_ok fs" and "cluster fs c" and ty: "fs_type fs = FS_FAT32"
  shows "\<exists>fs'. put_fat io c v fs = Some (FR_OK, fs') \<and> ok fs' \<and> step fs fs' \<and>
     (\<forall>i < 512 * unat (fsize fs). fat_bytes_of sec fs' i = put_value (fs_type fs) (unat c) v (fat_bytes_of sec fs) i)"
proof -
  have c: "2 \<le> c" "c < n_fatent fs" and u: "unat c < unat (n_fatent fs)" and s: "unat c < 2 ^ 28"
    using table_bound [OF assms(2)] assms(3) by (simp_all add: cluster_def word_less_nat_alt)
  note ix = fat_index [OF s]
  let ?k = "4 * unat c" and ?b = "fat_bytes_of sec fs"
  have k: "?k + i < 512 * unat (fsize fs)" if "i < 4" for i
    using assms(2) ty u that by (simp add: table_ok_def fat_bytes_def FS_FAT12_def FS_FAT16_def FS_FAT32_def)
  obtain f where f: "move_window io (fatbase fs + c div (SS div 4)) fs = Some (FR_OK, f)" "length (win f) = 512"
    "unat (winsect f) = unat (fatbase f) + ?k div 512" "ok f" "step fs f" "\<forall>i < 512 * unat (fsize fs). fat_bytes_of sec f i = ?b i"
    using move_poke [OF assms(1) _ ix(3)] k [of 0] by auto
  let ?w = "(v AND 0x0FFFFFFF) OR (le32 (?b ?k) (?b (?k + 1)) (?b (?k + 2)) (?b (?k + 3)) AND 0xF0000000)"
  let ?l = "[byte_of ?w 0, byte_of ?w 1, byte_of ?w 2, byte_of ?w 3]"
  let ?g = "poke ?k ?l f"
  have fit: "?k mod 512 + length ?l \<le> 512" using entry_in_sector(2) [of 3 "unat c"] by simp
  have r: "ok ?g" "step f ?g" "fat_bytes_of sec ?g = fat_poke ?k ?l (fat_bytes_of sec f)"
    using poke_ok [OF f(4,3) _ fit] k [of 0] step_fields [OF f(5)] by simp_all
  have "win f ! (?k mod 512 + i) = ?b (?k + i)" if "i < 4" for i
    using win_byte [OF f(3) entry_in_sector(2) [OF that]] f(6) k [OF that] by simp
  from this [of 0] this [of 1] this [of 2] this [of 3]
  have "ld_dword (win f) (?k mod 512) = le32 (?b ?k) (?b (?k + 1)) (?b (?k + 2)) (?b (?k + 3))" by (simp add: ld_dword_le32)
  then have "put_fat io c v fs = Some (FR_OK, ?g)"
    using c ty f(1,2) fit by (simp add: put_fat_def ix(4) poke_def st_dword_put FS_FAT12_def FS_FAT16_def FS_FAT32_def Let_def)
  moreover have "step fs ?g" using f(5) r(2) step_trans by blast
  moreover have "fat_bytes_of sec ?g i = put_value (fs_type fs) (unat c) v ?b i" if "i < 512 * unat (fsize fs)" for i
    using r(3) f(6) that ty by (auto simp: put_value_def Let_def fat_poke_def FS_FAT12_def FS_FAT16_def FS_FAT32_def nth_Cons')
  ultimately show ?thesis using r(1) by blast
qed

lemmas put_fat_cases = put_fat12_ok put_fat16_ok put_fat32_ok

text \<open>An entry depends on bytes of the table only.\<close>

lemma fat_cong:
  assumes "table_ok fs" and "cluster fs c" and "fs_type fs' = fs_type fs"
    and b: "\<And>i. i < 512 * unat (fsize fs) \<Longrightarrow> fat_bytes_of sec fs' i = g i"
  shows "fat sec fs' c = fat_value (fs_type fs) g (unat c)"
proof -
  have u: "unat c < unat (n_fatent fs)" using assms(2) by (simp add: cluster_def word_less_nat_alt)
  note t = assms(1) [unfolded table_ok_def fat_bytes_def]
  consider "fs_type fs = FS_FAT12" | "fs_type fs = FS_FAT16" | "fs_type fs = FS_FAT32" using assms(1) by (auto simp: table_ok_def)
  then show ?thesis
  proof cases
    case 1
    then show ?thesis using t fat12_bytes [OF u] assms(3) b by (simp add: fat_def fat_value_def)
  next
    case 2
    then show ?thesis using t u assms(3) b by (simp add: fat_def fat_value_def FS_FAT12_def FS_FAT16_def)
  next
    case 3
    then show ?thesis using t u assms(3) b by (simp add: fat_def fat_value_def FS_FAT12_def FS_FAT16_def FS_FAT32_def)
  qed
qed

lemma put_fat_ok:
  assumes "ok fs" and "table_ok fs" and "cluster fs c"
  shows "\<exists>fs'. put_fat io c v fs = Some (FR_OK, fs') \<and> ok fs' \<and> step fs fs' \<and>
     fat sec fs' c = v AND mask (fat_bits (fs_type fs)) \<and> (\<forall>c'. cluster fs c' \<and> c' \<noteq> c \<longrightarrow> fat sec fs' c' = fat sec fs c')"
proof -
  have "fs_type fs = FS_FAT12 \<or> fs_type fs = FS_FAT16 \<or> fs_type fs = FS_FAT32" using assms(2) by (auto simp: table_ok_def)
  then obtain f where f: "put_fat io c v fs = Some (FR_OK, f)" "ok f" "step fs f"
    "\<And>i. i < 512 * unat (fsize fs) \<Longrightarrow> fat_bytes_of sec f i = put_value (fs_type fs) (unat c) v (fat_bytes_of sec fs) i"
    using put_fat_cases [OF assms] by blast
  have e: "fat sec f c' = fat_value (fs_type fs) (put_value (fs_type fs) (unat c) v (fat_bytes_of sec fs)) (unat c')"
    if "cluster fs c'" for c' using fat_cong [OF assms(2) that _ f(4)] step_fields [OF f(3)] by simp
  have "fat sec f c = v AND mask (fat_bits (fs_type fs))" using e [OF assms(3)] by (simp add: fat_put_same)
  moreover have "fat sec f c' = fat sec fs c'" if "cluster fs c'" "c' \<noteq> c" for c'
    using e [OF that(1)] fat_put_other [of "unat c'" "unat c"] that(2) by (simp add: fat_def word_unat_eq_iff)
  ultimately show ?thesis using f(1-3) by blast
qed

lemma keeps_fat:
  assumes "ok fs" and "table_ok fs" and "keeps fs fs'" and "cluster fs c"
  shows "fat sec fs' c = fat sec fs c"
  using fat_cong [OF assms(2,4), of fs' "fat_bytes_of sec fs"] kept_fat_bytes [OF assms(1,3)] kept_fields [OF assms(3)]
  by (simp add: fat_def)

lemma keeps_cluster:
  assumes "keeps fs fs'"
  shows "table_ok fs' = table_ok fs" "cluster fs' = cluster fs"
  using kept_fields [OF assms] by (simp_all add: table_ok_def cluster_def fun_eq_iff)

end

end
