(* ===== verification/Fat_Chain.thy ===== *)
theory Fat_Chain
  imports Fat_Table
begin

text \<open>
  Cluster chains of FatFs (\<^verbatim>\<open>fatfs/ff.c\<close>): \<open>create_chain\<close> starts a chain or stretches one, \<open>remove_chain\<close>
  frees one. A file or a directory occupies the clusters of a chain, and the entry of each leads to the next. Both
  keep the number of free clusters of the volume, which may also be unknown.
\<close>

section \<open>Operations\<close>

partial_function (option) remove_loop :: "'d dio \<Rightarrow> u32 \<Rightarrow> 'd FATFS \<Rightarrow> (fresult \<times> 'd FATFS) option" where
  "remove_loop io clst fs = do {
     (nxt, fs1) \<leftarrow> get_fat io clst fs;
     if nxt = 0 then Some (FR_OK, fs1)
     else if nxt = 1 then Some (FR_INT_ERR, fs1)
     else if nxt = 0xFFFFFFFF then Some (FR_DISK_ERR, fs1)
     else do {
       (res, fs2) \<leftarrow> put_fat io clst 0 fs1;
       if res \<noteq> FR_OK then Some (res, fs2)
       else do {
         let fs3 = (if free_clst fs2 < n_fatent fs2 - 2
                    then fs2\<lparr>free_clst := free_clst fs2 + 1, fsi_flag := fsi_flag fs2 OR 1\<rparr> else fs2);
         if nxt < n_fatent fs3 then remove_loop io nxt fs3 else Some (FR_OK, fs3)
       }
     }
   }"

definition remove_chain :: "'d dio \<Rightarrow> u32 \<Rightarrow> u32 \<Rightarrow> 'd FATFS \<Rightarrow> (fresult \<times> 'd FATFS) option" where
  "remove_chain io clst pclst fs =
     (if clst < 2 \<or> clst \<ge> n_fatent fs then Some (FR_INT_ERR, fs)
      else do {
        (res, fs1) \<leftarrow> (if pclst \<noteq> 0 then put_fat io pclst 0xFFFFFFFF fs else Some (FR_OK, fs));
        if res \<noteq> FR_OK then Some (res, fs1) else remove_loop io clst fs1
      })"

text \<open>The search for a free cluster after \<open>ncl\<close>, round the table up to \<open>scl\<close>: a free cluster, or the result of \<open>create_chain\<close>.\<close>

partial_function (option) find_free :: "'d dio \<Rightarrow> u32 \<Rightarrow> u32 \<Rightarrow> 'd FATFS \<Rightarrow> ((u32 + u32) \<times> 'd FATFS) option" where
  "find_free io scl ncl fs = do {
     let ncl = ncl + 1;
     if ncl \<ge> n_fatent fs \<and> 2 > scl then Some (Inl 0, fs)
     else do {
       let ncl = (if ncl \<ge> n_fatent fs then 2 else ncl);
       (cs, fs1) \<leftarrow> get_fat io ncl fs;
       if cs = 0 then Some (Inr ncl, fs1)
       else if cs = 1 \<or> cs = 0xFFFFFFFF then Some (Inl cs, fs1)
       else if ncl = scl then Some (Inl 0, fs1)
       else find_free io scl ncl fs1
     }
   }"

text \<open>The cluster after the last one of the chain is tried first: its number if it is free, 0 and the start of the search if it is not.\<close>

definition try_next :: "'d dio \<Rightarrow> u32 \<Rightarrow> 'd FATFS \<Rightarrow> ((u32 + u32 \<times> u32) \<times> 'd FATFS) option" where
  "try_next io scl fs = do {
     let ncl = scl + 1;
     let ncl = (if ncl \<ge> n_fatent fs then 2 else ncl);
     (cs, fs1) \<leftarrow> get_fat io ncl fs;
     if cs = 1 \<or> cs = 0xFFFFFFFF then Some (Inl cs, fs1)
     else if cs \<noteq> 0 then
       let cs = last_clst fs1
       in Some (Inr (0, if cs \<ge> 2 \<and> cs < n_fatent fs1 then cs else scl), fs1)
     else Some (Inr (ncl, scl), fs1)
   }"

text \<open>The entry of the new cluster, the link to it, and the allocation information.\<close>

definition link_cluster :: "'d dio \<Rightarrow> u32 \<Rightarrow> u32 \<Rightarrow> 'd FATFS \<Rightarrow> (u32 \<times> 'd FATFS) option" where
  "link_cluster io clst ncl fs = do {
     (res, fs1) \<leftarrow> put_fat io ncl 0xFFFFFFFF fs;
     (res, fs2) \<leftarrow> (if res = FR_OK \<and> clst \<noteq> 0 then put_fat io clst ncl fs1 else Some (res, fs1));
     if res = FR_OK then
       let fs3 = fs2\<lparr>last_clst := ncl\<rparr>;
           fs4 = (if free_clst fs3 \<le> n_fatent fs3 - 2 then fs3\<lparr>free_clst := free_clst fs3 - 1\<rparr> else fs3)
       in Some (ncl, fs4\<lparr>fsi_flag := fsi_flag fs4 OR 1\<rparr>)
     else Some (if res = FR_DISK_ERR then 0xFFFFFFFF else 1, fs2)
   }"

definition alloc_cluster :: "'d dio \<Rightarrow> u32 \<Rightarrow> u32 \<Rightarrow> 'd FATFS \<Rightarrow> (u32 \<times> 'd FATFS) option" where
  "alloc_cluster io clst scl fs = do {
     (r, fs1) \<leftarrow> (if scl = clst then try_next io scl fs else Some (Inr (0, scl), fs));
     case r of
       Inl e \<Rightarrow> Some (e, fs1)
     | Inr (ncl, scl) \<Rightarrow> do {
         (r, fs2) \<leftarrow> (if ncl = 0 then find_free io scl scl fs1 else Some (Inr ncl, fs1));
         case r of Inl e \<Rightarrow> Some (e, fs2) | Inr ncl \<Rightarrow> link_cluster io clst ncl fs2
       }
   }"

definition create_chain :: "'d dio \<Rightarrow> u32 \<Rightarrow> 'd FATFS \<Rightarrow> (u32 \<times> 'd FATFS) option" where
  "create_chain io clst fs =
     (if clst = 0 then
        let scl = last_clst fs;
            scl = (if scl = 0 \<or> scl \<ge> n_fatent fs then 1 else scl)
        in if free_clst fs = 0 then Some (0, fs) else alloc_cluster io clst scl fs
      else do {
        (cs, fs1) \<leftarrow> get_fat io clst fs;
        if cs < 2 then Some (1, fs1)
        else if cs = 0xFFFFFFFF then Some (cs, fs1)
        else if cs < n_fatent fs1 then Some (cs, fs1)
        else if free_clst fs1 = 0 then Some (0, fs1) else alloc_cluster io clst clst fs1
      })"

section \<open>Chains\<close>

text \<open>A chain of a table with \<open>n\<close> entries: the clusters lead from one to the next, and the last entry is no cluster.\<close>

fun chain :: "u32 \<Rightarrow> (u32 \<Rightarrow> u32) \<Rightarrow> u32 list \<Rightarrow> bool" where
  "chain n f [] = False"
| "chain n f [c] = (2 \<le> c \<and> c < n \<and> n \<le> f c)"
| "chain n f (c # d # cs) = (2 \<le> c \<and> c < n \<and> f c = d \<and> chain n f (d # cs))"

lemma chain_cluster: "chain n f cs \<Longrightarrow> c \<in> set cs \<Longrightarrow> 2 \<le> c \<and> c < n"
  by (induction n f cs rule: chain.induct) auto

lemma chain_cong: "(\<And>c. c \<in> set cs \<Longrightarrow> g c = f c) \<Longrightarrow> chain n g cs = chain n f cs"
  by (induction n f cs rule: chain.induct) auto

lemma chain_unique: "chain n f (c # cs) \<Longrightarrow> chain n f (c # ds) \<Longrightarrow> cs = ds"
proof (induction cs arbitrary: c ds)
  case Nil
  then show ?case using chain_cluster by (cases ds) (fastforce simp: not_less)+
next
  case (Cons x xs)
  show ?case
  proof (cases ds)
    case Nil
    then show ?thesis using Cons.prems chain_cluster [of n f "x # xs" x] by auto
  next
    case (Cons y ys)
    then show ?thesis using Cons.prems Cons.IH [of x ys] by auto
  qed
qed

lemma chain_suffix: "chain n f (cs @ d # ds) \<Longrightarrow> chain n f (d # ds)"
proof (induction cs)
  case Nil
  then show ?case by simp
next
  case (Cons c cs)
  then show ?case by (cases cs) auto
qed

text \<open>No cluster occurs twice: the part after the first occurrence would be the part after the second.\<close>

lemma chain_distinct: "chain n f cs \<Longrightarrow> distinct cs"
proof (induction cs)
  case Nil
  then show ?case by simp
next
  case (Cons c cs)
  have "c \<notin> set cs"
  proof
    assume "c \<in> set cs"
    then obtain xs ys where cs: "cs = xs @ c # ys" by (meson split_list)
    then have "chain n f (c # ys)" using Cons.prems chain_suffix [of n f "c # xs" c ys] by simp
    with Cons.prems have "cs = ys" using chain_unique by blast
    with cs show False by simp
  qed
  moreover have "cs \<noteq> [] \<Longrightarrow> chain n f cs" using Cons.prems chain_suffix [of n f "[c]"] by (cases cs) auto
  ultimately show ?case using Cons.IH by (cases cs) auto
qed

lemma chain_last: "chain n f cs \<Longrightarrow> n \<le> f (last cs)"
  by (induction n f cs rule: chain.induct) auto

lemma chain_not_free: "chain n f cs \<Longrightarrow> 0 < n \<Longrightarrow> c \<in> set cs \<Longrightarrow> f c \<noteq> 0"
proof (induction n f cs rule: chain.induct)
  case (3 n f c d cs)
  then show ?case using chain_cluster [of n f "d # cs" d] by auto
qed auto

lemma chain_append:
  assumes "chain n f cs" and "2 \<le> x" and "x < n" and "x \<notin> set cs" and "n \<le> e"
  shows "chain n (f(last cs := x, x := e)) (cs @ [x])"
  using assms chain_distinct [OF assms(1)]
proof (induction n f cs rule: chain.induct)
  case (3 n f c d cs)
  define g where "g = f(last (d # cs) := x, x := e)"
  have "chain n g ((d # cs) @ [x])" unfolding g_def by (rule 3(1)) (use 3(2-) in simp_all)
  moreover have "c \<noteq> last (d # cs)" "c \<noteq> x" using 3(2-) by (metis distinct.simps(2) last_in_set list.distinct(1), auto)
  then have "g c = d" using 3(2) unfolding g_def by simp
  ultimately have "chain n g ((c # d # cs) @ [x])" using 3(2) by simp
  then show ?case unfolding g_def by (simp only: last_ConsR list.distinct not_False_eq_True)
qed auto

section \<open>Free clusters\<close>

definition free_set :: "('d \<Rightarrow> nat \<Rightarrow> u8 list) \<Rightarrow> 'd FATFS \<Rightarrow> u32 set" where
  "free_set sec fs = {c. cluster fs c \<and> fat sec fs c = 0}"

text \<open>The number of free clusters is unknown, or it is right.\<close>

definition count_ok :: "('d \<Rightarrow> nat \<Rightarrow> u8 list) \<Rightarrow> 'd FATFS \<Rightarrow> bool" where
  "count_ok sec fs \<longleftrightarrow> n_fatent fs - 2 < free_clst fs \<or> unat (free_clst fs) = Finite_Set.card (free_set sec fs)"

definition fat_ok :: "('d \<Rightarrow> nat \<Rightarrow> u8 list) \<Rightarrow> 'd FATFS \<Rightarrow> bool" where
  "fat_ok sec fs \<longleftrightarrow> table_ok fs \<and> 2 < n_fatent fs \<and> (\<forall>c. cluster fs c \<longrightarrow> fat sec fs c \<noteq> 1) \<and> count_ok sec fs"

text \<open>What allocation leaves alone: the geometry of the volume and the sectors outside the table.\<close>

definition static where
  "static fs = (fs_type fs, pdrv fs, n_fats fs, fs_id fs, n_rootdir fs, csize fs, cdir fs, n_fatent fs, fsize fs, volbase fs,
     fatbase fs, dirbase fs, database fs)"

definition evolves :: "('d \<Rightarrow> nat \<Rightarrow> u8 list) \<Rightarrow> ('d \<Rightarrow> nat) \<Rightarrow> 'd FATFS \<Rightarrow> 'd FATFS \<Rightarrow> bool" where
  "evolves sec nsec fs fs' \<longleftrightarrow> static fs' = static fs \<and> nsec (dev fs') = nsec (dev fs) \<and>
     win_moved fs fs' \<and>
     (\<forall>n < nsec (dev fs). n \<notin> mirror fs \<union> fat_area fs \<longrightarrow> vsec sec fs' n = vsec sec fs n)"

lemma vsec_alloc [simp]:
  "vsec sec (fs\<lparr>free_clst := x\<rparr>) = vsec sec fs" "vsec sec (fs\<lparr>last_clst := x\<rparr>) = vsec sec fs" "vsec sec (fs\<lparr>fsi_flag := y\<rparr>) = vsec sec fs"
  by (simp_all add: vsec_def fun_eq_iff)

lemma fat_alloc [simp]:
  "fat sec (fs\<lparr>free_clst := x\<rparr>) = fat sec fs" "fat sec (fs\<lparr>last_clst := x\<rparr>) = fat sec fs" "fat sec (fs\<lparr>fsi_flag := y\<rparr>) = fat sec fs"
  by (simp_all add: fat_def fat_bytes_of_def fun_eq_iff)

lemma window_alloc [simp]:
  "window_ok dr r s n (fs\<lparr>free_clst := x\<rparr>) = window_ok dr r s n fs" "window_ok dr r s n (fs\<lparr>last_clst := x\<rparr>) = window_ok dr r s n fs"
  "window_ok dr r s n (fs\<lparr>fsi_flag := y\<rparr>) = window_ok dr r s n fs"
  by (simp_all add: window_ok_def mirror_def)

lemma card_clusters: "Finite_Set.card {c. cluster fs c} \<le> unat (n_fatent fs) - 2"
proof -
  have "unat ` {c. cluster fs c} \<subseteq> {2..<unat (n_fatent fs)}"
    by (auto simp: cluster_def word_less_nat_alt word_le_nat_alt)
  then have "Finite_Set.card (unat ` {c. cluster fs c}) \<le> unat (n_fatent fs) - 2"
    using card_mono [of "{2..<unat (n_fatent fs)}"] by fastforce
  moreover have "inj_on unat {c. cluster fs c}" by (auto simp: inj_on_def word_unat_eq_iff)
  ultimately show ?thesis by (simp add: card_image)
qed

lemma evolves_fields:
  assumes "evolves sec nsec fs fs'"
  shows "n_fatent fs' = n_fatent fs" "fs_type fs' = fs_type fs" "fatbase fs' = fatbase fs" "fsize fs' = fsize fs" "database fs' = database fs"
    "csize fs' = csize fs" "nsec (dev fs') = nsec (dev fs)" "table_ok fs' = table_ok fs" "cluster fs' = cluster fs" "mirror fs' = mirror fs" "fat_area fs' = fat_area fs"
  using assms by (simp_all add: evolves_def static_def table_ok_def cluster_def mirror_def fat_area_def fun_eq_iff)

lemma evolves_trans: "evolves sec nsec fs fs' \<Longrightarrow> evolves sec nsec fs' fs'' \<Longrightarrow> evolves sec nsec fs fs''"
  using evolves_fields(10,11) [of sec nsec fs fs'] by (auto simp: evolves_def win_moved_def)

lemma step_evolves: "table_step sec nsec fs fs' \<Longrightarrow> evolves sec nsec fs fs'"
  by (auto simp: table_step_def evolves_def static_def volume_fields_def)


lemma fat_eoc:
  fixes w :: u32
  assumes "table_ok fs"
  shows "n_fatent fs \<le> 0xFFFFFFFF AND mask (fat_bits (fs_type fs))" "c < n_fatent fs \<Longrightarrow> c AND mask (fat_bits (fs_type fs)) = c"
    "w AND mask (fat_bits (fs_type fs)) \<noteq> 0xFFFFFFFF"
proof -
  let ?b = "fat_bits (fs_type fs)"
  have b: "?b < 32" by (simp add: fat_bits_def)
  have u: "unat (w AND mask ?b) = unat w mod 2 ^ ?b" for w :: u32
    by (simp only: take_bit_eq_mask [symmetric] unsigned_take_bit_eq) (simp add: take_bit_eq_mod)
  have n: "unat (n_fatent fs) < 2 ^ ?b" using assms by (simp add: table_ok_def)
  have "4294967295 mod 2 ^ ?b = (2 ^ ?b - 1 :: nat)" by (auto simp: fat_bits_def)
  then show "n_fatent fs \<le> 0xFFFFFFFF AND mask ?b" using n by (simp add: word_le_nat_alt u)
  show "c < n_fatent fs \<Longrightarrow> c AND mask ?b = c" using n by (simp add: word_unat_eq_iff u word_less_nat_alt)
  have "unat (w AND mask ?b) < 2 ^ ?b" by (simp add: u)
  also have "(2::nat) ^ ?b \<le> 2 ^ 28" by (simp add: fat_bits_def)
  finally show "w AND mask ?b \<noteq> 0xFFFFFFFF" by auto
qed

lemma fat_small:
  assumes "table_ok fs"
  shows "fat sec fs c \<noteq> 0xFFFFFFFF"
proof -
  have m: "w AND mask n \<noteq> 0xFFFFFFFF" if "n < 32" for w :: u32 and n
  proof
    assume "w AND mask n = 0xFFFFFFFF"
    then have "bit (w AND mask n) 31" by simp
    then show False using that by (simp add: bit_simps)
  qed
  have "drop_bit 4 w \<noteq> 0xFFFFFFFF" for w :: u32
  proof
    assume "drop_bit 4 w = 0xFFFFFFFF"
    then have "bit (drop_bit 4 w) 31" by simp
    then show False using bit_imp_le_length [of w 35] by (simp add: bit_simps)
  qed
  moreover have "ucast b0 OR push_bit 8 (ucast b1) \<noteq> (0xFFFFFFFF :: u32)" for b0 b1 :: u8
  proof
    assume "ucast b0 OR push_bit 8 (ucast b1) = (0xFFFFFFFF :: u32)"
    then have "bit (ucast b0 OR push_bit 8 (ucast b1) :: u32) 31" by simp
    then show False by (simp add: bit_simps bit_u8_high)
  qed
  ultimately show ?thesis using m [of 12] m [of 28] by (auto simp only: fat_def fat_value_def Let_def hex_masks split: if_splits)
qed

text \<open>The clusters that the search has still to look at.\<close>

definition ahead :: "nat \<Rightarrow> nat \<Rightarrow> nat \<Rightarrow> nat set" where
  "ahead n scl ncl = (if scl \<le> ncl then {ncl<..<n} \<union> {2..scl} else {ncl<..scl})"

definition distance :: "nat \<Rightarrow> nat \<Rightarrow> nat \<Rightarrow> nat" where
  "distance n scl ncl = (if scl \<le> ncl then n + scl - ncl else scl - ncl)"

context disk_layer
begin

abbreviation evo where "evo \<equiv> evolves sec nsec"

text \<open>A cluster that becomes free is counted.\<close>

lemma count_freed:
  assumes "count_ok sec fs" and "cluster fs c" and "fat sec fs c \<noteq> 0" and "2 < n_fatent fs"
    and "cluster fs' = cluster fs" and "n_fatent fs' = n_fatent fs" and "\<And>x. cluster fs x \<Longrightarrow> fat sec fs' x = (if x = c then 0 else fat sec fs x)"
    and "free_clst fs' = (if free_clst fs < n_fatent fs - 2 then free_clst fs + 1 else free_clst fs)"
  shows "count_ok sec fs'"
proof -
  have e: "free_set sec fs' = insert c (free_set sec fs)" using assms(2,5,7) by (auto simp: free_set_def)
  have c: "c \<notin> free_set sec fs" using assms(3) by (simp add: free_set_def)
  have "insert c (free_set sec fs) \<subseteq> {c. cluster fs c}" using assms(2) by (auto simp: free_set_def)
  then have "Finite_Set.card (insert c (free_set sec fs)) \<le> unat (n_fatent fs) - 2"
    using card_mono [of "{c. cluster fs c}" "insert c (free_set sec fs)"] card_clusters [of fs] by simp
  then have k: "Suc (Finite_Set.card (free_set sec fs)) \<le> unat (n_fatent fs) - 2" using c by simp
  have n: "unat (n_fatent fs - 2) = unat (n_fatent fs) - 2" using assms(4) by (simp add: unat_sub word_le_nat_alt word_less_nat_alt)
  have "unat (free_clst fs + 1) = unat (free_clst fs) + 1" if "free_clst fs < n_fatent fs - 2"
    using that unsigned_less [of "n_fatent fs - 2", where 'a = nat] by (simp add: word_less_nat_alt unat_word_ariths)
  then have "unat (free_clst fs') = Finite_Set.card (free_set sec fs')" if "unat (free_clst fs) = Finite_Set.card (free_set sec fs)"
    using that assms(8) e c n k by (simp add: word_less_nat_alt)
  moreover have "free_clst fs' = free_clst fs" if "n_fatent fs - 2 < free_clst fs" using that assms(8) by (simp add: not_less_iff_gr_or_eq)
  ultimately show ?thesis using assms(1,6) unfolding count_ok_def by metis
qed

lemma free_step:
  assumes "ok fs" and "fat_ok sec fs" and "cluster fs c" and "fat sec fs c \<noteq> 0"
  shows "\<exists>f. ok f \<and> evo fs f \<and> fat_ok sec f \<and> (\<forall>x. cluster fs x \<longrightarrow> fat sec f x = (if x = c then 0 else fat sec fs x)) \<and>
     remove_loop io c fs = (if fat sec fs c < n_fatent fs then remove_loop io (fat sec fs c) f else Some (FR_OK, f))"
proof -
  have t: "table_ok fs" "2 < n_fatent fs" "count_ok sec fs" and one: "\<And>x. cluster fs x \<Longrightarrow> fat sec fs x \<noteq> 1"
    using assms(2) by (auto simp: fat_ok_def)
  obtain f1 where f1: "get_fat io c fs = Some (fat sec fs c, f1)" "ok f1" "keeps fs f1" "step fs f1" using get_fat_ok [OF assms(1) t(1) assms(3)] by blast
  note k1 = keeps_cluster [OF f1(3)]
  obtain f2 where f2: "put_fat io c 0 f1 = Some (FR_OK, f2)" "ok f2" "step f1 f2" "fat sec f2 c = 0"
    "\<And>x. cluster fs x \<Longrightarrow> x \<noteq> c \<Longrightarrow> fat sec f2 x = fat sec f1 x"
    using put_fat_ok [OF f1(2), of c 0] t(1) assms(3) k1 by auto
  have g2: "fat sec f2 x = (if x = c then 0 else fat sec fs x)" if "cluster fs x" for x
    using f2(4,5) keeps_fat [OF assms(1) t(1) f1(3)] that by simp
  have e2: "evo fs f2" using evolves_trans [OF step_evolves [OF f1(4)] step_evolves [OF f2(3)]] .
  note ef = evolves_fields [OF e2]
  have fr: "free_clst f2 = free_clst fs" using f2(3) kept_fields [OF f1(3)] by (simp add: table_step_def volume_fields_def)
  define f where "f = (if free_clst f2 < n_fatent f2 - 2 then f2\<lparr>free_clst := free_clst f2 + 1, fsi_flag := fsi_flag f2 OR 1\<rparr> else f2)"
  have fat: "fat sec f = fat sec f2" by (simp add: f_def)
  have ok: "ok f" using f2(2) by (simp add: f_def)
  have e3: "evo f2 f" by (auto simp: f_def evolves_def static_def vsec_def win_moved_def)
  have cnt: "count_ok sec f"
  proof (rule count_freed [OF t(3) assms(3,4) t(2)])
    show "cluster f = cluster fs" "n_fatent f = n_fatent fs" using ef evolves_fields [OF e3] by simp_all
    show "fat sec f x = (if x = c then 0 else fat sec fs x)" if "cluster fs x" for x using g2 [OF that] fat by simp
    show "free_clst f = (if free_clst fs < n_fatent fs - 2 then free_clst fs + 1 else free_clst fs)" using fr ef(1) by (simp add: f_def)
  qed
  have "fat_ok sec f" using t one cnt ef evolves_fields [OF e3] fat g2 by (auto simp: fat_ok_def)
  moreover have "remove_loop io c fs = (if fat sec fs c < n_fatent fs then remove_loop io (fat sec fs c) f else Some (FR_OK, f))"
    using f1(1) f2(1) assms(4) one [OF assms(3)] fat_small [OF t(1)] ef(1) evolves_fields(1) [OF e3]
    by (subst remove_loop.simps) (auto simp: f_def Let_def)
  ultimately show ?thesis using ok evolves_trans [OF e2 e3] g2 fat by (intro exI [of _ f]) simp
qed

lemma remove_loop_ok:
  assumes "ok fs" and "fat_ok sec fs" and "chain (n_fatent fs) (fat sec fs) (c # cs)"
  shows "\<exists>fs'. remove_loop io c fs = Some (FR_OK, fs') \<and> ok fs' \<and> evo fs fs' \<and> fat_ok sec fs' \<and>
     (\<forall>x. cluster fs x \<longrightarrow> fat sec fs' x = (if x \<in> set (c # cs) then 0 else fat sec fs x))"
  using assms
proof (induction cs arbitrary: c fs)
  case Nil
  have c: "cluster fs c" "n_fatent fs \<le> fat sec fs c" "2 < n_fatent fs" using Nil.prems by (auto simp: cluster_def fat_ok_def)
  then have "fat sec fs c \<noteq> 0" by auto
  then show ?case using free_step [OF Nil.prems(1,2) c(1)] c(2) by (auto simp: not_less)
next
  case (Cons d cs)
  have c: "cluster fs c" "fat sec fs c = d" "2 \<le> d" "d < n_fatent fs" and ch: "chain (n_fatent fs) (fat sec fs) (d # cs)"
    using Cons.prems(3) chain_cluster [of "n_fatent fs" "fat sec fs" "d # cs" d] by (auto simp: cluster_def)
  have nz: "fat sec fs c \<noteq> 0" using c(2,3) by auto
  obtain f where f: "ok f" "evo fs f" "fat_ok sec f" "\<And>x. cluster fs x \<Longrightarrow> fat sec f x = (if x = c then 0 else fat sec fs x)"
    "remove_loop io c fs = remove_loop io d f" using free_step [OF Cons.prems(1,2) c(1) nz] c by auto
  have nc: "c \<notin> set (d # cs)" using chain_distinct [OF Cons.prems(3)] by simp
  note ef = evolves_fields [OF f(2)]
  have "fat sec f x = fat sec fs x" if "x \<in> set (d # cs)" for x
    using f(4) [of x] chain_cluster [OF ch that] that nc by (auto simp: cluster_def)
  then have "chain (n_fatent f) (fat sec f) (d # cs)" using ch chain_cong ef(1) by metis
  then obtain g where g: "remove_loop io d f = Some (FR_OK, g)" "ok g" "evo f g" "fat_ok sec g"
    "\<And>x. cluster fs x \<Longrightarrow> fat sec g x = (if x \<in> set (d # cs) then 0 else fat sec f x)" using Cons.IH [OF f(1,3)] ef(9) by auto
  have "fat sec g x = (if x \<in> set (c # d # cs) then 0 else fat sec fs x)" if "cluster fs x" for x
    using g(5) [OF that] f(4) [OF that] by auto
  then show ?case using f(5) g(1,2,4) evolves_trans [OF f(2) g(3)] by auto
qed

lemma remove_chain_ok:
  assumes "ok fs" and "fat_ok sec fs" and "chain (n_fatent fs) (fat sec fs) (c # cs)"
  shows "\<exists>fs'. remove_chain io c 0 fs = Some (FR_OK, fs') \<and> ok fs' \<and> evo fs fs' \<and> fat_ok sec fs' \<and>
     (\<forall>x. cluster fs x \<longrightarrow> fat sec fs' x = (if x \<in> set (c # cs) then 0 else fat sec fs x))"
proof -
  have "2 \<le> c" "c < n_fatent fs" using chain_cluster [OF assms(3), of c] by simp_all
  then show ?thesis using remove_loop_ok [OF assms] by (simp add: remove_chain_def not_less not_le)
qed

lemma find_free_ok:
  assumes "ok fs" and "fat_ok sec fs" and "1 \<le> scl" and "scl < n_fatent fs" and "1 \<le> ncl" and "ncl < n_fatent fs"
  shows "\<exists>r fs'. find_free io scl ncl fs = Some (r, fs') \<and> ok fs' \<and> keeps fs fs' \<and> step fs fs' \<and>
     (case r of Inl e \<Rightarrow> e = 0 \<and> (\<forall>x. cluster fs x \<and> unat x \<in> ahead (unat (n_fatent fs)) (unat scl) (unat ncl) \<longrightarrow> fat sec fs x \<noteq> 0)
      | Inr x \<Rightarrow> x \<in> free_set sec fs)"
  using assms
proof (induction "distance (unat (n_fatent fs)) (unat scl) (unat ncl)" arbitrary: ncl fs rule: less_induct)
  case less
  let ?n = "unat (n_fatent fs)" and ?s = "unat scl"
  have t: "table_ok fs" and n2: "2 < ?n" and one: "\<And>x. cluster fs x \<Longrightarrow> fat sec fs x \<noteq> 1"
    using less.prems(2) by (auto simp: fat_ok_def word_less_nat_alt)
  have b: "1 \<le> ?s" "?s < ?n" "1 \<le> unat ncl" "unat ncl < ?n" using less.prems(3-6) by (simp_all add: word_less_nat_alt word_le_nat_alt)
  have u: "unat (ncl + 1) = unat ncl + 1" using b(4) table_bound [OF t] by (simp add: unat_word_ariths)
  show ?case
  proof (cases "n_fatent fs \<le> ncl + 1 \<and> scl < 2")
    case True
    then have "ahead ?n ?s (unat ncl) = {}" using b u by (auto simp: ahead_def word_le_nat_alt word_less_nat_alt)
    then show ?thesis using True less.prems(1) by (subst find_free.simps) (simp add: kept_refl step_refl)
  next
    case False
    define x where "x = (if n_fatent fs \<le> ncl + 1 then 2 else ncl + 1)"
    have ux: "unat x = (if ?n = unat ncl + 1 then 2 else unat ncl + 1)" using u b(4) by (auto simp: x_def word_le_nat_alt)
    have nw: "\<not> (?n = unat ncl + 1 \<and> ?s < 2)" using False u by (auto simp: word_le_nat_alt word_less_nat_alt)
    have x: "cluster fs x" using ux b n2 by (auto simp: cluster_def word_le_nat_alt word_less_nat_alt)
    have ah: "ahead ?n ?s (unat ncl) \<subseteq> insert (unat x) (if x = scl then {} else ahead ?n ?s (unat x))"
      using ux b nw by (auto simp: ahead_def word_unat_eq_iff split: if_splits)
    obtain f where f: "get_fat io x fs = Some (fat sec fs x, f)" "ok f" "keeps fs f" "step fs f" using get_fat_ok [OF less.prems(1) t x] by blast
    have fk: "n_fatent f = n_fatent fs" "cluster f = cluster fs" "\<And>c. cluster fs c \<Longrightarrow> fat sec f c = fat sec fs c"
      using kept_fields(11) [OF f(3)] keeps_cluster [OF f(3)] keeps_fat [OF less.prems(1) t f(3)] by simp_all
    have r: "find_free io scl ncl fs = (if fat sec fs x = 0 then Some (Inr x, f) else if x = scl then Some (Inl 0, f) else find_free io scl x f)"
      using False f(1) one [OF x] fat_small [OF t] by (subst find_free.simps) (auto simp: x_def [symmetric] Let_def not_less)
    consider "fat sec fs x = 0" | "fat sec fs x \<noteq> 0" "x = scl" | "fat sec fs x \<noteq> 0" "x \<noteq> scl" by blast
    then show ?thesis
    proof cases
      case 1
      then show ?thesis using r f x by (auto simp: free_set_def)
    next
      case 2
      then have "y = scl" if "unat y \<in> ahead ?n ?s (unat ncl)" for y using that ah by (auto simp: word_unat_eq_iff)
      then show ?thesis using 2 r f by auto
    next
      case 3
      have d: "distance (unat (n_fatent f)) ?s (unat x) < distance ?n ?s (unat ncl)"
        using 3(2) ux b nw fk(1) by (auto simp: distance_def word_unat_eq_iff)
      have fo: "fat_ok sec f"
        using less.prems(2) fk kept_fields [OF f(3)] keeps_cluster [OF f(3)] by (auto simp: fat_ok_def count_ok_def free_set_def cong: conj_cong)
      have p: "scl < n_fatent f" "1 \<le> x" "x < n_fatent f" using less.prems(4) x fk(1) by (auto simp: cluster_def word_le_nat_alt)
      obtain r' g where g: "find_free io scl x f = Some (r', g)" "ok g" "keeps f g" "step f g"
        "case r' of Inl e \<Rightarrow> e = 0 \<and> (\<forall>y. cluster fs y \<and> unat y \<in> ahead ?n ?s (unat x) \<longrightarrow> fat sec f y \<noteq> 0) | Inr y \<Rightarrow> y \<in> free_set sec f"
        using less.hyps [OF d f(2) fo less.prems(3) p] unfolding fk(1,2) by blast
      have ahx: "y = x \<or> unat y \<in> ahead ?n ?s (unat x)" if "unat y \<in> ahead ?n ?s (unat ncl)" for y
        using that ah 3(2) by (auto simp: word_unat_eq_iff)
      have "free_set sec f = free_set sec fs" using fk by (auto simp: free_set_def)
      then have "case r' of Inl e \<Rightarrow> e = 0 \<and> (\<forall>y. cluster fs y \<and> unat y \<in> ahead ?n ?s (unat ncl) \<longrightarrow> fat sec fs y \<noteq> 0) | Inr y \<Rightarrow> y \<in> free_set sec fs"
        using g(5) fk(3) ahx 3(1) by (auto split: sum.splits)
      then show ?thesis using r 3 g(1,2) kept_trans [OF f(3) g(3)] step_trans [OF f(4) g(4)] by auto
    qed
  qed
qed

text \<open>A cluster that is taken is no longer counted.\<close>

lemma count_taken:
  assumes "count_ok sec fs" and "c \<in> free_set sec fs"
    and "cluster fs' = cluster fs" and "n_fatent fs' = n_fatent fs" and "\<And>x. cluster fs x \<Longrightarrow> fat sec fs' x = 0 \<longleftrightarrow> x \<noteq> c \<and> fat sec fs x = 0"
    and "free_clst fs' = (if free_clst fs \<le> n_fatent fs - 2 then free_clst fs - 1 else free_clst fs)" and "2 < n_fatent fs"
  shows "count_ok sec fs'"
proof -
  have e: "free_set sec fs' = free_set sec fs - {c}" using assms(2,3,5) by (auto simp: free_set_def)
  have fin: "finite (free_set sec fs)" by simp
  have k: "Finite_Set.card (free_set sec fs) \<noteq> 0" using assms(2) by auto
  have "unat (free_clst fs - 1) = Finite_Set.card (free_set sec fs')" if "unat (free_clst fs) = Finite_Set.card (free_set sec fs)"
  proof -
    have "free_clst fs \<noteq> 0" using that k by auto
    then show ?thesis using that assms(2) by (simp add: e unat_minus_one)
  qed
  then have "unat (free_clst fs') = Finite_Set.card (free_set sec fs')" if "unat (free_clst fs) = Finite_Set.card (free_set sec fs)" "free_clst fs \<le> n_fatent fs - 2"
    using that assms(6) by simp
  then show ?thesis using assms(1,4,6) by (auto simp: count_ok_def not_le)
qed

lemma link_cluster_ok:
  assumes "ok fs" and "fat_ok sec fs" and "ncl \<in> free_set sec fs" and "clst = 0 \<or> cluster fs clst \<and> n_fatent fs \<le> fat sec fs clst"
  shows "\<exists>fs'. link_cluster io clst ncl fs = Some (ncl, fs') \<and> ok fs' \<and> evo fs fs' \<and> fat_ok sec fs' \<and> n_fatent fs \<le> fat sec fs' ncl \<and>
     (\<forall>x. cluster fs x \<longrightarrow> x \<noteq> ncl \<longrightarrow> fat sec fs' x = (if x = clst then ncl else fat sec fs x))"
proof -
  have t: "table_ok fs" "2 < n_fatent fs" "count_ok sec fs" and one: "\<And>x. cluster fs x \<Longrightarrow> fat sec fs x \<noteq> 1"
    and n: "cluster fs ncl" "fat sec fs ncl = 0"
    using assms(2,3) by (auto simp: fat_ok_def free_set_def)
  have ne: "clst \<noteq> 0 \<Longrightarrow> clst \<noteq> ncl \<and> cluster fs clst" using assms(4) n(2) t(2) by auto
  obtain f1 where f1: "put_fat io ncl 0xFFFFFFFF fs = Some (FR_OK, f1)" "ok f1" "step fs f1" "fat sec f1 ncl = 0xFFFFFFFF AND mask (fat_bits (fs_type fs))"
    "\<And>x. cluster fs x \<Longrightarrow> x \<noteq> ncl \<Longrightarrow> fat sec f1 x = fat sec fs x"
    using put_fat_ok [OF assms(1) t(1) n(1), of "0xFFFFFFFF"] by auto
  have e1: "n_fatent fs \<le> fat sec f1 ncl" using f1(4) fat_eoc(1) [OF t(1)] by simp
  note s1 = step_fields [OF f1(3)]
  have c1: "cluster f1 = cluster fs" using s1 by (simp add: cluster_def fun_eq_iff)
  have "\<exists>f2. (if clst \<noteq> 0 then put_fat io clst ncl f1 else Some (FR_OK, f1)) = Some (FR_OK, f2) \<and> ok f2 \<and> step fs f2 \<and>
      fat sec f2 ncl = fat sec f1 ncl \<and> (\<forall>x. cluster fs x \<longrightarrow> x \<noteq> ncl \<longrightarrow> fat sec f2 x = (if x = clst then ncl else fat sec fs x))"
  proof (cases "clst = 0")
    case True
    have "clst \<noteq> x" if "cluster fs x" for x using that True by (auto simp: cluster_def)
    then show ?thesis using True f1 by auto
  next
    case False
    have nm: "ncl AND mask (fat_bits (fs_type fs)) = ncl" using fat_eoc(2) [OF t(1)] n(1) by (simp add: cluster_def)
    obtain f2 where f2: "put_fat io clst ncl f1 = Some (FR_OK, f2)" "ok f2" "step f1 f2" "fat sec f2 clst = ncl"
      "\<And>x. cluster fs x \<Longrightarrow> x \<noteq> clst \<Longrightarrow> fat sec f2 x = fat sec f1 x"
      using put_fat_ok [OF f1(2), of clst ncl] ne [OF False] t(1) s1 c1 nm by auto
    then show ?thesis using False ne [OF False] f1(5) step_trans [OF f1(3) f2(3)] n(1) by auto
  qed
  then obtain f2 where f2: "(if clst \<noteq> 0 then put_fat io clst ncl f1 else Some (FR_OK, f1)) = Some (FR_OK, f2)" "ok f2" "step fs f2"
    "fat sec f2 ncl = fat sec f1 ncl" "\<And>x. cluster fs x \<Longrightarrow> x \<noteq> ncl \<Longrightarrow> fat sec f2 x = (if x = clst then ncl else fat sec fs x)" by blast
  note ef = evolves_fields [OF step_evolves [OF f2(3)]]
  define g where "g = (if free_clst f2 \<le> n_fatent f2 - 2 then f2\<lparr>last_clst := ncl, free_clst := free_clst f2 - 1, fsi_flag := fsi_flag f2 OR 1\<rparr>
    else f2\<lparr>last_clst := ncl, fsi_flag := fsi_flag f2 OR 1\<rparr>)"
  have g: "ok g" "fat sec g = fat sec f2" using f2(2) by (simp_all add: g_def)
  have eg: "evo f2 g" by (auto simp: g_def evolves_def static_def win_moved_def)
  note eg' = evolves_fields [OF eg]
  have "free_clst f2 = free_clst fs" using f2(3) by (simp add: table_step_def volume_fields_def)
  then have fg: "free_clst g = (if free_clst fs \<le> n_fatent fs - 2 then free_clst fs - 1 else free_clst fs)" using ef(1) by (simp add: g_def)
  have z: "fat sec f2 ncl \<noteq> 0" "ncl \<noteq> 0" using e1 t(2) f2(4) n(1) by (auto simp: cluster_def)
  have "fat sec g x = 0 \<longleftrightarrow> x \<noteq> ncl \<and> fat sec fs x = 0" if "cluster fs x" for x
    using f2(5) [OF that] z assms(4) t(2) g(2) that by (cases "x = ncl"; cases "x = clst") (auto simp: cluster_def)
  then have "count_ok sec g" using count_taken [OF t(3) assms(3) _ _ _ fg t(2)] ef eg' by simp
  moreover have "fat sec g x \<noteq> 1" if "cluster fs x" for x
  proof (cases "x = ncl")
    case True
    then show ?thesis using g(2) f2(4) e1 t(2) by (auto simp: word_le_nat_alt word_less_nat_alt)
  next
    case False
    have "ncl \<noteq> 1" using n(1) by (auto simp: cluster_def word_le_nat_alt)
    then show ?thesis using f2(5) [OF that False] one [OF that] g(2) by simp
  qed
  ultimately have "fat_ok sec g" using t(1,2) ef eg' by (simp add: fat_ok_def)
  moreover have "link_cluster io clst ncl fs = Some (ncl, g)"
    using f1(1) f2(1) by (simp add: link_cluster_def g_def Let_def)
  ultimately show ?thesis using g e1 f2(4,5) evolves_trans [OF step_evolves [OF f2(3)] eg] by auto
qed

lemma keeps_fat_ok:
  assumes "ok fs" and "fat_ok sec fs" and "keeps fs fs'"
  shows "fat_ok sec fs'" "free_set sec fs' = free_set sec fs"
proof -
  have t: "table_ok fs" using assms(2) by (simp add: fat_ok_def)
  show f: "free_set sec fs' = free_set sec fs"
    using keeps_fat [OF assms(1) t assms(3)] keeps_cluster [OF assms(3)] by (auto simp: free_set_def)
  show "fat_ok sec fs'" using assms(2) f keeps_fat [OF assms(1) t assms(3)] keeps_cluster [OF assms(3)] kept_fields [OF assms(3)]
    by (simp add: fat_ok_def count_ok_def)
qed

lemma try_next_ok:
  assumes "ok fs" and "fat_ok sec fs" and "cluster fs scl"
  shows "\<exists>ncl scl' fs'. try_next io scl fs = Some (Inr (ncl, scl'), fs') \<and> ok fs' \<and> keeps fs fs' \<and> step fs fs' \<and> cluster fs scl' \<and>
     (ncl = 0 \<or> ncl \<in> free_set sec fs)"
proof -
  have t: "table_ok fs" and one: "\<And>x. cluster fs x \<Longrightarrow> fat sec fs x \<noteq> 1" and n2: "2 < n_fatent fs" using assms(2) by (auto simp: fat_ok_def)
  define x where "x = (if n_fatent fs \<le> scl + 1 then 2 else scl + 1)"
  have "unat (scl + 1) = unat scl + 1"
    using assms(3) table_bound [OF t] by (simp add: cluster_def word_less_nat_alt unat_word_ariths)
  then have x: "cluster fs x" using assms(3) n2 by (auto simp: x_def cluster_def word_le_nat_alt word_less_nat_alt)
  obtain f where f: "get_fat io x fs = Some (fat sec fs x, f)" "ok f" "keeps fs f" "step fs f" using get_fat_ok [OF assms(1) t x] by blast
  have l: "last_clst f = last_clst fs" "n_fatent f = n_fatent fs" using kept_fields [OF f(3)] by simp_all
  have "try_next io scl fs = Some (if fat sec fs x \<noteq> 0 then Inr (0, if last_clst fs \<ge> 2 \<and> last_clst fs < n_fatent fs then last_clst fs else scl)
      else Inr (x, scl), f)"
    using f(1) one [OF x] fat_small [OF t] l by (simp add: try_next_def x_def [symmetric] Let_def)
  then show ?thesis using f(2-4) x assms(3) by (cases "fat sec fs x = 0") (auto simp: free_set_def cluster_def)
qed

lemma all_ahead: "cluster fs x \<Longrightarrow> unat x \<in> ahead (unat (n_fatent fs)) (unat scl) (unat scl)"
  by (auto simp: ahead_def cluster_def word_le_nat_alt word_less_nat_alt)

lemma alloc_cluster_ok:
  assumes "ok fs" and "fat_ok sec fs" and "1 \<le> scl" and "scl < n_fatent fs"
    and "clst = 0 \<or> scl = clst \<and> cluster fs clst \<and> n_fatent fs \<le> fat sec fs clst"
  shows "\<exists>r fs'. alloc_cluster io clst scl fs = Some (r, fs') \<and> ok fs' \<and> evo fs fs' \<and> fat_ok sec fs' \<and>
     (if r = 0 then free_set sec fs = {} \<and> (\<forall>x. cluster fs x \<longrightarrow> fat sec fs' x = fat sec fs x)
      else r \<in> free_set sec fs \<and> n_fatent fs \<le> fat sec fs' r \<and>
        (\<forall>x. cluster fs x \<longrightarrow> x \<noteq> r \<longrightarrow> fat sec fs' x = (if x = clst then r else fat sec fs x)))"
proof -
  have t: "table_ok fs" using assms(2) by (simp add: fat_ok_def)
  have "\<exists>ncl scl' f. (if scl = clst then try_next io scl fs else Some (Inr (0, scl), fs)) = Some (Inr (ncl, scl'), f) \<and> ok f \<and> keeps fs f \<and> step fs f \<and>
      1 \<le> scl' \<and> scl' < n_fatent fs \<and> (ncl = 0 \<or> ncl \<in> free_set sec fs)"
  proof (cases "scl = clst")
    case True
    then have "cluster fs scl" using assms(3,5) by auto
    from try_next_ok [OF assms(1,2) this] True show ?thesis by (fastforce simp: cluster_def word_le_nat_alt)
  next
    case False
    then show ?thesis using assms(1,3,4) by (auto simp: kept_refl step_refl)
  qed
  then obtain ncl s f where f: "(if scl = clst then try_next io scl fs else Some (Inr (0, scl), fs)) = Some (Inr (ncl, s), f)" "ok f" "keeps fs f"
    "1 \<le> s" "s < n_fatent fs" "step fs f" "ncl = 0 \<or> ncl \<in> free_set sec fs" by blast
  have ff: "fat_ok sec f" "free_set sec f = free_set sec fs" "n_fatent f = n_fatent fs" "cluster f = cluster fs"
    using keeps_fat_ok [OF assms(1,2) f(3)] kept_fields(11) [OF f(3)] keeps_cluster [OF f(3)] by simp_all
  have "\<exists>r g. (if ncl = 0 then find_free io s s f else Some (Inr ncl, f)) = Some (r, g) \<and> ok g \<and> keeps f g \<and> step f g \<and>
      (case r of Inl e \<Rightarrow> e = 0 \<and> free_set sec fs = {} | Inr x \<Rightarrow> x \<in> free_set sec fs)"
  proof (cases "ncl = 0")
    case False
    then show ?thesis using f(2,7) by (auto simp: kept_refl step_refl)
  next
    case True
    obtain r g where g: "find_free io s s f = Some (r, g)" "ok g" "keeps f g" "step f g"
      "case r of Inl e \<Rightarrow> e = 0 \<and> (\<forall>x. cluster f x \<and> unat x \<in> ahead (unat (n_fatent f)) (unat s) (unat s) \<longrightarrow> fat sec f x \<noteq> 0)
        | Inr x \<Rightarrow> x \<in> free_set sec f"
      using find_free_ok [OF f(2) ff(1) f(4) _ f(4)] f(5) ff(3) by auto
    have "free_set sec f = {}" if "\<forall>x. cluster f x \<and> unat x \<in> ahead (unat (n_fatent f)) (unat s) (unat s) \<longrightarrow> fat sec f x \<noteq> 0"
      using that all_ahead [of f] by (auto simp: free_set_def)
    then show ?thesis using True g ff(2) by (intro exI [of _ r] exI [of _ g]) (auto split: sum.splits)
  qed
  then obtain r g where g: "(if ncl = 0 then find_free io s s f else Some (Inr ncl, f)) = Some (r, g)" "ok g" "keeps f g" "step f g"
    "case r of Inl e \<Rightarrow> e = 0 \<and> free_set sec fs = {} | Inr x \<Rightarrow> x \<in> free_set sec fs" by blast
  have k: "keeps fs g" and ks: "evo fs g"
    using kept_trans [OF f(3) g(3)] step_evolves [OF step_trans [OF f(6) g(4)]] by simp_all
  have gg: "fat_ok sec g" "free_set sec g = free_set sec fs" "n_fatent g = n_fatent fs" "cluster g = cluster fs"
    using keeps_fat_ok [OF assms(1,2) k] kept_fields(11) [OF k] keeps_cluster [OF k] by simp_all
  have kf: "cluster fs x \<Longrightarrow> fat sec g x = fat sec fs x" for x using keeps_fat [OF assms(1) t k] .
  have a: "alloc_cluster io clst scl fs = (case r of Inl e \<Rightarrow> Some (e, g) | Inr x \<Rightarrow> link_cluster io clst x g)"
    using f(1) g(1) by (simp add: alloc_cluster_def)
  show ?thesis
  proof (cases r)
    case (Inl e)
    then show ?thesis using a g(2,5) gg(1) kf ks by auto
  next
    case (Inr x)
    then have x1: "x \<in> free_set sec g" using g(5) gg(2) by simp
    then have "x \<noteq> 0" by (auto simp: free_set_def cluster_def)
    note x = x1 this
    have "clst = 0 \<or> cluster g clst \<and> n_fatent g \<le> fat sec g clst" using assms(5) gg kf by auto
    from link_cluster_ok [OF g(2) gg(1) x(1) this] obtain h where h: "link_cluster io clst x g = Some (x, h)" "ok h" "evo g h" "fat_ok sec h"
      "n_fatent fs \<le> fat sec h x" "\<And>y. cluster fs y \<Longrightarrow> y \<noteq> x \<Longrightarrow> fat sec h y = (if y = clst then x else fat sec g y)"
      unfolding gg(3,4) by blast
    have "fat sec h y = (if y = clst then x else fat sec fs y)" if "cluster fs y" "y \<noteq> x" for y using h(6) [OF that] kf [OF that(1)] by simp
    then have "\<forall>y. cluster fs y \<longrightarrow> y \<noteq> x \<longrightarrow> fat sec h y = (if y = clst then x else fat sec fs y)" by blast
    moreover have "alloc_cluster io clst scl fs = Some (x, h)" "x \<in> free_set sec fs" "evo fs h"
      using a Inr h(1) x(1) gg(2) evolves_trans [OF ks h(3)] by simp_all
    ultimately show ?thesis unfolding if_not_P [OF x(2)] using h(2,4,5) x(2) by (metis (no_types, lifting))
  qed
qed

lemma no_free:
  assumes "fat_ok sec fs" and "free_clst fs = 0"
  shows "free_set sec fs = {}"
proof -
  have "\<not> n_fatent fs - 2 < free_clst fs" using assms(2) by simp
  then have "Finite_Set.card (free_set sec fs) = 0" using assms by (simp add: fat_ok_def count_ok_def)
  then show ?thesis by simp
qed

text \<open>The chain \<open>cs\<close>, which may be empty, gets one more cluster, unless the volume is full.\<close>

lemma create_chain_ok:
  assumes "ok fs" and "fat_ok sec fs" and "cs = [] \<or> chain (n_fatent fs) (fat sec fs) cs"
  shows "\<exists>r fs'. create_chain io (if cs = [] then 0 else last cs) fs = Some (r, fs') \<and> ok fs' \<and> evo fs fs' \<and> fat_ok sec fs' \<and>
     (if r = 0 then free_set sec fs = {} \<and> (\<forall>x. cluster fs x \<longrightarrow> fat sec fs' x = fat sec fs x)
      else r \<in> free_set sec fs \<and> chain (n_fatent fs) (fat sec fs') (cs @ [r]) \<and>
        (\<forall>x. cluster fs x \<longrightarrow> x \<noteq> r \<longrightarrow> cs = [] \<or> x \<noteq> last cs \<longrightarrow> fat sec fs' x = fat sec fs x))"
proof (cases "cs = []")
  case True
  let ?s = "if last_clst fs = 0 \<or> n_fatent fs \<le> last_clst fs then 1 else last_clst fs"
  have n2: "2 < n_fatent fs" using assms(2) by (simp add: fat_ok_def)
  have s: "1 \<le> ?s" "?s < n_fatent fs" using n2 by (auto simp: word_le_nat_alt word_less_nat_alt unat_gt_0 Suc_le_eq)
  have c: "create_chain io 0 fs = (if free_clst fs = 0 then Some (0, fs) else alloc_cluster io 0 ?s fs)" by (simp add: create_chain_def Let_def)
  show ?thesis
  proof (cases "free_clst fs = 0")
    case z: True
    then show ?thesis using True c no_free [OF assms(2) z] assms(1,2) step_evolves [OF step_refl [of fs]] by auto
  next
    case False
    obtain r g where g: "alloc_cluster io 0 ?s fs = Some (r, g)" "ok g" "evo fs g" "fat_ok sec g"
      "if r = 0 then free_set sec fs = {} \<and> (\<forall>x. cluster fs x \<longrightarrow> fat sec g x = fat sec fs x)
       else r \<in> free_set sec fs \<and> n_fatent fs \<le> fat sec g r \<and> (\<forall>x. cluster fs x \<longrightarrow> x \<noteq> r \<longrightarrow> fat sec g x = (if x = 0 then r else fat sec fs x))"
      using alloc_cluster_ok [OF assms(1,2) s, of 0] by blast
    have "\<not> cluster fs 0" by (simp add: cluster_def)
    then show ?thesis using g True False c
      by (intro exI [of _ r] exI [of _ g]) (auto simp: free_set_def cluster_def split: if_splits)
  qed
next
  case False
  let ?l = "last cs"
  have ch: "chain (n_fatent fs) (fat sec fs) cs" and t: "table_ok fs" using assms(2,3) False by (auto simp: fat_ok_def)
  have l: "cluster fs ?l" "n_fatent fs \<le> fat sec fs ?l" using chain_cluster [OF ch] chain_last [OF ch] False by (auto simp: cluster_def)
  have l0: "?l \<noteq> 0" "1 \<le> ?l" "?l < n_fatent fs" using l(1) by (auto simp: cluster_def word_le_nat_alt)
  obtain f where f: "get_fat io ?l fs = Some (fat sec fs ?l, f)" "ok f" "keeps fs f" "step fs f" using get_fat_ok [OF assms(1) t l(1)] by blast
  have ff: "fat_ok sec f" "free_set sec f = free_set sec fs" "n_fatent f = n_fatent fs" "cluster f = cluster fs" "free_clst f = free_clst fs"
    using keeps_fat_ok [OF assms(1,2) f(3)] kept_fields [OF f(3)] keeps_cluster [OF f(3)] by simp_all
  have kf: "cluster fs x \<Longrightarrow> fat sec f x = fat sec fs x" for x using keeps_fat [OF assms(1) t f(3)] .
  have "\<not> fat sec fs ?l < 2" "\<not> fat sec fs ?l < n_fatent fs"
    using l assms(2) by (auto simp: fat_ok_def word_less_nat_alt word_le_nat_alt)
  then have c: "create_chain io ?l fs = (if free_clst fs = 0 then Some (0, f) else alloc_cluster io ?l ?l f)"
    using l0(1) f(1) fat_small [OF t] ff(3,5) by (simp add: create_chain_def)
  show ?thesis
  proof (cases "free_clst fs = 0")
    case z: True
    then show ?thesis using False c no_free [OF assms(2) z] f(2) ff(1) kf step_evolves [OF f(4)] by auto
  next
    case nz: False
    have "?l = 0 \<or> ?l = ?l \<and> cluster f ?l \<and> n_fatent f \<le> fat sec f ?l" using l ff(3,4) kf by simp
    then obtain r g where g: "alloc_cluster io ?l ?l f = Some (r, g)" "ok g" "evo f g" "fat_ok sec g"
      "if r = 0 then free_set sec fs = {} \<and> (\<forall>x. cluster fs x \<longrightarrow> fat sec g x = fat sec f x)
       else r \<in> free_set sec fs \<and> n_fatent fs \<le> fat sec g r \<and> (\<forall>x. cluster fs x \<longrightarrow> x \<noteq> r \<longrightarrow> fat sec g x = (if x = ?l then r else fat sec f x))"
      using alloc_cluster_ok [OF f(2) ff(1) l0(2), of ?l] l0(3) unfolding ff(2-4) by blast
    have "chain (n_fatent fs) (fat sec g) (cs @ [r])" if "r \<noteq> 0"
    proof -
      have r: "cluster fs r" "fat sec fs r = 0" "n_fatent fs \<le> fat sec g r" using g(5) that by (auto simp: free_set_def)
      have "0 < n_fatent fs" using r(1) by (auto simp: cluster_def word_gt_0)
      then have nr: "r \<notin> set cs" using chain_not_free [OF ch] r(2) by blast
      have "chain (n_fatent fs) ((fat sec fs)(?l := r, r := fat sec g r)) (cs @ [r])"
        using chain_append [OF ch] r nr by (simp add: cluster_def)
      moreover have "fat sec g x = ((fat sec fs)(?l := r, r := fat sec g r)) x" if "x \<in> set (cs @ [r])" for x
        using that g(5) kf chain_cluster [OF ch] \<open>r \<noteq> 0\<close> by (auto simp: cluster_def)
      ultimately show ?thesis using chain_cong [of "cs @ [r]" "fat sec g"] by blast
    qed
    moreover have "create_chain io ?l fs = Some (r, g)" "evo fs g" using nz c g(1) evolves_trans [OF step_evolves [OF f(4)] g(3)] by simp_all
    moreover have "fat sec g x = fat sec fs x" if "cluster fs x" "r \<noteq> 0 \<longrightarrow> x \<noteq> r \<and> x \<noteq> ?l" for x
      using g(5) kf [OF that(1)] that by (cases "r = 0") simp_all
    moreover have "r = 0 \<Longrightarrow> free_set sec fs = {}" "r \<noteq> 0 \<Longrightarrow> r \<in> free_set sec fs" using g(5) by simp_all
    ultimately show ?thesis using False g(2,4) by (intro exI [of _ r] exI [of _ g]) (cases "r = 0", simp_all)
  qed
qed

end

end
