(* ===== verification/Fat_Mount.thy ===== *)
theory Fat_Mount
  imports Fat_Chain
begin

text \<open>
  Mounting a volume of FatFs (\<^verbatim>\<open>fatfs/ff.c\<close>): the boot sector is looked for at the start of the drive and in the four partitions,
  its parameter block is checked, and the file system object is filled in. Logical and physical drives have the same numbers, and
  the first partition with a FAT is taken, as there is no \<open>FF_MULTI_PARTITION\<close>.
\<close>

section \<open>Fields of boot sectors and limits\<close>

definition BS_JmpBoot :: nat where "BS_JmpBoot = 0"
definition BPB_BytsPerSec :: nat where "BPB_BytsPerSec = 11"
definition BPB_SecPerClus :: nat where "BPB_SecPerClus = 13"
definition BPB_RsvdSecCnt :: nat where "BPB_RsvdSecCnt = 14"
definition BPB_NumFATs :: nat where "BPB_NumFATs = 16"
definition BPB_RootEntCnt :: nat where "BPB_RootEntCnt = 17"
definition BPB_TotSec16 :: nat where "BPB_TotSec16 = 19"
definition BPB_FATSz16 :: nat where "BPB_FATSz16 = 22"
definition BPB_TotSec32 :: nat where "BPB_TotSec32 = 32"
definition BS_FilSysType :: nat where "BS_FilSysType = 54"
definition BPB_FATSz32 :: nat where "BPB_FATSz32 = 36"
definition BPB_FSVer32 :: nat where "BPB_FSVer32 = 42"
definition BPB_RootClus32 :: nat where "BPB_RootClus32 = 44"
definition BPB_FSInfo32 :: nat where "BPB_FSInfo32 = 48"
definition BS_FilSysType32 :: nat where "BS_FilSysType32 = 82"
definition MBR_Table :: nat where "MBR_Table = 446"
definition SZ_PTE :: nat where "SZ_PTE = 16"
definition PTE_System :: nat where "PTE_System = 4"
definition PTE_StLba :: nat where "PTE_StLba = 8"
definition MAX_FAT12 :: u32 where "MAX_FAT12 = 0xFF5"
definition MAX_FAT16 :: u32 where "MAX_FAT16 = 0xFFF5"
definition MAX_FAT32 :: u32 where "MAX_FAT32 = 0x0FFFFFF5"
definition SZDIRE :: u32 where "SZDIRE = 32"
definition STA_PROTECT :: u8 where "STA_PROTECT = 0x04"

section \<open>Operations\<close>

text \<open>\<open>mem_cmp\<close> of a field and a string.\<close>

definition field_is :: "u8 list \<Rightarrow> nat \<Rightarrow> string \<Rightarrow> bool" where
  "field_is b i t \<longleftrightarrow> take (length t) (drop i b) = str t"

text \<open>0: a FAT boot sector, 2: another boot sector, 3: no boot sector, 4: disk error.\<close>

definition check_fs :: "'d dio \<Rightarrow> u32 \<Rightarrow> 'd FATFS \<Rightarrow> (nat \<times> 'd FATFS) option" where
  "check_fs io sect fs = do {
     (res, fs1) \<leftarrow> move_window io sect (fs\<lparr>wflag := False, winsect := 0xFFFFFFFF\<rparr>);
     let b = win fs1;
     Some (if res \<noteq> FR_OK then 4
           else if ld_word b BS_55AA \<noteq> 0xAA55 then 3
           else if b ! BS_JmpBoot = 0xE9 \<or> b ! BS_JmpBoot = 0xEB \<or> b ! BS_JmpBoot = 0xE8 then
             if field_is b BS_FilSysType ''FAT'' then 0 else if field_is b BS_FilSysType32 ''FAT32'' then 0 else 2
           else 2, fs1)
   }"

text \<open>The first partition with a FAT, of those that start at the given sectors; 0 is an empty entry of the table.\<close>

fun try_partitions :: "'d dio \<Rightarrow> u32 list \<Rightarrow> u32 \<Rightarrow> nat \<Rightarrow> 'd FATFS \<Rightarrow> (nat \<times> u32 \<times> 'd FATFS) option" where
  "try_partitions io [] bsect fmt fs = Some (fmt, bsect, fs)"
| "try_partitions io (br # brs) bsect fmt fs = do {
     (fmt, fs1) \<leftarrow> (if br \<noteq> 0 then check_fs io br fs else Some (3, fs));
     if fmt \<ge> 2 then try_partitions io brs br fmt fs1 else Some (fmt, br, fs1)
   }"

definition partitions :: "u8 list \<Rightarrow> u32 list" where
  "partitions b = map (\<lambda>i. let pt = MBR_Table + i * SZ_PTE in if b ! (pt + PTE_System) \<noteq> 0 then ld_dword b (pt + PTE_StLba) else 0) [0..<4]"

definition find_boot_sector :: "'d dio \<Rightarrow> 'd FATFS \<Rightarrow> (nat \<times> u32 \<times> 'd FATFS) option" where
  "find_boot_sector io fs = do {
     (fmt, fs1) \<leftarrow> check_fs io 0 fs;
     if fmt = 2 then try_partitions io (partitions (win fs1)) 0 fmt fs1 else Some (fmt, 0, fs1)
   }"

definition fat_format :: "u32 \<Rightarrow> u8" where
  "fat_format nclst =
     (let fmt = 0;
          fmt = (if nclst \<le> MAX_FAT32 then FS_FAT32 else fmt);
          fmt = (if nclst \<le> MAX_FAT16 then FS_FAT16 else fmt)
      in if nclst \<le> MAX_FAT12 then FS_FAT12 else fmt)"

text \<open>Values of the parameter block: the sectors of a FAT, of the volume and before the data area, and the clusters.\<close>

definition bpb_fasize :: "u8 list \<Rightarrow> u32" where
  "bpb_fasize b = (let fasize = ucast (ld_word b BPB_FATSz16) in if fasize = 0 then ld_dword b BPB_FATSz32 else fasize)"

definition bpb_tsect :: "u8 list \<Rightarrow> u32" where
  "bpb_tsect b = (let tsect = ucast (ld_word b BPB_TotSec16) in if tsect = 0 then ld_dword b BPB_TotSec32 else tsect)"

definition bpb_sysect :: "u8 list \<Rightarrow> u32" where
  "bpb_sysect b =
     ucast (ld_word b BPB_RsvdSecCnt) + bpb_fasize b * ucast (b ! BPB_NumFATs) + ucast (ld_word b BPB_RootEntCnt) div (SS div SZDIRE)"

definition bpb_nclst :: "u8 list \<Rightarrow> u32" where
  "bpb_nclst b = (bpb_tsect b - bpb_sysect b) div ucast (b ! BPB_SecPerClus)"

definition bpb_szbfat :: "u8 \<Rightarrow> u32 \<Rightarrow> u32" where
  "bpb_szbfat fmt n =
     (if fmt = FS_FAT32 then n * 4 else if fmt = FS_FAT16 then n * 2 else n * 3 div 2 + (n AND 1))"

text \<open>The parameter block of the boot sector in the window: the volume's geometry, or an error.\<close>

definition read_bpb :: "u32 \<Rightarrow> 'd FATFS \<Rightarrow> fresult \<times> u8 \<times> 'd FATFS" where
  "read_bpb bsect fs =
     (let b = win fs in
      if ld_word b BPB_BytsPerSec \<noteq> ucast SS then (FR_NO_FILESYSTEM, 0, fs) else
      let fs = fs\<lparr>fsize := bpb_fasize b, n_fats := b ! BPB_NumFATs\<rparr> in
      if n_fats fs \<noteq> 1 \<and> n_fats fs \<noteq> 2 then (FR_NO_FILESYSTEM, 0, fs) else
      let fs = fs\<lparr>csize := ucast (b ! BPB_SecPerClus)\<rparr> in
      if csize fs = 0 \<or> csize fs AND (csize fs - 1) \<noteq> 0 then (FR_NO_FILESYSTEM, 0, fs) else
      let fs = fs\<lparr>n_rootdir := ld_word b BPB_RootEntCnt\<rparr> in
      if n_rootdir fs mod ucast (SS div SZDIRE) \<noteq> 0 then (FR_NO_FILESYSTEM, 0, fs) else
      if ld_word b BPB_RsvdSecCnt = 0 then (FR_NO_FILESYSTEM, 0, fs) else
      if bpb_tsect b < bpb_sysect b then (FR_NO_FILESYSTEM, 0, fs) else
      if bpb_nclst b = 0 then (FR_NO_FILESYSTEM, 0, fs) else
      let fmt = fat_format (bpb_nclst b) in
      if fmt = 0 then (FR_NO_FILESYSTEM, 0, fs) else
      let fs = fs\<lparr>n_fatent := bpb_nclst b + 2, volbase := bsect, fatbase := bsect + ucast (ld_word b BPB_RsvdSecCnt),
                 database := bsect + bpb_sysect b\<rparr> in
      if fmt = FS_FAT32 \<and> (ld_word b BPB_FSVer32 \<noteq> 0 \<or> n_rootdir fs \<noteq> 0) then (FR_NO_FILESYSTEM, 0, fs) else
      if fmt \<noteq> FS_FAT32 \<and> n_rootdir fs = 0 then (FR_NO_FILESYSTEM, 0, fs) else
      let fs = fs\<lparr>dirbase := if fmt = FS_FAT32 then ld_dword b BPB_RootClus32 else fatbase fs + bpb_fasize b * ucast (n_fats fs)\<rparr> in
      if fsize fs < (bpb_szbfat fmt (n_fatent fs) + (SS - 1)) div SS then (FR_NO_FILESYSTEM, 0, fs) else (FR_OK, fmt, fs))"

text \<open>The allocation information of a FAT32 volume.\<close>

definition read_fsinfo :: "'d dio \<Rightarrow> u32 \<Rightarrow> u8 \<Rightarrow> 'd FATFS \<Rightarrow> 'd FATFS option" where
  "read_fsinfo io bsect fmt fs =
     (let fs = fs\<lparr>last_clst := 0xFFFFFFFF, free_clst := 0xFFFFFFFF, fsi_flag := 0x80\<rparr>
      in if fmt = FS_FAT32 \<and> ld_word (win fs) BPB_FSInfo32 = 1 then do {
           (res, fs1) \<leftarrow> move_window io (bsect + 1) fs;
           if res = FR_OK then
             let b = win fs1
             in if ld_word b BS_55AA = 0xAA55 \<and> ld_dword b FSI_LeadSig = 0x41615252 \<and> ld_dword b FSI_StrucSig = 0x61417272
                then Some (fs1\<lparr>fsi_flag := 0, free_clst := ld_dword b FSI_Free_Count, last_clst := ld_dword b FSI_Nxt_Free\<rparr>)
                else Some (fs1\<lparr>fsi_flag := 0\<rparr>)
           else Some fs1
         }
         else Some fs)"

text \<open>Mounting volume \<open>vol\<close>; \<open>Fsid\<close> is the number of the last mount.\<close>

definition mount_volume :: "'d dio \<Rightarrow> u8 \<Rightarrow> u8 \<Rightarrow> u16 \<Rightarrow> 'd FATFS \<Rightarrow> (fresult \<times> u16 \<times> 'd FATFS) option" where
  "mount_volume io vol mode Fsid fs = do {
     let fs = fs\<lparr>fs_type := 0, pdrv := vol\<rparr>;
     (stat, d) \<leftarrow> dio_initialize io (pdrv fs) (dev fs);
     let fs = fs\<lparr>dev := d\<rparr>;
     if stat AND STA_NOINIT \<noteq> 0 then Some (FR_NOT_READY, Fsid, fs)
     else if mode \<noteq> 0 \<and> stat AND STA_PROTECT \<noteq> 0 then Some (FR_WRITE_PROTECTED, Fsid, fs)
     else do {
       (fmt, bsect, fs1) \<leftarrow> find_boot_sector io fs;
       if fmt = 4 then Some (FR_DISK_ERR, Fsid, fs1)
       else if fmt \<ge> 2 then Some (FR_NO_FILESYSTEM, Fsid, fs1)
       else
         case read_bpb bsect fs1 of
           (res, fmt, fs2) \<Rightarrow>
             if res \<noteq> FR_OK then Some (res, Fsid, fs2)
             else do {
               fs3 \<leftarrow> read_fsinfo io bsect fmt fs2;
               Some (FR_OK, Fsid + 1, fs3\<lparr>fs_type := fmt, fs_id := Fsid + 1, cdir := 0\<rparr>)
             }
     }
   }"

text \<open>\<open>find_volume\<close> for the file system object that is registered for volume \<open>vol\<close>.\<close>

definition find_volume :: "'d dio \<Rightarrow> u8 \<Rightarrow> u8 \<Rightarrow> u16 \<Rightarrow> 'd FATFS \<Rightarrow> (fresult \<times> u16 \<times> 'd FATFS) option" where
  "find_volume io vol mode Fsid fs =
     (let mode = mode AND NOT FA_READ
      in if fs_type fs \<noteq> 0 then do {
           (stat, d) \<leftarrow> dio_status io (pdrv fs) (dev fs);
           let fs = fs\<lparr>dev := d\<rparr>;
           if stat AND STA_NOINIT = 0 then Some (if mode \<noteq> 0 \<and> stat AND STA_PROTECT \<noteq> 0 then FR_WRITE_PROTECTED else FR_OK, Fsid, fs)
           else mount_volume io vol mode Fsid fs
         }
         else mount_volume io vol mode Fsid fs)"

section \<open>A mounted volume is well formed\<close>

text \<open>What holds of every mounted volume, whatever is on the disk.\<close>

definition mounted :: "'d FATFS \<Rightarrow> bool" where
  "mounted fs \<longleftrightarrow> table_ok fs \<and> 2 < n_fatent fs \<and> n_fats fs \<in> {1, 2} \<and> csize fs \<noteq> 0 \<and> csize fs AND (csize fs - 1) = 0 \<and> csize fs < 256 \<and>
     n_rootdir fs mod 16 = 0 \<and> (n_rootdir fs = 0 \<longleftrightarrow> fs_type fs = FS_FAT32) \<and> fsi_flag fs \<in> {0, 0x80} \<and> (fsi_flag fs = 0 \<longrightarrow> fs_type fs = FS_FAT32)"

lemma fat_format_cases:
  assumes "fat_format n \<noteq> 0"
  shows "fat_format n \<in> {FS_FAT12, FS_FAT16, FS_FAT32}" "unat n + 11 \<le> 2 ^ fat_bits (fat_format n)"
  using assms by (auto simp: fat_format_def Let_def fat_bits_def FS_FAT12_def FS_FAT16_def FS_FAT32_def MAX_FAT12_def MAX_FAT16_def MAX_FAT32_def
      word_le_nat_alt split: if_splits)

text \<open>The number of bytes of the table that \<open>find_volume\<close> asks for.\<close>

lemma needed_bytes:
  fixes n f z :: u32
  assumes "\<not> f < (z + (SS - 1)) div SS" and "unat z < 2 ^ 31"
  shows "unat z \<le> 512 * unat f"
proof -
  have "unat (z + 511) = unat z + 511" using assms(2) by (simp add: unat_word_ariths)
  then have "unat ((z + (SS - 1)) div SS) = (unat z + 511) div 512" by (simp add: SS_def unat_div_distrib)
  then have "(unat z + 511) div 512 \<le> unat f" using assms(1) by (simp add: word_less_nat_alt)
  then show ?thesis using div_mult_mod_eq [of "unat z + 511" 512] mod_less_divisor [of 512 "unat z + 511"] by linarith
qed


text \<open>The parameters the checks of the parameter block leave.\<close>

lemma read_bpb_ok:
  assumes "read_bpb bsect fs = (FR_OK, fmt, fs')"
  defines "b \<equiv> win fs"
  shows "fmt = fat_format (bpb_nclst b)" "fmt \<noteq> 0" "bpb_nclst b \<noteq> 0" "n_fatent fs' = bpb_nclst b + 2"
    "\<not> fsize fs' < (bpb_szbfat fmt (n_fatent fs') + (SS - 1)) div SS"
    "n_fats fs' = 1 \<or> n_fats fs' = 2" "csize fs' \<noteq> 0" "csize fs' AND (csize fs' - 1) = 0" "csize fs' = ucast (b ! BPB_SecPerClus)"
    "n_rootdir fs' = 0 \<longleftrightarrow> fmt = FS_FAT32"
    "fatbase fs' = bsect + ucast (ld_word b BPB_RsvdSecCnt)" "database fs' = bsect + bpb_sysect b" "fsize fs' = bpb_fasize b"
    "n_fats fs' = b ! BPB_NumFATs" "bpb_sysect b \<le> bpb_tsect b" "ld_word b BPB_RsvdSecCnt \<noteq> 0" "n_rootdir fs' = ld_word b BPB_RootEntCnt"
    "win fs' = win fs" "winsect fs' = winsect fs" "wflag fs' = wflag fs" "dev fs' = dev fs" "pdrv fs' = pdrv fs" "volbase fs' = bsect"
  using assms(1) unfolding b_def by (auto simp: read_bpb_def Let_def split: if_splits)

lemma read_bpb_rootdir:
  assumes "read_bpb bsect fs = (FR_OK, fmt, fs')"
  shows "n_rootdir fs' mod 16 = 0"
proof (rule ccontr)
  assume "n_rootdir fs' mod 16 \<noteq> 0"
  then have "ld_word (win fs) BPB_RootEntCnt mod ucast (SS div SZDIRE) \<noteq> 0"
    using read_bpb_ok(17) [OF assms] by (simp add: SS_def SZDIRE_def)
  then show False using assms by (auto simp: read_bpb_def Let_def split: if_splits)
qed

lemma read_bpb_clusters:
  assumes "read_bpb bsect fs = (FR_OK, fmt, fs')"
  shows "fmt \<in> {FS_FAT12, FS_FAT16, FS_FAT32}" "unat (n_fatent fs') + 9 \<le> 2 ^ fat_bits fmt" "unat (n_fatent fs') = unat (bpb_nclst (win fs)) + 2"
proof -
  note r = read_bpb_ok [OF assms]
  show "fmt \<in> {FS_FAT12, FS_FAT16, FS_FAT32}" using fat_format_cases r(1,2) by simp
  have m: "unat (bpb_nclst (win fs)) + 11 \<le> 2 ^ fat_bits fmt" using fat_format_cases r(1,2) by simp
  have "2 ^ fat_bits fmt \<le> (2 ^ 28 :: nat)" by (simp add: fat_bits_def)
  then show "unat (n_fatent fs') = unat (bpb_nclst (win fs)) + 2" using m r(4) by (simp add: unat_word_ariths)
  then show "unat (n_fatent fs') + 9 \<le> 2 ^ fat_bits fmt" using m by simp
qed

lemma fat12_size: "n * 3 div 2 + n mod 2 = n + n div 2 + n mod (2::nat)"
  by (cases "even n") (auto elim!: evenE oddE)

lemma szbfat:
  assumes "fmt \<in> {FS_FAT12, FS_FAT16, FS_FAT32}" and "unat n + 9 \<le> 2 ^ fat_bits fmt"
  shows "unat (bpb_szbfat fmt n) = fat_bytes fmt (unat n) \<and> unat (bpb_szbfat fmt n) < 2 ^ 31"
proof -
  consider "fmt = FS_FAT12" | "fmt = FS_FAT16" | "fmt = FS_FAT32" using assms(1) by blast
  then show ?thesis
  proof cases
    case 1
    then have n: "unat n < 4096" using assms(2) by (simp add: fat_bits_def)
    have "unat (n * 3) = unat n * 3" using n by (simp add: unat_word_ariths)
    then have "unat (n * 3 div 2) = unat n * 3 div 2" "unat (n AND 1) = unat n mod 2" by (simp_all add: unat_div_distrib and_one_eq unat_mod_distrib)
    then have "unat (n * 3 div 2 + (n AND 1)) = unat n * 3 div 2 + unat n mod 2" using n by (simp add: unat_word_ariths)
    then show ?thesis using 1 n by (simp add: bpb_szbfat_def fat_bytes_def fat12_size FS_FAT12_def FS_FAT16_def FS_FAT32_def)
  next
    case 2
    then have n: "unat n < 65536" using assms(2) by (simp add: fat_bits_def FS_FAT12_def FS_FAT16_def)
    then show ?thesis using 2 by (simp add: bpb_szbfat_def fat_bytes_def unat_word_ariths FS_FAT12_def FS_FAT16_def FS_FAT32_def)
  next
    case 3
    then have n: "unat n < 2 ^ 28" using assms(2) by (simp add: fat_bits_def FS_FAT12_def FS_FAT16_def FS_FAT32_def)
    then show ?thesis using 3 by (simp add: bpb_szbfat_def fat_bytes_def unat_word_ariths FS_FAT12_def FS_FAT16_def FS_FAT32_def)
  qed
qed

lemma sync_window_fields:
  assumes "sync_window io fs = Some (r, fs')"
  shows "volume_fields fs' = volume_fields fs" "wflag fs' \<longrightarrow> wflag fs"
proof -
  have "volume_fields fs' = volume_fields fs \<and> (wflag fs' \<longrightarrow> wflag fs)"
  proof (cases "wflag fs")
    case True
    then obtain r1 d where w: "dio_write io (pdrv fs) (win fs) (winsect fs) 1 (dev fs) = Some (r1, d)"
      using assms by (auto simp: sync_window_def bind_eq_Some_conv)
    show ?thesis
      by (cases "r1 = RES_OK"; cases "winsect fs - fatbase fs < fsize fs \<and> n_fats fs = 2")
        (use True assms w in \<open>auto simp: sync_window_def Let_def bind_eq_Some_conv volume_fields_def\<close>)
  next
    case False
    then show ?thesis using assms by (simp add: sync_window_def)
  qed
  then show "volume_fields fs' = volume_fields fs" "wflag fs' \<longrightarrow> wflag fs" by simp_all
qed

lemma move_window_fields:
  assumes "move_window io n fs = Some (r, fs')"
  shows "volume_fields fs' = volume_fields fs" "wflag fs' \<longrightarrow> wflag fs"
proof -
  have "volume_fields fs' = volume_fields fs \<and> (wflag fs' \<longrightarrow> wflag fs)"
  proof (cases "n = winsect fs")
    case True
    then show ?thesis using assms by (simp add: move_window_def)
  next
    case False
    then obtain r1 f where f: "sync_window io fs = Some (r1, f)" using assms by (auto simp: move_window_def bind_eq_Some_conv)
    note s = sync_window_fields [OF f]
    show ?thesis
      by (cases "r1 = FR_OK") (use False assms f s in \<open>auto simp: move_window_def Let_def bind_eq_Some_conv volume_fields_def split: if_splits\<close>)
  qed
  then show "volume_fields fs' = volume_fields fs" "wflag fs' \<longrightarrow> wflag fs" by simp_all
qed

lemma read_fsinfo_fields:
  assumes "read_fsinfo io bsect fmt fs = Some fs'"
  shows "fsize fs' = fsize fs" "n_fatent fs' = n_fatent fs" "n_fats fs' = n_fats fs" "csize fs' = csize fs" "n_rootdir fs' = n_rootdir fs"
    "fsi_flag fs' = 0 \<and> fmt = FS_FAT32 \<or> fsi_flag fs' = 0x80"
proof -
  define f where "f = fs\<lparr>last_clst := 0xFFFFFFFF, free_clst := 0xFFFFFFFF, fsi_flag := 0x80\<rparr>"
  have r: "read_fsinfo io bsect fmt fs = (if fmt = FS_FAT32 \<and> ld_word (win f) BPB_FSInfo32 = 1 then do {
      (res, g) \<leftarrow> move_window io (bsect + 1) f;
      if res = FR_OK then
        let b = win g
        in if ld_word b BS_55AA = 0xAA55 \<and> ld_dword b FSI_LeadSig = 0x41615252 \<and> ld_dword b FSI_StrucSig = 0x61417272
           then Some (g\<lparr>fsi_flag := 0, free_clst := ld_dword b FSI_Free_Count, last_clst := ld_dword b FSI_Nxt_Free\<rparr>)
           else Some (g\<lparr>fsi_flag := 0\<rparr>)
      else Some g
    } else Some f)" by (simp only: read_fsinfo_def Let_def f_def)
  have a: "fsize fs' = fsize f \<and> n_fatent fs' = n_fatent f \<and> n_fats fs' = n_fats f \<and> csize fs' = csize f \<and> n_rootdir fs' = n_rootdir f \<and>
      (fsi_flag fs' = 0 \<and> fmt = FS_FAT32 \<or> fsi_flag fs' = fsi_flag f)"
  proof (cases "fmt = FS_FAT32 \<and> ld_word (win f) BPB_FSInfo32 = 1")
    case True
    then obtain res g where g: "move_window io (bsect + 1) f = Some (res, g)"
      using assms r by (cases "move_window io (bsect + 1) f") auto
    then show ?thesis using True assms r move_window_fields(1) [OF g] by (auto simp: volume_fields_def Let_def split: if_splits)
  next
    case False
    have "fs' = f" using assms r unfolding if_not_P [OF False] by simp
    then show ?thesis by simp
  qed
  then show "fsize fs' = fsize fs" "n_fatent fs' = n_fatent fs" "n_fats fs' = n_fats fs" "csize fs' = csize fs" "n_rootdir fs' = n_rootdir fs"
    "fsi_flag fs' = 0 \<and> fmt = FS_FAT32 \<or> fsi_flag fs' = 0x80" by (auto simp: f_def)
qed

lemma mount_volume_mounted:
  assumes "mount_volume io vol mode Fsid fs = Some (FR_OK, i, fs')"
  shows "mounted fs'"
proof -
  obtain bsect fs1 fmt fs2 fs3 where b: "read_bpb bsect fs1 = (FR_OK, fmt, fs2)" and i: "read_fsinfo io bsect fmt fs2 = Some fs3"
    and f: "fs' = fs3\<lparr>fs_type := fmt, fs_id := Fsid + 1, cdir := 0\<rparr>"
    using assms by (auto simp: mount_volume_def Let_def bind_eq_Some_conv split: if_splits prod.splits)
  note r = read_bpb_ok [OF b]
  note fm = read_bpb_clusters(1) [OF b] and n9 = read_bpb_clusters(2) [OF b] and n = read_bpb_clusters(3) [OF b]
  have t: "fat_bytes fmt (unat (n_fatent fs2)) \<le> 512 * unat (fsize fs2)"
    using needed_bytes [OF r(5)] szbfat [OF fm n9] by simp
  have "bpb_nclst (win fs1) \<noteq> 0" using r(3) .
  then have n2: "2 < n_fatent fs2" using n by (simp add: word_less_nat_alt unat_gt_0)
  have c: "csize fs2 < 256"
    using le_less_trans [OF take_bit_nat_less_eq_self unsigned_less [of "win fs1 ! BPB_SecPerClus", where 'a = nat]]
    by (simp add: r(9) word_less_nat_alt unsigned_ucast_eq)
  note e = read_fsinfo_fields [OF i]
  show ?thesis unfolding f using fm n9 t n2 c r(6-8,10) read_bpb_rootdir [OF b] e
    by (auto simp: mounted_def table_ok_def)
qed


section \<open>The areas of a volume\<close>

text \<open>FAT, root directory and data follow each other and end before sector \<open>e\<close>, without wrapping.\<close>

definition layout :: "nat \<Rightarrow> 'd FATFS \<Rightarrow> bool" where
  "layout e fs \<longleftrightarrow> 0 < unat (fatbase fs) \<and> unat (fatbase fs) + unat (n_fats fs) * unat (fsize fs) \<le> unat (database fs) \<and>
     unat (database fs) + unat (csize fs) * (unat (n_fatent fs) - 2) \<le> e \<and> e < 2 ^ 32"

lemma unat_mult_small: "unat a * unat b < 2 ^ 32 \<Longrightarrow> unat (a * b) = unat a * unat b" for a b :: u32
  by (simp add: unat_word_ariths)

lemma unat_add_small: "unat a + unat b < 2 ^ 32 \<Longrightarrow> unat (a + b) = unat a + unat b" for a b :: u32
  by (simp add: unat_word_ariths)

text \<open>
  A parameter block whose sectors fit on a disk of less than 2^32 sectors gives such a layout, provided that the product of the
  size and the number of FATs does not wrap. \<open>find_volume\<close> does not check that.
\<close>

lemma read_bpb_layout:
  assumes "read_bpb bsect fs = (FR_OK, fmt, fs')"
    and wrap: "unat (bpb_fasize (win fs)) * unat (win fs ! BPB_NumFATs) + 2 ^ 17 < 2 ^ 32"
    and fits: "unat bsect + unat (bpb_tsect (win fs)) < 2 ^ 32"
  shows "layout (unat bsect + unat (bpb_tsect (win fs))) fs'"
proof -
  note r = read_bpb_ok [OF assms(1)]
  let ?b = "win fs"
  let ?r = "ucast (ld_word ?b BPB_RsvdSecCnt) :: u32" and ?f = "bpb_fasize ?b * ucast (?b ! BPB_NumFATs)"
    and ?d = "ucast (ld_word ?b BPB_RootEntCnt) div (SS div SZDIRE)" and ?c = "ucast (?b ! BPB_SecPerClus) :: u32"
  have u16: "unat (ucast (w :: u16) :: u32) < 2 ^ 16" for w
    using le_less_trans [OF take_bit_nat_less_eq_self unsigned_less [of w, where 'a = nat]] by (simp add: unsigned_ucast_eq)
  have nf: "unat (ucast (?b ! BPB_NumFATs) :: u32) = unat (?b ! BPB_NumFATs)" "unat ?c = unat (?b ! BPB_SecPerClus)"
    "unat (csize fs') = unat (?b ! BPB_SecPerClus)"
    using r(9) unsigned_less [of "?b ! BPB_NumFATs", where 'a = nat] unsigned_less [of "?b ! BPB_SecPerClus", where 'a = nat]
    by (simp_all add: unsigned_ucast_eq take_bit_nat_eq_self)
  have f: "unat ?f = unat (bpb_fasize ?b) * unat (?b ! BPB_NumFATs)" using wrap nf by (simp add: unat_mult_small)
  have d: "unat ?d < 2 ^ 16"
    using u16 [of "ld_word ?b BPB_RootEntCnt"] by (simp add: SS_def SZDIRE_def unat_div_distrib less_mult_imp_div_less)
  have rf: "unat (?r + ?f) = unat ?r + unat ?f" using u16 [of "ld_word ?b BPB_RsvdSecCnt"] wrap f by (intro unat_add_small) simp
  have sy: "unat (bpb_sysect ?b) = unat ?r + unat ?f + unat ?d"
    using rf d u16 [of "ld_word ?b BPB_RsvdSecCnt"] wrap f unfolding bpb_sysect_def by (subst unat_add_small) simp_all
  have le: "unat (bpb_sysect ?b) \<le> unat (bpb_tsect ?b)" using r(15) by (simp add: word_le_nat_alt)
  have base: "unat (fatbase fs') = unat bsect + unat ?r" "unat (database fs') = unat bsect + unat (bpb_sysect ?b)"
    using fits le sy unfolding r(11,12) by (intro unat_add_small, simp)+
  have n: "unat (n_fatent fs') - 2 = unat (bpb_nclst ?b)"
    using read_bpb_clusters(3) [OF assms(1)] by simp
  have "unat (bpb_nclst ?b) = (unat (bpb_tsect ?b) - unat (bpb_sysect ?b)) div unat ?c"
    using le by (simp add: bpb_nclst_def unat_div_distrib unat_sub word_le_nat_alt)
  then have "unat ?c * unat (bpb_nclst ?b) \<le> unat (bpb_tsect ?b) - unat (bpb_sysect ?b)" by simp
  moreover have "0 < unat ?r" using r(16) unsigned_less [of "ld_word ?b BPB_RsvdSecCnt", where 'a = nat]
    by (simp add: unsigned_ucast_eq take_bit_nat_eq_self unat_gt_0)
  ultimately show ?thesis using base sy f nf n fits le r(13,14) by (simp add: layout_def)
qed


text \<open>
  The product may wrap: this parameter block has two FATs of 0x80000001 sectors on a volume of 8192. It is accepted, and every change
  of the FAT is then also written to a sector outside the volume.
\<close>

definition wrapping_bpb :: "u8 list" where
  "wrapping_bpb = (replicate 512 0)[12 := 2, 13 := 1, 14 := 1, 16 := 2, 18 := 2, 20 := 0x20, 36 := 1, 39 := 0x80]"

lemma read_bpb_fat_size_wraps:
  "\<exists>fs'. read_bpb bsect (fs\<lparr>win := wrapping_bpb\<rparr>) = (FR_OK, FS_FAT16, fs') \<and> fsize fs' = 0x80000001 \<and> n_fats fs' = 2 \<and>
     bpb_tsect wrapping_bpb = 8192 \<and> fatbase fs' = bsect + 1 \<and> database fs' = bsect + 35"
proof -
  have v: "ld_word wrapping_bpb BPB_BytsPerSec = ucast SS" "bpb_fasize wrapping_bpb = 0x80000001" "wrapping_bpb ! BPB_NumFATs = 2"
    "wrapping_bpb ! BPB_SecPerClus = 1" "ld_word wrapping_bpb BPB_RootEntCnt = 512" "ld_word wrapping_bpb BPB_RsvdSecCnt = 1"
    "bpb_tsect wrapping_bpb = 8192" "bpb_sysect wrapping_bpb = 35" "bpb_nclst wrapping_bpb = 8157" "fat_format 8157 = FS_FAT16"
    "(512 :: u16) mod ucast (SS div SZDIRE) = 0" "\<not> (0x80000001 :: u32) < (bpb_szbfat FS_FAT16 (8157 + 2) + (SS - 1)) div SS" "FS_FAT16 \<noteq> 0" "FS_FAT16 \<noteq> FS_FAT32"
    by code_simp+
  show ?thesis using v by (simp add: read_bpb_def Let_def)
qed

end
