(* ===== verification/Fat_File.thy ===== *)
theory Fat_File
  imports Fat_Mount
begin

text \<open>
  Files of FatFs (\<^verbatim>\<open>fatfs/ff.c\<close>): an open file has a file object with a cache of one sector of its own, as there is no
  \<open>FF_FS_TINY\<close>. Reads and writes go through the cache where they do not cover a sector, and to the disk where they do.
  The functions take the file object and the file system object of its volume, and return both.
\<close>

section \<open>File objects\<close>

text \<open>\<open>obj_fs\<close>: the pointer to the file system object is not null.\<close>

record FFOBJID =
  obj_fs :: bool
  obj_id :: u16
  obj_attr :: u8
  sclust :: u32
  objsize :: u32

text \<open>\<open>dir_ptr\<close> is the offset of the directory entry in the window.\<close>

record FIL =
  obj :: FFOBJID
  fil_flag :: u8
  fil_err :: fresult
  fptr :: u32
  fil_clust :: u32
  fil_sect :: u32
  dir_sect :: u32
  dir_ptr :: nat
  fil_buf :: "u8 list"

definition FA_MODIFIED :: u8 where "FA_MODIFIED = 0x40"
definition FA_DIRTY :: u8 where "FA_DIRTY = 0x80"
definition AM_ARC :: u8 where "AM_ARC = 0x20"
definition DIR_Attr :: nat where "DIR_Attr = 11"
definition DIR_LstAccDate :: nat where "DIR_LstAccDate = 18"
definition DIR_FstClusHI :: nat where "DIR_FstClusHI = 20"
definition DIR_ModTime :: nat where "DIR_ModTime = 22"
definition DIR_FstClusLO :: nat where "DIR_FstClusLO = 26"
definition DIR_FileSize :: nat where "DIR_FileSize = 28"

abbreviation dirty :: "FIL \<Rightarrow> bool" where "dirty fp \<equiv> fil_flag fp AND FA_DIRTY \<noteq> 0"

section \<open>Start cluster of a directory entry\<close>

definition ld_clust :: "'d FATFS \<Rightarrow> u8 list \<Rightarrow> nat \<Rightarrow> u32" where
  "ld_clust fs b dir =
     (let cl = ucast (ld_word b (dir + DIR_FstClusLO))
      in if fs_type fs = FS_FAT32 then cl OR push_bit 16 (ucast (ld_word b (dir + DIR_FstClusHI))) else cl)"

definition st_clust :: "'d FATFS \<Rightarrow> nat \<Rightarrow> u32 \<Rightarrow> u8 list \<Rightarrow> u8 list" where
  "st_clust fs dir cl b =
     (let b = st_word (dir + DIR_FstClusLO) (ucast cl) b
      in if fs_type fs = FS_FAT32 then st_word (dir + DIR_FstClusHI) (ucast (drop_bit 16 cl)) b else b)"

section \<open>Validity of an object\<close>

definition validate :: "'d dio \<Rightarrow> FFOBJID \<Rightarrow> 'd FATFS \<Rightarrow> (fresult \<times> 'd FATFS) option" where
  "validate io ob fs =
     (if obj_fs ob \<and> fs_type fs \<noteq> 0 \<and> obj_id ob = fs_id fs then do {
        (stat, d) \<leftarrow> dio_status io (pdrv fs) (dev fs);
        Some (if stat AND STA_NOINIT = 0 then FR_OK else FR_INVALID_OBJECT, fs\<lparr>dev := d\<rparr>)
      }
      else Some (FR_INVALID_OBJECT, fs))"

section \<open>Reading\<close>

text \<open>The sector cache is written to the disk if it is dirty; \<open>Some e\<close> is the error.\<close>

definition flush_cache :: "'d dio \<Rightarrow> FIL \<Rightarrow> 'd FATFS \<Rightarrow> (fresult option \<times> FIL \<times> 'd FATFS) option" where
  "flush_cache io fp fs =
     (if dirty fp then do {
        (r, d) \<leftarrow> dio_write io (pdrv fs) (fil_buf fp) (fil_sect fp) 1 (dev fs);
        if r \<noteq> RES_OK then Some (Some FR_DISK_ERR, fp, fs\<lparr>dev := d\<rparr>)
        else Some (None, fp\<lparr>fil_flag := fil_flag fp AND NOT FA_DIRTY\<rparr>, fs\<lparr>dev := d\<rparr>)
      }
      else Some (None, fp, fs))"

definition load_cache :: "'d dio \<Rightarrow> u32 \<Rightarrow> FIL \<Rightarrow> 'd FATFS \<Rightarrow> (fresult option \<times> FIL \<times> 'd FATFS) option" where
  "load_cache io sect fp fs = do {
     (r, b, d) \<leftarrow> dio_read io (pdrv fs) (fil_buf fp) sect 1 (dev fs);
     Some (if r \<noteq> RES_OK then Some FR_DISK_ERR else None, fp\<lparr>fil_buf := b\<rparr>, fs\<lparr>dev := d\<rparr>)
   }"

text \<open>The cluster of the file pointer, at the start of a cluster.\<close>

definition read_cluster :: "'d dio \<Rightarrow> FIL \<Rightarrow> 'd FATFS \<Rightarrow> (fresult option \<times> FIL \<times> 'd FATFS) option" where
  "read_cluster io fp fs = do {
     (clst, fs1) \<leftarrow> (if fptr fp = 0 then Some (sclust (obj fp), fs) else get_fat io (fil_clust fp) fs);
     if clst < 2 then Some (Some FR_INT_ERR, fp, fs1)
     else if clst = 0xFFFFFFFF then Some (Some FR_DISK_ERR, fp, fs1)
     else Some (None, fp\<lparr>fil_clust := clst\<rparr>, fs1)
   }"

text \<open>The offset of a sector in its cluster.\<close>

definition sector_offset_in_cluster :: "FIL \<Rightarrow> 'd FATFS \<Rightarrow> u32" where
  "sector_offset_in_cluster fp fs = (fptr fp div SS) AND (ucast (csize fs) - 1)"

text \<open>The rest of the sector in the cache, up to \<open>btr\<close> bytes.\<close>

definition copy_from_cache :: "u32 \<Rightarrow> FIL \<Rightarrow> u8 list" where
  "copy_from_cache btr fp =
     (let rcnt = SS - fptr fp mod SS;
          rcnt = (if rcnt > btr then btr else rcnt)
      in take (unat rcnt) (drop (unat (fptr fp mod SS)) (fil_buf fp)))"

text \<open>The number of whole sectors to transfer, within the cluster.\<close>

definition whole_sectors :: "u32 \<Rightarrow> u32 \<Rightarrow> 'd FATFS \<Rightarrow> u32" where
  "whole_sectors n csect fs = (let cc = n div SS in if csect + cc > ucast (csize fs) then ucast (csize fs) - csect else cc)"

text \<open>The body of the loop of \<open>f_read\<close>: the bytes it copies into the buffer, or the error it aborts with.\<close>

definition read_chunk :: "'d dio \<Rightarrow> u8 list \<Rightarrow> u32 \<Rightarrow> FIL \<Rightarrow> 'd FATFS \<Rightarrow> ((fresult + u8 list) \<times> FIL \<times> 'd FATFS) option" where
  "read_chunk io rbuff btr fp fs =
     (if fptr fp mod SS = 0 then do {
        let csect = sector_offset_in_cluster fp fs;
        (e, fp1, fs1) \<leftarrow> (if csect = 0 then read_cluster io fp fs else Some (None, fp, fs));
        case e of
          Some e \<Rightarrow> Some (Inl e, fp1, fs1)
        | None \<Rightarrow>
            let sect = clst2sect fs1 (fil_clust fp1) in
            if sect = 0 then Some (Inl FR_INT_ERR, fp1, fs1) else
            let sect = sect + csect in
            if btr div SS > 0 then do {
              let cc = whole_sectors btr csect fs1;
              (r, b, d) \<leftarrow> dio_read io (pdrv fs1) (take (512 * unat cc) rbuff) sect (unat cc) (dev fs1);
              let fs2 = fs1\<lparr>dev := d\<rparr>;
              if r \<noteq> RES_OK then Some (Inl FR_DISK_ERR, fp1, fs2)
              else Some (Inr (if dirty fp1 \<and> fil_sect fp1 - sect < cc
                              then splice_bytes (512 * unat (fil_sect fp1 - sect)) (fil_buf fp1) b else b), fp1, fs2)
            }
            else if fil_sect fp1 \<noteq> sect then do {
              (e, fp2, fs2) \<leftarrow> flush_cache io fp1 fs1;
              case e of
                Some e \<Rightarrow> Some (Inl e, fp2, fs2)
              | None \<Rightarrow> do {
                  (e, fp3, fs3) \<leftarrow> load_cache io sect fp2 fs2;
                  case e of
                    Some e \<Rightarrow> Some (Inl e, fp3, fs3)
                  | None \<Rightarrow> let fp4 = fp3\<lparr>fil_sect := sect\<rparr> in Some (Inr (copy_from_cache btr fp4), fp4, fs3)
                }
            }
            else Some (Inr (copy_from_cache btr fp1), fp1, fs1)
      }
      else Some (Inr (copy_from_cache btr fp), fp, fs))"

partial_function (option) read_loop :: "'d dio \<Rightarrow> u8 list \<Rightarrow> u8 list \<Rightarrow> u32 \<Rightarrow> FIL \<Rightarrow> 'd FATFS \<Rightarrow> (fresult \<times> u8 list \<times> FIL \<times> 'd FATFS) option" where
  "read_loop io done_bytes rbuff btr fp fs =
     (if btr = 0 then Some (FR_OK, done_bytes, fp, fs)
      else do {
        (r, fp1, fs1) \<leftarrow> read_chunk io rbuff btr fp fs;
        case r of
          Inl e \<Rightarrow> Some (e, done_bytes, fp1\<lparr>fil_err := e\<rparr>, fs1)
        | Inr bs \<Rightarrow> let rcnt = of_nat (length bs) in
            read_loop io (done_bytes @ bs) (drop (length bs) rbuff) (btr - rcnt) (fp1\<lparr>fptr := fptr fp1 + rcnt\<rparr>) fs1
      })"

text \<open>The result, the bytes that were read into the buffer, and the objects. \<open>*br\<close> is the number of the bytes.\<close>

definition f_read :: "'d dio \<Rightarrow> u8 list \<Rightarrow> u32 \<Rightarrow> FIL \<Rightarrow> 'd FATFS \<Rightarrow> (fresult \<times> u8 list \<times> FIL \<times> 'd FATFS) option" where
  "f_read io buff btr fp fs = do {
     (res, fs1) \<leftarrow> validate io (obj fp) fs;
     if res \<noteq> FR_OK then Some (res, [], fp, fs1)
     else if fil_err fp \<noteq> FR_OK then Some (fil_err fp, [], fp, fs1)
     else if fil_flag fp AND FA_READ = 0 then Some (FR_DENIED, [], fp, fs1)
     else
       let remain = objsize (obj fp) - fptr fp;
           btr = (if btr > remain then remain else btr)
       in read_loop io [] buff btr fp fs1
   }"

section \<open>Sectors of a file\<close>

text \<open>A volume that the functions on files work on.\<close>

definition volume_ok :: "u8 \<Rightarrow> ('d \<Rightarrow> bool) \<Rightarrow> ('d \<Rightarrow> nat \<Rightarrow> u8 list) \<Rightarrow> ('d \<Rightarrow> nat) \<Rightarrow> 'd FATFS \<Rightarrow> bool" where
  "volume_ok drive ready sec nsec fs \<longleftrightarrow> window_ok drive ready sec nsec fs \<and> fat_ok sec fs \<and> layout (nsec (dev fs)) fs \<and>
     n_fats fs \<in> {1, 2} \<and> csize fs \<in> {1, 2, 4, 8, 16, 32, 64, 128}"

text \<open>A cluster size that \<open>find_volume\<close> accepts is a power of two.\<close>

lemma mounted_csize:
  assumes "mounted fs"
  shows "csize fs \<in> {1, 2, 4, 8, 16, 32, 64, 128}"
proof -
  have all: "\<forall>n \<in> set [1..<256]. (of_nat n :: u16) AND (of_nat n - 1) = 0 \<longrightarrow> n \<in> {1, 2, 4, 8, 16, 32, 64, 128}"
    by code_simp
  have c: "unat (csize fs) < 256" "unat (csize fs) \<noteq> 0" "of_nat (unat (csize fs)) AND (of_nat (unat (csize fs)) - 1) = (0 :: u16)"
    using assms unat_gt_0 [of "csize fs"] by (simp_all add: mounted_def word_less_nat_alt)
  then have "unat (csize fs) \<in> {1, 2, 4, 8, 16, 32, 64, 128}" using all by auto
  then show ?thesis by (auto simp: word_unat_eq_iff)
qed

lemma csize_mask:
  assumes "csize fs \<in> {1, 2, 4, 8, 16, 32, 64, 128}"
  shows "unat (w AND (ucast (csize fs) - 1) :: u32) = unat w mod unat (csize fs)" "unat (ucast (csize fs) :: u32) = unat (csize fs)"
    "0 < unat (csize fs)" "unat (csize fs) \<le> 128"
proof -
  have "\<exists>k \<in> {0, 1, 2, 3, 4, 5, 6, 7}. ucast (csize fs) - 1 = (mask k :: u32) \<and> unat (csize fs) = 2 ^ k \<and> unat (ucast (csize fs) :: u32) = 2 ^ k"
    using assms by (simp only: insert_iff empty_iff) (elim disjE, simp_all add: mask_eq_exp_minus_1)
  then obtain k where k: "k \<in> {0, 1, 2, 3, 4, 5, 6, 7 :: nat}" "ucast (csize fs) - 1 = (mask k :: u32)" "unat (csize fs) = 2 ^ k" "unat (ucast (csize fs) :: u32) = 2 ^ k"
    by blast
  have "unat (w AND mask k) = unat w mod 2 ^ k"
    by (simp only: take_bit_eq_mask [symmetric] unsigned_take_bit_eq) (simp add: take_bit_eq_mod)
  then show "unat (w AND (ucast (csize fs) - 1) :: u32) = unat w mod unat (csize fs)" using k by simp
  show "unat (ucast (csize fs) :: u32) = unat (csize fs)" "0 < unat (csize fs)" "unat (csize fs) \<le> 128" using k by auto
qed

text \<open>Sector \<open>k\<close> of a file with the clusters \<open>cs\<close>, all its sectors, and its bytes: the cache of the file hides the sector it holds if it is dirty.\<close>

definition file_sector :: "'d FATFS \<Rightarrow> u32 list \<Rightarrow> nat \<Rightarrow> nat" where
  "file_sector fs cs k =
     unat (database fs) + unat (csize fs) * (unat (cs ! (k div unat (csize fs))) - 2) + k mod unat (csize fs)"

definition file_sectors :: "'d FATFS \<Rightarrow> u32 list \<Rightarrow> nat set" where
  "file_sectors fs cs = file_sector fs cs ` {..<length cs * unat (csize fs)}"

definition cache_view :: "('d \<Rightarrow> nat \<Rightarrow> u8 list) \<Rightarrow> FIL \<Rightarrow> 'd FATFS \<Rightarrow> nat \<Rightarrow> u8 list" where
  "cache_view sec fp fs n = (if dirty fp \<and> n = unat (fil_sect fp) then fil_buf fp else vsec sec fs n)"

definition file_byte :: "('d \<Rightarrow> nat \<Rightarrow> u8 list) \<Rightarrow> FIL \<Rightarrow> 'd FATFS \<Rightarrow> u32 list \<Rightarrow> nat \<Rightarrow> u8" where
  "file_byte sec fp fs cs i = cache_view sec fp fs (file_sector fs cs (i div 512)) ! (i mod 512)"

definition cluster_bytes :: "'d FATFS \<Rightarrow> nat" where
  "cluster_bytes fs = 512 * unat (csize fs)"

text \<open>An open file: its clusters and its cache, and its pointer.\<close>

definition cache_ok :: "('d \<Rightarrow> nat \<Rightarrow> u8 list) \<Rightarrow> FIL \<Rightarrow> 'd FATFS \<Rightarrow> u32 list \<Rightarrow> bool" where
  "cache_ok sec fp fs cs \<longleftrightarrow>
     (if cs = [] then sclust (obj fp) = 0 else chain (n_fatent fs) (fat sec fs) cs \<and> sclust (obj fp) = hd cs) \<and>
     unat (objsize (obj fp)) \<le> length cs * cluster_bytes fs \<and> length (fil_buf fp) = 512 \<and>
     (if fil_sect fp = 0 then \<not> dirty fp
      else unat (fil_sect fp) \<in> file_sectors fs cs \<and> (\<not> dirty fp \<longrightarrow> fil_buf fp = vsec sec fs (unat (fil_sect fp)))) \<and>
     unat (winsect fs) \<notin> file_sectors fs cs"

definition pointer_ok :: "FIL \<Rightarrow> 'd FATFS \<Rightarrow> u32 list \<Rightarrow> bool" where
  "pointer_ok fp fs cs \<longleftrightarrow> fptr fp \<le> objsize (obj fp) \<and>
     (0 < unat (fptr fp) \<longrightarrow> fil_clust fp = cs ! ((unat (fptr fp) - 1) div cluster_bytes fs)) \<and>
     (unat (fptr fp) mod 512 \<noteq> 0 \<longrightarrow> unat (fil_sect fp) = file_sector fs cs (unat (fptr fp) div 512))"

definition file_ok :: "('d \<Rightarrow> nat \<Rightarrow> u8 list) \<Rightarrow> FIL \<Rightarrow> 'd FATFS \<Rightarrow> u32 list \<Rightarrow> bool" where
  "file_ok sec fp fs cs \<longleftrightarrow> cache_ok sec fp fs cs \<and> pointer_ok fp fs cs"

lemma chain_nth: "chain n f cs \<Longrightarrow> Suc i < length cs \<Longrightarrow> f (cs ! i) = cs ! Suc i"
proof (induction n f cs arbitrary: i rule: chain.induct)
  case (3 n f c d cs)
  then show ?case by (cases i) auto
qed auto

text \<open>The bytes of consecutive sectors.\<close>

lemma concat_sectors:
  assumes "\<And>k. length (g k) = 512"
  shows "map (\<lambda>i. g (i div 512) ! (i mod 512)) [512 * a..<512 * a + 512 * n] = concat (map g [a..<a + n])"
proof (induction n)
  case 0
  then show ?case by simp
next
  case (Suc n)
  have "[512 * a..<512 * a + 512 * Suc n] = [512 * a..<512 * a + 512 * n] @ [512 * (a + n)..<512 * (a + n) + 512]"
    using upt_add_eq_append [of "512 * a" "512 * a + 512 * n" 512] by (simp add: algebra_simps)
  moreover have "map (\<lambda>i. g (i div 512) ! (i mod 512)) [512 * (a + n)..<512 * (a + n) + 512] = g (a + n)"
    by (rule nth_equalityI) (simp_all add: assms del: distrib_left_numeral)
  ultimately show ?case using Suc by simp
qed

lemma part_of_sector:
  assumes "length (g (i div 512)) = 512" and "i mod 512 + n \<le> 512"
  shows "map (\<lambda>i. g (i div 512) ! (i mod 512)) [i..<i + n] = take n (drop (i mod 512) (g (i div 512)))"
proof (rule nth_equalityI)
  fix j assume "j < length (map (\<lambda>i. g (i div 512) ! (i mod 512)) [i..<i + n])"
  then have j: "j < n" "i mod 512 + j < 512" using assms(2) by simp_all
  then show "map (\<lambda>i. g (i div 512) ! (i mod 512)) [i..<i + n] ! j = take n (drop (i mod 512) (g (i div 512))) ! j"
    using sector_offset [OF j(2)] assms(1) by simp
qed (use assms in simp)

text \<open>A buffer that is read from consecutive sectors, with one of them replaced.\<close>

lemma put_sector_concat:
  assumes "\<And>k. length (g k) = 512" and "length b = 512" and "a \<le> s" and "s < a + n"
  shows "splice_bytes (512 * (s - a)) b (concat (map g [a..<a + n])) = concat (map (g(s := b)) [a..<a + n])"
proof -
  have l: "length (concat (map g [x..<y])) = 512 * (y - x)" for x y
    by (simp add: length_concat comp_def assms(1) sum_list_triv)
  have "[a..<a + n] = [a..<s] @ s # [Suc s..<a + n]" using assms(3,4) upt_add_eq_append [of a s "a + n - s"] upt_conv_Cons [of s "a + n"] by simp
  then show ?thesis using l assms(1) [of s] assms(2) by (simp add: splice_bytes_def)
qed


lemma file_sector_in_cluster:
  assumes "k mod unat (csize fs) + j < unat (csize fs)"
  shows "file_sector fs cs (k + j) = file_sector fs cs k + j"
proof -
  let ?c = "unat (csize fs)"
  have "(k + j) div ?c = k div ?c \<and> (k + j) mod ?c = k mod ?c + j" using mod_offset [OF assms] by simp
  then show ?thesis by (simp add: file_sector_def)
qed

lemma cluster_sectors:
  assumes "layout e fs" and "cluster fs c" and "csize fs \<in> {1, 2, 4, 8, 16, 32, 64, 128}" and "j < unat (csize fs)"
  shows "unat (clst2sect fs c + of_nat j) = unat (database fs) + unat (csize fs) * (unat c - 2) + j" "clst2sect fs c \<noteq> 0"
    "unat (database fs) + unat (csize fs) * (unat c - 2) + j < e"
proof -
  note cs = csize_mask [OF assms(3)]
  let ?s = "unat (csize fs)" and ?n = "unat (n_fatent fs)" and ?d = "unat (database fs)"
  have c: "2 \<le> unat c" "unat c < ?n" using assms(2) by (simp_all add: cluster_def word_le_nat_alt word_less_nat_alt)
  have lay: "?d + ?s * (?n - 2) \<le> e" "e < 2 ^ 32" "0 < ?d" using assms(1) by (auto simp: layout_def)
  have "unat c - 2 + 1 \<le> ?n - 2" using c by simp
  then have "?s * (unat c - 2) + ?s \<le> ?s * (?n - 2)" by (metis mult_le_mono2 distrib_left mult.right_neutral)
  then have b: "?d + ?s * (unat c - 2) + ?s \<le> e" using lay(1) by simp
  then show lt: "?d + ?s * (unat c - 2) + j < e" using assms(4) by simp
  have m: "unat (c - 2) = unat c - 2" "unat (n_fatent fs - 2) = ?n - 2" using c by (simp_all add: unat_sub word_le_nat_alt)
  have p: "unat (ucast (csize fs) * (c - 2) :: u32) = ?s * (unat c - 2)"
    using b lay(2) cs(2) m(1) by (subst unat_mult_small) simp_all
  have base: "clst2sect fs c = database fs + ucast (csize fs) * (c - 2)"
    using c m by (auto simp: clst2sect_def Let_def word_le_nat_alt)
  have u: "unat (clst2sect fs c) = ?d + ?s * (unat c - 2)" unfolding base using b lay(2) p by (subst unat_add_small) simp_all
  then show "clst2sect fs c \<noteq> 0" using lay(3) by auto
  have "unat (of_nat j :: u32) = j" using assms(4) cs(4) by (simp add: unat_of_nat)
  then show "unat (clst2sect fs c + of_nat j) = ?d + ?s * (unat c - 2) + j" using u lt lay(2) by (subst unat_add_small) simp_all
qed

text \<open>The data area is neither the FAT nor its mirror.\<close>

lemma data_area:
  assumes "layout e fs" and "n_fats fs \<in> {1, 2}" and "unat (database fs) \<le> n"
  shows "n \<notin> mirror fs \<union> fat_area fs"
  using assms by (auto simp: layout_def mirror_def fat_area_def)

context disk_layer
begin

abbreviation vol :: "'d FATFS \<Rightarrow> bool" where "vol \<equiv> volume_ok drive ready sec nsec"

lemma volD:
  assumes "vol fs"
  shows "ok fs" "fat_ok sec fs" "table_ok fs" "layout (nsec (dev fs)) fs" "n_fats fs \<in> {1, 2}" "csize fs \<in> {1, 2, 4, 8, 16, 32, 64, 128}"
    "0 < unat (csize fs)" "unat (csize fs) \<le> 128"
  using assms csize_mask(3,4) [of fs] by (auto simp: volume_ok_def fat_ok_def)

text \<open>A sector of a file lies on the disk, outside the FAT, and is there as the volume has it.\<close>

lemma file_sector_bounds:
  assumes "vol fs" and "chain (n_fatent fs) (fat sec fs) cs" and "k < length cs * unat (csize fs)"
  shows "file_sector fs cs k < nsec (dev fs)" "file_sector fs cs k \<notin> mirror fs \<union> fat_area fs" "file_sector fs cs k \<in> file_sectors fs cs"
    "unat (clst2sect fs (cs ! (k div unat (csize fs))) + of_nat (k mod unat (csize fs))) = file_sector fs cs k"
    "clst2sect fs (cs ! (k div unat (csize fs))) \<noteq> 0" "cluster fs (cs ! (k div unat (csize fs)))"
proof -
  note v = volD [OF assms(1)]
  have "k div unat (csize fs) < length cs" using assms(3) by (simp add: less_mult_imp_div_less)
  then show c: "cluster fs (cs ! (k div unat (csize fs)))" using chain_cluster [OF assms(2)] by (simp add: cluster_def)
  have j: "k mod unat (csize fs) < unat (csize fs)" using v(7) by simp
  note s = cluster_sectors [OF v(4) c v(6) j]
  show "unat (clst2sect fs (cs ! (k div unat (csize fs))) + of_nat (k mod unat (csize fs))) = file_sector fs cs k"
    "clst2sect fs (cs ! (k div unat (csize fs))) \<noteq> 0" using s by (simp_all add: file_sector_def)
  show "file_sector fs cs k < nsec (dev fs)" using s(3) by (simp add: file_sector_def)
  show "file_sector fs cs k \<notin> mirror fs \<union> fat_area fs" by (rule data_area [OF v(4,5)]) (simp add: file_sector_def)
  show "file_sector fs cs k \<in> file_sectors fs cs" using assms(3) by (simp add: file_sectors_def)
qed

end

end
