(* ===== verification/Fat_Read.thy ===== *)
theory Fat_Read
  imports Fat_File
begin

text \<open>
  Reading a file. On a valid volume, \<open>f_read\<close> of an open file returns the bytes of the file from the file pointer on, whether they
  come out of the cache of the file or straight from the disk, and the loop ends; it leaves the file and the rest of the volume
  as they were. The lemmas hold for every disk layer.
\<close>

lemma pred_div:
  fixes p b :: nat
  assumes "p mod b \<noteq> 0"
  shows "(p - 1) div b = p div b"
proof (cases "b = 0")
  case False
  have "p - 1 = b * (p div b) + (p mod b - 1)" using assms mult_div_mod_eq [of b p] by linarith
  moreover have "p mod b - 1 < b" using False mod_less_divisor [of b p] by linarith
  ultimately show ?thesis using False by simp
qed simp

text \<open>A file with the clusters \<open>cs\<close> has been read: its bytes, and the rest of the volume, are as before.\<close>

definition file_kept :: "u8 \<Rightarrow> ('d \<Rightarrow> bool) \<Rightarrow> ('d \<Rightarrow> nat \<Rightarrow> u8 list) \<Rightarrow> ('d \<Rightarrow> nat) \<Rightarrow> u32 list \<Rightarrow> FIL \<Rightarrow> 'd FATFS \<Rightarrow> FIL \<Rightarrow> 'd FATFS \<Rightarrow> bool" where
  "file_kept drive ready sec nsec cs fp fs fp' fs' \<longleftrightarrow>
     volume_ok drive ready sec nsec fs' \<and> cache_ok sec fp' fs' cs \<and> static fs' = static fs \<and> nsec (dev fs') = nsec (dev fs) \<and>
     win_moved fs fs' \<and> obj fp' = obj fp \<and> (\<forall>n \<in> file_sectors fs cs. cache_view sec fp' fs' n = cache_view sec fp fs n) \<and>
     (\<forall>n < nsec (dev fs). n \<notin> mirror fs \<union> file_sectors fs cs \<longrightarrow> vsec sec fs' n = vsec sec fs n) \<and>
     (\<forall>c. cluster fs c \<longrightarrow> fat sec fs' c = fat sec fs c)"

lemma static_sectors:
  assumes "static fs' = static fs"
  shows "file_sector fs' = file_sector fs" "file_sectors fs' = file_sectors fs" "cluster_bytes fs' = cluster_bytes fs" "n_fatent fs' = n_fatent fs"
    "cluster fs' = cluster fs" "mirror fs' = mirror fs" "fat_area fs' = fat_area fs" "clst2sect fs' = clst2sect fs" "csize fs' = csize fs"
    "pdrv fs' = pdrv fs" "fs_id fs' = fs_id fs" "fs_type fs' = fs_type fs"
  using assms by (simp_all add: static_def file_sector_def file_sectors_def cluster_bytes_def cluster_def mirror_def fat_area_def clst2sect_def
      Let_def fun_eq_iff)

lemma win_moved_trans: "win_moved fs fs' \<Longrightarrow> win_moved fs' fs'' \<Longrightarrow> fat_area fs' = fat_area fs \<Longrightarrow> win_moved fs fs''"
  by (auto simp: win_moved_def)

lemma win_moved_dev [simp]: "win_moved fs (fs\<lparr>dev := d\<rparr>)" "win_moved fs fs"
  by (simp_all add: win_moved_def)

lemma file_kept_trans:
  assumes "file_kept drive ready sec nsec cs fp fs fp' fs'" and "file_kept drive ready sec nsec cs fp' fs' fp'' fs''"
  shows "file_kept drive ready sec nsec cs fp fs fp'' fs''"
  using assms static_sectors [of fs' fs] win_moved_trans [of fs fs' fs''] unfolding file_kept_def by (simp only:) simp

lemma file_kept_bytes:
  assumes "file_kept drive ready sec nsec cs fp fs fp' fs'" and "i < length cs * cluster_bytes fs"
  shows "file_byte sec fp' fs' cs i = file_byte sec fp fs cs i"
proof -
  have st: "static fs' = static fs" using assms(1) by (simp add: file_kept_def)
  have "i div 512 < length cs * unat (csize fs)" using assms(2) by (intro less_mult_imp_div_less) (simp add: cluster_bytes_def algebra_simps)
  then have "file_sector fs cs (i div 512) \<in> file_sectors fs cs" by (simp add: file_sectors_def)
  then show ?thesis using assms(1) static_sectors(1) [OF st] by (simp add: file_kept_def file_byte_def)
qed

lemma cache_ok_pointer [simp]:
  "cache_ok sec (fp\<lparr>fil_clust := c\<rparr>) fs cs = cache_ok sec fp fs cs" "cache_ok sec (fp\<lparr>fptr := c\<rparr>) fs cs = cache_ok sec fp fs cs"
  "cache_ok sec (fp\<lparr>fil_err := e\<rparr>) fs cs = cache_ok sec fp fs cs"
  by (simp_all add: cache_ok_def)

lemma cache_view_pointer [simp]:
  "cache_view sec (fp\<lparr>fil_clust := c\<rparr>) fs = cache_view sec fp fs" "cache_view sec (fp\<lparr>fptr := c\<rparr>) fs = cache_view sec fp fs"
  "cache_view sec (fp\<lparr>fil_err := e\<rparr>) fs = cache_view sec fp fs"
  by (simp_all add: cache_view_def fun_eq_iff)

lemma clean_flag: "(w AND NOT FA_DIRTY) AND FA_DIRTY = 0" "w AND FA_DIRTY = 0 \<Longrightarrow> w AND NOT FA_DIRTY = w"
proof -
  show "(w AND NOT FA_DIRTY) AND FA_DIRTY = 0" by (simp add: and.assoc)
  assume "w AND FA_DIRTY = 0"
  then have "\<not> (bit w n \<and> bit FA_DIRTY n)" for n by (metis bit_and_iff bit_0_eq bot_apply bot_bool_def)
  then show "w AND NOT FA_DIRTY = w" by (intro bit_word_eqI) (auto simp: bit_simps)
qed

context disk_layer
begin

text \<open>The volume has only been looked at.\<close>

abbreviation sees :: "'d FATFS \<Rightarrow> 'd FATFS \<Rightarrow> bool" where "sees fs f \<equiv> ok f \<and> keeps fs f \<and> step fs f"

lemma sees_dev:
  assumes "ok fs" and "ready d" and "sec d = sec (dev fs)" and "nsec d = nsec (dev fs)"
  shows "sees fs (fs\<lparr>dev := d\<rparr>)"
  using assms by (auto simp: window_ok_def kept_def table_step_def win_moved_def volume_fields_def vsec_def mirror_def)

lemma sees_vol:
  assumes "vol fs" and "sees fs f"
  shows "vol f" "file_sector f = file_sector fs" "file_sectors f = file_sectors fs" "cluster_bytes f = cluster_bytes fs"
    "\<And>c. cluster fs c \<Longrightarrow> fat sec f c = fat sec fs c" "n_fatent f = n_fatent fs"
proof -
  note v = volD [OF assms(1)]
  note k = kept_fields [of sec nsec fs f]
  have kp: "keeps fs f" using assms(2) by simp
  show "vol f" using keeps_fat_ok(1) [OF v(1,2) kp] assms k [OF kp] by (simp add: volume_ok_def layout_def)
  show s: "file_sector f = file_sector fs" using k [OF kp] by (simp add: file_sector_def fun_eq_iff)
  show "file_sectors f = file_sectors fs" "cluster_bytes f = cluster_bytes fs" "n_fatent f = n_fatent fs"
    using s k [OF kp] by (simp_all add: file_sectors_def cluster_bytes_def fun_eq_iff)
  show "\<And>c. cluster fs c \<Longrightarrow> fat sec f c = fat sec fs c" using keeps_fat [OF v(1,3) kp] .
qed

lemma file_sectors_bounds:
  assumes "vol fs" and "cache_ok sec fp fs cs" and "n \<in> file_sectors fs cs"
  shows "n < nsec (dev fs)" "n \<notin> mirror fs \<union> fat_area fs" "0 < n"
proof -
  obtain k where k: "n = file_sector fs cs k" "k < length cs * unat (csize fs)" using assms(3) by (auto simp: file_sectors_def)
  then have "cs \<noteq> []" by auto
  then have "chain (n_fatent fs) (fat sec fs) cs" using assms(2) by (simp add: cache_ok_def)
  from file_sector_bounds [OF assms(1) this k(2)] show "n < nsec (dev fs)" "n \<notin> mirror fs \<union> fat_area fs" unfolding k(1) by simp_all
  show "0 < n" using volD(4) [OF assms(1)] by (auto simp: k(1) file_sector_def layout_def)
qed

lemma sees_cache:
  assumes "vol fs" and "sees fs f" and "cache_ok sec fp fs cs"
  shows "cache_ok sec fp f cs" "\<And>n. n \<in> file_sectors fs cs \<Longrightarrow> cache_view sec fp f n = cache_view sec fp fs n"
proof -
  note s = sees_vol [OF assms(1,2)]
  have v: "vsec sec f n = vsec sec fs n" if "n \<in> file_sectors fs cs" for n
    using kept_sec [of sec nsec fs f n] assms(2) file_sectors_bounds [OF assms(1,3) that] by blast
  then show "\<And>n. n \<in> file_sectors fs cs \<Longrightarrow> cache_view sec fp f n = cache_view sec fp fs n" by (simp add: cache_view_def)
  have c: "chain (n_fatent fs) (fat sec f) cs = chain (n_fatent fs) (fat sec fs) cs" if "chain (n_fatent fs) (fat sec fs) cs"
    using chain_cong [of cs "fat sec f" "fat sec fs"] s(5) chain_cluster [OF that] by (auto simp: cluster_def)
  have "unat (winsect f) \<notin> file_sectors fs cs"
    using assms(2,3) file_sectors_bounds(2) [OF assms(1,3)] by (auto simp: table_step_def win_moved_def cache_ok_def)
  then show "cache_ok sec fp f cs" using assms(3) c v unfolding cache_ok_def s(3,4,6) by (auto split: if_splits)
qed

text \<open>The cluster and the sector of the file pointer.\<close>

lemma pointer_div:
  "p div cluster_bytes fs = p div 512 div unat (csize fs)" "p mod cluster_bytes fs = 512 * (p div 512 mod unat (csize fs)) + p mod 512"
  by (simp_all add: cluster_bytes_def div_mult2_eq mod_mult2_eq)

lemma pointer_sector:
  assumes "vol fs" and "cache_ok sec fp fs cs" and "p < length cs * cluster_bytes fs"
  shows "p div 512 < length cs * unat (csize fs)" "p div cluster_bytes fs < length cs" "chain (n_fatent fs) (fat sec fs) cs"
proof -
  show "p div 512 < length cs * unat (csize fs)" using assms(3) by (intro less_mult_imp_div_less) (simp add: cluster_bytes_def algebra_simps)
  show "p div cluster_bytes fs < length cs" using assms(3) by (rule less_mult_imp_div_less)
  show "chain (n_fatent fs) (fat sec fs) cs" using assms(2,3) by (cases "cs = []") (simp_all add: cache_ok_def)
qed

lemma read_cluster_ok:
  assumes "vol fs" and "file_ok sec fp fs cs" and "unat (fptr fp) < length cs * cluster_bytes fs" and "unat (fptr fp) mod cluster_bytes fs = 0"
  shows "\<exists>f. read_cluster io fp fs = Some (None, fp\<lparr>fil_clust := cs ! (unat (fptr fp) div cluster_bytes fs)\<rparr>, f) \<and> sees fs f"
proof -
  let ?b = "cluster_bytes fs" and ?p = "unat (fptr fp)"
  note v = volD [OF assms(1)]
  have co: "cache_ok sec fp fs cs" and po: "pointer_ok fp fs cs" using assms(2) by (simp_all add: file_ok_def)
  note ps = pointer_sector [OF assms(1) co assms(3)]
  have c: "cluster fs (cs ! (?p div ?b))" "cs ! (?p div ?b) \<noteq> 0xFFFFFFFF"
    using chain_cluster [OF ps(3), of "cs ! (?p div ?b)"] ps(2) table_bound [OF v(3)]
    by (auto simp: cluster_def word_less_nat_alt)
  have n: "\<not> cs ! (?p div ?b) < 2" using c(1) by (simp add: cluster_def not_less)
  show ?thesis
  proof (cases "fptr fp = 0")
    case True
    have "cs \<noteq> []" using ps(2) by auto
    then have "sclust (obj fp) = cs ! 0" using co by (simp add: cache_ok_def hd_conv_nth)
    then show ?thesis using True c n v(1) by (simp add: read_cluster_def kept_refl step_refl)
  next
    case False
    have p0: "0 < ?p" using False by (simp add: unat_gt_0)
    obtain m where m: "?p = ?b * m" using assms(4) by (auto simp: mod_eq_0_iff_dvd)
    have b0: "0 < ?b" using v(7) by (simp add: cluster_bytes_def)
    have m0: "m \<noteq> 0" using m p0 by auto
    have pd: "?p div ?b = m" using m b0 by simp
    have "(?p - 1) div ?b = m - 1" using m m0 b0 by (intro div_nat_eqI) (cases m; simp)+
    then have cl: "fil_clust fp = cs ! (m - 1)" using po p0 by (simp add: pointer_ok_def)
    have m1: "m - 1 < length cs" "Suc (m - 1) < length cs" "Suc (m - 1) = m" using ps(2) pd m0 by simp_all
    have "cluster fs (cs ! (m - 1))" using chain_cluster [OF ps(3)] m1(1) by (simp add: cluster_def)
    then obtain f where f: "get_fat io (cs ! (m - 1)) fs = Some (fat sec fs (cs ! (m - 1)), f)" "ok f" "keeps fs f" "step fs f"
      using get_fat_ok [OF v(1,3)] by blast
    have "fat sec fs (cs ! (m - 1)) = cs ! m" using chain_nth [OF ps(3) m1(2)] m1(3) by simp
    then show ?thesis using f cl False c n pd by (simp add: read_cluster_def)
  qed
qed

text \<open>At the start of a sector: the cluster is found, and with it the sector.\<close>

lemma read_position_ok:
  assumes "vol fs" and "file_ok sec fp fs cs" and "unat (fptr fp) < length cs * cluster_bytes fs" and "unat (fptr fp) mod 512 = 0"
  defines "fp1 \<equiv> fp\<lparr>fil_clust := cs ! (unat (fptr fp) div cluster_bytes fs)\<rparr>"
  shows "\<exists>f. (if sector_offset_in_cluster fp fs = 0 then read_cluster io fp fs else Some (None, fp, fs)) = Some (None, fp1, f) \<and> sees fs f"
    and "unat (sector_offset_in_cluster fp fs) = unat (fptr fp) div 512 mod unat (csize fs)"
    and "sees fs f \<Longrightarrow> unat (clst2sect f (fil_clust fp1) + sector_offset_in_cluster fp fs) = file_sector fs cs (unat (fptr fp) div 512)"
    and "sees fs f \<Longrightarrow> clst2sect f (fil_clust fp1) \<noteq> 0"
proof -
  let ?b = "cluster_bytes fs" and ?p = "unat (fptr fp)" and ?c = "unat (csize fs)"
  note v = volD [OF assms(1)]
  have co: "cache_ok sec fp fs cs" and po: "pointer_ok fp fs cs" using assms(2) by (simp_all add: file_ok_def)
  note ps = pointer_sector [OF assms(1) co assms(3)]
  have "unat (fptr fp div SS) = ?p div 512" by (simp add: SS_def unat_div_distrib)
  then show o: "unat (sector_offset_in_cluster fp fs) = ?p div 512 mod ?c"
    using csize_mask(1) [OF v(6)] by (simp add: sector_offset_in_cluster_def)
  show "\<exists>f. (if sector_offset_in_cluster fp fs = 0 then read_cluster io fp fs else Some (None, fp, fs)) = Some (None, fp1, f) \<and> sees fs f"
  proof (cases "sector_offset_in_cluster fp fs = 0")
    case True
    then have "?p mod ?b = 0" using o assms(4) by (simp add: pointer_div)
    from read_cluster_ok [OF assms(1-3) this] True show ?thesis by (simp add: fp1_def)
  next
    case False
    then have "?p div 512 mod ?c \<noteq> 0" using o by (metis unat_eq_zero)
    then have nz: "?p mod ?b \<noteq> 0" by (simp add: pointer_div)
    then have "0 < ?p" by (cases "?p = 0") auto
    then have "fil_clust fp = cs ! (?p div ?b)" using po pred_div [OF nz] by (simp add: pointer_ok_def)
    then have "fp1 = fp" by (simp add: fp1_def)
    then show ?thesis using False v(1) by (simp add: kept_refl step_refl)
  qed
  note fb = file_sector_bounds [OF assms(1) ps(3,1)]
  have of: "of_nat (?p div 512 mod ?c) = sector_offset_in_cluster fp fs" using o by (metis of_nat_unat ucast_id)
  have cl: "fil_clust fp1 = cs ! (?p div 512 div ?c)" by (simp add: fp1_def pointer_div)
  assume s: "sees fs f"
  have e: "clst2sect f = clst2sect fs" using kept_fields [of sec nsec fs f] s by (simp add: clst2sect_def Let_def fun_eq_iff)
  show "clst2sect f (fil_clust fp1) \<noteq> 0" using fb(5) cl e by simp
  show "unat (clst2sect f (fil_clust fp1) + sector_offset_in_cluster fp fs) = file_sector fs cs (?p div 512)" using fb(4) cl e of by simp
qed


lemma data_dev:
  assumes "vol fs" and "ready d" and "nsec d = nsec (dev fs)"
    and same: "\<And>k. k < nsec d \<Longrightarrow> k \<in> mirror fs \<union> fat_area fs \<or> k = unat (winsect fs) \<Longrightarrow> sec d k = sec (dev fs) k"
  shows "vol (fs\<lparr>dev := d\<rparr>)" "\<And>c. cluster fs c \<Longrightarrow> fat sec (fs\<lparr>dev := d\<rparr>) c = fat sec fs c"
proof -
  note v = volD [OF assms(1)]
  let ?f = "fs\<lparr>dev := d\<rparr>"
  have "fat_bytes_of sec ?f i = fat_bytes_of sec fs i" if "i < 512 * unat (fsize fs)" for i
  proof -
    have "unat (fatbase fs) + i div 512 \<in> fat_area fs" using that by (simp add: fat_area_def less_mult_imp_div_less mult.commute)
    moreover have "unat (fatbase fs) + i div 512 < nsec d"
      using that fat_limit [OF v(1)] assms(3) by (simp add: less_mult_imp_div_less mult.commute order.strict_trans2)
    ultimately show ?thesis using same by (simp add: fat_bytes_of_def byte_at_def vsec_def)
  qed
  then show ft: "\<And>c. cluster fs c \<Longrightarrow> fat sec ?f c = fat sec fs c"
    using fat_cong [OF v(3), of _ ?f "fat_bytes_of sec fs"] by (simp add: fat_def)
  then have "free_set sec ?f = free_set sec fs" by (auto simp: free_set_def cluster_def)
  then have "fat_ok sec ?f" using v(2) ft by (simp add: fat_ok_def count_ok_def cluster_def table_ok_def)
  moreover have "ok ?f" using v(1) assms(2,3) same [of "unat (winsect fs)"] by (auto simp: window_ok_def mirror_def split: if_splits)
  ultimately show "vol ?f" using assms(1,3) by (simp add: volume_ok_def layout_def)
qed

abbreviation fkept :: "u32 list \<Rightarrow> FIL \<Rightarrow> 'd FATFS \<Rightarrow> FIL \<Rightarrow> 'd FATFS \<Rightarrow> bool" where "fkept \<equiv> file_kept drive ready sec nsec"

lemma sees_fkept:
  assumes "vol fs" and "cache_ok sec fp fs cs" and "sees fs f"
  shows "fkept cs fp fs (fp\<lparr>fil_clust := c\<rparr>) f"
  using assms(3) sees_vol [OF assms(1,3)] sees_cache [OF assms(1,3,2)]
  by (simp add: file_kept_def static_def kept_def volume_fields_def table_step_def)

text \<open>The cache of a file is written back, and filled with another sector.\<close>

lemma flush_ok:
  assumes "vol fs" and "cache_ok sec fp fs cs"
  defines "fp1 \<equiv> fp\<lparr>fil_flag := fil_flag fp AND NOT FA_DIRTY\<rparr>"
  shows "\<exists>f. flush_cache io fp fs = Some (None, fp1, f) \<and> fkept cs fp fs fp1 f"
proof (cases "dirty fp")
  case False
  then have "fp1 = fp" by (simp add: fp1_def clean_flag)
  then show ?thesis using False assms by (simp add: flush_cache_def file_kept_def)
next
  case True
  note v = volD [OF assms(1)]
  have n: "unat (fil_sect fp) \<in> file_sectors fs cs" "length (fil_buf fp) = 512" "unat (winsect fs) \<notin> file_sectors fs cs"
    using assms(2) True by (auto simp: cache_ok_def split: if_splits)
  note b = file_sectors_bounds [OF assms(1,2) n(1)]
  obtain d where d: "dio_write io drive (fil_buf fp) (fil_sect fp) (Suc 0) (dev fs) = Some (RES_OK, d)" "ready d"
    "sec d = (sec (dev fs))(unat (fil_sect fp) := fil_buf fp)" "nsec d = nsec (dev fs)"
    using write_one [OF _ b(1) n(2)] v(1) by (auto simp: window_ok_def)
  let ?f = "fs\<lparr>dev := d\<rparr>"
  have ne: "unat (fil_sect fp) \<noteq> unat (winsect fs)" using n by metis
  have "\<And>k. k < nsec d \<Longrightarrow> k \<in> mirror fs \<union> fat_area fs \<or> k = unat (winsect fs) \<Longrightarrow> sec d k = sec (dev fs) k"
    using d(3) b(2) ne by auto
  note dd = data_dev [OF assms(1) d(2,4) this]
  have vw: "view ?f = (view fs)(unat (fil_sect fp) := fil_buf fp)" using d(3) ne by (auto simp: vsec_def fun_eq_iff)
  have st: "static ?f = static fs" by (simp add: static_def)
  have nd: "\<not> dirty fp1" by (simp add: fp1_def clean_flag)
  have ch: "chain (n_fatent fs) (fat sec fs) cs \<Longrightarrow> chain (n_fatent fs) (fat sec ?f) cs"
    using chain_cong [of cs "fat sec ?f" "fat sec fs"] dd(2) chain_cluster [of "n_fatent fs" "fat sec fs" cs] by (auto simp: cluster_def)
  have "cache_ok sec fp1 ?f cs"
    using assms(2) nd True ch vw unfolding cache_ok_def static_sectors [OF st] by (simp add: fp1_def split: if_splits)
  moreover have "cache_view sec fp1 ?f = cache_view sec fp fs"
    using nd True vw by (simp add: cache_view_def fun_eq_iff)
  ultimately have "fkept cs fp fs fp1 ?f" using dd st d(4) vw n(1) by (auto simp: file_kept_def fp1_def)
  then show ?thesis using True d(1) v(1) by (auto simp: flush_cache_def fp1_def window_ok_def)
qed

lemma load_ok:
  assumes "vol fs" and "cache_ok sec fp fs cs" and "\<not> dirty fp" and "unat n \<in> file_sectors fs cs"
  defines "fp1 \<equiv> fp\<lparr>fil_buf := view fs (unat n)\<rparr>"
  shows "\<exists>f. load_cache io n fp fs = Some (None, fp1, f) \<and> fkept cs fp fs (fp1\<lparr>fil_sect := n\<rparr>) f"
proof -
  note v = volD [OF assms(1)]
  note b = file_sectors_bounds [OF assms(1,2,4)]
  have n: "length (fil_buf fp) = 512" "unat n \<noteq> unat (winsect fs)"
    using assms(2,4) by (auto simp: cache_ok_def)
  obtain d where d: "dio_read io drive (fil_buf fp) n (Suc 0) (dev fs) = Some (RES_OK, sec (dev fs) (unat n), d)" "ready d"
    "sec d = sec (dev fs)" "nsec d = nsec (dev fs)"
    using read_one [OF _ b(1) n(1)] v(1) by (auto simp: window_ok_def)
  let ?f = "fs\<lparr>dev := d\<rparr>"
  have s: "sees fs ?f" by (rule sees_dev [OF v(1) d(2-4)])
  have vw: "view ?f = view fs" using d(3) by (simp add: vsec_def fun_eq_iff)
  have "fkept cs fp fs (fp\<lparr>fil_clust := fil_clust fp\<rparr>) ?f" by (rule sees_fkept [OF assms(1,2) s])
  then have k: "fkept cs fp fs fp ?f" by simp
  have l: "length (view fs (unat n)) = 512" "n \<noteq> 0" using length_view [OF v(1)] b(3) by (auto simp: unat_gt_0)
  have "fkept cs fp fs (fp1\<lparr>fil_sect := n\<rparr>) ?f"
    using k l assms(3,4) vw static_sectors [of ?f fs] by (simp add: file_kept_def cache_ok_def cache_view_def fp1_def split: if_splits)
  moreover have "sec (dev fs) (unat n) = view fs (unat n)" using n(2) by (simp add: vsec_def)
  ultimately show ?thesis using d(1) v(1) by (auto simp: load_cache_def fp1_def window_ok_def)
qed

lemma pointer_advance:
  assumes "0 < n" and "unat (fptr fp) mod cluster_bytes fs + n \<le> cluster_bytes fs" and "unat (fptr fp) + n \<le> unat (objsize (obj fp))"
    and "fil_clust fp = cs ! (unat (fptr fp) div cluster_bytes fs)"
    and "(unat (fptr fp) + n) mod 512 \<noteq> 0 \<Longrightarrow> unat (fil_sect fp) = file_sector fs cs ((unat (fptr fp) + n) div 512)"
  shows "pointer_ok (fp\<lparr>fptr := fptr fp + of_nat n\<rparr>) fs cs" "unat (fptr fp + of_nat n) = unat (fptr fp) + n"
proof -
  let ?p = "unat (fptr fp)" and ?b = "cluster_bytes fs"
  have "unat (objsize (obj fp)) < 2 ^ 32" using unsigned_less [of "objsize (obj fp)"] by simp
  then show u: "unat (fptr fp + of_nat n) = ?p + n" using assms(3) by (simp add: unat_word_ariths unat_of_nat)
  have "(?p + (n - 1)) div ?b = ?p div ?b" using assms(1,2) by (intro mod_offset) linarith
  then have "(?p + n - 1) div ?b = ?p div ?b" using assms(1) by simp
  then show "pointer_ok (fp\<lparr>fptr := fptr fp + of_nat n\<rparr>) fs cs"
    using assms(3-5) u by (simp add: pointer_ok_def word_le_nat_alt)
qed

lemma length_cache_view: "ok fs \<Longrightarrow> length (fil_buf fp) = 512 \<Longrightarrow> length (cache_view sec fp fs n) = 512"
  by (simp add: cache_view_def length_view)

text \<open>A copy out of the cache.\<close>

lemma copy_ok:
  fixes btr :: u32
  assumes "vol fs" and "cache_ok sec fp fs cs" and "unat (fptr fp) < length cs * cluster_bytes fs"
    and "unat (fil_sect fp) = file_sector fs cs (unat (fptr fp) div 512)"
  defines "n \<equiv> min (512 - unat (fptr fp) mod 512) (unat btr)"
  shows "copy_from_cache btr fp = map (file_byte sec fp fs cs) [unat (fptr fp)..<unat (fptr fp) + n]"
proof -
  let ?p = "unat (fptr fp)"
  define g where "g k = cache_view sec fp fs (file_sector fs cs k)" for k
  note v = volD [OF assms(1)]
  have lb: "length (fil_buf fp) = 512" using assms(2) by (simp add: cache_ok_def)
  have m: "unat (fptr fp mod SS) = ?p mod 512" "unat (SS - fptr fp mod SS) = 512 - ?p mod 512"
    by (simp_all add: SS_def unat_mod_distrib unat_sub word_le_nat_alt less_imp_le)
  have "unat (if SS - fptr fp mod SS > btr then btr else SS - fptr fp mod SS) = n" using m(2) by (simp add: n_def word_less_nat_alt)
  then have c: "copy_from_cache btr fp = take n (drop (?p mod 512) (fil_buf fp))" by (simp add: copy_from_cache_def Let_def m(1))
  have "file_sector fs cs (?p div 512) \<in> file_sectors fs cs"
    using pointer_sector(1) [OF assms(1-3)] by (simp add: file_sectors_def)
  then have "fil_sect fp \<noteq> 0" using file_sectors_bounds(3) [OF assms(1,2)] assms(4) by (metis unat_0 less_irrefl)
  then have "g (?p div 512) = fil_buf fp" using assms(2,4) by (simp add: g_def cache_view_def cache_ok_def)
  moreover have "file_byte sec fp fs cs = (\<lambda>i. g (i div 512) ! (i mod 512))" by (simp add: file_byte_def g_def fun_eq_iff)
  ultimately show ?thesis using part_of_sector [of g ?p n] c lb by (simp add: n_def)
qed

text \<open>Whole sectors from the disk, and the cache over them if it is dirty.\<close>

lemma direct_ok:
  assumes "vol fs" and "cache_ok sec fp fs cs" and "k mod unat (csize fs) + unat cc \<le> unat (csize fs)" and "0 < unat cc"
    and "k < length cs * unat (csize fs)" and "unat n = file_sector fs cs k" and "length b = 512 * unat cc"
  shows "\<exists>d. dio_read io drive b n (unat cc) (dev fs) = Some (RES_OK, sector_bytes (sec (dev fs)) (unat n) (unat cc), d) \<and> sees fs (fs\<lparr>dev := d\<rparr>)"
    and "(if dirty fp \<and> fil_sect fp - n < cc then splice_bytes (512 * unat (fil_sect fp - n)) (fil_buf fp) (sector_bytes (sec (dev fs)) (unat n) (unat cc))
          else sector_bytes (sec (dev fs)) (unat n) (unat cc)) = map (file_byte sec fp fs cs) [512 * k..<512 * k + 512 * unat cc]"
proof -
  let ?c = "unat (csize fs)" and ?g = "cache_view sec fp fs" and ?s = "sec (dev fs)"
  note v = volD [OF assms(1)]
  have ch: "chain (n_fatent fs) (fat sec fs) cs" using assms(2,5) by (cases "cs = []") (simp_all add: cache_ok_def)
  have kj: "k + j < length cs * ?c" if "j < unat cc" for j
  proof -
    have "k mod ?c + j < ?c" using that assms(3) by linarith
    then have "(k + j) div ?c = k div ?c" by (rule mod_offset(1))
    also have "\<dots> < length cs" using assms(5) by (simp add: less_mult_imp_div_less)
    finally show ?thesis using v(7) by (simp add: div_less_iff_less_mult)
  qed
  have sj: "file_sector fs cs (k + j) = unat n + j" if "j < unat cc" for j
    using file_sector_in_cluster [of k fs j cs] assms(3,6) that by simp
  have b: "unat n + j < nsec (dev fs)" "unat n + j \<noteq> unat (winsect fs)" if "j < unat cc" for j
  proof -
    note fb = file_sector_bounds [OF assms(1) ch kj [OF that]]
    show "unat n + j < nsec (dev fs)" using fb(1) sj [OF that] by simp
    show "unat n + j \<noteq> unat (winsect fs)" using fb(3) sj [OF that] assms(2) by (auto simp: cache_ok_def)
  qed
  have lim: "unat n + unat cc \<le> nsec (dev fs)" using b(1) [of "unat cc - 1"] assms(4) by simp
  have cc: "unat cc < 2 ^ 22" using assms(3) v(8) by simp
  obtain d where d: "dio_read io drive b n (unat cc) (dev fs) = Some (RES_OK, sector_bytes ?s (unat n) (unat cc), d)" "ready d" "sec d = ?s" "nsec d = nsec (dev fs)"
    using read_law [OF _ assms(4) cc lim assms(7)] v(1) by (auto simp: window_ok_def)
  then show "\<exists>d. dio_read io drive b n (unat cc) (dev fs) = Some (RES_OK, sector_bytes ?s (unat n) (unat cc), d) \<and> sees fs (fs\<lparr>dev := d\<rparr>)"
    using sees_dev [OF v(1)] by blast
  have lb: "length (fil_buf fp) = 512" using assms(2) by (simp add: cache_ok_def)
  have "map (file_byte sec fp fs cs) [512 * k..<512 * k + 512 * unat cc] = concat (map (\<lambda>k. ?g (file_sector fs cs k)) [k..<k + unat cc])"
    using concat_sectors [of "\<lambda>k. ?g (file_sector fs cs k)" k "unat cc"] length_cache_view [OF v(1) lb] by (simp add: file_byte_def [abs_def])
  also have "map (\<lambda>k. ?g (file_sector fs cs k)) [k..<k + unat cc] = map ?g [unat n..<unat n + unat cc]"
    by (rule nth_equalityI) (simp_all add: sj)
  finally have t: "map (file_byte sec fp fs cs) [512 * k..<512 * k + 512 * unat cc] = concat (map ?g [unat n..<unat n + unat cc])" .
  have r: "fil_sect fp - n < cc \<longleftrightarrow> unat n \<le> unat (fil_sect fp) \<and> unat (fil_sect fp) < unat n + unat cc"
    using word_in_range [of n cc] lim nsec_less [of "dev fs"] by simp
  have vw: "?s m = view fs m" if "m \<in> set [unat n..<unat n + unat cc]" for m
    using clean_sector [OF v(1), of m] b [of "m - unat n"] that by auto
  show "(if dirty fp \<and> fil_sect fp - n < cc then splice_bytes (512 * unat (fil_sect fp - n)) (fil_buf fp) (sector_bytes ?s (unat n) (unat cc))
          else sector_bytes ?s (unat n) (unat cc)) = map (file_byte sec fp fs cs) [512 * k..<512 * k + 512 * unat cc]"
  proof (cases "dirty fp \<and> fil_sect fp - n < cc")
    case True
    then have "unat (fil_sect fp - n) = unat (fil_sect fp) - unat n" using r by (simp add: unat_sub word_le_nat_alt)
    then have "splice_bytes (512 * unat (fil_sect fp - n)) (fil_buf fp) (sector_bytes ?s (unat n) (unat cc))
      = concat (map (?s(unat (fil_sect fp) := fil_buf fp)) [unat n..<unat n + unat cc])"
      using put_sector_concat [of ?s "fil_buf fp" "unat n" "unat (fil_sect fp)" "unat cc"] sec_length lb True r by (simp add: sector_bytes_def)
    also have "map (?s(unat (fil_sect fp) := fil_buf fp)) [unat n..<unat n + unat cc] = map ?g [unat n..<unat n + unat cc]"
      by (rule map_cong [OF refl]) (use True vw in \<open>auto simp: cache_view_def\<close>)
    finally show ?thesis using True t by simp
  next
    case False
    have "map ?s [unat n..<unat n + unat cc] = map ?g [unat n..<unat n + unat cc]"
      by (rule map_cong [OF refl]) (use False r vw in \<open>auto simp: cache_view_def\<close>)
    then have "sector_bytes ?s (unat n) (unat cc) = map (file_byte sec fp fs cs) [512 * k..<512 * k + 512 * unat cc]"
      by (simp only: sector_bytes_def t)
    then show ?thesis by (simp only: if_not_P [OF False])
  qed
qed

text \<open>One round of the loop delivers at least one byte.\<close>

abbreviation chunk_ok :: "u32 list \<Rightarrow> FIL \<Rightarrow> 'd FATFS \<Rightarrow> u32 \<Rightarrow> u8 list \<Rightarrow> FIL \<Rightarrow> 'd FATFS \<Rightarrow> bool" where
  "chunk_ok cs fp fs btr bs fp1 f \<equiv> 0 < length bs \<and> length bs \<le> unat btr \<and> bs = map (file_byte sec fp fs cs) [unat (fptr fp)..<unat (fptr fp) + length bs] \<and>
     fkept cs fp fs fp1 f \<and> pointer_ok (fp1\<lparr>fptr := fptr fp1 + of_nat (length bs)\<rparr>) f cs \<and> unat (fptr fp1 + of_nat (length bs)) = unat (fptr fp) + length bs"

lemma copy_chunk:
  assumes "vol fs" and "cache_ok sec fp fs cs" and "unat (fptr fp) + unat btr \<le> unat (objsize (obj fp))" and "btr \<noteq> 0"
    and k: "fkept cs fp fs fp1 f" and "fptr fp1 = fptr fp" and "fil_clust fp1 = cs ! (unat (fptr fp) div cluster_bytes fs)"
    and s: "unat (fil_sect fp1) = file_sector fs cs (unat (fptr fp) div 512)"
  shows "chunk_ok cs fp fs btr (copy_from_cache btr fp1) fp1 f"
proof -
  let ?p = "unat (fptr fp)" and ?b = "cluster_bytes fs"
  define n where "n = min (512 - ?p mod 512) (unat btr)"
  have v: "vol f" "cache_ok sec fp1 f cs" "static f = static fs" "obj fp1 = obj fp" using k by (simp_all add: file_kept_def)
  note st = static_sectors [OF v(3)]
  have bt: "0 < unat btr" using assms(4) by (simp add: unat_gt_0)
  have top: "?p < length cs * ?b" "unat (objsize (obj fp)) \<le> length cs * ?b" using assms(2,3) bt by (simp_all add: cache_ok_def)
  have n: "0 < n" "?p mod 512 + n \<le> 512" "n \<le> unat btr" using bt by (auto simp: n_def)
  have "copy_from_cache btr fp1 = map (file_byte sec fp1 f cs) [?p..<?p + n]"
    using copy_ok [OF v(1,2), of btr] top s assms(6) st by (simp add: n_def)
  also have "\<dots> = map (file_byte sec fp fs cs) [?p..<?p + n]"
    using file_kept_bytes [OF k] top(2) assms(3) n(3) by (intro map_cong [OF refl]) simp
  finally have bs: "copy_from_cache btr fp1 = map (file_byte sec fp fs cs) [?p..<?p + n]" .
  have "?p div 512 mod unat (csize fs) < unat (csize fs)" using volD(7) [OF assms(1)] by simp
  then have "512 * (?p div 512 mod unat (csize fs)) + 512 \<le> ?b" unfolding cluster_bytes_def by linarith
  then have in_c: "?p mod ?b + n \<le> ?b" using n(2) by (simp add: pointer_div)
  have dv: "(?p + n) div 512 = ?p div 512" if "(?p + n) mod 512 \<noteq> 0"
  proof -
    have "?p mod 512 + n \<noteq> 512" using that by (metis mod_add_left_eq mod_self)
    then show ?thesis using n(2) by (intro sector_offset) simp
  qed
  have "pointer_ok (fp1\<lparr>fptr := fptr fp1 + of_nat n\<rparr>) f cs" "unat (fptr fp1 + of_nat n) = unat (fptr fp1) + n"
    by (rule pointer_advance; use n in_c assms(3,6,7) v(4) s st dv in simp)+
  then show ?thesis using bs n k assms(6) by simp
qed

lemma whole_sectors_ok:
  assumes "csize f \<in> {1, 2, 4, 8, 16, 32, 64, 128}" and "unat q < unat (csize f)"
  shows "unat (whole_sectors btr q f) = min (unat btr div 512) (unat (csize f) - unat q)"
proof -
  note c = csize_mask [OF assms(1)]
  have bd: "unat (btr div SS) = unat btr div 512" by (simp add: SS_def unat_div_distrib)
  have "unat btr < 2 ^ 32" using unsigned_less [of btr] by simp
  then have "unat q + unat btr div 512 < 2 ^ 32" using assms(2) c(4) by simp
  then have ad: "unat (q + btr div SS) = unat q + unat btr div 512" using unat_add_small [of q "btr div SS"] bd by (simp only:)
  have sb: "unat (ucast (csize f) - q :: u32) = unat (csize f) - unat q" using c(2) assms(2) by (simp add: unat_sub word_le_nat_alt)
  show ?thesis using ad sb c(2) bd by (auto simp: whole_sectors_def Let_def word_less_nat_alt)
qed

lemma direct_chunk:
  assumes "vol fs" and "cache_ok sec fp fs cs" and "unat (fptr fp) + unat btr \<le> unat (objsize (obj fp))" and "unat btr \<le> length rbuff"
    and k: "fkept cs fp fs fp1 f" and fp1: "fptr fp1 = fptr fp" "fil_clust fp1 = cs ! (unat (fptr fp) div cluster_bytes fs)"
    and m: "unat (fptr fp) mod 512 = 0" and n: "unat n = file_sector fs cs (unat (fptr fp) div 512)"
    and o: "unat q = unat (fptr fp) div 512 mod unat (csize fs)" and "btr div SS > 0"
  defines "cc \<equiv> whole_sectors btr q f"
  shows "\<exists>b d bs. dio_read io drive (take (512 * unat cc) rbuff) n (unat cc) (dev f) = Some (RES_OK, b, d) \<and>
     (if dirty fp1 \<and> fil_sect fp1 - n < cc then splice_bytes (512 * unat (fil_sect fp1 - n)) (fil_buf fp1) b else b) = bs \<and>
     chunk_ok cs fp fs btr bs fp1 (f\<lparr>dev := d\<rparr>)"
proof -
  let ?p = "unat (fptr fp)" and ?b = "cluster_bytes fs" and ?c = "unat (csize fs)"
  have vf: "vol f" "cache_ok sec fp1 f cs" "static f = static fs" "obj fp1 = obj fp" using k by (simp_all add: file_kept_def)
  note st = static_sectors [OF vf(3)] and v = volD [OF vf(1)]
  have bd: "0 < unat btr div 512" using assms(11) by (simp add: SS_def unat_div_distrib word_less_nat_alt)
  then have top: "?p < length cs * ?b" "unat (objsize (obj fp)) \<le> length cs * ?b"
    using assms(2,3) by (cases "unat btr"; simp add: cache_ok_def)+
  have oc: "unat q < unat (csize f)" using o v(7) st(9) by simp
  have "unat cc = min (unat btr div 512) (?c - unat q)" using whole_sectors_ok [OF v(6) oc] st(9) by (simp add: cc_def)
  then have c0: "0 < unat cc" "unat q + unat cc \<le> ?c" "512 * unat cc \<le> unat btr" using bd oc st(9) by (auto simp: min_def)
  have inc: "?p div 512 mod unat (csize f) + unat cc \<le> unat (csize f)" using c0(2) o st(9) by simp
  have kf: "?p div 512 < length cs * unat (csize f)" "unat n = file_sector f cs (?p div 512)"
    using pointer_sector(1) [OF assms(1,2) top(1)] n st by simp_all
  have lb: "length (take (512 * unat cc) rbuff) = 512 * unat cc" using c0(3) assms(4) by simp
  note dr = direct_ok [OF vf(1,2) inc c0(1) kf lb]
  obtain d where d: "dio_read io drive (take (512 * unat cc) rbuff) n (unat cc) (dev f) =
      Some (RES_OK, sector_bytes (sec (dev f)) (unat n) (unat cc), d)" "sees f (f\<lparr>dev := d\<rparr>)" using dr(1) by blast
  define bs where "bs = map (file_byte sec fp1 f cs) [512 * (?p div 512)..<512 * (?p div 512) + 512 * unat cc]"
  have p5: "512 * (?p div 512) = ?p" using m by (intro dvd_mult_div_cancel) (simp add: dvd_eq_mod_eq_0)
  have l: "length bs = 512 * unat cc" by (simp add: bs_def)
  have bs: "bs = map (file_byte sec fp fs cs) [?p..<?p + length bs]" unfolding l
    unfolding bs_def p5 using file_kept_bytes [OF k] top(2) assms(3) c0(3) by (intro map_cong [OF refl]) simp
  have "fkept cs fp1 f (fp1\<lparr>fil_clust := fil_clust fp1\<rparr>) (f\<lparr>dev := d\<rparr>)" by (rule sees_fkept [OF vf(1,2) d(2)])
  then have k2: "fkept cs fp fs fp1 (f\<lparr>dev := d\<rparr>)" using file_kept_trans [OF k] by simp
  then have st2: "static (f\<lparr>dev := d\<rparr>) = static fs" by (simp add: file_kept_def)
  have "512 * unat q + 512 * unat cc \<le> ?b" using c0(2) unfolding cluster_bytes_def by linarith
  then have in_c: "?p mod ?b + 512 * unat cc \<le> ?b" using o m by (simp add: pointer_div)
  have md: "(?p + 512 * unat cc) mod 512 = 0" using m by (metis mod_mult_self2)
  have "pointer_ok (fp1\<lparr>fptr := fptr fp1 + of_nat (length bs)\<rparr>) (f\<lparr>dev := d\<rparr>) cs"
    "unat (fptr fp1 + of_nat (length bs)) = unat (fptr fp1) + length bs"
    unfolding l by (rule pointer_advance; use c0 in_c assms(3) static_sectors [OF st2] md fp1 vf(4) in simp)+
  then have "chunk_ok cs fp fs btr bs fp1 (f\<lparr>dev := d\<rparr>)" using k2 bs l c0 fp1 by simp
  then show ?thesis using d(1) dr(2) unfolding bs_def by blast
qed

text \<open>The cache gets the sector of the file pointer.\<close>

lemma reload_ok:
  assumes "vol fs" and "cache_ok sec fp fs cs" and "unat n \<in> file_sectors fs cs"
  defines "fp2 \<equiv> fp\<lparr>fil_flag := fil_flag fp AND NOT FA_DIRTY\<rparr>"
  shows "\<exists>f2 b f3. flush_cache io fp fs = Some (None, fp2, f2) \<and> load_cache io n fp2 f2 = Some (None, fp2\<lparr>fil_buf := b\<rparr>, f3) \<and>
     fkept cs fp fs (fp2\<lparr>fil_buf := b, fil_sect := n\<rparr>) f3"
proof -
  obtain f2 where f2: "flush_cache io fp fs = Some (None, fp2, f2)" "fkept cs fp fs fp2 f2" using flush_ok [OF assms(1,2)] by (auto simp: fp2_def)
  then have v2: "vol f2" "cache_ok sec fp2 f2 cs" "\<not> dirty fp2" "static f2 = static fs" by (simp_all add: file_kept_def fp2_def clean_flag)
  have nf: "unat n \<in> file_sectors f2 cs" using assms(3) static_sectors [OF v2(4)] by simp
  show ?thesis using f2 load_ok [OF v2(1-3) nf] file_kept_trans [OF f2(2)] by blast
qed

lemma read_chunk_ok:
  assumes "vol fs" and "file_ok sec fp fs cs" and "unat (fptr fp) + unat btr \<le> unat (objsize (obj fp))" and "btr \<noteq> 0"
    and "unat btr \<le> length rbuff"
  shows "\<exists>bs fp1 f. read_chunk io rbuff btr fp fs = Some (Inr bs, fp1, f) \<and> chunk_ok cs fp fs btr bs fp1 f"
proof -
  have co: "cache_ok sec fp fs cs" and po: "pointer_ok fp fs cs" using assms(2) by (simp_all add: file_ok_def)
  let ?p = "unat (fptr fp)" and ?o = "sector_offset_in_cluster fp fs"
  have pm: "?p mod 512 = unat (fptr fp mod SS)" by (simp add: SS_def unat_mod_distrib)
  show ?thesis
  proof (cases "fptr fp mod SS = 0")
    case False
    then have m: "?p mod 512 \<noteq> 0" using pm by (simp add: unat_eq_zero)
    then have "?p mod cluster_bytes fs \<noteq> 0" "0 < ?p" by (auto simp: pointer_div intro: gr0I)
    then have "fil_clust fp = cs ! (?p div cluster_bytes fs)" "unat (fil_sect fp) = file_sector fs cs (?p div 512)"
      using po m pred_div by (simp_all add: pointer_ok_def)
    then have "chunk_ok cs fp fs btr (copy_from_cache btr fp) fp fs"
      using assms(1) co by (intro copy_chunk [OF assms(1) co assms(3,4)]) (simp_all add: file_kept_def)
    then show ?thesis using False by (simp add: read_chunk_def)
  next
    case True
    then have m: "?p mod 512 = 0" using pm by simp
    have top: "?p < length cs * cluster_bytes fs" using co assms(3,4) unat_gt_0 [of btr] by (simp add: cache_ok_def)
    define fp1 where "fp1 = fp\<lparr>fil_clust := cs ! (?p div cluster_bytes fs)\<rparr>"
    have fp1: "fptr fp1 = fptr fp" "fil_clust fp1 = cs ! (?p div cluster_bytes fs)" by (simp_all add: fp1_def)
    note rp = read_position_ok [OF assms(1,2) top m, folded fp1_def]
    obtain f where f: "(if ?o = 0 then read_cluster io fp fs else Some (None, fp, fs)) = Some (None, fp1, f)" "sees fs f" using rp(1) by blast
    define n where "n = clst2sect f (fil_clust fp1) + ?o"
    have n: "unat n = file_sector fs cs (?p div 512)" "clst2sect f (fil_clust fp1) \<noteq> 0" using rp(3,4) [OF f(2)] by (simp_all add: n_def)
    have k: "fkept cs fp fs fp1 f" using sees_fkept [OF assms(1) co f(2)] by (simp add: fp1_def)
    then have vf: "vol f" "cache_ok sec fp1 f cs" "static f = static fs" by (simp_all add: file_kept_def)
    have pd: "pdrv f = drive" using volD(1) [OF vf(1)] by (simp add: window_ok_def)
    have nf: "unat n \<in> file_sectors f cs"
      using n(1) pointer_sector(1) [OF assms(1) co top] static_sectors(2) [OF vf(3)] by (simp add: file_sectors_def)
    consider "btr div SS > 0" | "\<not> btr div SS > 0" "fil_sect fp1 = n" | "\<not> btr div SS > 0" "fil_sect fp1 \<noteq> n" by blast
    then show ?thesis
    proof cases
      case 1
      define cc where "cc = whole_sectors btr ?o f"
      obtain b d bs where d: "dio_read io drive (take (512 * unat cc) rbuff) n (unat cc) (dev f) = Some (RES_OK, b, d)"
        "(if dirty fp1 \<and> fil_sect fp1 - n < cc then splice_bytes (512 * unat (fil_sect fp1 - n)) (fil_buf fp1) b else b) = bs"
        "chunk_ok cs fp fs btr bs fp1 (f\<lparr>dev := d\<rparr>)"
        using direct_chunk [OF assms(1) co assms(3,5) k fp1 m n(1) rp(2) 1] unfolding cc_def by blast
      have "read_chunk io rbuff btr fp fs = Some (Inr bs, fp1, f\<lparr>dev := d\<rparr>)"
        using True 1 f(1) n(2) d(1,2) pd
        by (simp add: read_chunk_def n_def [symmetric] cc_def [symmetric] split del: if_split cong: if_cong)
      then show ?thesis using d(3) by blast
    next
      case 2
      have "read_chunk io rbuff btr fp fs = Some (Inr (copy_from_cache btr fp1), fp1, f)"
        using True 2 f(1) n(2) by (simp add: read_chunk_def n_def [symmetric])
      then show ?thesis using copy_chunk [OF assms(1) co assms(3,4) k fp1] n(1) 2(2) by blast
    next
      case 3
      define fp2 where "fp2 = fp1\<lparr>fil_flag := fil_flag fp1 AND NOT FA_DIRTY\<rparr>"
      obtain f2 b f3 where l: "flush_cache io fp1 f = Some (None, fp2, f2)" "load_cache io n fp2 f2 = Some (None, fp2\<lparr>fil_buf := b\<rparr>, f3)"
        "fkept cs fp1 f (fp2\<lparr>fil_buf := b, fil_sect := n\<rparr>) f3"
        using reload_ok [OF vf(1,2) nf] unfolding fp2_def by blast
      let ?fp4 = "fp2\<lparr>fil_buf := b, fil_sect := n\<rparr>"
      have "chunk_ok cs fp fs btr (copy_from_cache btr ?fp4) ?fp4 f3"
        by (rule copy_chunk [OF assms(1) co assms(3,4) file_kept_trans [OF k l(3)]]) (use fp1 n in \<open>simp_all add: fp2_def\<close>)
      moreover have "read_chunk io rbuff btr fp fs = Some (Inr (copy_from_cache btr ?fp4), ?fp4, f3)"
        using True 3 f(1) n(2) l(1,2) by (simp add: read_chunk_def n_def [symmetric] Let_def)
      ultimately show ?thesis by blast
    qed
  qed
qed

text \<open>The loop ends, and has read all of the bytes.\<close>

lemma read_loop_ok:
  assumes "vol fs" and "file_ok sec fp fs cs" and "unat (fptr fp) + unat btr \<le> unat (objsize (obj fp))" and "unat btr \<le> length rbuff"
  shows "\<exists>fp' f. read_loop io acc rbuff btr fp fs = Some (FR_OK, acc @ map (file_byte sec fp fs cs) [unat (fptr fp)..<unat (fptr fp) + unat btr], fp', f) \<and>
     fkept cs fp fs fp' f \<and> file_ok sec fp' f cs \<and> unat (fptr fp') = unat (fptr fp) + unat btr"
  using assms
proof (induction "unat btr" arbitrary: acc rbuff btr fp fs rule: less_induct)
  case less
  let ?p = "unat (fptr fp)"
  show ?case
  proof (cases "btr = 0")
    case True
    then show ?thesis using less.prems by (subst read_loop.simps) (simp add: file_kept_def file_ok_def)
  next
    case False
    obtain bs fp1 f where ch: "read_chunk io rbuff btr fp fs = Some (Inr bs, fp1, f)" "chunk_ok cs fp fs btr bs fp1 f"
      using read_chunk_ok [OF less.prems(1-3) False less.prems(4)] by blast
    let ?n = "length bs" and ?fp2 = "fp1\<lparr>fptr := fptr fp1 + of_nat (length bs)\<rparr>"
    have k: "fkept cs fp fs fp1 f" and bs: "bs = map (file_byte sec fp fs cs) [?p..<?p + ?n]" using ch(2) by simp_all
    have "unat btr < 2 ^ 32" using unsigned_less [of btr] by simp
    then have "unat (of_nat ?n :: u32) = ?n" using ch(2) by (simp add: unat_of_nat)
    then have u: "unat (btr - of_nat ?n) = unat btr - ?n" using ch(2) by (simp add: unat_sub word_le_nat_alt)
    have v: "vol f" "obj fp1 = obj fp" "static f = static fs" "cache_ok sec fp1 f cs" using k by (simp_all add: file_kept_def)
    have fo: "file_ok sec ?fp2 f cs" using v(4) ch(2) by (simp add: file_ok_def)
    have ln: "0 < ?n" "?n \<le> unat btr" "unat (fptr ?fp2) = ?p + ?n" using ch(2) by simp_all
    have lt: "unat (btr - of_nat ?n) < unat btr" using u ln by linarith
    have hyp: "unat (fptr ?fp2) + unat (btr - of_nat ?n) \<le> unat (objsize (obj ?fp2))"
      "unat (btr - of_nat ?n) \<le> length (drop ?n rbuff)" using u ln less.prems(3,4) v(2) by simp_all
    obtain fp' f' where r: "read_loop io (acc @ bs) (drop ?n rbuff) (btr - of_nat ?n) ?fp2 f = Some (FR_OK, (acc @ bs) @
        map (file_byte sec ?fp2 f cs) [unat (fptr ?fp2)..<unat (fptr ?fp2) + unat (btr - of_nat ?n)], fp', f')"
      "fkept cs ?fp2 f fp' f'" "file_ok sec fp' f' cs" "unat (fptr fp') = unat (fptr ?fp2) + unat (btr - of_nat ?n)"
      using less.hyps [OF lt v(1) fo hyp] by blast
    have k2: "fkept cs fp fs ?fp2 f" using k by (simp add: file_kept_def)
    have e: "?p + ?n + (unat btr - ?n) = ?p + unat btr" using ch(2) by simp
    have top: "?p + unat btr \<le> length cs * cluster_bytes fs" using less.prems(2,3) by (simp add: file_ok_def cache_ok_def)
    have "map (file_byte sec ?fp2 f cs) [?p + ?n..<?p + unat btr] = map (file_byte sec fp fs cs) [?p + ?n..<?p + unat btr]"
      using file_kept_bytes [OF k2] top by (intro map_cong [OF refl]) simp
    moreover have "[?p..<?p + unat btr] = [?p..<?p + ?n] @ [?p + ?n..<?p + unat btr]"
      using upt_add_eq_append [of ?p "?p + ?n" "unat btr - ?n"] e by simp
    ultimately have "bs @ map (file_byte sec ?fp2 f cs) [?p + ?n..<?p + unat btr] = map (file_byte sec fp fs cs) [?p..<?p + unat btr]"
      using bs by (metis map_append)
    moreover have "read_loop io acc rbuff btr fp fs = read_loop io (acc @ bs) (drop ?n rbuff) (btr - of_nat ?n) ?fp2 f"
      using False ch(1) by (subst read_loop.simps) (simp add: Let_def)
    ultimately show ?thesis using r u e ch(2) file_kept_trans [OF k2 r(2)] by simp
  qed
qed

lemma validate_ok:
  assumes "vol fs" and "obj_fs ob" and "obj_id ob = fs_id fs"
  shows "\<exists>d. validate io ob fs = Some (FR_OK, fs\<lparr>dev := d\<rparr>) \<and> sees fs (fs\<lparr>dev := d\<rparr>)"
proof -
  note v = volD [OF assms(1)]
  obtain st d where d: "dio_status io drive (dev fs) = Some (st, d)" "st AND STA_NOINIT = 0" "ready d" "sec d = sec (dev fs)" "nsec d = nsec (dev fs)"
    using status_law v(1) by (fastforce simp: window_ok_def)
  moreover have "pdrv fs = drive" "fs_type fs \<noteq> 0" using v(1,3) by (auto simp: window_ok_def table_ok_def FS_FAT12_def FS_FAT16_def FS_FAT32_def)
  ultimately have "validate io ob fs = Some (FR_OK, fs\<lparr>dev := d\<rparr>)" using assms(2,3) by (simp add: validate_def)
  then show ?thesis using sees_dev [OF v(1) d(3-5)] by blast
qed

text \<open>A read returns the bytes from the file pointer on, up to the end of the file.\<close>

theorem f_read_ok:
  assumes "vol fs" and "file_ok sec fp fs cs" and "obj_fs (obj fp)" and "obj_id (obj fp) = fs_id fs" and "fil_err fp = FR_OK"
    and "fil_flag fp AND FA_READ \<noteq> 0" and "unat btr \<le> length buff"
  defines "n \<equiv> min (unat btr) (unat (objsize (obj fp)) - unat (fptr fp))"
  shows "\<exists>fp' fs'. f_read io buff btr fp fs = Some (FR_OK, map (file_byte sec fp fs cs) [unat (fptr fp)..<unat (fptr fp) + n], fp', fs') \<and>
     fkept cs fp fs fp' fs' \<and> file_ok sec fp' fs' cs \<and> unat (fptr fp') = unat (fptr fp) + n"
proof -
  have co: "cache_ok sec fp fs cs" and po: "pointer_ok fp fs cs" using assms(2) by (simp_all add: file_ok_def)
  obtain d where d: "validate io (obj fp) fs = Some (FR_OK, fs\<lparr>dev := d\<rparr>)" "sees fs (fs\<lparr>dev := d\<rparr>)"
    using validate_ok [OF assms(1,3,4)] by blast
  let ?f = "fs\<lparr>dev := d\<rparr>"
  have "fkept cs fp fs (fp\<lparr>fil_clust := fil_clust fp\<rparr>) ?f" by (rule sees_fkept [OF assms(1) co d(2)])
  then have k: "fkept cs fp fs fp ?f" by simp
  then have v: "vol ?f" "cache_ok sec fp ?f cs" "static ?f = static fs" by (simp_all add: file_kept_def)
  have fo: "file_ok sec fp ?f cs" using v(2) po static_sectors [OF v(3)] by (simp add: file_ok_def pointer_ok_def)
  have le: "fptr fp \<le> objsize (obj fp)" using po by (simp add: pointer_ok_def)
  define bt where "bt = (if btr > objsize (obj fp) - fptr fp then objsize (obj fp) - fptr fp else btr)"
  have bt: "unat bt = n" using le by (auto simp: bt_def n_def word_less_nat_alt unat_sub min_def)
  have h: "unat (fptr fp) + unat bt \<le> unat (objsize (obj fp))" "unat bt \<le> length buff"
    using bt le assms(7) by (auto simp: n_def word_le_nat_alt)
  obtain fp' f' where r: "read_loop io [] buff bt fp ?f = Some (FR_OK, [] @ map (file_byte sec fp ?f cs) [unat (fptr fp)..<unat (fptr fp) + unat bt], fp', f')"
      "fkept cs fp ?f fp' f'" "file_ok sec fp' f' cs" "unat (fptr fp') = unat (fptr fp) + unat bt"
    using read_loop_ok [OF v(1) fo h] by blast
  have "map (file_byte sec fp ?f cs) [unat (fptr fp)..<unat (fptr fp) + n] = map (file_byte sec fp fs cs) [unat (fptr fp)..<unat (fptr fp) + n]"
    using file_kept_bytes [OF k] h(1) co bt by (intro map_cong [OF refl]) (simp add: cache_ok_def)
  moreover have "f_read io buff btr fp fs = read_loop io [] buff bt fp ?f"
    using d(1) assms(5,6) by (simp add: f_read_def bt_def Let_def)
  ultimately show ?thesis using r bt file_kept_trans [OF k r(2)] by simp
qed

end

end
