(* ===== verification/Fat_Write.thy ===== *)
theory Fat_Write
  imports Fat_Read
begin

text \<open>
  Writing a file. On a valid volume, \<open>f_write\<close> to an open file puts bytes at the file pointer and leaves the other bytes of the
  file; new clusters come from the free ones, and the rest of the volume is as before. It writes fewer bytes than it is asked for
  only if the disk is full or the file would reach 4 GiB. The lemmas hold for every disk layer.
\<close>

section \<open>Writing\<close>

text \<open>
  The cluster of the file pointer, at the start of a cluster: followed or stretched. \<open>Inr False\<close> is a full disk, on which the
  loop of \<open>f_write\<close> breaks, \<open>Inl e\<close> the error it aborts with.
\<close>

definition write_cluster :: "'d dio \<Rightarrow> FIL \<Rightarrow> 'd FATFS \<Rightarrow> ((fresult + bool) \<times> FIL \<times> 'd FATFS) option" where
  "write_cluster io fp fs = do {
     (clst, fs1) \<leftarrow> (if fptr fp = 0 then
         if sclust (obj fp) = 0 then create_chain io 0 fs else Some (sclust (obj fp), fs)
       else create_chain io (fil_clust fp) fs);
     if clst = 0 then Some (Inr False, fp, fs1)
     else if clst = 1 then Some (Inl FR_INT_ERR, fp, fs1)
     else if clst = 0xFFFFFFFF then Some (Inl FR_DISK_ERR, fp, fs1)
     else
       let fp1 = fp\<lparr>fil_clust := clst\<rparr>
       in Some (Inr True, if sclust (obj fp1) = 0 then fp1\<lparr>obj := (obj fp1)\<lparr>sclust := clst\<rparr>\<rparr> else fp1, fs1)
   }"

text \<open>Bytes go into the rest of the sector in the cache.\<close>

definition copy_to_cache :: "u8 list \<Rightarrow> u32 \<Rightarrow> FIL \<Rightarrow> u32 \<times> FIL" where
  "copy_to_cache wbuff btw fp =
     (let wcnt = SS - fptr fp mod SS;
          wcnt = (if wcnt > btw then btw else wcnt)
      in (wcnt, fp\<lparr>fil_buf := splice_bytes (unat (fptr fp mod SS)) (take (unat wcnt) wbuff) (fil_buf fp), fil_flag := fil_flag fp OR FA_DIRTY\<rparr>))"

text \<open>
  The transfer at the start of sector \<open>sect\<close>, the sector \<open>csect\<close> of its cluster: whole sectors from the buffer, or a part of a sector
  that goes into the cache. The cache is not filled from the disk at the end of the file. The result is the number of bytes.
\<close>

definition write_at :: "'d dio \<Rightarrow> u8 list \<Rightarrow> u32 \<Rightarrow> u32 \<Rightarrow> u32 \<Rightarrow> FIL \<Rightarrow> 'd FATFS \<Rightarrow> ((fresult + u32 option) \<times> FIL \<times> 'd FATFS) option" where
  "write_at io wbuff btw csect sect fp fs =
     (if btw div SS > 0 then do {
        let cc = whole_sectors btw csect fs;
        (r, d) \<leftarrow> dio_write io (pdrv fs) (take (512 * unat cc) wbuff) sect (unat cc) (dev fs);
        let fs1 = fs\<lparr>dev := d\<rparr>;
        if r \<noteq> RES_OK then Some (Inl FR_DISK_ERR, fp, fs1)
        else
          let fp1 = (if fil_sect fp - sect < cc
                     then fp\<lparr>fil_buf := take 512 (drop (512 * unat (fil_sect fp - sect)) wbuff), fil_flag := fil_flag fp AND NOT FA_DIRTY\<rparr>
                     else fp)
          in Some (Inr (Some (SS * cc)), fp1, fs1)
      }
      else do {
        (e, fp1, fs1) \<leftarrow> (if fil_sect fp \<noteq> sect \<and> fptr fp < objsize (obj fp) then load_cache io sect fp fs else Some (None, fp, fs));
        case e of
          Some e \<Rightarrow> Some (Inl e, fp1, fs1)
        | None \<Rightarrow> let (wcnt, fp2) = copy_to_cache wbuff btw (fp1\<lparr>fil_sect := sect\<rparr>) in Some (Inr (Some wcnt), fp2, fs1)
      })"

text \<open>The body of the loop of \<open>f_write\<close>: the number of bytes written, \<open>None\<close> for a full disk, or the error.\<close>

definition write_chunk :: "'d dio \<Rightarrow> u8 list \<Rightarrow> u32 \<Rightarrow> FIL \<Rightarrow> 'd FATFS \<Rightarrow> ((fresult + u32 option) \<times> FIL \<times> 'd FATFS) option" where
  "write_chunk io wbuff btw fp fs =
     (if fptr fp mod SS = 0 then do {
        let csect = sector_offset_in_cluster fp fs;
        (r, fp1, fs1) \<leftarrow> (if csect = 0 then write_cluster io fp fs else Some (Inr True, fp, fs));
        case r of
          Inl e \<Rightarrow> Some (Inl e, fp1, fs1)
        | Inr False \<Rightarrow> Some (Inr None, fp1, fs1)
        | Inr True \<Rightarrow> do {
            (e, fp2, fs2) \<leftarrow> flush_cache io fp1 fs1;
            case e of
              Some e \<Rightarrow> Some (Inl e, fp2, fs2)
            | None \<Rightarrow>
                let sect = clst2sect fs2 (fil_clust fp2) in
                if sect = 0 then Some (Inl FR_INT_ERR, fp2, fs2) else write_at io wbuff btw csect (sect + csect) fp2 fs2
          }
      }
      else let (wcnt, fp1) = copy_to_cache wbuff btw fp in Some (Inr (Some wcnt), fp1, fs))"

definition advance :: "u32 \<Rightarrow> FIL \<Rightarrow> FIL" where
  "advance wcnt fp =
     (let p = fptr fp + wcnt
      in fp\<lparr>fptr := p, obj := (obj fp)\<lparr>objsize := if p > objsize (obj fp) then p else objsize (obj fp)\<rparr>\<rparr>)"

partial_function (option) write_loop :: "'d dio \<Rightarrow> u32 \<Rightarrow> u8 list \<Rightarrow> u32 \<Rightarrow> FIL \<Rightarrow> 'd FATFS \<Rightarrow> (fresult \<times> u32 \<times> FIL \<times> 'd FATFS) option" where
  "write_loop io bw wbuff btw fp fs =
     (if btw = 0 then Some (FR_OK, bw, fp\<lparr>fil_flag := fil_flag fp OR FA_MODIFIED\<rparr>, fs)
      else do {
        (r, fp1, fs1) \<leftarrow> write_chunk io wbuff btw fp fs;
        case r of
          Inl e \<Rightarrow> Some (e, bw, fp1\<lparr>fil_err := e\<rparr>, fs1)
        | Inr None \<Rightarrow> Some (FR_OK, bw, fp1\<lparr>fil_flag := fil_flag fp1 OR FA_MODIFIED\<rparr>, fs1)
        | Inr (Some wcnt) \<Rightarrow> write_loop io (bw + wcnt) (drop (unat wcnt) wbuff) (btw - wcnt) (advance wcnt fp1) fs1
      })"

text \<open>The result, \<open>*bw\<close>, and the objects.\<close>

definition f_write :: "'d dio \<Rightarrow> u8 list \<Rightarrow> u32 \<Rightarrow> FIL \<Rightarrow> 'd FATFS \<Rightarrow> (fresult \<times> u32 \<times> FIL \<times> 'd FATFS) option" where
  "f_write io buff btw fp fs = do {
     (res, fs1) \<leftarrow> validate io (obj fp) fs;
     if res \<noteq> FR_OK then Some (res, 0, fp, fs1)
     else if fil_err fp \<noteq> FR_OK then Some (fil_err fp, 0, fp, fs1)
     else if fil_flag fp AND FA_WRITE = 0 then Some (FR_DENIED, 0, fp, fs1)
     else
       let btw = (if fptr fp + btw < fptr fp then 0xFFFFFFFF - fptr fp else btw)
       in write_loop io 0 buff btw fp fs1
   }"

section \<open>Clusters of a file\<close>

definition cluster_area :: "'d FATFS \<Rightarrow> u32 \<Rightarrow> nat set" where
  "cluster_area fs c = {unat (database fs) + unat (csize fs) * (unat c - 2)..<unat (database fs) + unat (csize fs) * (unat c - 2) + unat (csize fs)}"

lemma file_sectors_area:
  assumes "0 < unat (csize fs)"
  shows "file_sectors fs cs = (\<Union>c \<in> set cs. cluster_area fs c)"
proof (intro set_eqI iffI)
  fix n assume "n \<in> file_sectors fs cs"
  then obtain k where k: "k < length cs * unat (csize fs)" "n = file_sector fs cs k" by (auto simp: file_sectors_def)
  have "k div unat (csize fs) < length cs" using k(1) by (simp add: less_mult_imp_div_less)
  moreover have "n \<in> cluster_area fs (cs ! (k div unat (csize fs)))" using assms k(2) by (simp add: file_sector_def cluster_area_def)
  ultimately show "n \<in> (\<Union>c \<in> set cs. cluster_area fs c)" by auto
next
  let ?c = "unat (csize fs)"
  fix n assume "n \<in> (\<Union>c \<in> set cs. cluster_area fs c)"
  then obtain i where i: "i < length cs" "n \<in> cluster_area fs (cs ! i)" by (auto simp: in_set_conv_nth)
  define j where "j = n - (unat (database fs) + ?c * (unat (cs ! i) - 2))"
  have j: "j < ?c" "n = unat (database fs) + ?c * (unat (cs ! i) - 2) + j" using i(2) by (auto simp: j_def cluster_area_def)
  have q: "(i * ?c + j) div ?c = i" "(i * ?c + j) mod ?c = j" using j(1) by simp_all
  then have "file_sector fs cs (i * ?c + j) = n" by (simp add: file_sector_def j(2))
  moreover have "i * ?c + j < length cs * ?c" using q(1) i(1) assms by (metis div_less_iff_less_mult)
  ultimately show "n \<in> file_sectors fs cs" by (auto simp: file_sectors_def)
qed

lemma cluster_area_disjoint:
  assumes "n \<in> cluster_area fs c" and "n \<in> cluster_area fs d" and "2 \<le> c" and "2 \<le> d"
  shows "c = d"
proof -
  let ?s = "unat (csize fs)" and ?k = "n - unat (database fs)"
  have n: "?s * (unat c - 2) \<le> ?k" "?k < ?s * Suc (unat c - 2)" "?s * (unat d - 2) \<le> ?k" "?k < ?s * Suc (unat d - 2)"
    using assms(1,2) by (auto simp: cluster_area_def)
  have "unat c - 2 = unat d - 2" using div_nat_eqI [OF n(1,2)] div_nat_eqI [OF n(3,4)] by simp
  moreover have "2 \<le> unat c" "2 \<le> unat d" using assms(3,4) by (simp_all add: word_le_nat_alt)
  ultimately have "unat c = unat d" by linarith
  then show ?thesis by (simp add: word_unat_eq_iff)
qed

text \<open>Different sectors of a file are different sectors of the disk.\<close>

lemma file_sector_inj:
  assumes "chain n f cs" and "0 < unat (csize fs)" and "k < length cs * unat (csize fs)" and "l < length cs * unat (csize fs)"
    and eq: "file_sector fs cs k = file_sector fs cs l"
  shows "k = l"
proof -
  let ?s = "unat (csize fs)"
  have i: "k div ?s < length cs" "l div ?s < length cs" using assms(3,4) by (simp_all add: less_mult_imp_div_less)
  have "file_sector fs cs k \<in> cluster_area fs (cs ! (k div ?s))" "file_sector fs cs k \<in> cluster_area fs (cs ! (l div ?s))"
    using assms(2) eq by (simp_all add: cluster_area_def file_sector_def)
  then have e: "cs ! (k div ?s) = cs ! (l div ?s)"
    by (rule cluster_area_disjoint) (use chain_cluster [OF assms(1)] i in simp_all)
  then have "k div ?s = l div ?s" using chain_distinct [OF assms(1)] i by (simp add: nth_eq_iff_index_eq)
  moreover have "k mod ?s = l mod ?s" using eq e by (simp add: file_sector_def)
  ultimately show ?thesis by (metis mult_div_mod_eq)
qed

text \<open>The window does not show a sector of a free cluster: what is written into a cluster once it is allocated would be hidden by it.\<close>

definition window_used :: "('d \<Rightarrow> nat \<Rightarrow> u8 list) \<Rightarrow> 'd FATFS \<Rightarrow> bool" where
  "window_used sec fs \<longleftrightarrow> (\<forall>c \<in> free_set sec fs. unat (winsect fs) \<notin> cluster_area fs c)"

text \<open>
  A file with the clusters \<open>cs\<close> has been written and has the clusters \<open>cs'\<close>: free clusters were put to its end, and nothing but
  the file has changed on the volume.
\<close>

definition file_frame :: "u8 \<Rightarrow> ('d \<Rightarrow> bool) \<Rightarrow> ('d \<Rightarrow> nat \<Rightarrow> u8 list) \<Rightarrow> ('d \<Rightarrow> nat) \<Rightarrow> u32 list \<Rightarrow> 'd FATFS \<Rightarrow> u32 list \<Rightarrow> 'd FATFS \<Rightarrow> bool" where
  "file_frame drive ready sec nsec cs fs cs' fs' \<longleftrightarrow>
     volume_ok drive ready sec nsec fs' \<and> static fs' = static fs \<and> nsec (dev fs') = nsec (dev fs) \<and> win_moved fs fs' \<and>
     take (length cs) cs' = cs \<and> set cs' \<subseteq> set cs \<union> free_set sec fs \<and> free_set sec fs' = free_set sec fs - set cs' \<and>
     (\<forall>c. cluster fs c \<longrightarrow> c \<notin> set cs' \<longrightarrow> fat sec fs' c = fat sec fs c) \<and>
     (\<forall>n < nsec (dev fs). n \<notin> mirror fs \<union> fat_area fs \<union> file_sectors fs cs' \<longrightarrow> vsec sec fs' n = vsec sec fs n)"

lemma frame_length: "file_frame drive ready sec nsec cs fs cs' fs' \<Longrightarrow> length cs \<le> length cs'"
  unfolding file_frame_def by (metis length_take min.cobounded2 min.commute)

lemma file_frame_trans:
  assumes "file_frame drive ready sec nsec cs fs cs' fs'" and "file_frame drive ready sec nsec cs' fs' cs'' fs''" and "0 < unat (csize fs)"
  shows "file_frame drive ready sec nsec cs fs cs'' fs''"
proof -
  have st: "static fs' = static fs" using assms(1) by (simp add: file_frame_def)
  note s = static_sectors [OF st]
  have p: "take (length cs) cs' = cs" "take (length cs') cs'' = cs'" using assms(1,2) by (simp_all add: file_frame_def)
  have sub: "set cs' \<subseteq> set cs''" using p(2) by (metis set_take_subset)
  then have fsub: "file_sectors fs cs' \<subseteq> file_sectors fs cs''" using assms(3) by (auto simp: file_sectors_area)
  have "take (length cs) (take (length cs') cs'') = cs" unfolding p(2) by (rule p(1))
  moreover have "length cs \<le> length cs'" by (rule frame_length [OF assms(1)])
  ultimately have t: "take (length cs) cs'' = cs" by (simp add: min_def)
  have w: "win_moved fs fs''" using assms(1,2) win_moved_trans [of fs fs' fs''] s(7) by (simp add: file_frame_def)
  show ?thesis using assms(1,2) t w sub fsub st unfolding file_frame_def s by auto
qed

text \<open>The clusters may have been added, but nothing has been written.\<close>

definition file_grown :: "u8 \<Rightarrow> ('d \<Rightarrow> bool) \<Rightarrow> ('d \<Rightarrow> nat \<Rightarrow> u8 list) \<Rightarrow> ('d \<Rightarrow> nat) \<Rightarrow> u32 list \<Rightarrow> FIL \<Rightarrow> 'd FATFS \<Rightarrow> u32 list \<Rightarrow> FIL \<Rightarrow> 'd FATFS \<Rightarrow> bool" where
  "file_grown drive ready sec nsec cs fp fs cs' fp' fs' \<longleftrightarrow>
     file_frame drive ready sec nsec cs fs cs' fs' \<and> cache_ok sec fp' fs' cs' \<and> (\<forall>n \<in> file_sectors fs cs. cache_view sec fp' fs' n = cache_view sec fp fs n)"

lemma file_grown_clust [simp]:
  "file_grown drive ready sec nsec cs fp fs cs' (fp'\<lparr>fil_clust := c\<rparr>) fs' = file_grown drive ready sec nsec cs fp fs cs' fp' fs'"
  by (simp add: file_grown_def)

text \<open>The bytes \<open>bs\<close> have been written at the file pointer.\<close>

definition file_written :: "u8 \<Rightarrow> ('d \<Rightarrow> bool) \<Rightarrow> ('d \<Rightarrow> nat \<Rightarrow> u8 list) \<Rightarrow> ('d \<Rightarrow> nat) \<Rightarrow> u32 list \<Rightarrow> FIL \<Rightarrow> 'd FATFS \<Rightarrow> u8 list \<Rightarrow> u32 list \<Rightarrow> FIL \<Rightarrow> 'd FATFS \<Rightarrow> bool" where
  "file_written drive ready sec nsec cs fp fs bs cs' fp' fs' \<longleftrightarrow>
     file_frame drive ready sec nsec cs fs cs' fs' \<and> file_ok sec fp' fs' cs' \<and> unat (fptr fp') = unat (fptr fp) + length bs \<and>
     unat (objsize (obj fp')) = max (unat (objsize (obj fp))) (unat (fptr fp) + length bs) \<and>
     (\<forall>i. i < unat (objsize (obj fp)) \<or> unat (fptr fp) \<le> i \<and> i < unat (fptr fp) + length bs \<longrightarrow>
        file_byte sec fp' fs' cs' i = (if unat (fptr fp) \<le> i \<and> i < unat (fptr fp) + length bs then bs ! (i - unat (fptr fp)) else file_byte sec fp fs cs i))"

lemma file_written_trans:
  assumes "file_written drive ready sec nsec cs fp fs as cs' fp' fs'" and "file_written drive ready sec nsec cs' fp' fs' bs cs'' fp'' fs''"
    and "0 < unat (csize fs)"
  shows "file_written drive ready sec nsec cs fp fs (as @ bs) cs'' fp'' fs''"
proof -
  have "file_frame drive ready sec nsec cs fs cs'' fs''"
    using assms file_frame_trans [of drive ready sec nsec cs fs cs' fs' cs'' fs''] by (simp add: file_written_def)
  moreover have p: "unat (fptr fp') = unat (fptr fp) + length as" "unat (objsize (obj fp')) = max (unat (objsize (obj fp))) (unat (fptr fp) + length as)"
    using assms(1) by (simp_all add: file_written_def)
  moreover have "file_byte sec fp'' fs'' cs'' i =
      (if unat (fptr fp) \<le> i \<and> i < unat (fptr fp) + length (as @ bs) then (as @ bs) ! (i - unat (fptr fp)) else file_byte sec fp fs cs i)"
    if i: "i < unat (objsize (obj fp)) \<or> unat (fptr fp) \<le> i \<and> i < unat (fptr fp) + length (as @ bs)" for i
  proof -
    have b: "file_byte sec fp'' fs'' cs'' i = (if unat (fptr fp') \<le> i \<and> i < unat (fptr fp') + length bs then bs ! (i - unat (fptr fp')) else file_byte sec fp' fs' cs' i)"
      using assms(2) i p unfolding file_written_def by auto
    show ?thesis
    proof (cases "unat (fptr fp') \<le> i \<and> i < unat (fptr fp') + length bs")
      case True
      then show ?thesis using b p by (auto simp: nth_append)
    next
      case False
      then have "i < unat (objsize (obj fp)) \<or> unat (fptr fp) \<le> i \<and> i < unat (fptr fp) + length as" using i p by auto
      then have "file_byte sec fp' fs' cs' i = (if unat (fptr fp) \<le> i \<and> i < unat (fptr fp) + length as then as ! (i - unat (fptr fp)) else file_byte sec fp fs cs i)"
        using assms(1) unfolding file_written_def by blast
      then show ?thesis using b False p by (auto simp: nth_append)
    qed
  qed
  ultimately show ?thesis using assms(2) unfolding file_written_def by simp
qed

lemma dirty_flag: "FA_DIRTY \<noteq> 0"
  by (simp add: FA_DIRTY_def)

lemma modified_flag: "(w OR FA_MODIFIED) AND FA_DIRTY = w AND FA_DIRTY"
proof -
  have "FA_MODIFIED AND FA_DIRTY = 0" by (simp add: FA_MODIFIED_def FA_DIRTY_def)
  then show ?thesis by (simp add: bit.conj_disj_distrib2)
qed

lemma file_written_modified [simp]:
  "file_written drive ready sec nsec cs fp fs bs cs' (fp'\<lparr>fil_flag := fil_flag fp' OR FA_MODIFIED\<rparr>) fs' = file_written drive ready sec nsec cs fp fs bs cs' fp' fs'"
  by (simp add: file_written_def file_ok_def cache_ok_def pointer_ok_def file_byte_def cache_view_def modified_flag)

context disk_layer
begin

abbreviation frame :: "u32 list \<Rightarrow> 'd FATFS \<Rightarrow> u32 list \<Rightarrow> 'd FATFS \<Rightarrow> bool" where "frame \<equiv> file_frame drive ready sec nsec"

abbreviation grown :: "u32 list \<Rightarrow> FIL \<Rightarrow> 'd FATFS \<Rightarrow> u32 list \<Rightarrow> FIL \<Rightarrow> 'd FATFS \<Rightarrow> bool" where "grown \<equiv> file_grown drive ready sec nsec"

lemma in_use:
  assumes "vol fs" and "cache_ok sec fp fs cs"
  shows "set cs \<inter> free_set sec fs = {}"
proof (cases "cs = []")
  case False
  then have c: "chain (n_fatent fs) (fat sec fs) cs" using assms(2) by (simp add: cache_ok_def)
  have "0 < n_fatent fs" using volD(2) [OF assms(1)] by (auto simp: fat_ok_def word_less_nat_alt)
  then show ?thesis using chain_not_free [OF c] by (auto simp: free_set_def)
qed simp

lemma fkept_grown:
  assumes "vol fs" and "cache_ok sec fp fs cs" and "fkept cs fp fs fp' fs'"
  shows "grown cs fp fs cs fp' fs'"
proof -
  have st: "static fs' = static fs" using assms(3) by (simp add: file_kept_def)
  have "free_set sec fs' = free_set sec fs" using assms(3) static_sectors(5) [OF st] by (auto simp: file_kept_def free_set_def)
  then have "free_set sec fs' = free_set sec fs - set cs" using in_use [OF assms(1,2)] by blast
  then show ?thesis using assms(3) by (simp add: file_kept_def file_frame_def file_grown_def)
qed

lemma grown_trans:
  assumes "vol fs" and "grown cs fp fs cs' fp' fs'" and "grown cs' fp' fs' cs'' fp'' fs''"
  shows "grown cs fp fs cs'' fp'' fs''"
proof -
  have c: "0 < unat (csize fs)" using volD(7) [OF assms(1)] .
  have st: "static fs' = static fs" and "take (length cs) cs' = cs" using assms(2) by (simp_all add: file_frame_def file_grown_def)
  then have "set cs \<subseteq> set cs'" by (metis set_take_subset)
  then have "file_sectors fs cs \<subseteq> file_sectors fs' cs'" using c static_sectors(2) [OF st] by (auto simp: file_sectors_area)
  then show ?thesis using assms(2,3) file_frame_trans [of drive ready sec nsec cs fs cs' fs' cs'' fs''] c unfolding file_grown_def by (metis subsetD)
qed

text \<open>The volume after the table has changed.\<close>

lemma evo_vol:
  assumes "vol fs" and "ok f" and "evo fs f" and "fat_ok sec f"
  shows "vol f" "static f = static fs"
  using assms by (simp_all add: volume_ok_def evolves_def layout_def static_def)

lemma evo_file:
  assumes "vol fs" and "cache_ok sec fp fs cs" and "evo fs f" and "n \<in> file_sectors fs cs"
  shows "view f n = view fs n" "cache_view sec fp f n = cache_view sec fp fs n"
proof -
  show "view f n = view fs n" using file_sectors_bounds [OF assms(1,2,4)] assms(3) by (auto simp: evolves_def)
  then show "cache_view sec fp f n = cache_view sec fp fs n" by (simp add: cache_view_def)
qed

lemma moved_window:
  assumes "vol fs" and "win_moved fs f" and "unat (winsect fs) \<notin> cluster_area fs c"
  shows "unat (winsect f) \<notin> cluster_area fs c"
  using assms(2,3) data_area [OF volD(4,5) [OF assms(1)], of "unat (winsect f)"] by (auto simp: win_moved_def cluster_area_def)

lemma frame_window_used:
  assumes "vol fs" and "window_used sec fs" and "frame cs fs cs' f"
  shows "window_used sec f"
proof -
  have f: "win_moved fs f" "static f = static fs" "free_set sec f \<subseteq> free_set sec fs" using assms(3) by (auto simp: file_frame_def)
  have "cluster_area f = cluster_area fs" using f(2) by (simp add: cluster_area_def static_def fun_eq_iff)
  then show ?thesis using assms(2) f(3) moved_window [OF assms(1) f(1)] by (auto simp: window_used_def)
qed

lemma stretch_ok:
  assumes "vol fs" and "cache_ok sec fp fs cs" and "window_used sec fs"
  shows "\<exists>r f. create_chain io (if cs = [] then 0 else last cs) fs = Some (r, f) \<and>
     (if r = 0 then free_set sec fs = {} \<and> grown cs fp fs cs fp f
      else r \<noteq> 1 \<and> r \<noteq> 0xFFFFFFFF \<and> grown cs fp fs (cs @ [r]) (fp\<lparr>obj := (obj fp)\<lparr>sclust := hd (cs @ [r])\<rparr>\<rparr>) f)"
proof -
  note v = volD [OF assms(1)]
  have cc: "cs = [] \<or> chain (n_fatent fs) (fat sec fs) cs" using assms(2) by (simp add: cache_ok_def split: if_splits)
  obtain r f where f: "create_chain io (if cs = [] then 0 else last cs) fs = Some (r, f)" "ok f" "evo fs f" "fat_ok sec f"
    and res: "if r = 0 then free_set sec fs = {} \<and> (\<forall>x. cluster fs x \<longrightarrow> fat sec f x = fat sec fs x)
      else r \<in> free_set sec fs \<and> chain (n_fatent fs) (fat sec f) (cs @ [r]) \<and>
        (\<forall>x. cluster fs x \<longrightarrow> x \<noteq> r \<longrightarrow> cs = [] \<or> x \<noteq> last cs \<longrightarrow> fat sec f x = fat sec fs x)"
    using create_chain_ok [OF v(1,2) cc] by blast
  note ev = evo_vol [OF assms(1) f(2,3,4)] and ef = evo_file [OF assms(1,2) f(3)]
  note st = static_sectors [OF ev(2)]
  have e: "nsec (dev f) = nsec (dev fs)" "win_moved fs f"
    "\<forall>n < nsec (dev fs). n \<notin> mirror fs \<union> fat_area fs \<longrightarrow> view f n = view fs n" using f(3) by (simp_all add: evolves_def)
  have win: "unat (winsect f) \<notin> cluster_area fs c" if "c \<in> set cs \<union> free_set sec fs" for c
    using moved_window [OF assms(1) e(2), of c] that assms(2,3) v(7) by (auto simp: cache_ok_def window_used_def file_sectors_area)
  show ?thesis
  proof (cases "r = 0")
    case True
    then have ft: "\<And>x. cluster fs x \<Longrightarrow> fat sec f x = fat sec fs x" and em: "free_set sec fs = {}" using res by simp_all
    have fe: "free_set sec f = {}" using em ft st(5) by (auto simp: free_set_def)
    have "chain (n_fatent fs) (fat sec f) cs = chain (n_fatent fs) (fat sec fs) cs" if "cs \<noteq> []"
      using cc that chain_cong [of cs "fat sec f" "fat sec fs"] ft chain_cluster [of "n_fatent fs" "fat sec fs" cs] by (auto simp: cluster_def)
    moreover have "unat (winsect f) \<notin> file_sectors fs cs" using win v(7) by (auto simp: file_sectors_area)
    ultimately have "cache_ok sec fp f cs" using assms(2) ef(1) unfolding cache_ok_def st by (auto split: if_splits)
    moreover have "frame cs fs cs f" using ev e em fe ft by (simp add: file_frame_def)
    ultimately have "grown cs fp fs cs fp f" using ef(2) by (simp add: file_grown_def)
    then show ?thesis using f(1) True em by simp
  next
    case False
    then have r: "r \<in> free_set sec fs" "chain (n_fatent fs) (fat sec f) (cs @ [r])"
      "\<And>x. cluster fs x \<Longrightarrow> x \<noteq> r \<Longrightarrow> cs = [] \<or> x \<noteq> last cs \<Longrightarrow> fat sec f x = fat sec fs x" using res by auto
    have "2 \<le> r" "r < n_fatent fs" using r(1) by (simp_all add: free_set_def cluster_def)
    then have rn: "r \<noteq> 1" "r \<noteq> 0xFFFFFFFF" using table_bound [OF v(3)] by (auto simp: word_less_nat_alt word_le_nat_alt)
    have n0: "0 < n_fatent fs" using v(2) by (auto simp: fat_ok_def word_less_nat_alt)
    have nf: "fat sec f x \<noteq> 0" if "x \<in> set (cs @ [r])" for x using chain_not_free [OF r(2) n0 that] .
    have other: "fat sec f x = fat sec fs x" if "cluster fs x" "x \<notin> set (cs @ [r])" for x
    proof -
      have "x \<noteq> r" "cs = [] \<or> x \<noteq> last cs" using that(2) last_in_set [of cs] by auto
      then show ?thesis using r(3) that(1) by blast
    qed
    have fre: "free_set sec f = free_set sec fs - set (cs @ [r])"
    proof (intro set_eqI)
      fix x show "x \<in> free_set sec f \<longleftrightarrow> x \<in> free_set sec fs - set (cs @ [r])"
        using nf [of x] other [of x] st(5) by (cases "x \<in> set (cs @ [r])") (auto simp: free_set_def)
    qed
    have sub: "file_sectors fs cs \<subseteq> file_sectors fs (cs @ [r])" using v(7) by (auto simp: file_sectors_area)
    have w: "unat (winsect f) \<notin> file_sectors fs (cs @ [r])" using win r(1) v(7) by (auto simp: file_sectors_area)
    let ?fp = "fp\<lparr>obj := (obj fp)\<lparr>sclust := hd (cs @ [r])\<rparr>\<rparr>"
    have "cache_ok sec ?fp f (cs @ [r])"
      using assms(2) ef(1) r(2) w sub unfolding cache_ok_def st by (auto split: if_splits)
    moreover have "cache_view sec ?fp f = cache_view sec fp f" by (simp add: cache_view_def fun_eq_iff)
    moreover have "frame cs fs (cs @ [r]) f" using ev e fre r(1) other by (auto simp: file_frame_def)
    ultimately have "grown cs fp fs (cs @ [r]) ?fp f" using ef(2) by (simp add: file_grown_def)
    then show ?thesis using f(1) False rn by auto
  qed
qed

lemma follow_ok:
  assumes "vol fs" and "cache_ok sec fp fs cs" and "Suc i < length cs"
  shows "\<exists>f. create_chain io (cs ! i) fs = Some (cs ! Suc i, f) \<and> sees fs f"
proof -
  note v = volD [OF assms(1)]
  have c: "chain (n_fatent fs) (fat sec fs) cs" using assms(2,3) by (cases "cs = []") (simp_all add: cache_ok_def)
  have b: "cluster fs (cs ! i)" "cluster fs (cs ! Suc i)" using chain_cluster [OF c] assms(3) by (simp_all add: cluster_def)
  obtain f where f: "get_fat io (cs ! i) fs = Some (fat sec fs (cs ! i), f)" "sees fs f" using get_fat_ok [OF v(1,3) b(1)] by blast
  have "n_fatent f = n_fatent fs" using sees_vol(6) [OF assms(1) f(2)] .
  then show ?thesis using f b chain_nth [OF c assms(3)] table_bound [OF v(3)]
    by (auto simp: create_chain_def cluster_def word_less_nat_alt word_le_nat_alt)
qed

text \<open>The cluster of the file pointer, at the start of a sector: there is one, or the disk is full.\<close>

lemma last_cluster:
  assumes "vol fs" and "pointer_ok fp fs cs" and "0 < unat (fptr fp)" and "unat (fptr fp) mod cluster_bytes fs = 0"
  shows "0 < unat (fptr fp) div cluster_bytes fs" "fil_clust fp = cs ! (unat (fptr fp) div cluster_bytes fs - 1)"
proof -
  let ?p = "unat (fptr fp)" and ?b = "cluster_bytes fs"
  obtain m where m: "?p = ?b * m" using assms(4) by (auto simp: mod_eq_0_iff_dvd)
  have b0: "0 < ?b" using volD(7) [OF assms(1)] by (simp add: cluster_bytes_def)
  have m0: "m \<noteq> 0" using m assms(3) by auto
  then show "0 < ?p div ?b" using m b0 by simp
  have "(?p - 1) div ?b = m - 1" using m m0 b0 by (intro div_nat_eqI) (cases m; simp)+
  then show "fil_clust fp = cs ! (?p div ?b - 1)" using assms(2,3) m b0 by (simp add: pointer_ok_def)
qed

abbreviation place :: "u32 list \<Rightarrow> 'd FATFS \<Rightarrow> FIL \<Rightarrow> FIL" where
  "place cs fs fp \<equiv> fp\<lparr>fil_clust := cs ! (unat (fptr fp) div cluster_bytes fs), obj := (obj fp)\<lparr>sclust := hd cs\<rparr>\<rparr>"

abbreviation placed :: "u32 list \<Rightarrow> FIL \<Rightarrow> 'd FATFS \<Rightarrow> u32 list \<Rightarrow> 'd FATFS \<Rightarrow> bool" where
  "placed cs fp fs cs' f \<equiv> grown cs fp fs cs' (place cs' fs fp) f \<and> unat (fptr fp) < length cs' * cluster_bytes fs"

lemma grown_place: "grown cs fp fs cs' (fp'\<lparr>obj := x\<rparr>) f \<Longrightarrow> grown cs fp fs cs' (fp'\<lparr>fil_clust := c, obj := x\<rparr>) f"
proof -
  have "fp'\<lparr>fil_clust := c, obj := x\<rparr> = fp'\<lparr>obj := x\<rparr>\<lparr>fil_clust := c\<rparr>" by simp
  then show "grown cs fp fs cs' (fp'\<lparr>obj := x\<rparr>) f \<Longrightarrow> grown cs fp fs cs' (fp'\<lparr>fil_clust := c, obj := x\<rparr>) f" by (simp only: file_grown_clust)
qed

lemma placed_here:
  assumes "vol fs" and "cache_ok sec fp fs cs" and "sees fs f" and "unat (fptr fp) < length cs * cluster_bytes fs"
  shows "placed cs fp fs cs f" "place cs fs fp = fp\<lparr>fil_clust := cs ! (unat (fptr fp) div cluster_bytes fs)\<rparr>"
proof -
  have "cs \<noteq> []" using assms(4) by auto
  then have "sclust (obj fp) = hd cs" using assms(2) by (simp add: cache_ok_def)
  then show e: "place cs fs fp = fp\<lparr>fil_clust := cs ! (unat (fptr fp) div cluster_bytes fs)\<rparr>" by simp
  show "placed cs fp fs cs f" unfolding e using fkept_grown [OF assms(1,2) sees_fkept [OF assms(1-3)]] assms(4) by blast
qed

lemma placed_stretch:
  assumes "vol fs" and "cache_ok sec fp fs cs" and "window_used sec fs" and "unat (fptr fp) = length cs * cluster_bytes fs"
  shows "\<exists>r f. create_chain io (if cs = [] then 0 else last cs) fs = Some (r, f) \<and>
     (if r = 0 then free_set sec fs = {} \<and> grown cs fp fs cs fp f
      else r \<noteq> 1 \<and> r \<noteq> 0xFFFFFFFF \<and> placed cs fp fs (cs @ [r]) f \<and>
        (if sclust (obj fp) = 0 then fp\<lparr>fil_clust := r, obj := (obj fp)\<lparr>sclust := r\<rparr>\<rparr> else fp\<lparr>fil_clust := r\<rparr>) = place (cs @ [r]) fs fp)"
proof -
  obtain r f where f: "create_chain io (if cs = [] then 0 else last cs) fs = Some (r, f)"
     "if r = 0 then free_set sec fs = {} \<and> grown cs fp fs cs fp f
      else r \<noteq> 1 \<and> r \<noteq> 0xFFFFFFFF \<and> grown cs fp fs (cs @ [r]) (fp\<lparr>obj := (obj fp)\<lparr>sclust := hd (cs @ [r])\<rparr>\<rparr>) f"
    using stretch_ok [OF assms(1-3)] by blast
  show ?thesis
  proof (cases "r = 0")
    case True
    then show ?thesis using f by simp
  next
    case False
    have b0: "0 < cluster_bytes fs" using volD(7) [OF assms(1)] by (simp add: cluster_bytes_def)
    have nt: "(cs @ [r]) ! (unat (fptr fp) div cluster_bytes fs) = r" "unat (fptr fp) < length (cs @ [r]) * cluster_bytes fs"
      using assms(4) b0 by simp_all
    have sc: "hd (cs @ [r]) = (if sclust (obj fp) = 0 then r else sclust (obj fp))"
      using assms(2) chain_cluster [of "n_fatent fs" "fat sec fs" cs "hd cs"] by (cases "cs = []") (auto simp: cache_ok_def)
    have g: "r \<noteq> 1 \<and> r \<noteq> 0xFFFFFFFF" "grown cs fp fs (cs @ [r]) (fp\<lparr>obj := (obj fp)\<lparr>sclust := hd (cs @ [r])\<rparr>\<rparr>) f" using f(2) False by simp_all
    have "(if sclust (obj fp) = 0 then fp\<lparr>fil_clust := r, obj := (obj fp)\<lparr>sclust := r\<rparr>\<rparr> else fp\<lparr>fil_clust := r\<rparr>) = place (cs @ [r]) fs fp"
      unfolding nt(1) sc by simp
    then show ?thesis using f(1) False g(1) grown_place [OF g(2)] nt(2)
      by (intro exI [of _ r] exI [of _ f]) (simp only: if_False simp_thms)
  qed
qed

lemma write_cluster_ok:
  assumes "vol fs" and "file_ok sec fp fs cs" and "window_used sec fs" and "unat (fptr fp) mod cluster_bytes fs = 0"
  shows "(\<exists>f cs'. write_cluster io fp fs = Some (Inr True, place cs' fs fp, f) \<and> placed cs fp fs cs' f) \<or>
     (\<exists>f. write_cluster io fp fs = Some (Inr False, fp, f) \<and> free_set sec fs = {} \<and> grown cs fp fs cs fp f)"
proof -
  let ?p = "unat (fptr fp)" and ?b = "cluster_bytes fs"
  let ?clst = "if fptr fp = 0 then if sclust (obj fp) = 0 then create_chain io 0 fs else Some (sclust (obj fp), fs) else create_chain io (fil_clust fp) fs"
  note v = volD [OF assms(1)]
  have co: "cache_ok sec fp fs cs" and po: "pointer_ok fp fs cs" using assms(2) by (simp_all add: file_ok_def)
  have b0: "0 < ?b" using v(7) by (simp add: cluster_bytes_def)
  have le: "?p \<le> length cs * ?b" using co po by (simp add: cache_ok_def pointer_ok_def word_le_nat_alt)
  show ?thesis
  proof (cases "?p = length cs * ?b")
    case True
    have e: "?clst = create_chain io (if cs = [] then 0 else last cs) fs"
    proof (cases "cs = []")
      case nil: True
      then show ?thesis using co True by (simp add: cache_ok_def unat_eq_zero)
    next
      case False
      then have p0: "0 < ?p" "fptr fp \<noteq> 0" using True b0 by auto
      have "?p div ?b = length cs" using True b0 by simp
      then have "fil_clust fp = last cs" using last_cluster(2) [OF assms(1) po p0(1) assms(4)] False by (simp add: last_conv_nth)
      then show ?thesis using False p0 by simp
    qed
    obtain r f where f: "create_chain io (if cs = [] then 0 else last cs) fs = Some (r, f)"
      "if r = 0 then free_set sec fs = {} \<and> grown cs fp fs cs fp f
       else r \<noteq> 1 \<and> r \<noteq> 0xFFFFFFFF \<and> placed cs fp fs (cs @ [r]) f \<and>
         (if sclust (obj fp) = 0 then fp\<lparr>fil_clust := r, obj := (obj fp)\<lparr>sclust := r\<rparr>\<rparr> else fp\<lparr>fil_clust := r\<rparr>) = place (cs @ [r]) fs fp"
      using placed_stretch [OF assms(1) co assms(3) True] by blast
    show ?thesis
    proof (cases "r = 0")
      case True
      then have "write_cluster io fp fs = Some (Inr False, fp, f)" using e f(1) by (simp add: write_cluster_def)
      then show ?thesis using f(2) True by auto
    next
      case False
      then have r: "r \<noteq> 1" "r \<noteq> 0xFFFFFFFF" "placed cs fp fs (cs @ [r]) f"
        "(if sclust (obj fp) = 0 then fp\<lparr>fil_clust := r, obj := (obj fp)\<lparr>sclust := r\<rparr>\<rparr> else fp\<lparr>fil_clust := r\<rparr>) = place (cs @ [r]) fs fp"
        using f(2) by (simp_all only: if_False simp_thms)
      have "write_cluster io fp fs =
        Some (Inr True, if sclust (obj fp) = 0 then fp\<lparr>fil_clust := r, obj := (obj fp)\<lparr>sclust := r\<rparr>\<rparr> else fp\<lparr>fil_clust := r\<rparr>, f)"
        using e f(1) r(1,2) False by (simp add: write_cluster_def)
      then show ?thesis unfolding r(4) using r(3) by blast
    qed
  next
    case False
    then have lt: "?p < length cs * ?b" using le by simp
    then have dl: "?p div ?b < length cs" by (rule less_mult_imp_div_less)
    then have ne: "cs \<noteq> []" by auto
    have ch: "chain (n_fatent fs) (fat sec fs) cs" and sc: "sclust (obj fp) = hd cs" using co ne by (simp_all add: cache_ok_def)
    have "cluster fs (hd cs)" "cluster fs (cs ! (?p div ?b))" using chain_cluster [OF ch] ne dl by (simp_all add: cluster_def)
    then have z: "hd cs \<noteq> 0" "cs ! (?p div ?b) \<noteq> 0" "cs ! (?p div ?b) \<noteq> 1" "cs ! (?p div ?b) \<noteq> 0xFFFFFFFF"
      using table_bound [OF v(3)] by (auto simp: cluster_def word_less_nat_alt word_le_nat_alt)
    have "\<exists>f. ?clst = Some (cs ! (?p div ?b), f) \<and> sees fs f"
    proof (cases "fptr fp = 0")
      case True
      then show ?thesis using sc z(1) ne v(1) by (simp add: hd_conv_nth kept_refl step_refl)
    next
      case nz: False
      then have "0 < ?p" by (simp add: unat_gt_0)
      note lc = last_cluster [OF assms(1) po this assms(4)]
      show ?thesis using follow_ok [OF assms(1) co, of "?p div ?b - 1"] lc dl nz by simp
    qed
    then obtain f where f: "?clst = Some (cs ! (?p div ?b), f)" "sees fs f" by blast
    have "write_cluster io fp fs = Some (Inr True, fp\<lparr>fil_clust := cs ! (?p div ?b)\<rparr>, f)"
      using f(1) z sc by (simp add: write_cluster_def Let_def)
    then have "write_cluster io fp fs = Some (Inr True, place cs fs fp, f)" by (simp only: placed_here(2) [OF assms(1) co f(2) lt])
    then show ?thesis using placed_here(1) [OF assms(1) co f(2) lt] by blast
  qed
qed

lemma write_position_ok:
  assumes "vol fs" and "file_ok sec fp fs cs" and "window_used sec fs" and "unat (fptr fp) mod 512 = 0"
  defines "pos \<equiv> if sector_offset_in_cluster fp fs = 0 then write_cluster io fp fs else Some (Inr True, fp, fs)"
  shows "(\<exists>f cs'. pos = Some (Inr True, place cs' fs fp, f) \<and> placed cs fp fs cs' f) \<or>
     (\<exists>f. pos = Some (Inr False, fp, f) \<and> free_set sec fs = {} \<and> grown cs fp fs cs fp f)"
    and "unat (sector_offset_in_cluster fp fs) = unat (fptr fp) div 512 mod unat (csize fs)"
proof -
  let ?p = "unat (fptr fp)" and ?b = "cluster_bytes fs"
  note v = volD [OF assms(1)]
  have co: "cache_ok sec fp fs cs" and po: "pointer_ok fp fs cs" using assms(2) by (simp_all add: file_ok_def)
  have "unat (fptr fp div SS) = ?p div 512" by (simp add: SS_def unat_div_distrib)
  then show q: "unat (sector_offset_in_cluster fp fs) = ?p div 512 mod unat (csize fs)"
    using csize_mask(1) [OF v(6)] by (simp add: sector_offset_in_cluster_def)
  show "(\<exists>f cs'. pos = Some (Inr True, place cs' fs fp, f) \<and> placed cs fp fs cs' f) \<or>
     (\<exists>f. pos = Some (Inr False, fp, f) \<and> free_set sec fs = {} \<and> grown cs fp fs cs fp f)"
  proof (cases "sector_offset_in_cluster fp fs = 0")
    case True
    then have "?p mod ?b = 0" using q assms(4) by (simp add: pointer_div)
    note wc = write_cluster_ok [OF assms(1-3) this]
    have "pos = write_cluster io fp fs" using True by (simp add: pos_def)
    then show ?thesis using wc by (simp only:)
  next
    case False
    then have "?p div 512 mod unat (csize fs) \<noteq> 0" using q by (metis unat_eq_zero)
    then have nz: "?p mod ?b \<noteq> 0" by (simp add: pointer_div)
    then have p0: "0 < ?p" "?p \<noteq> length cs * ?b" by (auto intro: gr0I)
    then have cl: "fil_clust fp = cs ! (?p div ?b)" using po pred_div [OF nz] by (simp add: pointer_ok_def)
    have lt: "?p < length cs * ?b" using co po p0(2) by (simp add: cache_ok_def pointer_ok_def word_le_nat_alt)
    have "sees fs fs" using v(1) by (simp add: kept_refl step_refl)
    note ph = placed_here [OF assms(1) co this lt]
    have "place cs fs fp = fp" unfolding ph(2) using cl by simp
    then have "pos = Some (Inr True, place cs fs fp, fs)" using False by (simp add: pos_def)
    then show ?thesis using ph(1) by blast
  qed
qed

lemma position_sector:
  assumes "vol fs" and "cache_ok sec fp fs cs" and "p < length cs * cluster_bytes fs" and "unat q = p div 512 mod unat (csize fs)"
  shows "unat (clst2sect fs (cs ! (p div cluster_bytes fs)) + q) = file_sector fs cs (p div 512)" "clst2sect fs (cs ! (p div cluster_bytes fs)) \<noteq> 0"
proof -
  note fb = file_sector_bounds [OF assms(1) pointer_sector(3,1) [OF assms(1-3)]]
  have "of_nat (p div 512 mod unat (csize fs)) = q" using assms(4) by (metis of_nat_unat ucast_id)
  then show "unat (clst2sect fs (cs ! (p div cluster_bytes fs)) + q) = file_sector fs cs (p div 512)" "clst2sect fs (cs ! (p div cluster_bytes fs)) \<noteq> 0"
    using fb(4,5) by (simp_all add: pointer_div)
qed

lemma grown_bytes:
  assumes "vol fs" and "cache_ok sec fp fs cs" and "grown cs fp fs cs' fp' f" and "i < length cs * cluster_bytes fs"
  shows "file_byte sec fp' f cs' i = file_byte sec fp fs cs i"
proof -
  let ?k = "i div 512"
  have st: "static f = static fs" and tk: "take (length cs) cs' = cs" and vw: "\<And>n. n \<in> file_sectors fs cs \<Longrightarrow> cache_view sec fp' f n = cache_view sec fp fs n"
    using assms(3) by (simp_all add: file_grown_def file_frame_def)
  note k = pointer_sector(1,2) [OF assms(1,2,4)]
  then have "cs' ! (?k div unat (csize fs)) = cs ! (?k div unat (csize fs))" using tk by (metis nth_take pointer_div(1))
  then have e: "file_sector f cs' ?k = file_sector fs cs ?k" using static_sectors(1) [OF st] by (simp add: file_sector_def)
  have "file_sector fs cs ?k \<in> file_sectors fs cs" using k(1) by (simp add: file_sectors_def)
  then show ?thesis using vw e by (simp add: file_byte_def)
qed

abbreviation written :: "u32 list \<Rightarrow> FIL \<Rightarrow> 'd FATFS \<Rightarrow> u8 list \<Rightarrow> u32 list \<Rightarrow> FIL \<Rightarrow> 'd FATFS \<Rightarrow> bool" where "written \<equiv> file_written drive ready sec nsec"

text \<open>The file after \<open>n\<close> bytes went into sectors of the cluster of the file pointer, and the pointer behind them.\<close>

lemma written_advance:
  assumes "vol fs" and "cache_ok sec fp fs cs" and g: "grown cs fp fs cs' fp2 f2" and fr: "frame cs' f2 cs' f4" and co: "cache_ok sec fp4 f4 cs'"
    and eqs: "fptr fp4 = fptr fp" "objsize (obj fp4) = objsize (obj fp)" "fil_clust fp4 = cs' ! (unat (fptr fp) div cluster_bytes fs)"
    and n: "0 < n" "unat (fptr fp) mod cluster_bytes fs + n \<le> cluster_bytes fs" "unat (fptr fp) + n < 2 ^ 32" "n = length bs"
      "unat (fptr fp) < length cs' * cluster_bytes fs"
    and sct: "(unat (fptr fp) + n) mod 512 \<noteq> 0 \<Longrightarrow> unat (fil_sect fp4) = file_sector fs cs' ((unat (fptr fp) + n) div 512)"
    and bytes: "\<And>i. i < length cs' * cluster_bytes fs \<Longrightarrow> i < unat (objsize (obj fp)) \<or> unat (fptr fp) \<le> i \<and> i < unat (fptr fp) + n \<Longrightarrow>
      file_byte sec fp4 f4 cs' i = (if unat (fptr fp) \<le> i \<and> i < unat (fptr fp) + n then bs ! (i - unat (fptr fp)) else file_byte sec fp2 f2 cs' i)"
  shows "written cs fp fs bs cs' (advance (of_nat n) fp4) f4"
proof -
  let ?p = "unat (fptr fp)" and ?b = "cluster_bytes fs"
  have fg: "frame cs fs cs' f2" using g by (simp add: file_grown_def)
  have f: "frame cs fs cs' f4" by (rule file_frame_trans [OF fg fr volD(7) [OF assms(1)]])
  then have st: "static f4 = static fs" by (simp add: file_frame_def)
  note ss = static_sectors [OF st]
  have p1: "?p div ?b + 1 \<le> length cs'" using less_mult_imp_div_less [OF n(5)] by simp
  have "?p + n \<le> (?p div ?b + 1) * ?b" using n(2) div_mult_mod_eq [of ?p ?b] by (simp only: distrib_right mult_1)
  also have "\<dots> \<le> length cs' * ?b" using p1 by (rule mult_right_mono) simp
  finally have top: "?p + n \<le> length cs' * ?b" .
  have top2: "unat (objsize (obj fp)) \<le> length cs' * ?b" using co eqs(2) ss(3) by (simp add: cache_ok_def)
  have u: "unat (fptr fp + of_nat n) = ?p + n" using n(3) by (simp add: unat_word_ariths unat_of_nat)
  define os where "os = (if fptr fp + of_nat n > objsize (obj fp) then fptr fp + of_nat n else objsize (obj fp))"
  have os: "unat os = max (unat (objsize (obj fp))) (?p + n)" using u by (auto simp: os_def word_less_nat_alt)
  define fp5 where "fp5 = fp4\<lparr>obj := (obj fp4)\<lparr>objsize := os\<rparr>\<rparr>"
  have av: "advance (of_nat n) fp4 = fp5\<lparr>fptr := fptr fp5 + of_nat n\<rparr>" using eqs by (simp add: advance_def fp5_def os_def Let_def)
  have po: "pointer_ok (fp5\<lparr>fptr := fptr fp5 + of_nat n\<rparr>) f4 cs'"
    by (rule pointer_advance) (use n eqs sct os ss in \<open>simp_all add: fp5_def\<close>)
  have "cache_ok sec fp5 f4 cs'" using co os top top2 ss(3) by (simp add: cache_ok_def fp5_def)
  moreover have fb: "file_byte sec (fp5\<lparr>fptr := x\<rparr>) f4 cs' = file_byte sec fp4 f4 cs'" for x
    by (simp add: file_byte_def fun_eq_iff cache_view_def fp5_def)
  moreover have "file_byte sec fp4 f4 cs' i = (if ?p \<le> i \<and> i < ?p + n then bs ! (i - ?p) else file_byte sec fp fs cs i)"
    if i: "i < unat (objsize (obj fp)) \<or> ?p \<le> i \<and> i < ?p + n" for i
  proof -
    have "i < length cs' * ?b" using i top top2 by linarith
    moreover have "file_byte sec fp2 f2 cs' i = file_byte sec fp fs cs i" if "i < unat (objsize (obj fp))"
      using grown_bytes [OF assms(1,2) g] that assms(2) by (simp add: cache_ok_def)
    ultimately show ?thesis using bytes [of i] i by auto
  qed
  ultimately show ?thesis unfolding file_written_def av fb
    using f po u os eqs n(4) by (simp add: file_ok_def fp5_def)
qed

text \<open>Bytes are put into the sector in the cache; \<open>g\<close> gives the contents before that.\<close>

lemma cache_put:
  assumes "vol f" and ch: "chain (n_fatent f) (fat sec f) cs" and "sclust (obj fp) = hd cs" and "unat (objsize (obj fp)) \<le> length cs * cluster_bytes f"
    and buf: "length (fil_buf fp) = 512" and win: "unat (winsect f) \<notin> file_sectors f cs"
    and p: "unat (fptr fp) < length cs * cluster_bytes f" and sct: "unat (fil_sect fp) = file_sector f cs (unat (fptr fp) div 512)"
    and "unat btw \<le> length wbuff"
    and g: "\<And>n. n \<in> file_sectors f cs \<Longrightarrow> n \<noteq> unat (fil_sect fp) \<Longrightarrow> g n = view f n"
      "unat (fptr fp) mod 512 \<noteq> 0 \<or> fptr fp < objsize (obj fp) \<Longrightarrow> fil_buf fp = g (unat (fil_sect fp))"
    and cp: "copy_to_cache wbuff btw fp = (w, fp4)"
  shows "unat w = min (512 - unat (fptr fp) mod 512) (unat btw)" "cache_ok sec fp4 f cs"
    "i < length cs * cluster_bytes f \<Longrightarrow> i < unat (objsize (obj fp)) \<or> unat (fptr fp) \<le> i \<and> i < unat (fptr fp) + unat w \<Longrightarrow>
       file_byte sec fp4 f cs i = (if unat (fptr fp) \<le> i \<and> i < unat (fptr fp) + unat w then wbuff ! (i - unat (fptr fp)) else g (file_sector f cs (i div 512)) ! (i mod 512))"
proof -
  let ?p = "unat (fptr fp)" and ?c = "unat (csize f)" and ?s = "unat (fil_sect fp)"
  note v = volD [OF assms(1)]
  have m: "unat (fptr fp mod SS) = ?p mod 512" "unat (SS - fptr fp mod SS) = 512 - ?p mod 512"
    by (simp_all add: SS_def unat_mod_distrib unat_sub word_le_nat_alt less_imp_le)
  have w: "w = (if SS - fptr fp mod SS > btw then btw else SS - fptr fp mod SS)"
    and fp4: "fp4 = fp\<lparr>fil_buf := splice_bytes (unat (fptr fp mod SS)) (take (unat w) wbuff) (fil_buf fp), fil_flag := fil_flag fp OR FA_DIRTY\<rparr>"
    using cp by (auto simp: copy_to_cache_def Let_def)
  show uw: "unat w = min (512 - ?p mod 512) (unat btw)" using m(2) by (simp add: w word_less_nat_alt)
  have lw: "length (take (unat w) wbuff) = unat w" using uw assms(9) by simp
  have "?p mod 512 < 512" by simp
  then have fit: "?p mod 512 + unat w \<le> 512" using uw by linarith
  have kp: "?p div 512 < length cs * ?c" using p by (intro less_mult_imp_div_less) (simp add: cluster_bytes_def algebra_simps)
  note fb = file_sector_bounds [OF assms(1) ch kp]
  have s0: "fil_sect fp \<noteq> 0" using sct v(4) by (auto simp: file_sector_def layout_def)
  have d: "dirty fp4" by (simp add: fp4 dirty_flag)
  have "cs \<noteq> []" using p by auto
  then show "cache_ok sec fp4 f cs" using ch assms(3,4) buf win s0 fb(3) sct d fit lw
    by (simp add: cache_ok_def fp4 m(1) length_splice_bytes)
  assume i: "i < length cs * cluster_bytes f" "i < unat (objsize (obj fp)) \<or> ?p \<le> i \<and> i < ?p + unat w"
  have ki: "i div 512 < length cs * ?c" using i(1) by (intro less_mult_imp_div_less) (simp add: cluster_bytes_def algebra_simps)
  show "file_byte sec fp4 f cs i = (if ?p \<le> i \<and> i < ?p + unat w then wbuff ! (i - ?p) else g (file_sector f cs (i div 512)) ! (i mod 512))"
  proof (cases "i div 512 = ?p div 512")
    case True
    then have "file_byte sec fp4 f cs i = splice_bytes (?p mod 512) (take (unat w) wbuff) (fil_buf fp) ! (i mod 512)"
      using d sct by (simp add: file_byte_def cache_view_def fp4 m(1))
    also have "\<dots> = (if ?p mod 512 \<le> i mod 512 \<and> i mod 512 < ?p mod 512 + unat w then take (unat w) wbuff ! (i mod 512 - ?p mod 512) else fil_buf fp ! (i mod 512))"
      using nth_splice_bytes [of "?p mod 512" "take (unat w) wbuff" "fil_buf fp" "i mod 512"] fit lw buf by simp
    finally have fi: "file_byte sec fp4 f cs i = \<dots>" .
    have e: "i = 512 * (?p div 512) + i mod 512" "?p = 512 * (?p div 512) + ?p mod 512" using True mult_div_mod_eq [of 512 i] by simp_all
    then have r: "?p mod 512 \<le> i mod 512 \<longleftrightarrow> ?p \<le> i" "i mod 512 < ?p mod 512 + unat w \<longleftrightarrow> i < ?p + unat w" "i mod 512 - ?p mod 512 = i - ?p"
      by linarith+
    show ?thesis
    proof (cases "?p \<le> i \<and> i < ?p + unat w")
      case True
      then have "i - ?p < unat w" by linarith
      then show ?thesis using True fi unfolding r by simp
    next
      case out: False
      have "?p mod 512 \<noteq> 0 \<or> fptr fp < objsize (obj fp)" using i(2) out r(1) by (auto simp: word_less_nat_alt)
      then have "fil_buf fp = g (file_sector f cs (i div 512))" using g(2) sct True by simp
      then show ?thesis using fi unfolding r if_not_P [OF out] by simp
    qed
  next
    case False
    then have "file_sector f cs (i div 512) \<noteq> ?s" using file_sector_inj [OF ch v(7) ki kp] sct by auto
    moreover have "file_sector f cs (i div 512) \<in> file_sectors f cs" using ki by (simp add: file_sectors_def)
    ultimately have "file_byte sec fp4 f cs i = g (file_sector f cs (i div 512)) ! (i mod 512)"
      using g(1) by (simp add: file_byte_def cache_view_def fp4)
    moreover have "\<not> (?p \<le> i \<and> i < ?p + unat w)"
    proof
      assume a: "?p \<le> i \<and> i < ?p + unat w"
      then have "?p mod 512 + (i - ?p) < 512" using fit by linarith
      from mod_offset(1) [OF this] show "False" using a False by simp
    qed
    ultimately show ?thesis by (simp only: if_False)
  qed
qed

text \<open>Whole sectors are written to the disk, and to the cache if it has one of them.\<close>

lemma data_frame:
  assumes "vol fs" and "cache_ok sec fp fs cs" and "ready d" and "nsec d = nsec (dev fs)"
    and same: "\<And>k. k \<notin> file_sectors fs cs \<Longrightarrow> sec d k = sec (dev fs) k"
  shows "frame cs fs cs (fs\<lparr>dev := d\<rparr>)" "cs \<noteq> [] \<Longrightarrow> chain (n_fatent fs) (fat sec (fs\<lparr>dev := d\<rparr>)) cs"
proof -
  let ?f = "fs\<lparr>dev := d\<rparr>"
  have "sec d k = sec (dev fs) k" if "k \<in> mirror fs \<union> fat_area fs \<or> k = unat (winsect fs)" for k
    by (rule same) (use that assms(2) file_sectors_bounds(2) [OF assms(1,2)] in \<open>auto simp: cache_ok_def\<close>)
  then have dd: "vol ?f" "\<And>c. cluster fs c \<Longrightarrow> fat sec ?f c = fat sec fs c" using data_dev [OF assms(1,3,4)] by auto
  have st: "static ?f = static fs" by (simp add: static_def)
  have "free_set sec ?f = free_set sec fs" using dd(2) by (auto simp: free_set_def cluster_def)
  then have "free_set sec ?f = free_set sec fs - set cs" using in_use [OF assms(1,2)] by blast
  then show "frame cs fs cs ?f" using dd st assms(4) same by (simp add: file_frame_def vsec_def)
  assume "cs \<noteq> []"
  then have c: "chain (n_fatent fs) (fat sec fs) cs" using assms(2) by (simp add: cache_ok_def)
  then show "chain (n_fatent fs) (fat sec ?f) cs"
    using chain_cong [of cs "fat sec ?f" "fat sec fs"] dd(2) chain_cluster [OF c] by (auto simp: cluster_def)
qed

lemma direct_put:
  assumes "vol fs" and co: "cache_ok sec fp fs cs" and nd: "\<not> dirty fp" and k: "k < length cs * unat (csize fs)"
    and inc: "k mod unat (csize fs) + unat cc \<le> unat (csize fs)" "0 < unat cc" and n: "unat n = file_sector fs cs k"
    and len: "512 * unat cc \<le> length wbuff"
  defines "fp4 \<equiv> if fil_sect fp - n < cc then fp\<lparr>fil_buf := take 512 (drop (512 * unat (fil_sect fp - n)) wbuff), fil_flag := fil_flag fp AND NOT FA_DIRTY\<rparr> else fp"
  shows "\<exists>d. dio_write io drive (take (512 * unat cc) wbuff) n (unat cc) (dev fs) = Some (RES_OK, d) \<and>
     frame cs fs cs (fs\<lparr>dev := d\<rparr>) \<and> cache_ok sec fp4 (fs\<lparr>dev := d\<rparr>) cs \<and>
     (\<forall>i < length cs * cluster_bytes fs. file_byte sec fp4 (fs\<lparr>dev := d\<rparr>) cs i =
        (if 512 * k \<le> i \<and> i < 512 * k + 512 * unat cc then wbuff ! (i - 512 * k) else file_byte sec fp fs cs i))"
proof -
  let ?c = "unat (csize fs)" and ?s = "sec (dev fs)" and ?t = "unat (fil_sect fp)" and ?w = "take (512 * unat cc) wbuff"
  note v = volD [OF assms(1)]
  have ne: "cs \<noteq> []" using k by auto
  then have ch: "chain (n_fatent fs) (fat sec fs) cs" using co by (simp add: cache_ok_def)
  have kj: "k + j < length cs * ?c" if "j < unat cc" for j
  proof -
    have "k mod ?c + j < ?c" using that inc(1) by linarith
    then have "(k + j) div ?c = k div ?c" by (rule mod_offset(1))
    also have "\<dots> < length cs" using k by (simp add: less_mult_imp_div_less)
    finally show ?thesis using v(7) by (simp add: div_less_iff_less_mult)
  qed
  have sj: "file_sector fs cs (k + j) = unat n + j" if "j < unat cc" for j
    using file_sector_in_cluster [of k fs j cs] inc(1) n that by simp
  have fs_in: "unat n + j \<in> file_sectors fs cs" "unat n + j < nsec (dev fs)" if "j < unat cc" for j
    using file_sector_bounds(1,3) [OF assms(1) ch kj [OF that]] sj [OF that] by simp_all
  have lim: "unat n + unat cc \<le> nsec (dev fs)" using fs_in(2) [of "unat cc - 1"] inc(2) by simp
  have cc: "unat cc < 2 ^ 22" using inc(1) v(8) by simp
  have lw: "length ?w = 512 * unat cc" using len by simp
  obtain d where d: "dio_write io drive ?w n (unat cc) (dev fs) = Some (RES_OK, d)" "ready d" "sec d = put_sectors ?s (unat n) ?w" "nsec d = nsec (dev fs)"
    using write_law [OF _ inc(2) cc lim lw] v(1) by (auto simp: window_ok_def)
  let ?f = "fs\<lparr>dev := d\<rparr>"
  have sd: "sec d m = (if unat n \<le> m \<and> m < unat n + unat cc then take 512 (drop (512 * (m - unat n)) wbuff) else ?s m)" for m
    unfolding d(3) put_sectors_def lw using len by (auto simp: drop_take min_def)
  have sm: "sec d m = ?s m" if "m \<notin> file_sectors fs cs" for m
  proof -
    have "\<not> (unat n \<le> m \<and> m < unat n + unat cc)" using fs_in(1) [of "m - unat n"] that by (auto simp: less_diff_conv2)
    then show ?thesis unfolding sd by (rule if_not_P)
  qed
  then have fr: "frame cs fs cs ?f" "chain (n_fatent fs) (fat sec ?f) cs" using data_frame [OF assms(1) co d(2,4)] ne by blast+
  have nw: "m \<noteq> unat (winsect fs)" if "m \<in> file_sectors fs cs" for m using co that by (auto simp: cache_ok_def)
  have vw: "view ?f m = (if unat n \<le> m \<and> m < unat n + unat cc then take 512 (drop (512 * (m - unat n)) wbuff) else view fs m)"
    if "m \<in> file_sectors fs cs" for m using nw [OF that] by (simp add: vsec_def sd)
  have r: "fil_sect fp - n < cc \<longleftrightarrow> unat n \<le> ?t \<and> ?t < unat n + unat cc"
    using word_in_range [of n cc] lim nsec_less [of "dev fs"] by simp
  have n0: "0 < unat n" using file_sectors_bounds(3) [OF assms(1) co fs_in(1) [OF inc(2)]] by simp
  have nd4: "\<not> dirty fp4" using nd by (simp add: fp4_def clean_flag)
  have eqs: "obj fp4 = obj fp" "fil_sect fp4 = fil_sect fp" by (simp_all add: fp4_def)
  have un: "unat (fil_sect fp - n) = ?t - unat n" if "fil_sect fp - n < cc" using that r by (simp add: unat_sub word_le_nat_alt)
  have b4: "length (fil_buf fp4) = 512 \<and> (fil_sect fp \<noteq> 0 \<longrightarrow> fil_buf fp4 = view ?f ?t)"
  proof (cases "fil_sect fp - n < cc")
    case True
    then have "?t - unat n < unat cc" "fil_sect fp \<noteq> 0" using r n0 by (auto simp: word_unat_eq_iff)
    then have l: "512 * (?t - unat n) + 512 \<le> length wbuff" "?t \<in> file_sectors fs cs" using len co by (auto simp: cache_ok_def)
    have "fil_buf fp4 = take 512 (drop (512 * (?t - unat n)) wbuff)" using True un by (simp add: fp4_def)
    then show ?thesis using vw [OF l(2)] l(1) True r by simp
  next
    case False
    then have "fil_buf fp4 = fil_buf fp" by (simp add: fp4_def)
    then show ?thesis using co nd vw [of ?t] False r by (auto simp: cache_ok_def)
  qed
  have "cache_ok sec fp4 ?f cs" using co fr(2) ne nd4 b4 eqs static_sectors(2,3) [of ?f fs] by (simp add: cache_ok_def static_def)
  moreover have "file_byte sec fp4 ?f cs i = (if 512 * k \<le> i \<and> i < 512 * k + 512 * unat cc then wbuff ! (i - 512 * k) else file_byte sec fp fs cs i)"
    if i: "i < length cs * cluster_bytes fs" for i
  proof -
    note ki = pointer_sector(1) [OF assms(1) co i]
    let ?m = "file_sector fs cs (i div 512)"
    have m: "?m \<in> file_sectors fs cs" using ki by (simp add: file_sectors_def)
    have st: "file_sector ?f = file_sector fs" by (simp add: file_sector_def fun_eq_iff)
    have f4: "file_byte sec fp4 ?f cs i = view ?f ?m ! (i mod 512)" "file_byte sec fp fs cs i = view fs ?m ! (i mod 512)"
      using nd4 nd st by (simp_all add: file_byte_def cache_view_def)
    have iff: "unat n \<le> ?m \<and> ?m < unat n + unat cc \<longleftrightarrow> k \<le> i div 512 \<and> i div 512 < k + unat cc"
    proof
      assume a: "unat n \<le> ?m \<and> ?m < unat n + unat cc"
      then have j: "?m - unat n < unat cc" by linarith
      then have "file_sector fs cs (k + (?m - unat n)) = ?m" using sj [OF j] a by simp
      then have "k + (?m - unat n) = i div 512" using file_sector_inj [OF ch v(7) kj [OF j] ki] by simp
      then show "k \<le> i div 512 \<and> i div 512 < k + unat cc" using j by linarith
    next
      assume a: "k \<le> i div 512 \<and> i div 512 < k + unat cc"
      then have "i div 512 - k < unat cc" by linarith
      from sj [OF this] this show "unat n \<le> ?m \<and> ?m < unat n + unat cc" using a by (simp, linarith)
    qed
    have e: "i = 512 * (i div 512) + i mod 512" "i mod 512 < 512" by simp_all
    have range: "k \<le> i div 512 \<and> i div 512 < k + unat cc \<longleftrightarrow> 512 * k \<le> i \<and> i < 512 * k + 512 * unat cc" using e by linarith
    show ?thesis
    proof (cases "512 * k \<le> i \<and> i < 512 * k + 512 * unat cc")
      case True
      then have q: "k \<le> i div 512" "i div 512 < k + unat cc" using range by simp_all
      define a where "a = 512 * (i div 512 - k)"
      have j: "i div 512 - k < unat cc" using q by linarith
      then have "?m - unat n = i div 512 - k" using sj [of "i div 512 - k"] q(1) by simp
      then have "view ?f ?m = take 512 (drop a wbuff)" using vw [OF m] iff q by (simp add: a_def)
      moreover have "a \<le> length wbuff" using j len unfolding a_def by linarith
      moreover have "a + i mod 512 = i - 512 * k" using q(1) e(1) unfolding a_def by linarith
      ultimately show ?thesis using True f4(1) by simp
    next
      case False
      then have "\<not> (unat n \<le> ?m \<and> ?m < unat n + unat cc)" using iff range by blast
      then have "view ?f ?m = view fs ?m" unfolding vw [OF m] by (rule if_not_P)
      then show ?thesis unfolding if_not_P [OF False] f4 by (rule arg_cong)
    qed
  qed
  ultimately show ?thesis using d(1) fr(1) by blast
qed

text \<open>One round of the loop: bytes out of the buffer, or a full disk.\<close>

lemma sector_in_cluster:
  assumes "vol fs" and "p mod 512 + n \<le> 512"
  shows "p mod cluster_bytes fs + n \<le> cluster_bytes fs" "(p + n) mod 512 \<noteq> 0 \<Longrightarrow> (p + n) div 512 = p div 512"
proof -
  have "p div 512 mod unat (csize fs) < unat (csize fs)" using volD(7) [OF assms(1)] by simp
  then have "512 * (p div 512 mod unat (csize fs)) + 512 \<le> cluster_bytes fs" unfolding cluster_bytes_def by linarith
  then show "p mod cluster_bytes fs + n \<le> cluster_bytes fs" using assms(2) by (simp add: pointer_div)
  assume "(p + n) mod 512 \<noteq> 0"
  then have "p mod 512 + n \<noteq> 512" by (metis mod_add_left_eq mod_self)
  then show "(p + n) div 512 = p div 512" using assms(2) by (intro sector_offset) simp
qed

lemma put_chunk:
  assumes "vol fs" and "cache_ok sec fp fs cs" and gr: "grown cs fp fs cs' fp2 f2" and fr: "frame cs' f2 cs' f"
    and ch: "chain (n_fatent f) (fat sec f) cs'" and win: "unat (winsect f) \<notin> file_sectors f cs'"
    and fp3: "fptr fp3 = fptr fp" "objsize (obj fp3) = objsize (obj fp)" "sclust (obj fp3) = hd cs'" "length (fil_buf fp3) = 512"
      "fil_clust fp3 = cs' ! (unat (fptr fp) div cluster_bytes fs)" "unat (fil_sect fp3) = file_sector fs cs' (unat (fptr fp) div 512)"
    and p: "unat (fptr fp) < length cs' * cluster_bytes fs" and bt: "btw \<noteq> 0" "unat btw \<le> length wbuff" "unat (fptr fp) + unat btw < 2 ^ 32"
    and g: "\<And>n. n \<in> file_sectors fs cs' \<Longrightarrow> n \<noteq> unat (fil_sect fp3) \<Longrightarrow> cache_view sec fp2 f2 n = view f n"
      "unat (fptr fp) mod 512 \<noteq> 0 \<or> fptr fp < objsize (obj fp) \<Longrightarrow> fil_buf fp3 = cache_view sec fp2 f2 (unat (fil_sect fp3))"
    and cp: "copy_to_cache wbuff btw fp3 = (w, fp4)"
  shows "0 < unat w \<and> unat w \<le> unat btw \<and> written cs fp fs (take (unat w) wbuff) cs' (advance w fp4) f"
proof -
  let ?p = "unat (fptr fp)"
  have s2: "static f2 = static fs" and s4: "static f = static f2" and vf: "vol f" and co2: "cache_ok sec fp2 f2 cs'"
    using gr fr by (simp_all add: file_frame_def file_grown_def)
  then have st: "static f = static fs" by simp
  note ss = static_sectors [OF st] and ss2 = static_sectors [OF s2]
  have "length cs \<le> length cs'" using gr frame_length [of drive ready sec nsec cs fs cs' f2] by (simp add: file_grown_def)
  then have "length cs * cluster_bytes fs \<le> length cs' * cluster_bytes fs" by (rule mult_right_mono) simp
  moreover have "unat (objsize (obj fp)) \<le> length cs * cluster_bytes fs" using assms(2) by (simp add: cache_ok_def)
  ultimately have le: "unat (objsize (obj fp)) \<le> length cs' * cluster_bytes fs" by linarith
  note cpt = cache_put [OF vf ch fp3(3) _ fp3(4) win _ _ bt(2) _ _ cp, unfolded fp3(1,2) ss, OF le p fp3(6)]
  have uw: "unat w = min (512 - ?p mod 512) (unat btw)" and co4: "cache_ok sec fp4 f cs'"
    using cpt(1,2) [of "cache_view sec fp2 f2"] g by blast+
  have "0 < unat btw" "?p mod 512 < 512" using bt(1) by (simp_all add: unat_gt_0)
  then have w: "0 < unat w" "?p mod 512 + unat w \<le> 512" "unat w \<le> unat btw" using uw by linarith+
  note sic = sector_in_cluster [OF assms(1) w(2)]
  have f4: "fptr fp4 = fptr fp" "objsize (obj fp4) = objsize (obj fp)" "fil_clust fp4 = fil_clust fp3" "fil_sect fp4 = fil_sect fp3"
    using cp fp3(1,2) by (auto simp: copy_to_cache_def Let_def)
  have "written cs fp fs (take (unat w) wbuff) cs' (advance (of_nat (unat w)) fp4) f"
  proof (rule written_advance [OF assms(1,2) gr fr co4 f4(1,2)])
    show "unat w = length (take (unat w) wbuff)" using w(3) bt(2) by simp
    show "unat (fil_sect fp4) = file_sector fs cs' ((?p + unat w) div 512)" if "(?p + unat w) mod 512 \<noteq> 0"
      using sic(2) [OF that] f4(4) fp3(6) by simp
    show "file_byte sec fp4 f cs' i = (if ?p \<le> i \<and> i < ?p + unat w then take (unat w) wbuff ! (i - ?p) else file_byte sec fp2 f2 cs' i)"
      if "i < length cs' * cluster_bytes fs" "i < unat (objsize (obj fp)) \<or> ?p \<le> i \<and> i < ?p + unat w" for i
      using cpt(3) [of "cache_view sec fp2 f2" i] g that ss2(1) by (auto simp: file_byte_def)
  qed (use w sic(1) bt(3) p f4(3) fp3(5) in simp_all)
  then show ?thesis using w by simp
qed

lemma direct_write_chunk:
  assumes "vol fs" and "cache_ok sec fp fs cs" and gr: "grown cs fp fs cs' fp2 f2" and nd: "\<not> dirty fp2"
    and fp2: "fptr fp2 = fptr fp" "objsize (obj fp2) = objsize (obj fp)" "fil_clust fp2 = cs' ! (unat (fptr fp) div cluster_bytes fs)"
    and p: "unat (fptr fp) < length cs' * cluster_bytes fs" "unat (fptr fp) mod 512 = 0" and n: "unat n = file_sector fs cs' (unat (fptr fp) div 512)"
    and q: "unat q = unat (fptr fp) div 512 mod unat (csize fs)" and bt: "btw div SS > 0" "unat btw \<le> length wbuff" "unat (fptr fp) + unat btw < 2 ^ 32"
  defines "cc \<equiv> whole_sectors btw q f2"
  defines "fp4 \<equiv> if fil_sect fp2 - n < cc then fp2\<lparr>fil_buf := take 512 (drop (512 * unat (fil_sect fp2 - n)) wbuff), fil_flag := fil_flag fp2 AND NOT FA_DIRTY\<rparr> else fp2"
  shows "\<exists>d. dio_write io drive (take (512 * unat cc) wbuff) n (unat cc) (dev f2) = Some (RES_OK, d) \<and>
     0 < unat (SS * cc) \<and> unat (SS * cc) \<le> unat btw \<and> written cs fp fs (take (unat (SS * cc)) wbuff) cs' (advance (SS * cc) fp4) (f2\<lparr>dev := d\<rparr>)"
proof -
  let ?p = "unat (fptr fp)" and ?b = "cluster_bytes fs" and ?c = "unat (csize fs)"
  have vf: "vol f2" "cache_ok sec fp2 f2 cs'" "static f2 = static fs" using gr by (simp_all add: file_grown_def file_frame_def)
  note st = static_sectors [OF vf(3)] and v = volD [OF vf(1)]
  have bd: "0 < unat btw div 512" using bt(1) by (simp add: SS_def unat_div_distrib word_less_nat_alt)
  have qc: "unat q < unat (csize f2)" using q v(7) st(9) by simp
  have "unat cc = min (unat btw div 512) (?c - unat q)" using whole_sectors_ok [OF v(6) qc] st(9) by (simp add: cc_def)
  then have c0: "0 < unat cc" "unat q + unat cc \<le> ?c" "512 * unat cc \<le> unat btw" using bd qc st(9) by (auto simp: min_def)
  have u: "unat (SS * cc) = 512 * unat cc" unfolding SS_def using c0(3) bt(3) by (subst unat_mult_small) simp_all
  then have on: "of_nat (512 * unat cc) = SS * cc" by (metis of_nat_unat ucast_id)
  have kf: "?p div 512 < length cs' * unat (csize f2)" "unat n = file_sector f2 cs' (?p div 512)" "?p div 512 mod unat (csize f2) + unat cc \<le> unat (csize f2)"
    using pointer_sector(1) [OF vf(1,2), of ?p] p(1) n c0(2) q st by simp_all
  have len: "512 * unat cc \<le> length wbuff" using c0(3) bt(2) by simp
  obtain d where d: "dio_write io drive (take (512 * unat cc) wbuff) n (unat cc) (dev f2) = Some (RES_OK, d)" "frame cs' f2 cs' (f2\<lparr>dev := d\<rparr>)"
    "cache_ok sec fp4 (f2\<lparr>dev := d\<rparr>) cs'" "\<And>i. i < length cs' * cluster_bytes f2 \<Longrightarrow> file_byte sec fp4 (f2\<lparr>dev := d\<rparr>) cs' i =
        (if 512 * (?p div 512) \<le> i \<and> i < 512 * (?p div 512) + 512 * unat cc then wbuff ! (i - 512 * (?p div 512)) else file_byte sec fp2 f2 cs' i)"
    using direct_put [OF vf(1,2) nd kf(1,3) c0(1) kf(2) len] unfolding fp4_def by blast
  have p5: "512 * (?p div 512) = ?p" using p(2) by (intro dvd_mult_div_cancel) (simp add: dvd_eq_mod_eq_0)
  have "512 * unat q + 512 * unat cc \<le> ?b" using c0(2) unfolding cluster_bytes_def by linarith
  then have in_c: "?p mod ?b + 512 * unat cc \<le> ?b" using q p(2) by (simp add: pointer_div)
  have md: "(?p + 512 * unat cc) mod 512 = 0" using p(2) by (metis mod_mult_self2)
  have "written cs fp fs (take (512 * unat cc) wbuff) cs' (advance (of_nat (512 * unat cc)) fp4) (f2\<lparr>dev := d\<rparr>)"
  proof (rule written_advance [OF assms(1,2) gr d(2,3)])
    show "file_byte sec fp4 (f2\<lparr>dev := d\<rparr>) cs' i =
      (if ?p \<le> i \<and> i < ?p + 512 * unat cc then take (512 * unat cc) wbuff ! (i - ?p) else file_byte sec fp2 f2 cs' i)"
      if "i < length cs' * ?b" for i using d(4) [of i] that st(3) unfolding p5 by auto
  qed (use fp2 c0 in_c bt(3) len p(1) md in \<open>simp_all add: fp4_def\<close>)
  then show ?thesis using d(1) u c0 unfolding on by auto
qed

lemma write_at_ok:
  assumes "vol fs" and "cache_ok sec fp fs cs" and gr: "grown cs fp fs cs' fp2 f2" and nd: "\<not> dirty fp2"
    and fp2: "fptr fp2 = fptr fp" "objsize (obj fp2) = objsize (obj fp)" "fil_clust fp2 = cs' ! (unat (fptr fp) div cluster_bytes fs)"
      "sclust (obj fp2) = hd cs'"
    and p: "unat (fptr fp) < length cs' * cluster_bytes fs" "unat (fptr fp) mod 512 = 0" and n: "unat n = file_sector fs cs' (unat (fptr fp) div 512)"
    and q: "unat q = unat (fptr fp) div 512 mod unat (csize fs)" and bt: "btw \<noteq> 0" "unat btw \<le> length wbuff" "unat (fptr fp) + unat btw < 2 ^ 32"
  shows "\<exists>w fp4 f4. write_at io wbuff btw q n fp2 f2 = Some (Inr (Some w), fp4, f4) \<and> 0 < unat w \<and> unat w \<le> unat btw \<and>
    written cs fp fs (take (unat w) wbuff) cs' (advance w fp4) f4"
proof -
  have vf: "vol f2" "cache_ok sec fp2 f2 cs'" "static f2 = static fs" using gr by (simp_all add: file_grown_def file_frame_def)
  note st = static_sectors [OF vf(3)]
  have pd: "pdrv f2 = drive" using volD(1) [OF vf(1)] by (simp add: window_ok_def)
  have ne: "cs' \<noteq> []" using p(1) by auto
  have nf: "unat n \<in> file_sectors f2 cs'" using n pointer_sector(1) [OF vf(1,2), of "unat (fptr fp)"] p(1) st by (simp add: file_sectors_def)
  note n0 = file_sectors_bounds(3) [OF vf(1,2) nf]
  show ?thesis
  proof (cases "btw div SS > 0")
    case True
    define cc where "cc = whole_sectors btw q f2"
    define fp4 where "fp4 = (if fil_sect fp2 - n < cc then fp2\<lparr>fil_buf := take 512 (drop (512 * unat (fil_sect fp2 - n)) wbuff), fil_flag := fil_flag fp2 AND NOT FA_DIRTY\<rparr> else fp2)"
    obtain d where d: "dio_write io drive (take (512 * unat cc) wbuff) n (unat cc) (dev f2) = Some (RES_OK, d)"
      "0 < unat (SS * cc)" "unat (SS * cc) \<le> unat btw" "written cs fp fs (take (unat (SS * cc)) wbuff) cs' (advance (SS * cc) fp4) (f2\<lparr>dev := d\<rparr>)"
      using direct_write_chunk [OF assms(1,2) gr nd fp2(1-3) p n q True bt(2,3)] unfolding cc_def fp4_def by blast
    have "write_at io wbuff btw q n fp2 f2 = Some (Inr (Some (SS * cc)), fp4, f2\<lparr>dev := d\<rparr>)"
      using True d(1) pd by (simp add: write_at_def Let_def cc_def [symmetric] fp4_def)
    then show ?thesis using d(2-4) by blast
  next
    case False
    define b where "b = (if fil_sect fp2 \<noteq> n \<and> fptr fp2 < objsize (obj fp2) then view f2 (unat n) else fil_buf fp2)"
    have "\<exists>f3. (if fil_sect fp2 \<noteq> n \<and> fptr fp2 < objsize (obj fp2) then load_cache io n fp2 f2 else Some (None, fp2, f2)) = Some (None, fp2\<lparr>fil_buf := b\<rparr>, f3) \<and>
       frame cs' f2 cs' f3 \<and> (\<forall>m \<in> file_sectors f2 cs'. view f3 m = view f2 m) \<and> chain (n_fatent f3) (fat sec f3) cs' \<and> unat (winsect f3) \<notin> file_sectors f3 cs'"
    proof (cases "fil_sect fp2 \<noteq> n \<and> fptr fp2 < objsize (obj fp2)")
      case True
      obtain f3 where f3: "load_cache io n fp2 f2 = Some (None, fp2\<lparr>fil_buf := view f2 (unat n)\<rparr>, f3)"
        "fkept cs' fp2 f2 (fp2\<lparr>fil_buf := view f2 (unat n), fil_sect := n\<rparr>) f3" using load_ok [OF vf(1,2) nd nf] by blast
      have "\<forall>m \<in> file_sectors f2 cs'. view f3 m = view f2 m" using f3(2) nd by (simp add: file_kept_def cache_view_def)
      moreover have "chain (n_fatent f3) (fat sec f3) cs'" "unat (winsect f3) \<notin> file_sectors f3 cs'"
        using f3(2) ne by (simp_all add: file_kept_def cache_ok_def)
      ultimately show ?thesis using f3 True fkept_grown [OF vf(1,2) f3(2)] by (simp add: b_def file_grown_def)
    next
      case same: False
      have "fkept cs' fp2 f2 fp2 f2" using vf by (simp add: file_kept_def)
      then have "frame cs' f2 cs' f2" using fkept_grown [OF vf(1,2)] by (simp add: file_grown_def)
      moreover have "(if fil_sect fp2 \<noteq> n \<and> fptr fp2 < objsize (obj fp2) then load_cache io n fp2 f2 else Some (None, fp2, f2)) = Some (None, fp2\<lparr>fil_buf := b\<rparr>, f2)"
        unfolding b_def if_not_P [OF same] by simp
      ultimately show ?thesis using vf(2) ne by (auto simp: cache_ok_def)
    qed
    then obtain f3 where f3: "(if fil_sect fp2 \<noteq> n \<and> fptr fp2 < objsize (obj fp2) then load_cache io n fp2 f2 else Some (None, fp2, f2)) = Some (None, fp2\<lparr>fil_buf := b\<rparr>, f3)"
      "frame cs' f2 cs' f3" "\<forall>m \<in> file_sectors f2 cs'. view f3 m = view f2 m" "chain (n_fatent f3) (fat sec f3) cs'" "unat (winsect f3) \<notin> file_sectors f3 cs'" by blast
    define fp3 where "fp3 = fp2\<lparr>fil_buf := b, fil_sect := n\<rparr>"
    obtain w fp4 where cp: "copy_to_cache wbuff btw fp3 = (w, fp4)" by fastforce
    have lb: "length b = 512" using length_view [OF volD(1) [OF vf(1)]] vf(2) by (simp add: b_def cache_ok_def)
    have cv: "cache_view sec fp2 f2 = view f2" using nd by (simp add: cache_view_def fun_eq_iff)
    have "n \<noteq> 0" using n0 by auto
    then have bv: "b = view f2 (unat n)" if "fptr fp < objsize (obj fp)"
      using that fp2 vf(2) nd by (cases "fil_sect fp2 = n") (simp_all add: b_def cache_ok_def)
    have "0 < unat w \<and> unat w \<le> unat btw \<and> written cs fp fs (take (unat w) wbuff) cs' (advance w fp4) f3"
      by (rule put_chunk [OF assms(1,2) gr f3(2,4,5) _ _ _ _ _ _ p(1) bt _ _ cp])
        (use fp2 lb n p(2) f3(3) st bv cv in \<open>simp_all add: fp3_def\<close>)
    moreover have "write_at io wbuff btw q n fp2 f2 = Some (Inr (Some w), fp4, f3)"
      using False f3(1) cp by (simp add: write_at_def fp3_def split del: if_split)
    ultimately show ?thesis by blast
  qed
qed

lemma write_chunk_ok:
  assumes "vol fs" and "file_ok sec fp fs cs" and "window_used sec fs" and bt: "btw \<noteq> 0" "unat btw \<le> length wbuff" "unat (fptr fp) + unat btw < 2 ^ 32"
  shows "(\<exists>w fp1 f cs'. write_chunk io wbuff btw fp fs = Some (Inr (Some w), fp1, f) \<and> 0 < unat w \<and> unat w \<le> unat btw \<and>
       written cs fp fs (take (unat w) wbuff) cs' (advance w fp1) f) \<or>
     (\<exists>f. write_chunk io wbuff btw fp fs = Some (Inr None, fp, f) \<and> free_set sec fs = {} \<and> grown cs fp fs cs fp f)"
proof -
  let ?p = "unat (fptr fp)" and ?q = "sector_offset_in_cluster fp fs"
  note v = volD [OF assms(1)]
  have co: "cache_ok sec fp fs cs" and po: "pointer_ok fp fs cs" using assms(2) by (simp_all add: file_ok_def)
  have pm: "?p mod 512 = unat (fptr fp mod SS)" by (simp add: SS_def unat_mod_distrib)
  have refl: "fkept cs fp fs fp fs" using assms(1) co by (simp add: file_kept_def)
  show ?thesis
  proof (cases "fptr fp mod SS = 0")
    case False
    then have m: "?p mod 512 \<noteq> 0" using pm by (simp add: unat_eq_zero)
    then have nz: "?p mod cluster_bytes fs \<noteq> 0" "0 < ?p" by (auto simp: pointer_div intro: gr0I)
    then have cl: "fil_clust fp = cs ! (?p div cluster_bytes fs)" "unat (fil_sect fp) = file_sector fs cs (?p div 512)"
      using po m pred_div by (simp_all add: pointer_ok_def)
    have "?p \<noteq> length cs * cluster_bytes fs" using nz(1) by auto
    then have p: "?p < length cs * cluster_bytes fs" using co po by (simp add: cache_ok_def pointer_ok_def word_le_nat_alt)
    then have ne: "cs \<noteq> []" by auto
    obtain w fp4 where cp: "copy_to_cache wbuff btw fp = (w, fp4)" by fastforce
    have gr: "grown cs fp fs cs fp fs" by (rule fkept_grown [OF assms(1) co refl])
    have s0: "fil_sect fp \<noteq> 0" using cl(2) v(4) by (auto simp: file_sector_def layout_def)
    have "0 < unat w \<and> unat w \<le> unat btw \<and> written cs fp fs (take (unat w) wbuff) cs (advance w fp4) fs"
      by (rule put_chunk [OF assms(1) co gr _ _ _ _ _ _ _ _ _ _ bt _ _ cp])
        (use gr co ne cl p s0 in \<open>simp_all add: file_grown_def cache_ok_def cache_view_def\<close>)
    then show ?thesis using False cp by (auto simp: write_chunk_def)
  next
    case True
    then have m: "?p mod 512 = 0" using pm by simp
    note wp = write_position_ok [OF assms(1-3) m]
    show ?thesis
    proof (cases "\<exists>f. (if ?q = 0 then write_cluster io fp fs else Some (Inr True, fp, fs)) = Some (Inr False, fp, f) \<and> free_set sec fs = {} \<and> grown cs fp fs cs fp f")
      case full: True
      then show ?thesis using True by (auto simp: write_chunk_def)
    next
      case False
      then obtain f cs' where f: "(if ?q = 0 then write_cluster io fp fs else Some (Inr True, fp, fs)) = Some (Inr True, place cs' fs fp, f)"
        "grown cs fp fs cs' (place cs' fs fp) f" "?p < length cs' * cluster_bytes fs" using wp(1) by blast
      define fp1 where "fp1 = place cs' fs fp"
      have vf: "vol f" "cache_ok sec fp1 f cs'" using f(2) by (simp_all add: file_grown_def file_frame_def fp1_def)
      define fp2 where "fp2 = fp1\<lparr>fil_flag := fil_flag fp1 AND NOT FA_DIRTY\<rparr>"
      obtain f2 where f2: "flush_cache io fp1 f = Some (None, fp2, f2)" "fkept cs' fp1 f fp2 f2" using flush_ok [OF vf] by (auto simp: fp2_def)
      have gr: "grown cs fp fs cs' fp2 f2" using grown_trans [OF assms(1)] f(2) fkept_grown [OF vf f2(2)] by (simp add: fp1_def)
      then have v2: "vol f2" "cache_ok sec fp2 f2 cs'" "static f2 = static fs" by (simp_all add: file_grown_def file_frame_def)
      note st = static_sectors [OF v2(3)]
      have fp2: "fptr fp2 = fptr fp" "objsize (obj fp2) = objsize (obj fp)" "fil_clust fp2 = cs' ! (?p div cluster_bytes fs)"
        "sclust (obj fp2) = hd cs'" "\<not> dirty fp2" by (simp_all add: fp2_def fp1_def clean_flag)
      define n where "n = clst2sect f2 (fil_clust fp2) + ?q"
      have n: "unat n = file_sector fs cs' (?p div 512)" "clst2sect f2 (fil_clust fp2) \<noteq> 0"
        using position_sector [OF v2(1,2), of ?p ?q] f(3) wp(2) fp2(3) st by (simp_all add: n_def)
      have chunk: "write_chunk io wbuff btw fp fs = write_at io wbuff btw ?q n fp2 f2"
        using True f(1) f2(1) n(2) by (simp add: write_chunk_def fp1_def [symmetric] n_def [symmetric] Let_def split del: if_split cong: if_cong)
      have "\<exists>w fp4 f4. write_at io wbuff btw ?q n fp2 f2 = Some (Inr (Some w), fp4, f4) \<and> 0 < unat w \<and> unat w \<le> unat btw \<and>
          written cs fp fs (take (unat w) wbuff) cs' (advance w fp4) f4"
        by (rule write_at_ok [OF assms(1) co gr fp2(5,1,2,3,4) f(3) m n(1) wp(2) bt])
      then show ?thesis unfolding chunk by blast
    qed
  qed
qed

lemma grown_written:
  assumes "vol fs" and "file_ok sec fp fs cs" and "grown cs fp fs cs fp f"
  shows "written cs fp fs [] cs fp f"
proof -
  have co: "cache_ok sec fp fs cs" and po: "pointer_ok fp fs cs" using assms(2) by (simp_all add: file_ok_def)
  have fr: "frame cs fs cs f" "cache_ok sec fp f cs" "static f = static fs" using assms(3) by (simp_all add: file_grown_def file_frame_def)
  have "pointer_ok fp f cs" using po static_sectors [OF fr(3)] by (simp add: pointer_ok_def)
  moreover have "file_byte sec fp f cs i = file_byte sec fp fs cs i" if "i < unat (objsize (obj fp))" for i
    using grown_bytes [OF assms(1) co assms(3)] that co by (simp add: cache_ok_def)
  moreover have "unat (fptr fp) \<le> unat (objsize (obj fp))" using po by (simp add: pointer_ok_def word_le_nat_alt)
  ultimately show ?thesis using fr by (auto simp: file_written_def file_ok_def)
qed

text \<open>The loop ends, and has written all of the bytes unless the disk is full.\<close>

lemma write_loop_ok:
  assumes "vol fs" and "file_ok sec fp fs cs" and "window_used sec fs" and "unat btw \<le> length wbuff" and "unat (fptr fp) + unat btw < 2 ^ 32"
  shows "\<exists>n fp' f cs'. write_loop io bw wbuff btw fp fs = Some (FR_OK, bw + of_nat n, fp', f) \<and> n \<le> unat btw \<and>
     written cs fp fs (take n wbuff) cs' fp' f \<and> (n < unat btw \<longrightarrow> free_set sec f = {})"
  using assms
proof (induction "unat btw" arbitrary: bw wbuff btw fp fs cs rule: less_induct)
  case less
  show ?case
  proof (cases "btw = 0")
    case True
    have "fkept cs fp fs fp fs" using less.prems(1,2) by (simp add: file_kept_def file_ok_def)
    then have "grown cs fp fs cs fp fs" using fkept_grown [OF less.prems(1)] less.prems(2) by (simp add: file_ok_def)
    then have "written cs fp fs [] cs (fp\<lparr>fil_flag := fil_flag fp OR FA_MODIFIED\<rparr>) fs" using grown_written [OF less.prems(1,2)] by simp
    then show ?thesis using True by (intro exI [of _ 0]) (subst write_loop.simps, auto)
  next
    case False
    consider w fp1 f cs' where "write_chunk io wbuff btw fp fs = Some (Inr (Some w), fp1, f)" "0 < unat w" "unat w \<le> unat btw"
        "written cs fp fs (take (unat w) wbuff) cs' (advance w fp1) f"
      | f where "write_chunk io wbuff btw fp fs = Some (Inr None, fp, f)" "free_set sec fs = {}" "grown cs fp fs cs fp f"
      using write_chunk_ok [OF less.prems(1-3) False less.prems(4,5)] by blast
    then show ?thesis
    proof cases
      case (1 w fp1 f cs')
      let ?fp = "advance w fp1"
      have l: "length (take (unat w) wbuff) = unat w" using 1(3) less.prems(4) by simp
      have fr: "frame cs fs cs' f" "vol f" "file_ok sec ?fp f cs'" "unat (fptr ?fp) = unat (fptr fp) + unat w"
        using 1(4) unfolding file_written_def file_frame_def l by simp_all
      have wu: "window_used sec f" by (rule frame_window_used [OF less.prems(1,3) fr(1)])
      have u: "unat (btw - w) = unat btw - unat w" using 1(3) by (simp add: unat_sub word_le_nat_alt)
      have lt: "unat (btw - w) < unat btw" "unat (btw - w) \<le> length (drop (unat w) wbuff)" "unat (fptr ?fp) + unat (btw - w) < 2 ^ 32"
        using u 1(2,3) less.prems(4,5) fr(4) by simp_all
      obtain n fp' f' cs'' where r: "write_loop io (bw + w) (drop (unat w) wbuff) (btw - w) ?fp f = Some (FR_OK, bw + w + of_nat n, fp', f')"
        "n \<le> unat (btw - w)" "written cs' ?fp f (take n (drop (unat w) wbuff)) cs'' fp' f'" "n < unat (btw - w) \<longrightarrow> free_set sec f' = {}"
        using less.hyps [OF lt(1) fr(2,3) wu lt(2,3)] by blast
      have "take (unat w) wbuff @ take n (drop (unat w) wbuff) = take (unat w + n) wbuff" by (simp add: take_add)
      then have "written cs fp fs (take (unat w + n) wbuff) cs'' fp' f'"
        using file_written_trans [OF 1(4) r(3) volD(7) [OF less.prems(1)]] by simp
      moreover have "write_loop io bw wbuff btw fp fs = Some (FR_OK, bw + of_nat (unat w + n), fp', f')"
        using False 1(1) r(1) by (subst write_loop.simps) (simp add: add.assoc)
      ultimately show ?thesis using r(2,4) u 1(3) by (intro exI [of _ "unat w + n"]) auto
    next
      case (2 f)
      have "free_set sec f = {}" using 2(2,3) by (simp add: file_grown_def file_frame_def)
      moreover have "written cs fp fs [] cs (fp\<lparr>fil_flag := fil_flag fp OR FA_MODIFIED\<rparr>) f" using grown_written [OF less.prems(1,2) 2(3)] by simp
      moreover have "write_loop io bw wbuff btw fp fs = Some (FR_OK, bw, fp\<lparr>fil_flag := fil_flag fp OR FA_MODIFIED\<rparr>, f)"
        using False 2(1) by (subst write_loop.simps) simp
      ultimately show ?thesis by (intro exI [of _ 0]) auto
    qed
  qed
qed

text \<open>A write puts bytes at the file pointer, all that are asked for unless the disk is full or the file would reach 4 GiB.\<close>

theorem f_write_ok:
  assumes "vol fs" and "file_ok sec fp fs cs" and "window_used sec fs" and "obj_fs (obj fp)" and "obj_id (obj fp) = fs_id fs" and "fil_err fp = FR_OK"
    and "fil_flag fp AND FA_WRITE \<noteq> 0" and "unat btw \<le> length buff"
  defines "m \<equiv> min (unat btw) (2 ^ 32 - 1 - unat (fptr fp))"
  shows "\<exists>n fp' fs' cs'. f_write io buff btw fp fs = Some (FR_OK, of_nat n, fp', fs') \<and> n \<le> m \<and>
     written cs fp fs (take n buff) cs' fp' fs' \<and> (n < m \<longrightarrow> free_set sec fs' = {})"
proof -
  have co: "cache_ok sec fp fs cs" using assms(2) by (simp add: file_ok_def)
  obtain d where d: "validate io (obj fp) fs = Some (FR_OK, fs\<lparr>dev := d\<rparr>)" "sees fs (fs\<lparr>dev := d\<rparr>)"
    using validate_ok [OF assms(1,4,5)] by blast
  let ?f = "fs\<lparr>dev := d\<rparr>"
  have "fkept cs fp fs (fp\<lparr>fil_clust := fil_clust fp\<rparr>) ?f" by (rule sees_fkept [OF assms(1) co d(2)])
  then have g: "grown cs fp fs cs fp ?f" using fkept_grown [OF assms(1) co] by simp
  note w0 = grown_written [OF assms(1,2) g]
  have v: "vol ?f" "file_ok sec fp ?f cs" "frame cs fs cs ?f" using w0 by (simp_all add: file_written_def file_frame_def)
  have wu: "window_used sec ?f" by (rule frame_window_used [OF assms(1,3) v(3)])
  define bt where "bt = (if fptr fp + btw < fptr fp then 0xFFFFFFFF - fptr fp else btw)"
  have "unat (fptr fp) < 2 ^ 32" "unat btw < 2 ^ 32" using unsigned_less [of "fptr fp"] unsigned_less [of btw] by simp_all
  then have bt: "unat bt = m"
    by (auto simp: bt_def m_def word_less_nat_alt unat_word_ariths unat_sub_if' mod_if)
  have h: "unat bt \<le> length buff" "unat (fptr fp) + unat bt < 2 ^ 32" using bt assms(8) \<open>unat (fptr fp) < 2 ^ 32\<close> by (auto simp: m_def)
  obtain n fp' f' cs' where r: "write_loop io 0 buff bt fp ?f = Some (FR_OK, 0 + of_nat n, fp', f')" "n \<le> unat bt"
     "written cs fp ?f (take n buff) cs' fp' f'" "n < unat bt \<longrightarrow> free_set sec f' = {}"
    using write_loop_ok [OF v(1,2) wu h] by blast
  have "written cs fp fs ([] @ take n buff) cs' fp' f'" by (rule file_written_trans [OF w0 r(3) volD(7) [OF assms(1)]])
  moreover have "f_write io buff btw fp fs = write_loop io 0 buff bt fp ?f"
    using d(1) assms(6,7) by (simp add: f_write_def bt_def Let_def)
  ultimately show ?thesis using r bt by auto
qed

end

end
