(* ===== verification/Fat_Seek.thy ===== *)
theory Fat_Seek
  imports Fat_Write
begin

text \<open>
  Synchronising, closing, seeking and truncating a file (\<^verbatim>\<open>fatfs/ff.c\<close>). A seek to an offset in the file only moves the
  pointer, in either direction and in either mode; with \<open>f_write\<close> and \<open>f_read\<close> it gives the round trip of a file: what is written
  is read back.
\<close>

section \<open>Synchronisation and closing\<close>

text \<open>The window with the updated directory entry of the file.\<close>

definition entry_update :: "'d FATFS \<Rightarrow> u32 \<Rightarrow> FIL \<Rightarrow> u8 list \<Rightarrow> u8 list" where
  "entry_update fs tm fp w =
     st_word (dir_ptr fp + DIR_LstAccDate) 0 (st_dword (dir_ptr fp + DIR_ModTime) tm
       (st_dword (dir_ptr fp + DIR_FileSize) (objsize (obj fp)) (st_clust fs (dir_ptr fp) (sclust (obj fp))
         (w[dir_ptr fp + DIR_Attr := w ! (dir_ptr fp + DIR_Attr) OR AM_ARC]))))"

text \<open>\<open>get_fattime\<close>, which is not part of FatFs, is the argument \<open>tm\<close>.\<close>

definition f_sync :: "'d dio \<Rightarrow> u32 \<Rightarrow> FIL \<Rightarrow> 'd FATFS \<Rightarrow> (fresult \<times> FIL \<times> 'd FATFS) option" where
  "f_sync io tm fp fs = do {
     (res, fs1) \<leftarrow> validate io (obj fp) fs;
     if res = FR_OK \<and> fil_flag fp AND FA_MODIFIED \<noteq> 0 then do {
       (e, fp2, fs2) \<leftarrow> flush_cache io fp fs1;
       case e of
         Some e \<Rightarrow> Some (e, fp2, fs2)
       | None \<Rightarrow> do {
           (res, fs3) \<leftarrow> move_window io (dir_sect fp2) fs2;
           if res = FR_OK then do {
             (res, fs4) \<leftarrow> sync_fs io (fs3\<lparr>win := entry_update fs3 tm fp2 (win fs3), wflag := True\<rparr>);
             Some (res, fp2\<lparr>fil_flag := fil_flag fp2 AND NOT FA_MODIFIED\<rparr>, fs4)
           }
           else Some (res, fp2, fs3)
         }
     }
     else Some (res, fp, fs1)
   }"

definition f_close :: "'d dio \<Rightarrow> u32 \<Rightarrow> FIL \<Rightarrow> 'd FATFS \<Rightarrow> (fresult \<times> FIL \<times> 'd FATFS) option" where
  "f_close io tm fp fs = do {
     (res, fp1, fs1) \<leftarrow> f_sync io tm fp fs;
     if res = FR_OK then do {
       (res, fs2) \<leftarrow> validate io (obj fp1) fs1;
       Some (res, if res = FR_OK then fp1\<lparr>obj := (obj fp1)\<lparr>obj_fs := False\<rparr>\<rparr> else fp1, fs2)
     }
     else Some (res, fp1, fs1)
   }"

section \<open>Moving the file pointer\<close>

text \<open>
  The loop that follows the clusters while the rest \<open>ofs\<close> of the offset is more than a cluster of \<open>bcs\<close> bytes: the rest and the
  cluster, or the error. A full disk ends the loop with the rest 0 and the cluster 0.
\<close>

partial_function (option) seek_loop :: "'d dio \<Rightarrow> u32 \<Rightarrow> u32 \<Rightarrow> u32 \<Rightarrow> FIL \<Rightarrow> 'd FATFS \<Rightarrow> ((fresult + u32 \<times> u32) \<times> FIL \<times> 'd FATFS) option" where
  "seek_loop io bcs ofs clst fp fs =
     (if ofs > bcs then do {
        let ofs = ofs - bcs;
        let fp1 = fp\<lparr>fptr := fptr fp + bcs\<rparr>;
        (clst, fs1) \<leftarrow> (if fil_flag fp1 AND FA_WRITE \<noteq> 0 then create_chain io clst fs else get_fat io clst fs);
        if fil_flag fp1 AND FA_WRITE \<noteq> 0 \<and> clst = 0 then Some (Inr (0, clst), fp1, fs1)
        else if clst = 0xFFFFFFFF then Some (Inl FR_DISK_ERR, fp1, fs1)
        else if clst \<le> 1 \<or> clst \<ge> n_fatent fs1 then Some (Inl FR_INT_ERR, fp1, fs1)
        else seek_loop io bcs ofs clst (fp1\<lparr>fil_clust := clst\<rparr>) fs1
      }
      else Some (Inr (ofs, clst), fp, fs))"

text \<open>Where the search starts: at the current cluster, or at the first, which is created if there is none.\<close>

definition seek_start :: "'d dio \<Rightarrow> u32 \<Rightarrow> u32 \<Rightarrow> u32 \<Rightarrow> FIL \<Rightarrow> 'd FATFS \<Rightarrow> ((fresult + u32 \<times> u32) \<times> FIL \<times> 'd FATFS) option" where
  "seek_start io bcs ifptr ofs fp fs =
     (if ifptr > 0 \<and> (ofs - 1) div bcs \<ge> (ifptr - 1) div bcs then
        let fp1 = fp\<lparr>fptr := (ifptr - 1) AND NOT (bcs - 1)\<rparr>
        in Some (Inr (ofs - fptr fp1, fil_clust fp1), fp1, fs)
      else if sclust (obj fp) = 0 then do {
        (clst, fs1) \<leftarrow> create_chain io 0 fs;
        if clst = 1 then Some (Inl FR_INT_ERR, fp, fs1)
        else if clst = 0xFFFFFFFF then Some (Inl FR_DISK_ERR, fp, fs1)
        else Some (Inr (ofs, clst), fp\<lparr>obj := (obj fp)\<lparr>sclust := clst\<rparr>, fil_clust := clst\<rparr>, fs1)
      }
      else Some (Inr (ofs, sclust (obj fp)), fp\<lparr>fil_clust := sclust (obj fp)\<rparr>, fs))"

text \<open>The file pointer is moved; the result is the sector it points into, 0 if it is at a boundary of sectors.\<close>

definition seek_to :: "'d dio \<Rightarrow> u32 \<Rightarrow> u32 \<Rightarrow> FIL \<Rightarrow> 'd FATFS \<Rightarrow> ((fresult + u32) \<times> FIL \<times> 'd FATFS) option" where
  "seek_to io ifptr ofs fp fs =
     (if ofs > 0 then do {
        let bcs = ucast (csize fs) * SS;
        (r, fp1, fs1) \<leftarrow> seek_start io bcs ifptr ofs fp fs;
        case r of
          Inl e \<Rightarrow> Some (Inl e, fp1, fs1)
        | Inr (ofs, clst) \<Rightarrow>
            if clst \<noteq> 0 then do {
              (r, fp2, fs2) \<leftarrow> seek_loop io bcs ofs clst fp1 fs1;
              case r of
                Inl e \<Rightarrow> Some (Inl e, fp2, fs2)
              | Inr (ofs, clst) \<Rightarrow>
                  let fp3 = fp2\<lparr>fptr := fptr fp2 + ofs\<rparr> in
                  if ofs mod SS \<noteq> 0 then
                    let nsect = clst2sect fs2 clst
                    in if nsect = 0 then Some (Inl FR_INT_ERR, fp3, fs2) else Some (Inr (nsect + ofs div SS), fp3, fs2)
                  else Some (Inr 0, fp3, fs2)
            }
            else Some (Inr 0, fp1, fs1)
      }
      else Some (Inr 0, fp, fs))"

text \<open>The cache is filled if the pointer is inside a sector that is not in it.\<close>

definition seek_fill :: "'d dio \<Rightarrow> u32 \<Rightarrow> FIL \<Rightarrow> 'd FATFS \<Rightarrow> (fresult \<times> FIL \<times> 'd FATFS) option" where
  "seek_fill io nsect fp fs =
     (if fptr fp mod SS \<noteq> 0 \<and> nsect \<noteq> fil_sect fp then do {
        (e, fp1, fs1) \<leftarrow> flush_cache io fp fs;
        case e of
          Some e \<Rightarrow> Some (e, fp1\<lparr>fil_err := e\<rparr>, fs1)
        | None \<Rightarrow> do {
            (e, fp2, fs2) \<leftarrow> load_cache io nsect fp1 fs1;
            case e of
              Some e \<Rightarrow> Some (e, fp2\<lparr>fil_err := e\<rparr>, fs2)
            | None \<Rightarrow> Some (FR_OK, fp2\<lparr>fil_sect := nsect\<rparr>, fs2)
          }
      }
      else Some (FR_OK, fp, fs))"

text \<open>The errors after the checks at the start abort: they stay in the file object.\<close>

definition f_lseek :: "'d dio \<Rightarrow> u32 \<Rightarrow> FIL \<Rightarrow> 'd FATFS \<Rightarrow> (fresult \<times> FIL \<times> 'd FATFS) option" where
  "f_lseek io ofs fp fs = do {
     (res, fs1) \<leftarrow> validate io (obj fp) fs;
     let res = (if res = FR_OK then fil_err fp else res);
     if res \<noteq> FR_OK then Some (res, fp, fs1)
     else do {
       let ofs = (if ofs > objsize (obj fp) \<and> fil_flag fp AND FA_WRITE = 0 then objsize (obj fp) else ofs);
       (r, fp2, fs2) \<leftarrow> seek_to io (fptr fp) ofs (fp\<lparr>fptr := 0\<rparr>) fs1;
       case r of
         Inl e \<Rightarrow> Some (e, fp2\<lparr>fil_err := e\<rparr>, fs2)
       | Inr nsect \<Rightarrow> do {
           let fp3 = (if fptr fp2 > objsize (obj fp2)
                      then fp2\<lparr>obj := (obj fp2)\<lparr>objsize := fptr fp2\<rparr>, fil_flag := fil_flag fp2 OR FA_MODIFIED\<rparr> else fp2);
           seek_fill io nsect fp3 fs2
         }
     }
   }"

section \<open>Truncation\<close>

definition f_truncate :: "'d dio \<Rightarrow> FIL \<Rightarrow> 'd FATFS \<Rightarrow> (fresult \<times> FIL \<times> 'd FATFS) option" where
  "f_truncate io fp fs = do {
     (res, fs1) \<leftarrow> validate io (obj fp) fs;
     if res \<noteq> FR_OK then Some (res, fp, fs1)
     else if fil_err fp \<noteq> FR_OK then Some (fil_err fp, fp, fs1)
     else if fil_flag fp AND FA_WRITE = 0 then Some (FR_DENIED, fp, fs1)
     else if fptr fp < objsize (obj fp) then do {
       (res, fp2, fs2) \<leftarrow> (if fptr fp = 0 then do {
           (res, f) \<leftarrow> remove_chain io (sclust (obj fp)) 0 fs1;
           Some (res, fp\<lparr>obj := (obj fp)\<lparr>sclust := 0\<rparr>\<rparr>, f)
         } else do {
           (ncl, f) \<leftarrow> get_fat io (fil_clust fp) fs1;
           let res = (if ncl = 1 then FR_INT_ERR else if ncl = 0xFFFFFFFF then FR_DISK_ERR else FR_OK);
           if res = FR_OK \<and> ncl < n_fatent f then do {
             (res, f) \<leftarrow> remove_chain io ncl (fil_clust fp) f;
             Some (res, fp, f)
           }
           else Some (res, fp, f)
         });
       let fp3 = fp2\<lparr>obj := (obj fp2)\<lparr>objsize := fptr fp2\<rparr>, fil_flag := fil_flag fp2 OR FA_MODIFIED\<rparr>;
       (res, fp4, fs4) \<leftarrow> (if res = FR_OK then do {
           (e, fp4, fs4) \<leftarrow> flush_cache io fp3 fs2;
           Some (case e of Some e \<Rightarrow> e | None \<Rightarrow> FR_OK, fp4, fs4)
         } else Some (res, fp3, fs2));
       Some (res, if res \<noteq> FR_OK then fp4\<lparr>fil_err := res\<rparr> else fp4, fs4)
     }
     else Some (res, fp, fs1)
   }"


section \<open>The file pointer moves to an offset in the file\<close>

lemma bcs_bytes:
  assumes "csize fs \<in> {1, 2, 4, 8, 16, 32, 64, 128}"
  shows "unat (ucast (csize fs) * SS) = cluster_bytes fs"
    "unat ((p :: u32) AND NOT (ucast (csize fs) * SS - 1)) = cluster_bytes fs * (unat p div cluster_bytes fs)"
proof -
  have "\<exists>k \<in> {9, 10, 11, 12, 13, 14, 15, 16}. ucast (csize fs) * SS - 1 = (mask k :: u32) \<and> unat (ucast (csize fs) * SS :: u32) = 2 ^ k \<and> 512 * unat (csize fs) = 2 ^ k"
    using assms by (simp only: insert_iff empty_iff SS_def) (elim disjE, simp_all add: mask_eq_exp_minus_1)
  then obtain k where k: "ucast (csize fs) * SS - 1 = (mask k :: u32)" "unat (ucast (csize fs) * SS :: u32) = 2 ^ k" "cluster_bytes fs = 2 ^ k"
    unfolding cluster_bytes_def by blast
  then show "unat (ucast (csize fs) * SS) = cluster_bytes fs" by simp
  have "p AND NOT (mask k) = push_bit k (drop_bit k p)" by (rule bit_word_eqI) (auto simp: bit_simps)
  moreover have lt: "unat p < 2 ^ 32" using unsigned_less [of p] by simp
  ultimately have "unat (p AND NOT (mask k)) = take_bit 32 (unat p div 2 ^ k * 2 ^ k)"
    by (simp only: unsigned_push_bit_eq unsigned_drop_bit_eq) (simp add: push_bit_eq_mult drop_bit_eq_div take_bit_nat_eq_self)
  moreover have "unat p div 2 ^ k * 2 ^ k < 2 ^ 32" using lt by (rule order.strict_trans1 [OF div_times_less_eq_dividend])
  ultimately have "unat (p AND NOT (mask k)) = unat p div 2 ^ k * 2 ^ k" by (simp only: take_bit_nat_eq_self)
  then show "unat (p AND NOT (ucast (csize fs) * SS - 1)) = cluster_bytes fs * (unat p div cluster_bytes fs)" using k by simp
qed

lemma file_kept_fptr: "file_kept drive ready sec nsec cs fp fs (fp'\<lparr>fptr := p\<rparr>) fs' = file_kept drive ready sec nsec cs fp fs fp' fs'"
  by (simp add: file_kept_def)

context disk_layer
begin

lemma sees_trans: "sees fs f \<Longrightarrow> sees f g \<Longrightarrow> sees fs g"
  using kept_trans step_trans by blast

lemma next_cluster_ok:
  assumes "vol fs" and "cache_ok sec fp fs cs" and "Suc i < length cs"
  shows "\<exists>f. (if b then create_chain io (cs ! i) fs else get_fat io (cs ! i) fs) = Some (cs ! Suc i, f) \<and> sees fs f"
proof (cases b)
  case True
  then show ?thesis using follow_ok [OF assms] by simp
next
  case False
  have c: "chain (n_fatent fs) (fat sec fs) cs" using assms(2,3) by (cases "cs = []") (simp_all add: cache_ok_def)
  then have "cluster fs (cs ! i)" using chain_cluster [OF c] assms(3) by (simp add: cluster_def)
  from get_fat_ok [OF volD(1,3) [OF assms(1)] this] show ?thesis using False chain_nth [OF c assms(3)] by simp
qed

lemma seek_loop_ok:
  assumes "vol fs" and "cache_ok sec fp fs cs" and "i < length cs" and "unat (fptr fp) = cluster_bytes fs * i" and "fil_clust fp = cs ! i"
    and "cluster_bytes fs * i + unat ofs \<le> length cs * cluster_bytes fs" and "0 < unat ofs" and "unat bcs = cluster_bytes fs"
    and "cluster_bytes fs * i + unat ofs < 2 ^ 32"
  shows "\<exists>j ofs' p f. seek_loop io bcs ofs (cs ! i) fp fs = Some (Inr (ofs', cs ! j), fp\<lparr>fptr := p, fil_clust := cs ! j\<rparr>, f) \<and> sees fs f \<and> j < length cs \<and>
     unat p = cluster_bytes fs * j \<and> unat p + unat ofs' = cluster_bytes fs * i + unat ofs \<and> 0 < unat ofs' \<and> unat ofs' \<le> cluster_bytes fs"
  using assms
proof (induction "unat ofs" arbitrary: ofs i fp fs rule: less_induct)
  case less
  let ?b = "cluster_bytes fs"
  note v = volD [OF less.prems(1)]
  show ?case
  proof (cases "ofs > bcs")
    case False
    then have "seek_loop io bcs ofs (cs ! i) fp fs = Some (Inr (ofs, cs ! i), fp\<lparr>fptr := fptr fp, fil_clust := cs ! i\<rparr>, fs)"
      using less.prems(5) by (subst seek_loop.simps) simp
    moreover have "sees fs fs" using v(1) by (simp add: kept_refl step_refl)
    moreover have "unat ofs \<le> ?b" using False less.prems(8) by (simp add: not_less word_le_nat_alt)
    moreover have "unat (fptr fp) + unat ofs = ?b * i + unat ofs" using less.prems(4) by simp
    ultimately show ?thesis using less.prems(3,4,7) by blast
  next
    case True
    have b0: "0 < ?b" using v(7) by (simp add: cluster_bytes_def)
    have gt: "?b < unat ofs" using True less.prems(8) by (simp add: word_less_nat_alt)
    have u: "unat (ofs - bcs) = unat ofs - ?b" "unat (fptr fp + bcs) = ?b * Suc i"
    proof -
      show "unat (ofs - bcs) = unat ofs - ?b" using gt less.prems(8) by (simp add: unat_sub word_le_nat_alt)
      show "unat (fptr fp + bcs) = ?b * Suc i" using gt less.prems(4,8,9) by (subst unat_add_small) simp_all
    qed
    have "?b * Suc i < ?b * length cs" using gt less.prems(6) by (simp add: mult.commute)
    then have si: "Suc i < length cs" by (rule mult_less_cancel1 [THEN iffD1, THEN conjunct2])
    define fp1 where "fp1 = fp\<lparr>fptr := fptr fp + bcs\<rparr>"
    obtain f where f: "(if fil_flag fp1 AND FA_WRITE \<noteq> 0 then create_chain io (cs ! i) fs else get_fat io (cs ! i) fs) = Some (cs ! Suc i, f)" "sees fs f"
      using next_cluster_ok [OF less.prems(1,2) si] by blast
    note sv = sees_vol [OF less.prems(1) f(2)]
    have c: "chain (n_fatent fs) (fat sec fs) cs" using less.prems(2) si by (cases "cs = []") (simp_all add: cache_ok_def)
    have "cluster fs (cs ! Suc i)" using chain_cluster [OF c] si by (simp add: cluster_def)
    then have z: "cs ! Suc i \<noteq> 0" "cs ! Suc i \<noteq> 0xFFFFFFFF" "\<not> (cs ! Suc i \<le> 1 \<or> n_fatent f \<le> cs ! Suc i)"
      using table_bound [OF v(3)] sv(6) by (auto simp: cluster_def word_less_nat_alt word_le_nat_alt)
    define fp2 where "fp2 = fp1\<lparr>fil_clust := cs ! Suc i\<rparr>"
    have step: "seek_loop io bcs ofs (cs ! i) fp fs = seek_loop io bcs (ofs - bcs) (cs ! Suc i) fp2 f"
      using True f(1) z by (subst seek_loop.simps) (simp add: fp1_def [symmetric] fp2_def Let_def)
    have "cache_ok sec fp2 f cs" using sees_cache(1) [OF less.prems(1) f(2) less.prems(2)] by (simp add: fp2_def fp1_def)
    moreover have "unat (ofs - bcs) < unat ofs" "?b * Suc i + unat (ofs - bcs) = ?b * i + unat ofs" "0 < unat (ofs - bcs)" using u(1) gt b0 by simp_all
    moreover have "unat (fptr fp2) = ?b * Suc i" "fil_clust fp2 = cs ! Suc i" using u(2) by (simp_all add: fp2_def fp1_def)
    ultimately obtain j ofs' p g where r: "seek_loop io bcs (ofs - bcs) (cs ! Suc i) fp2 f = Some (Inr (ofs', cs ! j), fp2\<lparr>fptr := p, fil_clust := cs ! j\<rparr>, g)"
      "sees f g" "j < length cs" "unat p = ?b * j" "unat p + unat ofs' = ?b * i + unat ofs" "0 < unat ofs'" "unat ofs' \<le> ?b"
      using less.hyps [of "ofs - bcs" f fp2 "Suc i"] sv(1,4) si less.prems(6,8,9) by auto
    have "fp2\<lparr>fptr := p, fil_clust := cs ! j\<rparr> = fp\<lparr>fptr := p, fil_clust := cs ! j\<rparr>" by (simp add: fp2_def fp1_def)
    then have "seek_loop io bcs ofs (cs ! i) fp fs = Some (Inr (ofs', cs ! j), fp\<lparr>fptr := p, fil_clust := cs ! j\<rparr>, g)" using step r(1) by simp
    then show ?thesis using r sees_trans [OF f(2) r(2)] by blast
  qed
qed

lemma seek_start_ok:
  assumes "vol fs" and "file_ok sec fp fs cs" and "0 < unat ofs" and "unat ofs \<le> unat (objsize (obj fp))"
  shows "\<exists>i p ofs'. seek_start io (ucast (csize fs) * SS) (fptr fp) ofs (fp\<lparr>fptr := 0\<rparr>) fs = Some (Inr (ofs', cs ! i), fp\<lparr>fptr := p, fil_clust := cs ! i\<rparr>, fs) \<and>
     i < length cs \<and> unat p = cluster_bytes fs * i \<and> unat p + unat ofs' = unat ofs \<and> 0 < unat ofs'"
proof -
  let ?b = "cluster_bytes fs" and ?bcs = "ucast (csize fs) * SS :: u32" and ?p = "unat (fptr fp)"
  note v = volD [OF assms(1)]
  note b = bcs_bytes [OF v(6)]
  have co: "cache_ok sec fp fs cs" and po: "pointer_ok fp fs cs" using assms(2) by (simp_all add: file_ok_def)
  have top: "unat ofs \<le> length cs * ?b" using co assms(4) by (simp add: cache_ok_def)
  have b0: "0 < ?b" using v(7) by (simp add: cluster_bytes_def)
  show ?thesis
  proof (cases "fptr fp > 0 \<and> (ofs - 1) div ?bcs \<ge> (fptr fp - 1) div ?bcs")
    case True
    define i where "i = (?p - 1) div ?b"
    define q where "q = (fptr fp - 1) AND NOT (?bcs - 1)"
    have p0: "0 < ?p" using True by (simp add: word_less_nat_alt)
    have m: "unat (fptr fp - 1) = ?p - 1" "unat (ofs - 1) = unat ofs - 1" using p0 assms(3) by (simp_all add: unat_sub word_le_nat_alt)
    have le: "i \<le> (unat ofs - 1) div ?b" using True m b(1) by (simp add: i_def word_le_nat_alt unat_div_distrib)
    have q: "unat q = ?b * i" using b(2) [of "fptr fp - 1"] m(1) by (simp add: q_def i_def)
    have "?b * i \<le> ?b * ((unat ofs - 1) div ?b)" using le by simp
    also have "\<dots> \<le> unat ofs - 1" by (simp add: mult.commute)
    finally have lt: "?b * i < unat ofs" using assms(3) by linarith
    then have "i * ?b < length cs * ?b" using top by (simp only: mult.commute [of ?b i])
    then have il: "i < length cs" by (rule mult_less_cancel2 [THEN iffD1, THEN conjunct2])
    have cl: "fil_clust fp = cs ! i" using po p0 by (simp add: pointer_ok_def i_def)
    have "unat (ofs - q) = unat ofs - ?b * i" using q lt by (simp add: unat_sub word_le_nat_alt)
    moreover have "seek_start io ?bcs (fptr fp) ofs (fp\<lparr>fptr := 0\<rparr>) fs = Some (Inr (ofs - q, cs ! i), fp\<lparr>fptr := q, fil_clust := cs ! i\<rparr>, fs)"
      using True cl by (simp add: seek_start_def q_def Let_def)
    ultimately show ?thesis using il q lt by (intro exI [of _ i] exI [of _ q] exI [of _ "ofs - q"]) simp
  next
    case False
    have ne: "cs \<noteq> []" using top assms(3) by auto
    then have ch: "chain (n_fatent fs) (fat sec fs) cs" and sc: "sclust (obj fp) = cs ! 0" using co by (simp_all add: cache_ok_def hd_conv_nth)
    have "cs ! 0 \<noteq> 0" using chain_cluster [OF ch, of "cs ! 0"] ne by auto
    then have "seek_start io ?bcs (fptr fp) ofs (fp\<lparr>fptr := 0\<rparr>) fs = Some (Inr (ofs, cs ! 0), fp\<lparr>fptr := 0, fil_clust := cs ! 0\<rparr>, fs)"
      using sc unfolding seek_start_def if_not_P [OF False] by simp
    then show ?thesis using ne assms(3) by (intro exI [of _ 0] exI [of _ "0 :: u32"] exI [of _ ofs]) simp
  qed
qed

lemma seek_sector:
  assumes "vol fs" and "cache_ok sec fp fs cs" and "j < length cs" and "r mod 512 \<noteq> 0" and "r \<le> cluster_bytes fs" and "unat q = r div 512"
  shows "unat (clst2sect fs (cs ! j) + q) = file_sector fs cs ((cluster_bytes fs * j + r) div 512)" "clst2sect fs (cs ! j) \<noteq> 0"
proof -
  let ?c = "unat (csize fs)"
  have c0: "0 < ?c" using volD(7) [OF assms(1)] .
  have e: "(cluster_bytes fs * j + r) div 512 = ?c * j + r div 512" unfolding cluster_bytes_def mult.assoc by simp
  have rc: "r div 512 < ?c"
  proof -
    have "r \<noteq> 512 * ?c" using assms(4) by auto
    then have "r < ?c * 512" using assms(5) by (simp add: cluster_bytes_def)
    then show ?thesis by (simp add: less_mult_imp_div_less)
  qed
  have ch: "chain (n_fatent fs) (fat sec fs) cs" using assms(2,3) by (cases "cs = []") (simp_all add: cache_ok_def)
  have q: "(?c * j + r div 512) div ?c = j" "(?c * j + r div 512) mod ?c = r div 512" using rc by simp_all
  have "?c * j + r div 512 < length cs * ?c" using q(1) assms(3) c0 by (metis div_less_iff_less_mult)
  note fb = file_sector_bounds [OF assms(1) ch this]
  have "of_nat (r div 512) = q" using assms(6) by (metis of_nat_unat ucast_id)
  then show "unat (clst2sect fs (cs ! j) + q) = file_sector fs cs ((cluster_bytes fs * j + r) div 512)" "clst2sect fs (cs ! j) \<noteq> 0"
    using fb(4,5) unfolding q e by simp_all
qed

lemma seek_to_ok:
  assumes "vol fs" and "file_ok sec fp fs cs" and "unat ofs \<le> unat (objsize (obj fp))"
  shows "\<exists>n c f. seek_to io (fptr fp) ofs (fp\<lparr>fptr := 0\<rparr>) fs = Some (Inr n, fp\<lparr>fptr := ofs, fil_clust := c\<rparr>, f) \<and> sees fs f \<and>
     (0 < unat ofs \<longrightarrow> c = cs ! ((unat ofs - 1) div cluster_bytes fs)) \<and> (unat ofs mod 512 \<noteq> 0 \<longrightarrow> unat n = file_sector fs cs (unat ofs div 512))"
proof (cases "ofs = 0")
  case True
  moreover have "sees fs fs" using volD(1) [OF assms(1)] by (simp add: kept_refl step_refl)
  ultimately show ?thesis by (intro exI [of _ "0 :: u32"] exI [of _ "fil_clust fp"] exI [of _ fs]) (simp add: seek_to_def)
next
  case False
  let ?b = "cluster_bytes fs" and ?bcs = "ucast (csize fs) * SS :: u32"
  note v = volD [OF assms(1)]
  have co: "cache_ok sec fp fs cs" using assms(2) by (simp add: file_ok_def)
  have o0: "0 < unat ofs" "0 < ofs" using False by (simp_all add: unat_gt_0 word_gt_0)
  have b0: "0 < ?b" using v(7) by (simp add: cluster_bytes_def)
  have top: "unat ofs \<le> length cs * ?b" using co assms(3) by (simp add: cache_ok_def)
  obtain i p ofs' where s: "seek_start io ?bcs (fptr fp) ofs (fp\<lparr>fptr := 0\<rparr>) fs = Some (Inr (ofs', cs ! i), fp\<lparr>fptr := p, fil_clust := cs ! i\<rparr>, fs)"
    "i < length cs" "unat p = ?b * i" "unat p + unat ofs' = unat ofs" "0 < unat ofs'" using seek_start_ok [OF assms(1,2) o0(1) assms(3)] by blast
  let ?fp1 = "fp\<lparr>fptr := p, fil_clust := cs ! i\<rparr>"
  have "unat ofs < 2 ^ 32" using unsigned_less [of ofs] by simp
  then have h: "unat (fptr ?fp1) = ?b * i" "fil_clust ?fp1 = cs ! i" "?b * i + unat ofs' \<le> length cs * ?b" "?b * i + unat ofs' < 2 ^ 32" "cache_ok sec ?fp1 fs cs"
    using s(3,4) top co by simp_all
  obtain j r q f where l: "seek_loop io ?bcs ofs' (cs ! i) ?fp1 fs = Some (Inr (r, cs ! j), ?fp1\<lparr>fptr := q, fil_clust := cs ! j\<rparr>, f)" "sees fs f" "j < length cs"
     "unat q = ?b * j" "unat q + unat r = ?b * i + unat ofs'" "0 < unat r" "unat r \<le> ?b"
    using seek_loop_ok [OF assms(1) h(5) s(2) h(1-3) s(5) bcs_bytes(1) [OF v(6)] h(4)] by blast
  have t: "unat q + unat r = unat ofs" using l(5) s(3,4) by simp
  then have qr: "q + r = ofs" by (metis word_arith_nat_add of_nat_unat ucast_id)
  have ch: "chain (n_fatent fs) (fat sec fs) cs" using co s(2) by (cases "cs = []") (simp_all add: cache_ok_def)
  have "cs ! i \<noteq> 0" using chain_cluster [OF ch, of "cs ! i"] s(2) by auto
  define n where "n = (if r mod SS \<noteq> 0 then clst2sect f (cs ! j) + r div SS else 0)"
  have rm: "unat (r mod SS) = unat r mod 512" "unat (r div SS) = unat r div 512" by (simp_all add: SS_def unat_mod_distrib unat_div_distrib)
  have e: "clst2sect f = clst2sect fs" using l(2) kept_fields [of sec nsec fs f] by (simp add: clst2sect_def Let_def fun_eq_iff)
  have ss: "unat (clst2sect f (cs ! j) + r div SS) = file_sector fs cs (unat ofs div 512) \<and> clst2sect f (cs ! j) \<noteq> 0" if "r mod SS \<noteq> 0"
  proof -
    have "unat r mod 512 \<noteq> 0" using that rm(1) by (metis unat_eq_zero)
    from seek_sector [OF assms(1) co l(3) this l(7) rm(2)] show ?thesis using t l(4) e by simp
  qed
  have "unat ofs mod 512 = unat r mod 512" using t l(4) by (metis cluster_bytes_def mod_mult_self4 mult.assoc)
  then have n: "unat n = file_sector fs cs (unat ofs div 512)" if "unat ofs mod 512 \<noteq> 0"
  proof -
    have "r mod SS \<noteq> 0" using that rm(1) \<open>unat ofs mod 512 = unat r mod 512\<close> by (metis unat_0)
    then show ?thesis using ss by (simp add: n_def)
  qed
  have "(unat ofs - 1) div ?b = j" using t l(4,6,7) by (intro div_nat_eqI) simp_all
  moreover have "seek_to io (fptr fp) ofs (fp\<lparr>fptr := 0\<rparr>) fs = Some (Inr n, fp\<lparr>fptr := ofs, fil_clust := cs ! j\<rparr>, f)"
    using o0(2) s(1) l(1) \<open>cs ! i \<noteq> 0\<close> ss qr by (simp add: seek_to_def n_def Let_def)
  ultimately show ?thesis using l(2) n by blast
qed

text \<open>A seek within the file only moves the pointer.\<close>

theorem f_lseek_ok:
  assumes "vol fs" and "file_ok sec fp fs cs" and "obj_fs (obj fp)" and "obj_id (obj fp) = fs_id fs" and "fil_err fp = FR_OK"
    and "unat ofs \<le> unat (objsize (obj fp))"
  shows "\<exists>fp' fs'. f_lseek io ofs fp fs = Some (FR_OK, fp', fs') \<and> fkept cs fp fs fp' fs' \<and> file_ok sec fp' fs' cs \<and> fptr fp' = ofs \<and>
     fil_err fp' = FR_OK \<and> fil_flag fp' \<in> {fil_flag fp, fil_flag fp AND NOT FA_DIRTY}"
proof -
  let ?t = "unat ofs"
  have co: "cache_ok sec fp fs cs" and po: "pointer_ok fp fs cs" using assms(2) by (simp_all add: file_ok_def)
  obtain d where d: "validate io (obj fp) fs = Some (FR_OK, fs\<lparr>dev := d\<rparr>)" "sees fs (fs\<lparr>dev := d\<rparr>)"
    using validate_ok [OF assms(1,3,4)] by blast
  let ?f = "fs\<lparr>dev := d\<rparr>"
  note sv = sees_vol [OF assms(1) d(2)]
  have fo: "file_ok sec fp ?f cs" using sees_cache(1) [OF assms(1) d(2) co] po sv(2,4) by (simp add: file_ok_def pointer_ok_def)
  obtain n c f where s: "seek_to io (fptr fp) ofs (fp\<lparr>fptr := 0\<rparr>) ?f = Some (Inr n, fp\<lparr>fptr := ofs, fil_clust := c\<rparr>, f)" "sees ?f f"
     "0 < ?t \<longrightarrow> c = cs ! ((?t - 1) div cluster_bytes fs)" "?t mod 512 \<noteq> 0 \<longrightarrow> unat n = file_sector fs cs (?t div 512)"
    using seek_to_ok [OF sv(1) fo assms(6)] sv(2,4) by auto
  define fp1 where "fp1 = fp\<lparr>fptr := ofs, fil_clust := c\<rparr>"
  have "fkept cs fp fs (fp\<lparr>fil_clust := c\<rparr>) f" by (rule sees_fkept [OF assms(1) co sees_trans [OF d(2) s(2)]])
  moreover have "fp1 = fp\<lparr>fil_clust := c\<rparr>\<lparr>fptr := ofs\<rparr>" by (simp add: fp1_def)
  ultimately have k: "fkept cs fp fs fp1 f" by (simp only: file_kept_fptr)
  then have vf: "vol f" "cache_ok sec fp1 f cs" "static f = static fs" by (simp_all add: file_kept_def)
  have no: "\<not> ofs > objsize (obj fp)" using assms(6) by (simp add: not_less word_le_nat_alt)
  have call: "f_lseek io ofs fp fs = seek_fill io n fp1 f"
    using d(1) assms(5) s(1) no by (simp add: f_lseek_def fp1_def)
  have fp1: "fptr fp1 = ofs" by (simp add: fp1_def)
  have tm: "unat (ofs mod SS) = ?t mod 512" by (simp add: SS_def unat_mod_distrib)
  have pt: "pointer_ok fp' f' cs" if "fptr fp' = ofs" "obj fp' = obj fp" "fil_clust fp' = c" "static f' = static fs"
    "ofs mod SS \<noteq> 0 \<Longrightarrow> fil_sect fp' = n" for fp' f'
  proof -
    have "unat (fil_sect fp') = file_sector fs cs (?t div 512)" if "?t mod 512 \<noteq> 0"
      using s(4) that tm \<open>ofs mod SS \<noteq> 0 \<Longrightarrow> fil_sect fp' = n\<close> by (metis unat_0)
    then show ?thesis using that s(3) assms(6) static_sectors [OF that(4)] by (simp add: pointer_ok_def word_le_nat_alt)
  qed
  show ?thesis
  proof (cases "ofs mod SS \<noteq> 0 \<and> n \<noteq> fil_sect fp1")
    case False
    have "pointer_ok fp1 f cs" by (rule pt) (use False vf(3) in \<open>auto simp: fp1_def\<close>)
    moreover have "f_lseek io ofs fp fs = Some (FR_OK, fp1, f)" unfolding call seek_fill_def fp1 by (rule if_not_P [OF False])
    ultimately show ?thesis using k vf(2) assms(5) by (auto simp: file_ok_def fp1_def)
  next
    case True
    define fp2 where "fp2 = fp1\<lparr>fil_flag := fil_flag fp1 AND NOT FA_DIRTY\<rparr>"
    have t0: "?t mod 512 \<noteq> 0" using True tm by (metis unat_eq_zero)
    then have "?t < length cs * cluster_bytes fs"
      using assms(6) co pointer_div(2) [of ?t fs] by (cases "?t = length cs * cluster_bytes fs") (auto simp: cache_ok_def)
    then have nf: "unat n \<in> file_sectors f cs"
      using s(4) t0 pointer_sector(1) [OF assms(1) co] static_sectors(2) [OF vf(3)] by (simp add: file_sectors_def)
    obtain f2 b f3 where l: "flush_cache io fp1 f = Some (None, fp2, f2)" "load_cache io n fp2 f2 = Some (None, fp2\<lparr>fil_buf := b\<rparr>, f3)"
      "fkept cs fp1 f (fp2\<lparr>fil_buf := b, fil_sect := n\<rparr>) f3" using reload_ok [OF vf(1,2) nf] unfolding fp2_def by blast
    let ?fp3 = "fp2\<lparr>fil_buf := b, fil_sect := n\<rparr>"
    have k3: "fkept cs fp fs ?fp3 f3" by (rule file_kept_trans [OF k l(3)])
    then have v3: "cache_ok sec ?fp3 f3 cs" "static f3 = static fs" by (simp_all add: file_kept_def)
    have "pointer_ok ?fp3 f3 cs" by (rule pt) (use v3(2) in \<open>simp_all add: fp2_def fp1_def\<close>)
    moreover have "f_lseek io ofs fp fs = Some (FR_OK, ?fp3, f3)" unfolding call using True l(1,2) fp1 by (simp add: seek_fill_def)
    ultimately show ?thesis using k3 v3(1) assms(5) by (auto simp: file_ok_def fp2_def fp1_def)
  qed
qed

end

section \<open>What is written is read back\<close>

text \<open>The volume, the identity and the access mode of an open file.\<close>

definition handle :: "FIL \<Rightarrow> bool \<times> u16 \<times> u8" where
  "handle fp = (obj_fs (obj fp), obj_id (obj fp), fil_flag fp AND (FA_READ OR FA_WRITE))"

lemma mode_flags:
  "(w AND NOT FA_DIRTY) AND (FA_READ OR FA_WRITE) = w AND (FA_READ OR FA_WRITE)"
  "(w OR FA_DIRTY) AND (FA_READ OR FA_WRITE) = w AND (FA_READ OR FA_WRITE)"
  "(w OR FA_MODIFIED) AND (FA_READ OR FA_WRITE) = w AND (FA_READ OR FA_WRITE)"
proof -
  have m: "FA_READ OR FA_WRITE = mask 2" "\<not> bit FA_DIRTY n" "\<not> bit FA_MODIFIED n" if "n < 2" for n
    using that by (auto simp: FA_READ_def FA_WRITE_def FA_DIRTY_def FA_MODIFIED_def mask_eq_exp_minus_1 less_2_cases_iff bit_numeral_rec)
  then show "(w AND NOT FA_DIRTY) AND (FA_READ OR FA_WRITE) = w AND (FA_READ OR FA_WRITE)"
    "(w OR FA_DIRTY) AND (FA_READ OR FA_WRITE) = w AND (FA_READ OR FA_WRITE)"
    "(w OR FA_MODIFIED) AND (FA_READ OR FA_WRITE) = w AND (FA_READ OR FA_WRITE)"
    using m(1) [of 0] by (auto intro!: bit_word_eqI simp: bit_simps)
qed

text \<open>Writing keeps them, and the error state as long as there is no error.\<close>

abbreviation same_file :: "FIL \<Rightarrow> FIL \<Rightarrow> bool" where "same_file fp fp' \<equiv> handle fp' = handle fp \<and> fil_err fp' = fil_err fp"

lemma flush_cache_same: "flush_cache io fp fs = Some (e, fp', fs') \<Longrightarrow> same_file fp fp'"
  by (auto simp: flush_cache_def bind_eq_Some_conv handle_def mode_flags split: if_splits)

lemma load_cache_same: "load_cache io n fp fs = Some (e, fp', fs') \<Longrightarrow> same_file fp fp'"
  by (auto simp: load_cache_def bind_eq_Some_conv handle_def)

lemma copy_to_cache_same: "copy_to_cache b n fp = (w, fp') \<Longrightarrow> same_file fp fp'"
  by (auto simp: copy_to_cache_def Let_def handle_def mode_flags)

lemma write_cluster_same: "write_cluster io fp fs = Some (r, fp', fs') \<Longrightarrow> same_file fp fp'"
  by (auto simp: write_cluster_def bind_eq_Some_conv Let_def handle_def split: if_splits)

lemma handle_sect [simp]: "handle (fp\<lparr>fil_sect := n\<rparr>) = handle fp" "handle (fp\<lparr>fil_err := e\<rparr>) = handle fp" "handle (advance w fp) = handle fp"
  by (simp_all add: handle_def advance_def Let_def)

lemma write_at_same:
  assumes "write_at io b n csect sect fp fs = Some (r, fp', fs')"
  shows "same_file fp fp'"
proof (cases "n div SS > 0")
  case True
  then show ?thesis using assms by (auto simp: write_at_def bind_eq_Some_conv Let_def handle_def mode_flags split: if_splits)
next
  case False
  then obtain e fp1 fs1 where l: "(if fil_sect fp \<noteq> sect \<and> fptr fp < objsize (obj fp) then load_cache io sect fp fs else Some (None, fp, fs)) = Some (e, fp1, fs1)"
    "(case e of Some e \<Rightarrow> Some (Inl e, fp1, fs1)
      | None \<Rightarrow> let (wcnt, fp2) = copy_to_cache b n (fp1\<lparr>fil_sect := sect\<rparr>) in Some (Inr (Some wcnt), fp2, fs1)) = Some (r, fp', fs')"
    using assms by (auto simp: write_at_def bind_eq_Some_conv split del: if_split)
  have "same_file fp fp1" using l(1) by (auto dest: load_cache_same split: if_splits)
  then show ?thesis using l(2) copy_to_cache_same [of b n "fp1\<lparr>fil_sect := sect\<rparr>"] by (auto split: option.splits prod.splits)
qed

lemma write_chunk_same:
  assumes "write_chunk io b n fp fs = Some (r, fp', fs')"
  shows "same_file fp fp'"
proof (cases "fptr fp mod SS = 0")
  case False
  then show ?thesis using assms by (auto simp: write_chunk_def dest: copy_to_cache_same split: prod.splits)
next
  case True
  then obtain q fp1 fs1 where c: "(if sector_offset_in_cluster fp fs = 0 then write_cluster io fp fs else Some (Inr True, fp, fs)) = Some (q, fp1, fs1)"
    using assms by (auto simp: write_chunk_def Let_def bind_eq_Some_conv split del: if_split)
  then have s1: "same_file fp fp1" by (auto dest: write_cluster_same split: if_splits)
  show ?thesis
  proof (cases "q = Inr True")
    case False
    then show ?thesis using s1 assms True c by (auto simp: write_chunk_def Let_def split: sum.splits bool.splits)
  next
    case go: True
    then obtain e fp2 fs2 where f: "flush_cache io fp1 fs1 = Some (e, fp2, fs2)"
      using assms True c by (auto simp: write_chunk_def Let_def bind_eq_Some_conv split del: if_split)
    note s2 = flush_cache_same [OF f]
    show ?thesis
    proof (cases "e = None \<and> clst2sect fs2 (fil_clust fp2) \<noteq> 0")
      case True
      then have "write_at io b n (sector_offset_in_cluster fp fs) (clst2sect fs2 (fil_clust fp2) + sector_offset_in_cluster fp fs) fp2 fs2 = Some (r, fp', fs')"
        using assms \<open>fptr fp mod SS = 0\<close> c go f by (simp add: write_chunk_def Let_def)
      from write_at_same [OF this] show ?thesis using s1 s2 by simp
    next
      case False
      then have "fp' = fp2" using assms \<open>fptr fp mod SS = 0\<close> c go f by (auto simp: write_chunk_def Let_def split: option.splits)
      then show ?thesis using s1 s2 by simp
    qed
  qed
qed

lemma write_loop_same:
  assumes "write_loop io bw b n fp fs = Some y"
  shows "handle (fst (snd (snd y))) = handle fp \<and> (fst y = FR_OK \<and> fil_err fp = FR_OK \<longrightarrow> fil_err (fst (snd (snd y))) = FR_OK)"
proof (rule write_loop.raw_induct [OF _ assms, where P = "\<lambda>io bw b n fp fs y. handle (fst (snd (snd y))) = handle fp \<and>
    (fst y = FR_OK \<and> fil_err fp = FR_OK \<longrightarrow> fil_err (fst (snd (snd y))) = FR_OK)"])
  fix loop and io :: "'a dio" and bw b n fp fs and y :: "fresult \<times> u32 \<times> FIL \<times> 'a FATFS"
  assume ih: "\<And>io bw b n fp fs y. loop io bw b n fp fs = Some y \<Longrightarrow> handle (fst (snd (snd y))) = handle fp \<and>
      (fst y = FR_OK \<and> fil_err fp = FR_OK \<longrightarrow> fil_err (fst (snd (snd y))) = FR_OK)"
    and body: "(if n = 0 then Some (FR_OK, bw, fp\<lparr>fil_flag := fil_flag fp OR FA_MODIFIED\<rparr>, fs)
      else do {
        (r, fp1, fs1) \<leftarrow> write_chunk io b n fp fs;
        case r of
          Inl e \<Rightarrow> Some (e, bw, fp1\<lparr>fil_err := e\<rparr>, fs1)
        | Inr None \<Rightarrow> Some (FR_OK, bw, fp1\<lparr>fil_flag := fil_flag fp1 OR FA_MODIFIED\<rparr>, fs1)
        | Inr (Some wcnt) \<Rightarrow> loop io (bw + wcnt) (drop (unat wcnt) b) (n - wcnt) (advance wcnt fp1) fs1
      }) = Some y"
  show "handle (fst (snd (snd y))) = handle fp \<and> (fst y = FR_OK \<and> fil_err fp = FR_OK \<longrightarrow> fil_err (fst (snd (snd y))) = FR_OK)"
  proof (cases "n = 0")
    case True
    then show ?thesis using body by (auto simp: handle_def mode_flags)
  next
    case False
    then obtain c fp1 fs1 where c: "write_chunk io b n fp fs = Some (c, fp1, fs1)"
      "(case c of Inl e \<Rightarrow> Some (e, bw, fp1\<lparr>fil_err := e\<rparr>, fs1)
        | Inr None \<Rightarrow> Some (FR_OK, bw, fp1\<lparr>fil_flag := fil_flag fp1 OR FA_MODIFIED\<rparr>, fs1)
        | Inr (Some wcnt) \<Rightarrow> loop io (bw + wcnt) (drop (unat wcnt) b) (n - wcnt) (advance wcnt fp1) fs1) = Some y"
      using body by (auto simp: bind_eq_Some_conv)
    note s = write_chunk_same [OF c(1)]
    have adv: "fil_err (advance w fp1) = fil_err fp1" for w by (simp add: advance_def Let_def)
    show ?thesis
    proof (cases "\<exists>w. c = Inr (Some w)")
      case True
      then obtain w where "loop io (bw + w) (drop (unat w) b) (n - w) (advance w fp1) fs1 = Some y" using c(2) by auto
      from ih [OF this] show ?thesis using s adv by simp
    next
      case False
      then show ?thesis using c(2) s by (auto simp: handle_def mode_flags split: sum.splits option.splits)
    qed
  qed
qed

lemma f_write_same:
  assumes "f_write io b n fp fs = Some (FR_OK, w, fp', fs')" and "fil_err fp = FR_OK"
  shows "handle fp' = handle fp \<and> fil_err fp' = FR_OK"
proof -
  obtain r f where v: "validate io (obj fp) fs = Some (r, f)" using assms(1) by (cases "validate io (obj fp) fs") (auto simp: f_write_def)
  have "write_loop io 0 b (if fptr fp + n < fptr fp then 0xFFFFFFFF - fptr fp else n) fp f = Some (FR_OK, w, fp', fs')"
    using assms v by (cases "r = FR_OK"; cases "fil_flag fp AND FA_WRITE = 0") (simp_all add: f_write_def Let_def)
  from write_loop_same [OF this] show ?thesis using assms(2) by simp
qed

context disk_layer
begin

text \<open>The bytes that were written, after a seek back to where they begin.\<close>

theorem write_read_ok:
  assumes "vol fs" and "file_ok sec fp fs cs" and "window_used sec fs" and "obj_fs (obj fp)" and "obj_id (obj fp) = fs_id fs" and "fil_err fp = FR_OK"
    and "fil_flag fp AND FA_READ \<noteq> 0" and "fil_flag fp AND FA_WRITE \<noteq> 0" and "unat btw \<le> length buff" and "length buff2 = length buff"
  defines "m \<equiv> min (unat btw) (2 ^ 32 - 1 - unat (fptr fp))"
  shows "\<exists>n fp1 fs1 fp2 fs2 fp3 fs3 cs'.
     f_write io buff btw fp fs = Some (FR_OK, of_nat n, fp1, fs1) \<and> n \<le> m \<and> (n < m \<longrightarrow> free_set sec fs1 = {}) \<and>
     f_lseek io (fptr fp) fp1 fs1 = Some (FR_OK, fp2, fs2) \<and>
     f_read io buff2 (of_nat n) fp2 fs2 = Some (FR_OK, take n buff, fp3, fs3) \<and> file_ok sec fp3 fs3 cs' \<and> vol fs3"
proof -
  obtain n fp1 fs1 cs' where w: "f_write io buff btw fp fs = Some (FR_OK, of_nat n, fp1, fs1)" "n \<le> m" "written cs fp fs (take n buff) cs' fp1 fs1"
    "n < m \<longrightarrow> free_set sec fs1 = {}" using f_write_ok [OF assms(1-6,8,9)] unfolding m_def by blast
  have l: "length (take n buff) = n" using w(2) assms(9) by (simp add: m_def)
  note wd = w(3) [unfolded file_written_def l]
  have v1: "vol fs1" "static fs1 = static fs" "file_ok sec fp1 fs1 cs'" "unat (objsize (obj fp1)) = max (unat (objsize (obj fp))) (unat (fptr fp) + n)"
    using wd by (simp_all add: file_frame_def)
  note hd1 = f_write_same [OF w(1) assms(6)]
  have h1: "obj_fs (obj fp1)" "obj_id (obj fp1) = fs_id fs1" "fil_err fp1 = FR_OK" "fil_flag fp1 AND (FA_READ OR FA_WRITE) = fil_flag fp AND (FA_READ OR FA_WRITE)"
    using hd1 assms(4,5) static_sectors(11) [OF v1(2)] by (simp_all add: handle_def)
  have "unat (fptr fp) \<le> unat (objsize (obj fp1))" using v1(4) by simp
  then obtain fp2 fs2 where s: "f_lseek io (fptr fp) fp1 fs1 = Some (FR_OK, fp2, fs2)" "fkept cs' fp1 fs1 fp2 fs2" "file_ok sec fp2 fs2 cs'"
    "fptr fp2 = fptr fp" "fil_err fp2 = FR_OK" "fil_flag fp2 \<in> {fil_flag fp1, fil_flag fp1 AND NOT FA_DIRTY}"
    using f_lseek_ok [OF v1(1,3) h1(1-3)] by blast
  have v2: "vol fs2" "obj fp2 = obj fp1" "static fs2 = static fs1" using s(2) by (simp_all add: file_kept_def)
  have fl: "fil_flag fp2 AND (FA_READ OR FA_WRITE) = fil_flag fp AND (FA_READ OR FA_WRITE)" using s(6) h1(4) mode_flags(1) by auto
  have rd: "(x AND (FA_READ OR FA_WRITE)) AND FA_READ = x AND FA_READ" for x by (rule bit_word_eqI) (auto simp: bit_simps)
  have "fil_flag fp2 AND FA_READ \<noteq> 0" using assms(7) rd [of "fil_flag fp2"] rd [of "fil_flag fp"] fl by metis
  moreover have "unat (of_nat n :: u32) = n"
  proof -
    have "unat btw < 2 ^ 32" using unsigned_less [of btw] by simp
    then show ?thesis using w(2) by (simp add: m_def unat_of_nat)
  qed
  moreover have "obj_fs (obj fp2)" "obj_id (obj fp2) = fs_id fs2" using h1 v2 static_sectors(11) [OF v2(3)] by simp_all
  ultimately obtain fp3 fs3 where r: "f_read io buff2 (of_nat n) fp2 fs2 =
      Some (FR_OK, map (file_byte sec fp2 fs2 cs') [unat (fptr fp2)..<unat (fptr fp2) + min n (unat (objsize (obj fp2)) - unat (fptr fp2))], fp3, fs3)"
      "fkept cs' fp2 fs2 fp3 fs3" "file_ok sec fp3 fs3 cs'"
    using f_read_ok [OF v2(1) s(3) _ _ s(5), of "of_nat n" buff2] w(2) assms(9,10) by (auto simp: m_def)
  have mn: "min n (unat (objsize (obj fp2)) - unat (fptr fp2)) = n" using v1(4) v2(2) s(4) by (simp add: max_def)
  have "file_byte sec fp2 fs2 cs' i = take n buff ! (i - unat (fptr fp))" if "i \<in> set [unat (fptr fp)..<unat (fptr fp) + n]" for i
  proof -
    have "unat (objsize (obj fp1)) \<le> length cs' * cluster_bytes fs1" using v1(3) by (simp add: file_ok_def cache_ok_def)
    then have "i < length cs' * cluster_bytes fs1" using that v1(4) by simp
    from file_kept_bytes [OF s(2) this] show ?thesis using wd that by simp
  qed
  then have "map (file_byte sec fp2 fs2 cs') [unat (fptr fp)..<unat (fptr fp) + n] = take n buff"
    using l by (intro nth_equalityI) simp_all
  then show ?thesis using w s(1) r mn s(4) by (simp only: file_kept_def) blast
qed

end

end
