(* ===== verification/Fat_Sync.thy ===== *)
theory Fat_Sync
  imports Fat_Seek
begin

text \<open>
  What \<open>f_sync\<close> guarantees: afterwards the disk itself has the bytes of the file, its directory entry and the FAT, so that nothing of
  the file is lost with the memory.
\<close>

section \<open>Synchronising puts the file on the disk\<close>

lemma ld_word_cong: "b ! i = c ! i \<Longrightarrow> b ! (i + 1) = c ! (i + 1) \<Longrightarrow> ld_word b i = ld_word c i"
  by (simp add: ld_word_def)

lemma ld_dword_cong: "(\<And>j. i \<le> j \<Longrightarrow> j < i + 4 \<Longrightarrow> b ! j = c ! j) \<Longrightarrow> ld_dword b i = ld_dword c i"
  by (simp add: ld_dword_def)

lemma length_st_clust [simp]: "length (st_clust fs d c b) = length b"
  by (simp add: st_clust_def Let_def)

lemmas entry_fields = DIR_Attr_def DIR_LstAccDate_def DIR_FstClusHI_def DIR_ModTime_def DIR_FstClusLO_def DIR_FileSize_def

lemma entry_size:
  assumes "dir_ptr fp + 32 \<le> length w"
  shows "ld_dword (entry_update fs tm fp w) (dir_ptr fp + DIR_FileSize) = objsize (obj fp)"
proof -
  let ?b = "st_clust fs (dir_ptr fp) (sclust (obj fp)) (w[dir_ptr fp + DIR_Attr := w ! (dir_ptr fp + DIR_Attr) OR AM_ARC])"
  have "ld_dword (entry_update fs tm fp w) (dir_ptr fp + DIR_FileSize) =
    ld_dword (st_dword (dir_ptr fp + DIR_FileSize) (objsize (obj fp)) ?b) (dir_ptr fp + DIR_FileSize)"
    by (rule ld_dword_cong) (simp add: entry_update_def entry_fields nth_st_word nth_st_dword)
  then show ?thesis using assms by (simp add: ld_st_dword entry_fields)
qed

lemma entry_cluster:
  assumes "dir_ptr fp + 32 \<le> length w" and "fs_type fs \<noteq> FS_FAT32 \<Longrightarrow> sclust (obj fp) < 2 ^ 16"
  shows "ld_clust fs (entry_update fs tm fp w) (dir_ptr fp) = sclust (obj fp)"
proof -
  let ?d = "dir_ptr fp" and ?c = "sclust (obj fp)" and ?u = "entry_update fs tm fp w"
  define a where "a = w[?d + DIR_Attr := w ! (?d + DIR_Attr) OR AM_ARC]"
  have la: "length a = length w" by (simp add: a_def)
  have "ld_word ?u (?d + DIR_FstClusLO) = ld_word (st_clust fs ?d ?c a) (?d + DIR_FstClusLO)"
    "ld_word ?u (?d + DIR_FstClusHI) = ld_word (st_clust fs ?d ?c a) (?d + DIR_FstClusHI)"
    by (rule ld_word_cong; simp add: entry_update_def a_def entry_fields nth_st_word nth_st_dword)+
  moreover have "ld_word (st_clust fs ?d ?c a) (?d + DIR_FstClusLO) = ucast ?c"
  proof -
    have "ld_word (st_clust fs ?d ?c a) (?d + DIR_FstClusLO) = ld_word (st_word (?d + DIR_FstClusLO) (ucast ?c) a) (?d + DIR_FstClusLO)"
      by (rule ld_word_cong; simp add: st_clust_def Let_def entry_fields nth_st_word)
    then show ?thesis using assms(1) la by (simp add: ld_st_word entry_fields)
  qed
  moreover have "ld_word (st_clust fs ?d ?c a) (?d + DIR_FstClusHI) = ucast (drop_bit 16 ?c)" if "fs_type fs = FS_FAT32"
    using that assms(1) la by (simp add: st_clust_def Let_def ld_st_word entry_fields)
  ultimately show ?thesis
  proof (cases "fs_type fs = FS_FAT32")
    case True
    have "ucast (ucast ?c :: u16) OR push_bit 16 (ucast (ucast (drop_bit 16 ?c) :: u16)) = ?c"
      by (rule bit_word_eqI) (auto simp: bit_simps)
    then show ?thesis using True \<open>ld_word ?u (?d + DIR_FstClusLO) = _\<close> \<open>ld_word ?u (?d + DIR_FstClusHI) = _\<close>
        \<open>ld_word (st_clust fs ?d ?c a) (?d + DIR_FstClusLO) = ucast ?c\<close>
        \<open>fs_type fs = FS_FAT32 \<Longrightarrow> ld_word (st_clust fs ?d ?c a) (?d + DIR_FstClusHI) = ucast (drop_bit 16 ?c)\<close>
      by (simp add: ld_clust_def Let_def)
  next
    case False
    have "unat ?c < 2 ^ 16" using assms(2) [OF False] by (simp add: word_less_nat_alt)
    then have "take_bit 16 ?c = ?c" by (simp add: word_unat_eq_iff unsigned_take_bit_eq take_bit_nat_eq_self)
    then have "ucast (ucast ?c :: u16) = ?c" by (intro bit_word_eqI) (auto simp: bit_simps bit_eq_iff)
    then show ?thesis using False \<open>ld_word ?u (?d + DIR_FstClusLO) = _\<close> \<open>ld_word (st_clust fs ?d ?c a) (?d + DIR_FstClusLO) = ucast ?c\<close>
      by (simp add: ld_clust_def Let_def)
  qed
qed

context disk_layer
begin

text \<open>After \<open>sync_fs\<close> the disk has the volume.\<close>

lemma sync_fs_ok:
  assumes "ok fs" and info: "fs_type fs = FS_FAT32 \<and> fsi_flag fs = 1 \<Longrightarrow> unat (volbase fs + 1) < nsec (dev fs) \<and> unat (volbase fs + 1) \<notin> mirror fs"
  shows "\<exists>f. sync_fs io fs = Some (FR_OK, f) \<and> ok f \<and> \<not> wflag f \<and> nsec (dev f) = nsec (dev fs) \<and>
     (\<forall>n < nsec (dev fs). n \<notin> mirror fs \<longrightarrow> \<not> (fs_type fs = FS_FAT32 \<and> fsi_flag fs = 1 \<and> n = unat (volbase fs + 1)) \<longrightarrow> sec (dev f) n = view fs n)"
proof -
  obtain f where f: "sync_window io fs = Some (FR_OK, f)" "ok f" "keeps fs f" "\<not> wflag f" "winsect f = winsect fs" "win f = win fs"
    using sync_ok [OF assms(1)] by blast
  note k = kept_fields [OF f(3)]
  have clean: "sec (dev f) n = view fs n" if "n < nsec (dev fs)" "n \<notin> mirror fs" for n
    using clean_sector [OF f(2), of n] kept_sec [OF f(3) that] f(4) that k(17) by simp
  have pd: "pdrv f = drive" and rd: "ready (dev f)" using f(2) by (simp_all add: window_ok_def)
  show ?thesis
  proof (cases "fs_type f = FS_FAT32 \<and> fsi_flag f = 1")
    case False
    obtain d where d: "dio_sync io drive (dev f) = Some (RES_OK, d)" "ready d" "sec d = sec (dev f)" "nsec d = nsec (dev f)" using sync_law [OF rd] by blast
    have "sync_fs io fs = Some (FR_OK, f\<lparr>dev := d\<rparr>)" using f(1) d(1) pd by (simp add: sync_fs_def if_not_P [OF False])
    moreover have "ok (f\<lparr>dev := d\<rparr>)" using sees_dev [OF f(2) d(2-4)] by simp
    ultimately show ?thesis using f(4) d k clean by simp
  next
    case True
    define b where "b = st_dword FSI_Nxt_Free (last_clst f) (st_dword FSI_Free_Count (free_clst f)
             (st_dword FSI_StrucSig 0x61417272 (st_dword FSI_LeadSig 0x41615252 (st_word BS_55AA 0xAA55 (replicate 512 0)))))"
    have lb: "length b = 512" by (simp add: b_def)
    have n: "unat (volbase f + 1) < nsec (dev f)" "unat (volbase f + 1) \<notin> mirror f" using info True k by simp_all
    obtain d where d: "dio_write io drive b (volbase f + 1) (Suc 0) (dev f) = Some (RES_OK, d)" "ready d"
      "sec d = (sec (dev f))(unat (volbase f + 1) := b)" "nsec d = nsec (dev f)" using write_one [OF rd n(1) lb] by blast
    obtain d2 where d2: "dio_sync io drive d = Some (RES_OK, d2)" "ready d2" "sec d2 = sec d" "nsec d2 = nsec d" using sync_law [OF d(2)] by blast
    let ?g = "f\<lparr>win := b, winsect := volbase f + 1, dev := d2, fsi_flag := 0\<rparr>"
    have "sync_fs io fs = Some (FR_OK, ?g)" using f(1) True d(1) d2(1) pd by (simp add: sync_fs_def b_def [symmetric] Let_def)
    moreover have "ok ?g" using f(2,4) d d2 n lb by (auto simp: window_ok_def mirror_def)
    ultimately show ?thesis using f(4) d d2 k clean True by (intro exI [of _ ?g]) auto
  qed
qed

text \<open>The sectors of the directory entry and of the allocation information are not sectors of the file.\<close>

theorem f_sync_ok:
  assumes "vol fs" and "cache_ok sec fp fs cs" and "obj_fs (obj fp)" and "obj_id (obj fp) = fs_id fs" and "fil_flag fp AND FA_MODIFIED \<noteq> 0"
    and dir: "unat (dir_sect fp) < nsec (dev fs)" "unat (dir_sect fp) \<notin> mirror fs \<union> fat_area fs \<union> file_sectors fs cs" "dir_ptr fp + 32 \<le> 512"
    and info: "fs_type fs = FS_FAT32 \<Longrightarrow> unat (volbase fs + 1) < nsec (dev fs) \<and> unat (volbase fs + 1) \<notin> mirror fs \<union> fat_area fs \<union> file_sectors fs cs \<and>
      volbase fs + 1 \<noteq> dir_sect fp"
  shows "\<exists>fp' fs'. f_sync io tm fp fs = Some (FR_OK, fp', fs') \<and> fil_flag fp' AND (FA_MODIFIED OR FA_DIRTY) = 0 \<and> \<not> wflag fs' \<and>
     (\<forall>n \<in> file_sectors fs cs. sec (dev fs') n = cache_view sec fp fs n) \<and> (\<forall>n \<in> fat_area fs. sec (dev fs') n = view fs n) \<and>
     ld_dword (sec (dev fs') (unat (dir_sect fp))) (dir_ptr fp + DIR_FileSize) = objsize (obj fp) \<and>
     ld_clust fs (sec (dev fs') (unat (dir_sect fp))) (dir_ptr fp) = sclust (obj fp)"
proof -
  note v = volD [OF assms(1)]
  obtain d where d: "validate io (obj fp) fs = Some (FR_OK, fs\<lparr>dev := d\<rparr>)" "sees fs (fs\<lparr>dev := d\<rparr>)"
    using validate_ok [OF assms(1,3,4)] by blast
  let ?f = "fs\<lparr>dev := d\<rparr>"
  have "fkept cs fp fs (fp\<lparr>fil_clust := fil_clust fp\<rparr>) ?f" by (rule sees_fkept [OF assms(1,2) d(2)])
  then have k1: "fkept cs fp fs fp ?f" by simp
  define fp2 where "fp2 = fp\<lparr>fil_flag := fil_flag fp AND NOT FA_DIRTY\<rparr>"
  have v1: "vol ?f" "cache_ok sec fp ?f cs" using k1 by (simp_all add: file_kept_def)
  obtain f2 where f2: "flush_cache io fp ?f = Some (None, fp2, f2)" "fkept cs fp ?f fp2 f2" using flush_ok [OF v1] by (auto simp: fp2_def)
  have k2: "fkept cs fp fs fp2 f2" by (rule file_kept_trans [OF k1 f2(2)])
  then have v2: "vol f2" "static f2 = static fs" "nsec (dev f2) = nsec (dev fs)" by (simp_all add: file_kept_def)
  note st = static_sectors [OF v2(2)]
  have nd: "\<not> dirty fp2" by (simp add: fp2_def clean_flag)
  have fv: "view f2 n = cache_view sec fp fs n" if "n \<in> file_sectors fs cs" for n
    using k2 nd that unfolding file_kept_def by (metis (no_types, lifting) cache_view_def)
  have dv: "unat (dir_sect fp2) < nsec (dev f2)" "unat (dir_sect fp2) \<notin> mirror f2" using dir st v2(3) by (simp_all add: fp2_def)
  obtain f3 where f3: "move_window io (dir_sect fp2) f2 = Some (FR_OK, f3)" "ok f3" "keeps f2 f3" "winsect f3 = dir_sect fp2" "win f3 = view f2 (unat (dir_sect fp2))"
    using move_ok [OF volD(1) [OF v2(1)] dv] by blast
  note k3 = kept_fields [OF f3(3)]
  define w where "w = entry_update f3 tm fp2 (win f3)"
  have l3: "length (win f3) = 512" using f3(2) by (simp add: window_ok_def)
  then have lw: "length w = 512" by (simp add: w_def entry_update_def)
  have ws: "unat (winsect f3) < nsec (dev f3)" using f3(4) dv(1) k3(17) by simp
  define f4 where "f4 = f3\<lparr>win := w, wflag := True\<rparr>"
  have f4: "ok f4" "view f4 = (view f3)(unat (dir_sect fp2) := w)" using modify_ok [OF f3(2) ws lw] f3(4) by (simp_all add: f4_def)
  have eq4: "fs_type f4 = fs_type fs" "volbase f4 = volbase fs" "mirror f4 = mirror fs" "nsec (dev f4) = nsec (dev fs)" "fat_area f4 = fat_area fs"
    using k3 st v2 by (simp_all add: f4_def mirror_def fat_area_def static_def)
  have inf4: "fs_type f4 = FS_FAT32 \<and> fsi_flag f4 = 1 \<Longrightarrow> unat (volbase f4 + 1) < nsec (dev f4) \<and> unat (volbase f4 + 1) \<notin> mirror f4"
    using info eq4 by simp
  obtain f5 where f5: "sync_fs io f4 = Some (FR_OK, f5)" "ok f5" "\<not> wflag f5" "nsec (dev f5) = nsec (dev f4)"
    and disk5: "\<forall>n < nsec (dev f4). n \<notin> mirror f4 \<longrightarrow> \<not> (fs_type f4 = FS_FAT32 \<and> fsi_flag f4 = 1 \<and> n = unat (volbase f4 + 1)) \<longrightarrow> sec (dev f5) n = view f4 n"
    using sync_fs_ok [OF f4(1) inf4] by blast
  have on_disk: "sec (dev f5) n = (if n = unat (dir_sect fp) then w else view f2 n)"
    if "n < nsec (dev fs)" "n \<notin> mirror fs" "n \<in> fat_area fs \<union> file_sectors fs cs \<union> {unat (dir_sect fp)}" for n
  proof -
    have "\<not> (fs_type f4 = FS_FAT32 \<and> fsi_flag f4 = 1 \<and> n = unat (volbase f4 + 1))" using info that(3) unfolding eq4 by (auto simp: word_unat_eq_iff)
    then have "sec (dev f5) n = view f4 n" using disk5 that(1,2) eq4 by simp
    then show ?thesis using f4(2) kept_sec [OF f3(3), of n] that(1,2) st v2(3) by (simp add: fp2_def)
  qed
  have call: "f_sync io tm fp fs = Some (FR_OK, fp2\<lparr>fil_flag := fil_flag fp2 AND NOT FA_MODIFIED\<rparr>, f5)"
    using d(1) assms(5) f2(1) f3(1) f5(1) by (simp add: f_sync_def f4_def w_def)
  have fl: "((x AND NOT FA_DIRTY) AND NOT FA_MODIFIED) AND (FA_MODIFIED OR FA_DIRTY) = 0" for x by (rule bit_word_eqI) (auto simp: bit_simps)
  have files: "sec (dev f5) n = cache_view sec fp fs n" if "n \<in> file_sectors fs cs" for n
  proof -
    have "n \<noteq> unat (dir_sect fp)" using that dir(2) by auto
    then show ?thesis using on_disk [of n] file_sectors_bounds [OF assms(1,2) that] that fv by simp
  qed
  have fats: "sec (dev f5) n = view fs n" if "n \<in> fat_area fs" for n
  proof -
    have "n < nsec (dev fs)" "n \<notin> mirror fs" using that fat_limit [OF v(1)] by (auto simp: fat_area_def mirror_def split: if_splits)
    moreover have "n \<notin> file_sectors fs cs" using file_sectors_bounds(2) [OF assms(1,2)] that by auto
    ultimately have "view f2 n = view fs n" using k2 by (simp add: file_kept_def)
    moreover have "n \<noteq> unat (dir_sect fp)" using that dir(2) by auto
    ultimately show ?thesis using on_disk [of n] that \<open>n < nsec (dev fs)\<close> \<open>n \<notin> mirror fs\<close> by simp
  qed
  have entry: "sec (dev f5) (unat (dir_sect fp)) = w" using on_disk [of "unat (dir_sect fp)"] dir by simp
  have len: "dir_ptr fp2 + 32 \<le> length (win f3)" using dir(3) l3 by (simp add: fp2_def)
  have small: "sclust (obj fp2) < 2 ^ 16" if "fs_type f3 \<noteq> FS_FAT32"
  proof (cases "cs = []")
    case True
    then show ?thesis using assms(2) by (simp add: cache_ok_def fp2_def)
  next
    case False
    then have "sclust (obj fp) < n_fatent fs" using assms(2) chain_cluster [of "n_fatent fs" "fat sec fs" cs "hd cs"] by (simp add: cache_ok_def)
    moreover have "unat (n_fatent fs) < 2 ^ 16" using that v(3) k3(1) st(12) by (auto simp: table_ok_def fat_bits_def split: if_splits)
    ultimately show ?thesis by (simp add: word_less_nat_alt fp2_def)
  qed
  have "ld_clust fs = ld_clust f3" using k3(1) st(12) by (simp add: ld_clust_def fun_eq_iff)
  then have "ld_dword w (dir_ptr fp + DIR_FileSize) = objsize (obj fp)" "ld_clust fs w (dir_ptr fp) = sclust (obj fp)"
    using entry_size [OF len, where fs = f3 and tm = tm] entry_cluster [OF len small, where tm = tm] by (simp_all add: w_def fp2_def)
  then have ent: "ld_dword (sec (dev f5) (unat (dir_sect fp))) (dir_ptr fp + DIR_FileSize) = objsize (obj fp)"
    "ld_clust fs (sec (dev f5) (unat (dir_sect fp))) (dir_ptr fp) = sclust (obj fp)" unfolding entry by simp_all
  have "fil_flag (fp2\<lparr>fil_flag := fil_flag fp2 AND NOT FA_MODIFIED\<rparr>) AND (FA_MODIFIED OR FA_DIRTY) = 0" using fl by (simp add: fp2_def)
  then show ?thesis using call files fats f5(3) ent by blast
qed

end

end
