(* ===== verification/Fat_Disk.thy ===== *)
theory Fat_Disk
  imports Fs Fat_Sync
begin

text \<open>
  FatFs on the SD card: the disk functions of \<^verbatim>\<open>fs.c\<close>, which transfer words, are what FatFs calls with buffers of bytes, and on
  drive 0 they keep the laws FatFs relies on.
\<close>

section \<open>Buffers of bytes\<close>

fun words_of_bytes :: "u8 list \<Rightarrow> u32 list" where
  "words_of_bytes (a # b # c # d # bs) = le32 a b c d # words_of_bytes bs"
| "words_of_bytes _ = []"

text \<open>The functions FatFs calls; \<open>CTRL_SYNC\<close> is the only command it passes to \<open>disk_ioctl\<close>.\<close>

definition CTRL_SYNC :: nat where "CTRL_SYNC = 0"

definition fs_dio :: "ff usb_env \<Rightarrow> fs dio" where
  "fs_dio e =
     \<lparr>dio_status = \<lambda>p. disk_status (unat p),
      dio_initialize = \<lambda>p. disk_initialize (unat p),
      dio_read = \<lambda>p b n count s. map_option (\<lambda>(r, w, s1). (r, bytes_of_words w, s1)) (disk_read e (unat p) (words_of_bytes b) n count s),
      dio_write = \<lambda>p b n count s. disk_write e (unat p) (words_of_bytes b) n count s,
      dio_sync = \<lambda>p s. map_option (\<lambda>(r, _, s1). (r, s1)) (disk_ioctl (unat p) CTRL_SYNC 0 s)\<rparr>"

lemma bytes_of_words_simps [simp]:
  "bytes_of_words [] = []"
  "bytes_of_words (w # ws) = byte_of w 0 # byte_of w 1 # byte_of w 2 # byte_of w 3 # bytes_of_words ws"
  "bytes_of_words (vs @ ws) = bytes_of_words vs @ bytes_of_words ws"
  "length (bytes_of_words ws) = 4 * length ws"
  by (simp_all add: bytes_of_words_def length_concat comp_def sum_list_triv)

lemma words_of_bytes_of_words: "words_of_bytes (bytes_of_words ws) = ws"
  by (induction ws) simp_all

lemma bytes_of_words_of_bytes: "length bs mod 4 = 0 \<Longrightarrow> bytes_of_words (words_of_bytes bs) = bs"
  by (induction bs rule: words_of_bytes.induct) simp_all

lemma length_words_of_bytes: "length (words_of_bytes bs) = length bs div 4"
  by (induction bs rule: words_of_bytes.induct) simp_all

lemma bytes_take: "bytes_of_words (take m ws) = take (4 * m) (bytes_of_words ws)"
proof (induction ws arbitrary: m)
  case (Cons w ws)
  then show ?case by (cases m) (simp_all add: take_Cons')
qed simp

lemma bytes_drop: "bytes_of_words (drop m ws) = drop (4 * m) (bytes_of_words ws)"
proof (induction ws arbitrary: m)
  case (Cons w ws)
  then show ?case by (cases m) (simp_all add: drop_Cons')
qed simp

section \<open>Sectors of bytes\<close>

definition sd_sector :: "fs \<Rightarrow> nat \<Rightarrow> u8 list" where
  "sd_sector s n = bytes_of_words (map (disk (card (sd s))) [n * 128..<n * 128 + 128])"

definition sd_sectors :: "fs \<Rightarrow> nat" where
  "sd_sectors s = (if high_capacity (card (sd s)) then 2 ^ 32 - 1 else 2 ^ 23)"

lemma sector_bytes_words:
  "sector_bytes (\<lambda>n. bytes_of_words (map c [n * 128..<n * 128 + 128])) n count = bytes_of_words (map c [n * 128..<n * 128 + count * 128])"
proof (induction count)
  case 0
  then show ?case by (simp add: sector_bytes_def)
next
  case (Suc count)
  have "[n * 128..<n * 128 + Suc count * 128] = [n * 128..<n * 128 + count * 128] @ [(n + count) * 128..<(n + count) * 128 + 128]"
    using upt_add_eq_append [of "n * 128" "n * 128 + count * 128" 128] by (simp add: algebra_simps)
  then show ?case using Suc by (simp add: sector_bytes_def)
qed

lemma write_sector_words:
  assumes "length ws = 128 * count"
  shows "bytes_of_words (map (write_words c (n * 128) ws) [k * 128..<k * 128 + 128]) =
     put_sectors (\<lambda>n. bytes_of_words (map c [n * 128..<n * 128 + 128])) n (bytes_of_words ws) k"
proof (cases "n \<le> k \<and> k < n + count")
  case True
  then have "map (write_words c (n * 128) ws) [k * 128..<k * 128 + 128] = take 128 (drop (128 * (k - n)) ws)"
    using assms by (intro nth_equalityI) (auto simp: write_words_def algebra_simps)
  moreover have "k - n < count" using True by linarith
  ultimately show ?thesis using True assms by (simp add: put_sectors_def bytes_take bytes_drop)
next
  case False
  then have "map (write_words c (n * 128) ws) [k * 128..<k * 128 + 128] = map c [k * 128..<k * 128 + 128]"
    using assms by (auto simp: write_words_def)
  moreover have "\<not> (n \<le> k \<and> k - n < count)" using False by linarith
  ultimately show ?thesis using assms by (simp only: put_sectors_def) (auto simp del: map_eq_conv)
qed

lemma sd_disk_law:
  assumes "card_ready (sd s)" and "0 < count" and "count < 2 ^ 22" and "unat n + count \<le> sd_sectors s"
  shows "card_fits (sd s) n count"
  using assms by (auto simp: card_fits_def sd_sectors_def split: if_splits)

lemma sd_read:
  assumes "card_ready (sd s)" and "0 < count" and "count < 2 ^ 22" and "unat n + count \<le> sd_sectors s" and "length b = 512 * count"
  shows "\<exists>s'. dio_read (fs_dio e) 0 b n count s = Some (RES_OK, sector_bytes (sd_sector s) (unat n) count, s') \<and>
     card_ready (sd s') \<and> sd_sector s' = sd_sector s \<and> sd_sectors s' = sd_sectors s"
proof -
  have l: "length (words_of_bytes b) = count * 128" using assms(5) by (simp add: length_words_of_bytes)
  obtain s' where s': "disk_read e 0 (words_of_bytes b) n count s = Some (RES_OK, sectors (disk (card (sd s))) n count, s')"
    "card_ready (sd s')" "disk (card (sd s')) = disk (card (sd s))" "card_fits (sd s') = card_fits (sd s)"
    using sd_volume.rd_law [OF assms(1) sd_disk_law [OF assms(1-4)] l] by blast
  have "high_capacity (card (sd s')) = high_capacity (card (sd s))"
    using fun_cong [OF fun_cong [OF s'(4)], of "0x800000" 1] by (simp add: card_fits_def)
  then show ?thesis using s' by (simp add: fs_dio_def sectors_def sector_bytes_words sd_sector_def [abs_def] sd_sectors_def)
qed

lemma sd_write:
  assumes "card_ready (sd s)" and "0 < count" and "count < 2 ^ 22" and "unat n + count \<le> sd_sectors s" and "length b = 512 * count"
  shows "\<exists>s'. dio_write (fs_dio e) 0 b n count s = Some (RES_OK, s') \<and>
     card_ready (sd s') \<and> sd_sector s' = put_sectors (sd_sector s) (unat n) b \<and> sd_sectors s' = sd_sectors s"
proof -
  have l: "length (words_of_bytes b) = count * 128" using assms(5) by (simp add: length_words_of_bytes)
  obtain s' where s': "disk_write e 0 (words_of_bytes b) n count s = Some (RES_OK, s')" "card_ready (sd s')"
    "disk (card (sd s')) = write_words (disk (card (sd s))) (unat n * 128) (words_of_bytes b)" "card_fits (sd s') = card_fits (sd s)"
    using sd_volume.wr_law [OF assms(1) sd_disk_law [OF assms(1-4)] l] by blast
  have "high_capacity (card (sd s')) = high_capacity (card (sd s))"
    using fun_cong [OF fun_cong [OF s'(4)], of "0x800000" 1] by (simp add: card_fits_def)
  moreover have "sd_sector s' = put_sectors (sd_sector s) (unat n) b"
    using write_sector_words [of "words_of_bytes b" count] l bytes_of_words_of_bytes [of b] assms(5)
    by (simp add: fun_eq_iff sd_sector_def [abs_def] s'(3))
  ultimately show ?thesis using s'(1,2) by (simp add: fs_dio_def sd_sectors_def)
qed

interpretation sd_fat: disk_layer "fs_dio e" 0 "\<lambda>s. card_ready (sd s)" sd_sector sd_sectors for e
proof
  fix s :: fs and k
  show "length (sd_sector s k) = 512" by (simp add: sd_sector_def)
  show "sd_sectors s < 2 ^ 32" by (simp add: sd_sectors_def)
  assume r: "card_ready (sd s)"
  obtain m where m: "mmc_disk_status 0 (sd s) = Some (0, m)" "card_ready m" "card m = (card (sd s))\<lparr>app_cmd := False\<rparr>"
    using status_ready [OF r] by blast
  show "\<exists>st d'. dio_status (fs_dio e) 0 s = Some (st, d') \<and> st AND STA_NOINIT = 0 \<and> card_ready (sd d') \<and> sd_sector d' = sd_sector s \<and> sd_sectors d' = sd_sectors s"
    using m by (simp add: fs_dio_def disk_status_def sd_sector_def fun_eq_iff sd_sectors_def)
  show "\<exists>d'. dio_sync (fs_dio e) 0 s = Some (RES_OK, d') \<and> card_ready (sd d') \<and> sd_sector d' = sd_sector s \<and> sd_sectors d' = sd_sectors s"
    using m by (simp add: fs_dio_def disk_ioctl_def mmc_disk_ioctl_def CTRL_SYNC_def sd_sector_def fun_eq_iff sd_sectors_def)
qed (fact sd_read, fact sd_write)

end
