(* ===== verification/Fat_Card.thy ===== *)
theory Fat_Card
  imports Fat_Disk
begin

text \<open>
  FatFs on the SD card: the functions of \<^verbatim>\<open>fatfs/ff.c\<close> with the disk functions of \<^verbatim>\<open>fs.c\<close> below them, and the driver
  and the card below those. The theorems are about the contents of the card, before and after the calls. The concrete
  volumes at which they are evaluated are here too.
\<close>

section \<open>A volume on a card\<close>

text \<open>
  Drive 0: a card that is ready, and the volume on it. \<open>card_volume\<close> is what the functions on files need of a volume, a
  disk with a FAT that is well formed.
\<close>

abbreviation card_volume :: "fs FATFS \<Rightarrow> bool" where
  "card_volume \<equiv> volume_ok 0 (\<lambda>s. card_ready (sd s)) sd_sector sd_sectors"

abbreviation card_file :: "FIL \<Rightarrow> fs FATFS \<Rightarrow> u32 list \<Rightarrow> bool" where
  "card_file \<equiv> file_ok sd_sector"

text \<open>The conditions on a file object that is open in mode \<open>m\<close>.\<close>

definition opened :: "u8 \<Rightarrow> FIL \<Rightarrow> 'd FATFS \<Rightarrow> bool" where
  "opened m fp fs \<longleftrightarrow> obj_fs (obj fp) \<and> obj_id (obj fp) = fs_id fs \<and> fil_err fp = FR_OK \<and> fil_flag fp AND m \<noteq> 0"

section \<open>A volume for examples\<close>

text \<open>
  A FAT12 volume with four clusters of one sector: the FAT is sector 1, the root directory sector 2, the clusters are sectors 3 to 6. Cluster 2
  is the only cluster of a file of four bytes.
\<close>

definition demo_disk :: "nat \<Rightarrow> u32" where
  "demo_disk n = (if n = 128 then 0xFF000000 else if n = 129 then 0x0F else if n = 384 then 0x04030201 else 0)"

definition demo_sd :: fs where
  "demo_sd = (sdfs0 True)\<lparr>sd := (demo_card True 0 [])\<lparr>Stat := 0, CardType := CT_SD2 OR CT_BLOCK, card := (card (demo_card True 0 []))\<lparr>disk := demo_disk\<rparr>\<rparr>\<rparr>"

definition demo_volume :: "fs FATFS" where
  "demo_volume = \<lparr>fs_type = FS_FAT12, pdrv = 0, n_fats = 1, wflag = False, fsi_flag = 0x80, fs_id = 1, n_rootdir = 16, csize = 1,
     last_clst = 0xFFFFFFFF, free_clst = 0xFFFFFFFF, cdir = 0, n_fatent = 6, fsize = 1, volbase = 0, fatbase = 1, dirbase = 2, database = 3,
     winsect = 2, win = replicate 512 0, dev = demo_sd\<rparr>"

definition demo_file :: FIL where
  "demo_file = \<lparr>obj = \<lparr>obj_fs = True, obj_id = 1, obj_attr = 0, sclust = 2, objsize = 4\<rparr>, fil_flag = FA_READ OR FA_WRITE OR FA_MODIFIED, fil_err = FR_OK,
     fptr = 0, fil_clust = 0, fil_sect = 0, dir_sect = 2, dir_ptr = 0, fil_buf = replicate 512 0\<rparr>"

lemma demo_sd_ready: "card_ready (sd demo_sd)" "sd_sectors demo_sd = 2 ^ 32 - 1"
proof -
  have "mmc_live (sd demo_sd) = mmc_live (demo_card True 0 [])" by (simp add: mmc_live_def demo_sd_def)
  then show "card_ready (sd demo_sd)" using demo_live [of True 0 "[]"] by (simp add: card_ready_def) (simp add: demo_card_def demo_sd_def)
  show "sd_sectors demo_sd = 2 ^ 32 - 1" by (simp add: sd_sectors_def demo_sd_def demo_card_def)
qed

lemma demo_sector: "sd_sector demo_sd n = bytes_of_words (map demo_disk [n * 128..<n * 128 + 128])"
  by (simp add: sd_sector_def demo_sd_def)

lemma demo_sectors:
  "sd_sector demo_sd 2 = replicate 512 0" "sd_sector demo_sd 1 = [0, 0, 0, 0xFF, 0x0F] @ replicate 507 0" "take 4 (sd_sector demo_sd 3) = [1, 2, 3, 4]"
  unfolding demo_sector by code_simp+

lemma demo_fat: "fat sd_sector demo_volume c = (if c = 2 then 0xFFF else 0)" if "cluster demo_volume c" for c
proof -
  have "c = 2 \<or> c = 3 \<or> c = 4 \<or> c = 5"
  proof -
    have "unat c = 2 \<or> unat c = 3 \<or> unat c = 4 \<or> unat c = 5" using that by (auto simp: cluster_def demo_volume_def word_le_nat_alt word_less_nat_alt)
    then show ?thesis by (auto simp: word_unat_eq_iff)
  qed
  moreover have "vsec sd_sector demo_volume 1 = [0, 0, 0, 0xFF, 0x0F] @ replicate 507 0"
    using demo_sectors(2) by (simp add: vsec_def demo_volume_def)
  ultimately show ?thesis
    by (elim disjE) (simp_all add: fat_def fat_value_def fat_bytes_of_def byte_at_def demo_volume_def FS_FAT12_def)
qed

lemma demo_volume_ok: "card_volume demo_volume" "window_used sd_sector demo_volume"
proof -
  have w: "window_ok 0 (\<lambda>s. card_ready (sd s)) sd_sector sd_sectors demo_volume"
    using demo_sd_ready demo_sectors(1) by (simp add: window_ok_def demo_volume_def mirror_def)
  have "table_ok demo_volume" by (simp add: table_ok_def demo_volume_def fat_bits_def fat_bytes_def)
  moreover have "2 < n_fatent demo_volume" "n_fatent demo_volume - 2 < free_clst demo_volume" by (simp_all add: demo_volume_def)
  moreover have "\<forall>c. cluster demo_volume c \<longrightarrow> fat sd_sector demo_volume c \<noteq> 1" using demo_fat by simp
  ultimately have f: "fat_ok sd_sector demo_volume" by (simp add: fat_ok_def count_ok_def)
  have "layout (sd_sectors (dev demo_volume)) demo_volume" using demo_sd_ready(2) by (simp add: layout_def demo_volume_def)
  then show "card_volume demo_volume" using w f by (simp add: volume_ok_def) (simp add: demo_volume_def)
  show "window_used sd_sector demo_volume" by (simp add: window_used_def cluster_area_def demo_volume_def)
qed

lemma demo_sectors_of_file: "file_sectors demo_volume [2] = {3}"
  by (simp add: file_sectors_def file_sector_def demo_volume_def lessThan_Suc)

lemma demo_file_ok: "card_file demo_file demo_volume [2]" "opened m demo_file demo_volume \<longleftrightarrow> (FA_READ OR FA_WRITE OR FA_MODIFIED) AND m \<noteq> 0"
proof -
  have c: "chain (n_fatent demo_volume) (fat sd_sector demo_volume) [2]"
    using demo_fat [of 2] by (simp add: cluster_def) (simp add: demo_volume_def)
  have d: "cluster_bytes demo_volume = 512" "winsect demo_volume = 2" by (simp_all add: cluster_bytes_def demo_volume_def)
  show "card_file demo_file demo_volume [2]"
    unfolding file_ok_def cache_ok_def pointer_ok_def demo_sectors_of_file d using c
    by (simp add: demo_file_def FA_READ_def FA_WRITE_def FA_MODIFIED_def FA_DIRTY_def)
  show "opened m demo_file demo_volume \<longleftrightarrow> (FA_READ OR FA_WRITE OR FA_MODIFIED) AND m \<noteq> 0"
    by (simp add: opened_def demo_file_def demo_volume_def)
qed

section \<open>Files\<close>

text \<open>C5. Round trip of a file on the SD card. \<open>f_write\<close> returns \<open>FR_OK\<close> with a number of bytes that is less than asked for only
  when the disk is full or the file would reach 4 GiB; after \<open>f_lseek\<close> back to where the file pointer was, \<open>f_read\<close> returns \<open>FR_OK\<close> and
  exactly the bytes that were written. All loops end, wherever the pointer is and whatever is cached, and the file and the volume are valid afterwards.\<close>

theorem fat_file_round_trip:
  assumes "card_volume fs" and "card_file fp fs cs" and "window_used sd_sector fs" and "opened FA_READ fp fs" and "opened FA_WRITE fp fs"
    and "unat btw \<le> length buff" and "length buff2 = length buff"
  shows "\<exists>n fp1 fs1 fp2 fs2 fp3 fs3 cs'.
     f_write (fs_dio e) buff btw fp fs = Some (FR_OK, of_nat n, fp1, fs1) \<and> n \<le> min (unat btw) (2 ^ 32 - 1 - unat (fptr fp)) \<and>
     (n < min (unat btw) (2 ^ 32 - 1 - unat (fptr fp)) \<longrightarrow> free_set sd_sector fs1 = {}) \<and>
     f_lseek (fs_dio e) (fptr fp) fp1 fs1 = Some (FR_OK, fp2, fs2) \<and>
     f_read (fs_dio e) buff2 (of_nat n) fp2 fs2 = Some (FR_OK, take n buff, fp3, fs3) \<and> card_file fp3 fs3 cs' \<and> card_volume fs3"
  using sd_fat.write_read_ok [OF assms(1-3) _ _ _ _ _ assms(6,7)] assms(4,5) unfolding opened_def by blast

theorem fat_file_round_trip_witness:
  "\<exists>n fp1 fs1 fp2 fs2 fp3 fs3. f_write (fs_dio env0) [7, 8, 9] 3 demo_file demo_volume = Some (FR_OK, of_nat n, fp1, fs1) \<and> n \<le> 3 \<and>
     f_lseek (fs_dio env0) 0 fp1 fs1 = Some (FR_OK, fp2, fs2) \<and> f_read (fs_dio env0) [0, 0, 0] (of_nat n) fp2 fs2 = Some (FR_OK, take n [7, 8, 9], fp3, fs3)"
proof -
  have "fptr demo_file = 0" by (simp add: demo_file_def)
  moreover have "opened FA_READ demo_file demo_volume" "opened FA_WRITE demo_file demo_volume"
    unfolding demo_file_ok(2) by (simp_all add: FA_READ_def FA_WRITE_def FA_MODIFIED_def)
  moreover have "unat (3 :: u32) \<le> length [7, 8, 9 :: u8]" "length [0, 0, 0 :: u8] = length [7, 8, 9 :: u8]" "min (unat (3 :: u32)) (2 ^ 32 - 1 - unat (0 :: u32)) = 3"
    by simp_all
  ultimately show ?thesis
    using fat_file_round_trip [OF demo_volume_ok(1) demo_file_ok(1) demo_volume_ok(2), of 3 "[7, 8, 9]" "[0, 0, 0]" env0] by metis
qed

text \<open>C2. Writing a file on the SD card. \<open>f_write\<close> puts the bytes at the file pointer: the file then has them there and its other bytes
  as before (\<open>file_written\<close>), new clusters are taken from the free ones and put to the end of its chain, the FAT entries of the other clusters and
  every sector outside the FAT and the file are unchanged, and the number of free clusters stays right. Fewer bytes than asked for are
  written only when no cluster is free or the file would reach 4 GiB.\<close>

theorem fat_write_file:
  assumes "card_volume fs" and "card_file fp fs cs" and "window_used sd_sector fs" and "opened FA_WRITE fp fs" and "unat btw \<le> length buff"
  shows "\<exists>n fp' fs' cs'. f_write (fs_dio e) buff btw fp fs = Some (FR_OK, of_nat n, fp', fs') \<and>
     file_written 0 (\<lambda>s. card_ready (sd s)) sd_sector sd_sectors cs fp fs (take n buff) cs' fp' fs' \<and>
     n \<le> min (unat btw) (2 ^ 32 - 1 - unat (fptr fp)) \<and> (n < min (unat btw) (2 ^ 32 - 1 - unat (fptr fp)) \<longrightarrow> free_set sd_sector fs' = {})"
  using sd_fat.f_write_ok [OF assms(1-3) _ _ _ _ assms(5)] assms(4) unfolding opened_def by blast

theorem fat_write_file_witness:
  "\<exists>n fp' fs'. f_write (fs_dio env0) [7, 8, 9] 3 demo_file demo_volume = Some (FR_OK, of_nat n, fp', fs') \<and> n \<le> 3"
proof -
  have "fptr demo_file = 0" by (simp add: demo_file_def)
  moreover have "opened FA_WRITE demo_file demo_volume"
    unfolding demo_file_ok(2) by (simp add: FA_READ_def FA_WRITE_def FA_MODIFIED_def)
  ultimately show ?thesis using fat_write_file [OF demo_volume_ok(1) demo_file_ok(1) demo_volume_ok(2), of 3 "[7, 8, 9]" env0] by auto
qed

text \<open>C3. Reading a file on the SD card. \<open>f_read\<close>, which combines its sector cache, transfers of several sectors and the cluster chain,
  returns the same bytes as looking up each byte of the file on its own in the chain of its clusters (\<open>file_byte\<close>), from the file
  pointer up to the end of the file or of the request; it advances the pointer by their number and changes nothing of the volume (\<open>file_kept\<close>).\<close>

theorem fat_read_equals_bytes:
  assumes "card_volume fs" and "card_file fp fs cs" and "opened FA_READ fp fs" and "unat btr \<le> length buff"
  shows "\<exists>fp' fs'. f_read (fs_dio e) buff btr fp fs =
       Some (FR_OK, map (file_byte sd_sector fp fs cs) [unat (fptr fp)..<unat (fptr fp) + min (unat btr) (unat (objsize (obj fp)) - unat (fptr fp))], fp', fs') \<and>
     file_kept 0 (\<lambda>s. card_ready (sd s)) sd_sector sd_sectors cs fp fs fp' fs' \<and> card_file fp' fs' cs \<and>
     unat (fptr fp') = unat (fptr fp) + min (unat btr) (unat (objsize (obj fp)) - unat (fptr fp))"
  using sd_fat.f_read_ok [OF assms(1,2) _ _ _ _ assms(4)] assms(3) unfolding opened_def by blast

theorem fat_read_equals_bytes_witness:
  "\<exists>fp' fs'. f_read (fs_dio env0) (replicate 10 0) 10 demo_file demo_volume = Some (FR_OK, [1, 2, 3, 4], fp', fs') \<and> fptr fp' = 4"
proof -
  have d: "fptr demo_file = 0" "objsize (obj demo_file) = 4" "\<not> dirty demo_file"
    by (simp_all add: demo_file_def FA_READ_def FA_WRITE_def FA_MODIFIED_def FA_DIRTY_def)
  have b: "file_byte sd_sector demo_file demo_volume [2] i = take 4 (sd_sector demo_sd 3) ! i" if "i < 4" for i
    using d(3) that by (simp add: file_byte_def cache_view_def vsec_def file_sector_def) (simp add: demo_volume_def)
  have "map (file_byte sd_sector demo_file demo_volume [2]) [0..<4] = [1, 2, 3, 4]"
    unfolding demo_sectors(3) [symmetric] by (rule nth_equalityI) (simp_all add: b demo_sectors(3))
  moreover have "opened FA_READ demo_file demo_volume"
    unfolding demo_file_ok(2) by (simp add: FA_READ_def FA_WRITE_def FA_MODIFIED_def)
  ultimately show ?thesis
    using fat_read_equals_bytes [OF demo_volume_ok(1) demo_file_ok(1), of 10 "replicate 10 0" env0] by (auto simp: d word_unat_eq_iff)
qed

text \<open>C6. Synchronising a file on the SD card. After \<open>f_sync\<close> of a changed file the card itself, and not only the memory, has every sector of the
  file as the program has written it, the FAT, and a directory entry with the size and the first cluster of the file.\<close>

theorem fat_sync_durable:
  assumes "card_volume fs" and "card_file fp fs cs" and "opened FA_MODIFIED fp fs"
    and "unat (dir_sect fp) < sd_sectors (dev fs)" and "unat (dir_sect fp) \<notin> mirror fs \<union> fat_area fs \<union> file_sectors fs cs" and "dir_ptr fp + 32 \<le> 512"
    and "fs_type fs = FS_FAT32 \<Longrightarrow> unat (volbase fs + 1) < sd_sectors (dev fs) \<and> unat (volbase fs + 1) \<notin> mirror fs \<union> fat_area fs \<union> file_sectors fs cs \<and>
      volbase fs + 1 \<noteq> dir_sect fp"
  shows "\<exists>fp' fs'. f_sync (fs_dio e) tm fp fs = Some (FR_OK, fp', fs') \<and> fil_flag fp' AND (FA_MODIFIED OR FA_DIRTY) = 0 \<and> \<not> wflag fs' \<and>
     (\<forall>n \<in> file_sectors fs cs. sd_sector (dev fs') n = cache_view sd_sector fp fs n) \<and>
     (\<forall>n \<in> fat_area fs. sd_sector (dev fs') n = vsec sd_sector fs n) \<and>
     ld_dword (sd_sector (dev fs') (unat (dir_sect fp))) (dir_ptr fp + DIR_FileSize) = objsize (obj fp) \<and>
     ld_clust fs (sd_sector (dev fs') (unat (dir_sect fp))) (dir_ptr fp) = sclust (obj fp)"
  using sd_fat.f_sync_ok [OF assms(1) _ _ _ _ assms(4-7)] assms(2,3) unfolding opened_def file_ok_def by blast

theorem fat_sync_durable_witness:
  "\<exists>fp' fs'. f_sync (fs_dio env0) 0x4A210000 demo_file demo_volume = Some (FR_OK, fp', fs') \<and>
     ld_dword (sd_sector (dev fs') 2) 28 = 4 \<and> ld_clust demo_volume (sd_sector (dev fs') 2) 0 = 2"
proof -
  have m: "mirror demo_volume = {}" "fat_area demo_volume = {1}" "dir_sect demo_file = 2" "dir_ptr demo_file = 0" "objsize (obj demo_file) = 4"
    "sclust (obj demo_file) = 2" "dev demo_volume = demo_sd" "fs_type demo_volume \<noteq> FS_FAT32"
    by (auto simp: mirror_def fat_area_def demo_volume_def demo_file_def FS_FAT12_def FS_FAT32_def)
  have "opened FA_MODIFIED demo_file demo_volume" unfolding demo_file_ok(2) by (simp add: FA_READ_def FA_WRITE_def FA_MODIFIED_def)
  from fat_sync_durable [OF demo_volume_ok(1) demo_file_ok(1) this, of env0 "0x4A210000"] show ?thesis
    unfolding demo_sectors_of_file m using m(8) demo_sd_ready(2) by (auto simp: DIR_FileSize_def)
qed

section \<open>The FAT and its chains\<close>

text \<open>C10. Entries of the FAT on the SD card, for FAT12, FAT16 and FAT32. \<open>put_fat\<close> returns \<open>FR_OK\<close>, \<open>get_fat\<close> then returns the bits of the value
  that an entry has, and the entry of every other cluster reads as before, although FAT12 entries share bytes and may lie in two sectors.\<close>

theorem fat_entry_round_trip:
  assumes "card_volume fs" and "cluster fs c" and "cluster fs d" and "d \<noteq> c"
  shows "\<exists>f f1 f2 f3. put_fat (fs_dio e) c v fs = Some (FR_OK, f) \<and> get_fat (fs_dio e) c f = Some (v AND mask (fat_bits (fs_type fs)), f1) \<and>
     get_fat (fs_dio e) d fs = Some (fat sd_sector fs d, f2) \<and> get_fat (fs_dio e) d f = Some (fat sd_sector fs d, f3)"
proof -
  note v = sd_fat.volD [OF assms(1)]
  obtain f where f: "put_fat (fs_dio e) c v fs = Some (FR_OK, f)" "window_ok 0 (\<lambda>s. card_ready (sd s)) sd_sector sd_sectors f" "table_step sd_sector sd_sectors fs f"
    "fat sd_sector f c = v AND mask (fat_bits (fs_type fs))" "\<forall>c'. cluster fs c' \<and> c' \<noteq> c \<longrightarrow> fat sd_sector f c' = fat sd_sector fs c'"
    using sd_fat.put_fat_ok [OF v(1,3) assms(2)] by blast
  have t: "table_ok f" "cluster f c" "cluster f d" using sd_fat.step_fields [OF f(3)] v(3) assms(2,3) by (simp_all add: cluster_def)
  show ?thesis using f sd_fat.get_fat_ok [OF f(2) t(1,2), of e] sd_fat.get_fat_ok [OF v(1,3) assms(3), of e] sd_fat.get_fat_ok [OF f(2) t(1,3), of e] assms(3,4)
    by metis
qed

theorem fat_entry_round_trip_witness:
  "\<exists>f f1 f3. put_fat (fs_dio env0) 4 0x12345 demo_volume = Some (FR_OK, f) \<and> get_fat (fs_dio env0) 4 f = Some (0x345, f1) \<and> get_fat (fs_dio env0) 5 f = Some (0, f3)"
proof -
  have c: "cluster demo_volume 4" "cluster demo_volume 5" "fs_type demo_volume = FS_FAT12" by (simp_all add: cluster_def demo_volume_def)
  then show ?thesis using fat_entry_round_trip [OF demo_volume_ok(1) c(1,2), of env0 "0x12345"] demo_fat [OF c(2)]
    by (auto simp: fat_bits_def mask_eq_exp_minus_1)
qed



section \<open>Mounting\<close>

text \<open>C11. A volume that \<open>find_volume\<close> returns is well formed (\<open>mounted\<close>), whatever the disk functions return and whatever the boot sectors
  contain: its FAT type is one of three and fits the number of clusters, the FAT has an entry for every cluster, the cluster size is a power of two up to 128 and
  there are one or two FATs. This holds if the file system object was well formed or not mounted before.\<close>

theorem fat_volume_well_formed:
  assumes "find_volume io vol mode Fsid fs = Some (FR_OK, i, fs')" and "fs_type fs = 0 \<or> mounted fs"
  shows "mounted fs' \<and> csize fs' \<in> {1, 2, 4, 8, 16, 32, 64, 128}"
proof -
  have dev: "mounted (fs\<lparr>dev := d\<rparr>) = mounted fs" for d by (simp add: mounted_def table_ok_def)
  have "mounted fs'"
  proof (cases "\<exists>fs1. mount_volume io vol (mode AND NOT FA_READ) Fsid fs1 = Some (FR_OK, i, fs')")
    case True
    then show ?thesis using mount_volume_mounted by blast
  next
    case False
    then have "fs_type fs \<noteq> 0" using assms(1) by (auto simp: find_volume_def Let_def)
    then show ?thesis using assms False dev by (auto simp: find_volume_def Let_def bind_eq_Some_conv split: if_splits)
  qed
  then show ?thesis using mounted_csize by blast
qed

text \<open>A disk of one boot sector, of a FAT12 volume.\<close>

definition ram_disk :: "u8 list dio" where
  "ram_disk = \<lparr>dio_status = \<lambda>_ d. Some (0, d), dio_initialize = \<lambda>_ d. Some (0, d), dio_read = \<lambda>_ _ _ _ d. Some (RES_OK, d, d),
     dio_write = \<lambda>_ _ _ _ d. Some (RES_OK, d), dio_sync = \<lambda>_ d. Some (RES_OK, d)\<rparr>"

definition ram_boot :: "u8 list" where
  "ram_boot = (replicate 512 0)[0 := 0xEB, 12 := 2, 13 := 4, 14 := 1, 16 := 2, 17 := 16, 20 := 2, 22 := 1, 54 := 0x46, 55 := 0x41, 56 := 0x54, 510 := 0x55, 511 := 0xAA]"

definition ram_volume :: "u8 list FATFS" where
  "ram_volume = \<lparr>fs_type = 0, pdrv = 0, n_fats = 0, wflag = False, fsi_flag = 0, fs_id = 0, n_rootdir = 0, csize = 0,
     last_clst = 0, free_clst = 0, cdir = 0, n_fatent = 0, fsize = 0, volbase = 0, fatbase = 0, dirbase = 0, database = 0,
     winsect = 0, win = replicate 512 0, dev = ram_boot\<rparr>"

theorem fat_volume_well_formed_witness:
  "\<exists>i fs'. find_volume ram_disk 0 FA_READ 7 ram_volume = Some (FR_OK, i, fs') \<and> mounted fs' \<and> fs_type fs' = FS_FAT12 \<and> csize fs' = 4"
proof -
  have "map_option (\<lambda>(r, i, f). (r, i, fs_type f, csize f)) (find_volume ram_disk 0 FA_READ 7 ram_volume) = Some (FR_OK, 8, FS_FAT12, 4)" by code_simp
  then obtain f where f: "find_volume ram_disk 0 FA_READ 7 ram_volume = Some (FR_OK, 8, f)" "fs_type f = FS_FAT12" "csize f = 4" by auto
  moreover have "fs_type ram_volume = 0" by (simp add: ram_volume_def)
  ultimately show ?thesis using fat_volume_well_formed [of ram_disk 0 FA_READ 7 ram_volume 8 f] by auto
qed


end
