(* ===== verification/Fat_Unicode.thy ===== *)
theory Fat_Unicode
  imports Fs
begin

text \<open>
  Characters of FatFs (\<^verbatim>\<open>fatfs/ffunicode.c\<close>, and \<open>tchar2uni\<close> and \<open>put_utf\<close> of \<^verbatim>\<open>fatfs/ff.c\<close>): upper case, conversion
  between Unicode and the code page, and UTF-8. A character is a UTF-16 unit or a pair of surrogates in one 32-bit word. The
  7389 pairs of the tables of code page 932 are an argument of the conversions.
\<close>

section \<open>Upper case\<close>

definition cvt1 :: "u16 list" where
  "cvt1 = [
    0x0061, 0x031A, 0x00E0, 0x0317, 0x00F8, 0x0307, 0x00FF, 0x0001, 0x0178, 0x0100, 0x0130, 0x0132, 0x0106, 0x0139, 0x0110, 0x014A, 0x012E,
    0x0179, 0x0106, 0x0180, 0x004D, 0x0243, 0x0181, 0x0182, 0x0182, 0x0184, 0x0184, 0x0186, 0x0187, 0x0187, 0x0189, 0x018A, 0x018B, 0x018B,
    0x018D, 0x018E, 0x018F, 0x0190, 0x0191, 0x0191, 0x0193, 0x0194, 0x01F6, 0x0196, 0x0197, 0x0198, 0x0198, 0x023D, 0x019B, 0x019C, 0x019D,
    0x0220, 0x019F, 0x01A0, 0x01A0, 0x01A2, 0x01A2, 0x01A4, 0x01A4, 0x01A6, 0x01A7, 0x01A7, 0x01A9, 0x01AA, 0x01AB, 0x01AC, 0x01AC, 0x01AE,
    0x01AF, 0x01AF, 0x01B1, 0x01B2, 0x01B3, 0x01B3, 0x01B5, 0x01B5, 0x01B7, 0x01B8, 0x01B8, 0x01BA, 0x01BB, 0x01BC, 0x01BC, 0x01BE, 0x01F7,
    0x01C0, 0x01C1, 0x01C2, 0x01C3, 0x01C4, 0x01C5, 0x01C4, 0x01C7, 0x01C8, 0x01C7, 0x01CA, 0x01CB, 0x01CA, 0x01CD, 0x0110, 0x01DD, 0x0001,
    0x018E, 0x01DE, 0x0112, 0x01F3, 0x0003, 0x01F1, 0x01F4, 0x01F4, 0x01F8, 0x0128, 0x0222, 0x0112, 0x023A, 0x0009, 0x2C65, 0x023B, 0x023B,
    0x023D, 0x2C66, 0x023F, 0x0240, 0x0241, 0x0241, 0x0246, 0x010A, 0x0253, 0x0040, 0x0181, 0x0186, 0x0255, 0x0189, 0x018A, 0x0258, 0x018F,
    0x025A, 0x0190, 0x025C, 0x025D, 0x025E, 0x025F, 0x0193, 0x0261, 0x0262, 0x0194, 0x0264, 0x0265, 0x0266, 0x0267, 0x0197, 0x0196, 0x026A,
    0x2C62, 0x026C, 0x026D, 0x026E, 0x019C, 0x0270, 0x0271, 0x019D, 0x0273, 0x0274, 0x019F, 0x0276, 0x0277, 0x0278, 0x0279, 0x027A, 0x027B,
    0x027C, 0x2C64, 0x027E, 0x027F, 0x01A6, 0x0281, 0x0282, 0x01A9, 0x0284, 0x0285, 0x0286, 0x0287, 0x01AE, 0x0244, 0x01B1, 0x01B2, 0x0245,
    0x028D, 0x028E, 0x028F, 0x0290, 0x0291, 0x01B7, 0x037B, 0x0003, 0x03FD, 0x03FE, 0x03FF, 0x03AC, 0x0004, 0x0386, 0x0388, 0x0389, 0x038A,
    0x03B1, 0x0311, 0x03C2, 0x0002, 0x03A3, 0x03A3, 0x03C4, 0x0308, 0x03CC, 0x0003, 0x038C, 0x038E, 0x038F, 0x03D8, 0x0118, 0x03F2, 0x000A,
    0x03F9, 0x03F3, 0x03F4, 0x03F5, 0x03F6, 0x03F7, 0x03F7, 0x03F9, 0x03FA, 0x03FA, 0x0430, 0x0320, 0x0450, 0x0710, 0x0460, 0x0122, 0x048A,
    0x0136, 0x04C1, 0x010E, 0x04CF, 0x0001, 0x04C0, 0x04D0, 0x0144, 0x0561, 0x0426, 0x0000]"

definition cvt2 :: "u16 list" where
  "cvt2 = [
    0x1D7D, 0x0001, 0x2C63, 0x1E00, 0x0196, 0x1EA0, 0x015A, 0x1F00, 0x0608, 0x1F10, 0x0606, 0x1F20, 0x0608, 0x1F30, 0x0608, 0x1F40, 0x0606,
    0x1F51, 0x0007, 0x1F59, 0x1F52, 0x1F5B, 0x1F54, 0x1F5D, 0x1F56, 0x1F5F, 0x1F60, 0x0608, 0x1F70, 0x000E, 0x1FBA, 0x1FBB, 0x1FC8, 0x1FC9,
    0x1FCA, 0x1FCB, 0x1FDA, 0x1FDB, 0x1FF8, 0x1FF9, 0x1FEA, 0x1FEB, 0x1FFA, 0x1FFB, 0x1F80, 0x0608, 0x1F90, 0x0608, 0x1FA0, 0x0608, 0x1FB0,
    0x0004, 0x1FB8, 0x1FB9, 0x1FB2, 0x1FBC, 0x1FCC, 0x0001, 0x1FC3, 0x1FD0, 0x0602, 0x1FE0, 0x0602, 0x1FE5, 0x0001, 0x1FEC, 0x1FF3, 0x0001,
    0x1FFC, 0x214E, 0x0001, 0x2132, 0x2170, 0x0210, 0x2184, 0x0001, 0x2183, 0x24D0, 0x051A, 0x2C30, 0x042F, 0x2C60, 0x0102, 0x2C67, 0x0106,
    0x2C75, 0x0102, 0x2C80, 0x0164, 0x2D00, 0x0826, 0xFF41, 0x031A, 0x0000]"

text \<open>The commands of a block of characters from \<open>bc\<close> on; \<open>p\<close> is the rest of the table.\<close>

definition up_convert :: "u16 \<Rightarrow> u16 \<Rightarrow> u16 \<Rightarrow> u16 list \<Rightarrow> u16" where
  "up_convert cmd uc bc p =
     (if cmd = 0 then p ! unat (uc - bc)
      else if cmd = 1 then uc - ((uc - bc) AND 1)
      else if cmd = 2 then uc - 16
      else if cmd = 3 then uc - 32
      else if cmd = 4 then uc - 48
      else if cmd = 5 then uc - 26
      else if cmd = 6 then uc + 8
      else if cmd = 7 then uc - 80
      else if cmd = 8 then uc - 0x1C60
      else uc)"

function up_loop :: "u16 \<Rightarrow> u16 list \<Rightarrow> u16" where
  "up_loop uc (bc # nc # p) =
     (if bc = 0 \<or> uc < bc then uc else
      let cmd = drop_bit 8 nc; n = unat (nc AND 0xFF) in
      if unat uc < unat bc + n then up_convert cmd uc bc p
      else up_loop uc (if cmd = 0 then drop n p else p))"
| "up_loop uc [bc] = uc"
| "up_loop uc [] = uc"
  by pat_completeness auto
termination
  by (relation "measure (\<lambda>(uc, p). length p)") auto

definition ff_wtoupper :: "u32 \<Rightarrow> u32" where
  "ff_wtoupper uni =
     (if uni < 0x10000 then
        let uc = ucast uni :: u16
        in ucast (up_loop uc (if uc < 0x1000 then cvt1 else cvt2))
      else uni)"

section \<open>Code page\<close>

text \<open>
  The search in a table of pairs: \<open>n\<close> more steps between the positions \<open>li\<close> and \<open>hi\<close>. The tables end with a pair of zeros, which the
  search never looks at.
\<close>

fun search :: "(u16 \<times> u16) list \<Rightarrow> u16 \<Rightarrow> nat \<Rightarrow> nat \<Rightarrow> nat \<Rightarrow> u16" where
  "search p c 0 li hi = 0"
| "search p c (Suc n) li hi =
     (let i = li + (hi - li) div 2 in
      if c = fst (p ! i) then snd (p ! i)
      else if c > fst (p ! i) then search p c n i hi else search p c n li i)"

definition FF_CODE_PAGE :: u16 where "FF_CODE_PAGE = 932"

definition ff_uni2oem :: "(u16 \<times> u16) list \<Rightarrow> u32 \<Rightarrow> u16 \<Rightarrow> u16" where
  "ff_uni2oem p uni cp =
     (if uni < 0x80 then ucast uni
      else if uni < 0x10000 \<and> cp = FF_CODE_PAGE then search p (ucast uni) 16 0 (length p - 1)
      else 0)"

definition ff_oem2uni :: "(u16 \<times> u16) list \<Rightarrow> u16 \<Rightarrow> u16 \<Rightarrow> u16" where
  "ff_oem2uni p oem cp =
     (if oem < 0x80 then oem
      else if cp = FF_CODE_PAGE then search p oem 16 0 (length p - 1)
      else 0)"

section \<open>UTF-8\<close>

definition IsSurrogate :: "u32 \<Rightarrow> bool" where
  "IsSurrogate c \<longleftrightarrow> c \<ge> 0xD800 \<and> c \<le> 0xDFFF"

text \<open>The trailing bytes of a sequence.\<close>

fun trailing :: "nat \<Rightarrow> u32 \<Rightarrow> u8 list \<Rightarrow> (u32 \<times> u8 list) option" where
  "trailing 0 uc p = Some (uc, p)"
| "trailing (Suc nf) uc p =
     (let b = char_at p in
      if b AND 0xC0 \<noteq> 0x80 then None else trailing nf (push_bit 6 uc OR ucast (b AND 0x3F)) (tl p))"

definition lead_byte :: "u32 \<Rightarrow> (u32 \<times> nat) option" where
  "lead_byte uc =
     (if uc AND 0xE0 = 0xC0 then Some (uc AND 0x1F, 1)
      else if uc AND 0xF0 = 0xE0 then Some (uc AND 0x0F, 2)
      else if uc AND 0xF8 = 0xF0 then Some (uc AND 0x07, 3)
      else None)"

text \<open>The next character and the rest of the string, or 0xFFFFFFFF.\<close>

definition tchar2uni :: "u8 list \<Rightarrow> u32 \<times> u8 list" where
  "tchar2uni s =
     (let uc = ucast (char_at s); p = tl s in
      if uc AND 0x80 \<noteq> 0 then
        case lead_byte uc of
          None \<Rightarrow> (0xFFFFFFFF, s)
        | Some (uc, nf) \<Rightarrow>
            (case trailing nf uc p of
               None \<Rightarrow> (0xFFFFFFFF, s)
             | Some (uc, p) \<Rightarrow>
                 if uc < 0x80 \<or> IsSurrogate uc \<or> uc \<ge> 0x110000 then (0xFFFFFFFF, s)
                 else if uc \<ge> 0x010000 then (0xD800DC00 OR (push_bit 6 (uc - 0x10000) AND 0x3FF0000) OR (uc AND 0x3FF), p)
                 else (uc, p))
      else (uc, p))"

text \<open>The bytes that are written into a buffer of \<open>szb\<close> bytes, none if the character is wrong or does not fit.\<close>

definition put_utf :: "u32 \<Rightarrow> nat \<Rightarrow> u8 list" where
  "put_utf chr szb =
     (if chr < 0x80 then if szb < 1 then [] else [ucast chr]
      else if chr < 0x800 then
        if szb < 2 then [] else [ucast (0xC0 OR (drop_bit 6 chr AND 0x1F)), ucast (0x80 OR (chr AND 0x3F))]
      else if chr < 0x10000 then
        if szb < 3 \<or> IsSurrogate chr then []
        else [ucast (0xE0 OR (drop_bit 12 chr AND 0x0F)), ucast (0x80 OR (drop_bit 6 chr AND 0x3F)), ucast (0x80 OR (chr AND 0x3F))]
      else if szb < 4 then []
      else
        let hc = drop_bit 6 ((chr AND 0xFFFF0000) - 0xD8000000);
            chr = (chr AND 0xFFFF) - 0xDC00 in
        if hc \<ge> 0x100000 \<or> chr \<ge> 0x400 then []
        else
          let chr = (hc OR chr) + 0x10000
          in [ucast (0xF0 OR (drop_bit 18 chr AND 0x07)), ucast (0x80 OR (drop_bit 12 chr AND 0x3F)),
              ucast (0x80 OR (drop_bit 6 chr AND 0x3F)), ucast (0x80 OR (chr AND 0x3F))])"

section \<open>Upper case keeps the end of a string\<close>

text \<open>No block of a table leads to the character 0.\<close>

function blocks_nonzero :: "u16 list \<Rightarrow> bool" where
  "blocks_nonzero (bc # nc # p) =
     (if bc = 0 then True else
      let cmd = drop_bit 8 nc; n = unat (nc AND 0xFF) in
      (if cmd = 0 then n \<le> length p \<and> 0 \<notin> set (take n p) else unat bc + n + 8 < 65536 \<and> 1 < bc \<and> (cmd = 8 \<longrightarrow> 0x1C60 < bc) \<and> 80 < bc) \<and>
      blocks_nonzero (if cmd = 0 then drop n p else p))"
| "blocks_nonzero [bc] = True"
| "blocks_nonzero [] = True"
  by pat_completeness auto
termination
  by (relation "measure length") auto

lemma cvt_nonzero: "blocks_nonzero cvt1" "blocks_nonzero cvt2"
  unfolding cvt1_def cvt2_def by (simp_all add: Let_def)

lemma up_loop_nonzero:
  assumes "blocks_nonzero p" and "uc \<noteq> 0"
  shows "up_loop uc p \<noteq> 0"
  using assms
proof (induction uc p rule: up_loop.induct)
  case (1 uc bc nc p)
  let ?cmd = "drop_bit 8 nc" and ?n = "unat (nc AND 0xFF)"
  show ?case
  proof (cases "bc = 0 \<or> uc < bc")
    case True
    then show ?thesis using 1(3) by auto
  next
    case False
    have b: "if ?cmd = 0 then ?n \<le> length p \<and> 0 \<notin> set (take ?n p) else unat bc + ?n + 8 < 65536 \<and> 1 < bc \<and> (?cmd = 8 \<longrightarrow> 0x1C60 < bc) \<and> 80 < bc"
      "blocks_nonzero (if ?cmd = 0 then drop ?n p else p)"
      using 1(2) False by (simp_all add: Let_def split: if_splits)
    show ?thesis
    proof (cases "unat uc < unat bc + ?n")
      case out: False
      then show ?thesis using 1(1) [OF False refl refl out b(2)] 1(3) False by (simp add: Let_def)
    next
      case True
      have le: "unat bc \<le> unat uc" using False by (auto simp: word_less_nat_alt)
      show ?thesis
      proof (cases "?cmd = 0")
        case z: True
        have "unat (uc - bc) < ?n" using True le by (simp add: unat_sub word_le_nat_alt)
        then have "p ! unat (uc - bc) \<in> set (take ?n p)" using b(1) z by (metis in_set_conv_nth length_take min.absorb2 nth_take)
        then have "p ! unat (uc - bc) \<noteq> 0" using b(1) z by auto
        then show ?thesis using True False z by (simp add: Let_def up_convert_def)
      next
        case nz: False
        have s: "uc - k \<noteq> 0" if "k < bc" for k using that le by (auto simp: word_less_nat_alt)
        have p: "uc + 8 \<noteq> 0"
        proof -
          have "unat uc + 8 < 65536" using b(1) nz True by simp
          then have "unat (uc + 8) = unat uc + 8" by (simp add: unat_word_ariths)
          then show ?thesis by auto
        qed
        have k: "16 < bc" "32 < bc" "48 < bc" "26 < bc" "80 < bc" "(uc - bc) AND 1 < bc" "?cmd = 8 \<Longrightarrow> 0x1C60 < bc"
        proof -
          have c: "80 < unat bc" using b(1) nz by (simp add: word_less_nat_alt)
          then show "16 < bc" "32 < bc" "48 < bc" "26 < bc" "80 < bc" by (simp_all add: word_less_nat_alt)
          have "unat ((uc - bc) AND 1) \<le> 1" by (simp add: and_one_eq mod_2_eq_odd)
          then show "(uc - bc) AND 1 < bc" using c by (simp add: word_less_nat_alt)
          show "?cmd = 8 \<Longrightarrow> 0x1C60 < bc" using b(1) nz by simp
        qed
        have "up_convert ?cmd uc bc p \<noteq> 0" unfolding up_convert_def using nz p k s 1(3) by (simp split: if_splits)
        then show ?thesis using True False by (simp add: Let_def)
      qed
    qed
  qed
qed auto

lemma u16_u32: "ucast (ucast c :: u32) = (c :: u16)"
  by (rule bit_word_eqI) (auto simp: bit_simps)

lemma ff_wtoupper_0: "ff_wtoupper (ucast c) = 0 \<longleftrightarrow> c = (0 :: u16)"
proof -
  let ?p = "if c < 0x1000 then cvt1 else cvt2"
  have "unat c < 65536" using unsigned_less [of c, where ?'a = nat] by simp
  then have b: "(ucast c :: u32) < 0x10000" by (simp add: word_less_nat_alt unsigned_ucast_eq take_bit_nat_eq_self)
  have "ff_wtoupper (ucast c) = ucast (up_loop c ?p)" using b by (simp add: ff_wtoupper_def Let_def u16_u32)
  moreover have "up_loop c ?p \<noteq> 0" if "c \<noteq> 0" using up_loop_nonzero [OF _ that] cvt_nonzero by simp
  moreover have "up_loop 0 cvt1 = 0" by (simp add: cvt1_def)
  ultimately show ?thesis using u16_u32 [of "up_loop c ?p"] by (cases "c = 0") auto
qed

text \<open>The search of a table finds what it has, and nothing else. 16 steps are enough for 32768 pairs.\<close>

lemma search_finds:
  assumes "sorted_wrt (<) (map fst q)" and "li \<le> j" and "j < hi" and "hi \<le> length q" and "hi - li \<le> 2 ^ n"
  shows "search (q @ [z]) (fst (q ! j)) (Suc n) li hi = snd (q ! j)"
  using assms(2-5)
proof (induction n arbitrary: li hi)
  case 0
  then have "li = j" "hi = Suc j" by simp_all
  then show ?case using 0 by (simp add: nth_append)
next
  case (Suc n)
  define i where "i = li + (hi - li) div 2"
  have i: "li \<le> i" "i < hi" using Suc.prems by (auto simp: i_def)
  have nth: "(q @ [z]) ! i = q ! i" using i Suc.prems(3) by (simp add: nth_append)
  have less: "fst (q ! a) < fst (q ! b)" if "a < b" "b < length q" for a b
    using sorted_wrt_nth_less [OF assms(1)] that by simp
  consider "i = j" | "i < j" | "j < i" by linarith
  then show ?case
  proof cases
    case 1
    then show ?thesis using nth by (simp add: Let_def i_def [symmetric])
  next
    case 2
    then have "fst (q ! i) < fst (q ! j)" using less Suc.prems by auto
    moreover have "search (q @ [z]) (fst (q ! j)) (Suc n) i hi = snd (q ! j)"
      using Suc.IH [of i hi] Suc.prems 2 by (auto simp: i_def)
    ultimately show ?thesis using nth by (simp only: search.simps(2) [of _ _ "Suc n"] Let_def i_def [symmetric]) auto
  next
    case 3
    then have "fst (q ! j) < fst (q ! i)" using less i Suc.prems by auto
    moreover have "search (q @ [z]) (fst (q ! j)) (Suc n) li i = snd (q ! j)"
      using Suc.IH [of li i] Suc.prems 3 by (auto simp: i_def)
    ultimately show ?thesis using nth by (simp only: search.simps(2) [of _ _ "Suc n"] Let_def i_def [symmetric]) auto
  qed
qed

lemma search_absent:
  assumes "c \<notin> fst ` set q" and "li \<le> hi" and "li < length q" and "hi \<le> length q"
  shows "search (q @ [z]) c n li hi = 0"
  using assms(2-4)
proof (induction n arbitrary: li hi)
  case (Suc n)
  define i where "i = li + (hi - li) div 2"
  have i: "li \<le> i" "i \<le> hi" "i < length q"
  proof -
    show "li \<le> i" by (simp add: i_def)
    have "li < hi \<Longrightarrow> i < hi" "li = hi \<Longrightarrow> i = li" by (auto simp: i_def)
    then show "i \<le> hi" "i < length q" using Suc.prems by (auto simp: le_less)
  qed
  then have nth: "(q @ [z]) ! i = q ! i" "q ! i \<in> set q" by (simp_all add: nth_append)
  then have "c \<noteq> fst (q ! i)" using assms(1) by auto
  moreover have "search (q @ [z]) c n i hi = 0" "search (q @ [z]) c n li i = 0" using Suc.IH i Suc.prems by simp_all
  ultimately show ?case by (simp add: Let_def i_def [symmetric] nth(1))
qed simp

lemma search_lookup:
  assumes "sorted_wrt (<) (map fst q)" and "q \<noteq> []" and "length q \<le> 2 ^ 15"
  shows "search (q @ [z]) c 16 0 (length q) = (case map_of q c of None \<Rightarrow> 0 | Some v \<Rightarrow> v)"
proof (cases "map_of q c")
  case None
  then have "c \<notin> fst ` set q" by (simp add: map_of_eq_None_iff)
  then show ?thesis using search_absent [of c q 0 "length q"] assms(2) None by simp
next
  case (Some v)
  then obtain j where j: "j < length q" "q ! j = (c, v)" by (metis in_set_conv_nth map_of_SomeD)
  then have "search (q @ [z]) c (Suc 15) 0 (length q) = v"
    using search_finds [OF assms(1), of 0 j "length q" 15 z] assms(3) by simp
  then show ?thesis using Some by (simp add: eval_nat_numeral)
qed

section \<open>UTF-8 decodes what it encodes\<close>

lemma masks:
  "0x3F = (mask 6 :: 'a :: len word)" "0x1F = (mask 5 :: 'a word)" "0x0F = (mask 4 :: 'a word)" "0x07 = (mask 3 :: 'a word)"
  "0x3FF = (mask 10 :: 'a word)" "0xFFFF = (mask 16 :: 'a word)" "0xFF = (mask 8 :: 'a word)"
  by (simp_all add: mask_eq_exp_minus_1)

lemma ucast_byte: "x AND NOT 0xFF = 0 \<Longrightarrow> ucast (ucast x :: u8) = (x :: u32)"
  by (rule bit_word_eqI) (auto simp: bit_simps masks bit_eq_iff)

lemma lead_bytes:
  fixes x :: u32
  shows "ucast (ucast (0xC0 OR (x AND 0x1F)) :: u8) = (0xC0 OR (x AND 0x1F) :: u32)"
    "ucast (ucast (0xE0 OR (x AND 0x0F)) :: u8) = (0xE0 OR (x AND 0x0F) :: u32)"
    "ucast (ucast (0xF0 OR (x AND 0x07)) :: u8) = (0xF0 OR (x AND 0x07) :: u32)"
    "(0xC0 OR (x AND 0x1F)) AND 0xE0 = 0xC0" "(0xE0 OR (x AND 0x0F)) AND 0xF0 = 0xE0" "(0xF0 OR (x AND 0x07)) AND 0xF8 = 0xF0"
    "(0xE0 OR (x AND 0x0F)) AND 0xE0 = 0xE0" "(0xF0 OR (x AND 0x07)) AND 0xE0 = 0xE0" "(0xF0 OR (x AND 0x07)) AND 0xF0 = 0xF0"
    "(0xC0 OR (x AND 0x1F)) AND 0x80 = 0x80" "(0xE0 OR (x AND 0x0F)) AND 0x80 = 0x80" "(0xF0 OR (x AND 0x07)) AND 0x80 = 0x80"
    "(0xC0 OR (x AND 0x1F)) AND 0x1F = x AND 0x1F" "(0xE0 OR (x AND 0x0F)) AND 0x0F = x AND 0x0F" "(0xF0 OR (x AND 0x07)) AND 0x07 = x AND 0x07"
  by (simp_all add: ucast_byte bit.conj_disj_distrib2 and.assoc)

lemma low_bits: "(ucast (ucast x :: u8) :: u32) AND 0x3F = x AND 0x3F"
  by (rule bit_word_eqI) (auto simp: bit_simps masks)

lemma trail_byte:
  fixes x :: u32
  shows "(ucast (0x80 OR (x AND 0x3F)) :: u8) AND 0xC0 = 0x80" "ucast ((ucast (0x80 OR (x AND 0x3F)) :: u8) AND 0x3F) = x AND 0x3F"
  by (simp_all add: unsigned_or_eq unsigned_and_eq bit.conj_disj_distrib2 and.assoc low_bits)

lemma small_mask: "unat x < 2 ^ k \<Longrightarrow> x AND mask k = x"
  by (simp add: word_unat_eq_iff take_bit_eq_mask [symmetric] unsigned_take_bit_eq take_bit_nat_eq_self)

lemma join_group: "push_bit 6 (drop_bit 6 y AND mask k) OR (y AND mask 6) = y AND mask (k + 6)" for y :: u32
proof (rule bit_word_eqI)
  fix n :: nat
  show "bit (push_bit 6 (drop_bit 6 y AND mask k) OR (y AND mask 6)) n = bit (y AND mask (k + 6)) n"
    by (cases "n < 6") (auto simp: bit_simps)
qed

lemma groups:
  fixes x :: u32
  shows "x < 0x800 \<Longrightarrow> push_bit 6 (drop_bit 6 x AND 0x1F) OR (x AND 0x3F) = x"
    "x < 0x10000 \<Longrightarrow> push_bit 6 (push_bit 6 (drop_bit 12 x AND 0x0F) OR (drop_bit 6 x AND 0x3F)) OR (x AND 0x3F) = x"
    "x < 0x200000 \<Longrightarrow> push_bit 6 (push_bit 6 (push_bit 6 (drop_bit 18 x AND 0x07) OR (drop_bit 12 x AND 0x3F)) OR (drop_bit 6 x AND 0x3F)) OR (x AND 0x3F) = x"
proof -
  have d: "drop_bit 12 x = drop_bit 6 (drop_bit 6 x)" "drop_bit 18 x = drop_bit 6 (drop_bit 6 (drop_bit 6 x))" by (simp_all add: drop_bit_drop_bit)
  show "x < 0x800 \<Longrightarrow> push_bit 6 (drop_bit 6 x AND 0x1F) OR (x AND 0x3F) = x"
    "x < 0x10000 \<Longrightarrow> push_bit 6 (push_bit 6 (drop_bit 12 x AND 0x0F) OR (drop_bit 6 x AND 0x3F)) OR (x AND 0x3F) = x"
    "x < 0x200000 \<Longrightarrow> push_bit 6 (push_bit 6 (push_bit 6 (drop_bit 18 x AND 0x07) OR (drop_bit 12 x AND 0x3F)) OR (drop_bit 6 x AND 0x3F)) OR (x AND 0x3F) = x"
    unfolding masks d join_group by (rule small_mask, simp add: word_less_nat_alt)+
qed

lemma trailing_bytes:
  fixes x :: u32
  shows "x < 0x800 \<Longrightarrow> trailing (Suc 0) (drop_bit 6 x AND 0x1F) (ucast (0x80 OR (x AND 0x3F)) # p) = Some (x, p)"
    "x < 0x10000 \<Longrightarrow> trailing 2 (drop_bit 12 x AND 0x0F) (ucast (0x80 OR (drop_bit 6 x AND 0x3F)) # ucast (0x80 OR (x AND 0x3F)) # p) = Some (x, p)"
    "x < 0x200000 \<Longrightarrow> trailing 3 (drop_bit 18 x AND 0x07)
       (ucast (0x80 OR (drop_bit 12 x AND 0x3F)) # ucast (0x80 OR (drop_bit 6 x AND 0x3F)) # ucast (0x80 OR (x AND 0x3F)) # p) = Some (x, p)"
proof -
  have step: "trailing (Suc n) u (ucast (0x80 OR (a AND 0x3F)) # r) = trailing n (push_bit 6 u OR (a AND 0x3F)) r" for n u r and a :: u32
    by (simp only: trailing.simps(2) Let_def char_at_def list.case trail_byte simp_thms if_False list.sel)
  show "x < 0x800 \<Longrightarrow> trailing (Suc 0) (drop_bit 6 x AND 0x1F) (ucast (0x80 OR (x AND 0x3F)) # p) = Some (x, p)"
    "x < 0x10000 \<Longrightarrow> trailing 2 (drop_bit 12 x AND 0x0F) (ucast (0x80 OR (drop_bit 6 x AND 0x3F)) # ucast (0x80 OR (x AND 0x3F)) # p) = Some (x, p)"
    "x < 0x200000 \<Longrightarrow> trailing 3 (drop_bit 18 x AND 0x07)
       (ucast (0x80 OR (drop_bit 12 x AND 0x3F)) # ucast (0x80 OR (drop_bit 6 x AND 0x3F)) # ucast (0x80 OR (x AND 0x3F)) # p) = Some (x, p)"
    by (simp_all only: numeral_2_eq_2 numeral_3_eq_3 step trailing.simps(1) groups)
qed

lemma single_byte:
  assumes "c < 0x80"
  shows "ucast (ucast c :: u8) = (c :: u32)" "c AND 0x80 = 0"
proof -
  have "c = c AND mask 7" by (rule small_mask [symmetric]) (use assms in \<open>simp add: word_less_nat_alt\<close>)
  then have c: "c = c AND 0x7F" by (simp add: mask_eq_exp_minus_1)
  have "c AND NOT 0xFF = (c AND 0x7F) AND NOT 0xFF" using c by simp
  then show "ucast (ucast c :: u8) = c" by (intro ucast_byte) (simp add: and.assoc)
  have "c AND 0x80 = (c AND 0x7F) AND 0x80" using c by simp
  then show "c AND 0x80 = 0" by (simp add: and.assoc)
qed

lemma upper_mask: "0xFFFF0000 = push_bit 16 (mask 16 :: u32)" "0x3FF0000 = push_bit 16 (mask 10 :: u32)"
  by (simp_all add: mask_eq_exp_minus_1 push_bit_eq_mult)

text \<open>The two surrogates of a character and its number: the upper and the lower ten bits \<open>a\<close> and \<open>b\<close>.\<close>

lemma surrogates:
  fixes c :: u32
  defines "hc \<equiv> drop_bit 6 ((c AND 0xFFFF0000) - 0xD8000000)" and "lc \<equiv> (c AND 0xFFFF) - 0xDC00"
  assumes "hc < 0x100000" and "lc < 0x400"
  defines "x \<equiv> (hc OR lc) + 0x10000"
  shows "0x10000 \<le> x" "x < 0x110000" "0xD800DC00 OR (push_bit 6 (x - 0x10000) AND 0x3FF0000) OR (x AND 0x3FF) = c"
proof -
  define M where "M = (c AND 0xFFFF0000) - 0xD8000000"
  define A where "A = drop_bit 16 M"
  have "c AND 0xFFFF0000 = push_bit 16 (drop_bit 16 c)" by (rule bit_word_eqI) (auto simp: bit_simps upper_mask)
  then have "M = push_bit 16 (drop_bit 16 c - 0xD800)" by (simp add: M_def push_bit_eq_mult algebra_simps)
  then have M: "M = push_bit 16 A" by (auto simp: A_def bit_simps intro!: bit_word_eqI)
  have "drop_bit 6 (unat M) < 0x100000" using assms(3) by (simp add: hc_def M_def [symmetric] word_less_nat_alt unat_drop_bit_eq)
  then have "drop_bit 16 (unat M) < 1024" by (simp add: drop_bit_eq_div)
  then have u: "unat A < 1024" by (simp add: A_def unat_drop_bit_eq)
  then have A: "A AND mask 10 = A" by (simp add: small_mask)
  have L: "lc AND mask 10 = lc" using assms(4) small_mask [of lc 10] by (simp add: word_less_nat_alt)
  have bits: "bit A n \<Longrightarrow> n < 10" "bit lc n \<Longrightarrow> n < 10" for n
    using A L by (metis bit_and_iff bit_mask_iff)+
  have hc: "hc = push_bit 10 A"
    unfolding hc_def M_def [symmetric] M using bits(1) by (fastforce intro!: bit_word_eqI simp: bit_simps)
  define y where "y = push_bit 10 A OR lc"
  have "y AND mask 20 = y" unfolding y_def using bits by (fastforce intro!: bit_word_eqI simp: bit_simps)
  moreover have "unat (y AND mask 20) < 2 ^ 20" using take_bit_nat_less_exp [of 20 "unat y"] by (simp add: take_bit_eq_mask [symmetric] unsigned_take_bit_eq)
  ultimately have y: "unat y < 2 ^ 20" by simp
  have x: "x = y + 0x10000" "unat x = unat y + 0x10000"
    using y by (simp_all add: x_def hc y_def [symmetric] unat_word_ariths)
  show "0x10000 \<le> x" "x < 0x110000" using x(2) y by (simp_all add: word_le_nat_alt word_less_nat_alt)
  have "push_bit 6 y AND 0x3FF0000 = push_bit 16 A"
    unfolding upper_mask y_def using bits by (fastforce intro!: bit_word_eqI simp: bit_simps)
  moreover have "x AND 0x3FF = lc"
  proof -
    have "take_bit 10 (unat x) = take_bit 10 (unat y)" using mod_mult_self1 [of "unat y" 64 1024] x(2) by (simp add: take_bit_eq_mod)
    then have "take_bit 10 x = take_bit 10 y" by (simp add: word_unat_eq_iff unsigned_take_bit_eq)
    moreover have "take_bit 10 y = lc" unfolding y_def using bits(2) by (fastforce intro!: bit_word_eqI simp: bit_simps)
    ultimately show ?thesis using L by (simp add: masks take_bit_eq_mask)
  qed
  moreover have "c = (push_bit 16 A OR 0xD8000000) OR (lc OR 0xDC00)"
  proof -
    have "push_bit 16 A = push_bit 16 A AND 0x3FF0000" "lc = lc AND 0x3FF"
      using A L by (metis push_bit_and upper_mask(2), simp add: masks)
    moreover have "(push_bit 16 A AND 0x3FF0000) AND 0xD8000000 = 0" "(lc AND 0x3FF) AND 0xDC00 = 0" by (simp_all only: and.assoc) simp_all
    ultimately have "push_bit 16 A AND 0xD8000000 = 0" "lc AND 0xDC00 = 0" by metis+
    then have "push_bit 16 A + 0xD8000000 = push_bit 16 A OR 0xD8000000" "lc + 0xDC00 = lc OR 0xDC00"
      by (simp_all add: disjunctive_add_eq_or)
    moreover have "c AND 0xFFFF0000 = push_bit 16 A + 0xD8000000" "c AND 0xFFFF = lc + 0xDC00" by (simp_all add: M [symmetric] M_def lc_def)
    moreover have "c = (c AND 0xFFFF0000) OR (c AND 0xFFFF)"
      by (rule bit_word_eqI) (auto simp: bit_simps upper_mask masks)
    ultimately show ?thesis by simp
  qed
  ultimately show "0xD800DC00 OR (push_bit 6 (x - 0x10000) AND 0x3FF0000) OR (x AND 0x3FF) = c"
    unfolding x(1) by (simp add: ac_simps)
qed

lemma tchar2uni_put_utf:
  assumes "put_utf c n = bs" and "bs \<noteq> []"
  shows "tchar2uni (bs @ rest) = (c, rest)"
proof -
  consider "c < 0x80" | "0x80 \<le> c" "c < 0x800" | "0x800 \<le> c" "c < 0x10000" | "0x10000 \<le> c" by force
  then show ?thesis
  proof cases
    case 1
    then show ?thesis using assms single_byte [OF 1] by (auto simp: put_utf_def tchar2uni_def char_at_def split: if_splits)
  next
    case 2
    then have b: "bs = [ucast (0xC0 OR (drop_bit 6 c AND 0x1F)), ucast (0x80 OR (c AND 0x3F))]"
      using assms by (auto simp: put_utf_def split: if_splits)
    have "\<not> IsSurrogate c" "\<not> c < 0x80" "\<not> 0x110000 \<le> c" "\<not> 0x10000 \<le> c" using 2 by (auto simp: IsSurrogate_def word_le_nat_alt word_less_nat_alt)
    then show ?thesis using 2 unfolding b tchar2uni_def
      by (simp add: char_at_def lead_bytes lead_byte_def Let_def trailing_bytes del: trailing.simps)
  next
    case 3
    then have "\<not> c < 0x80" by (auto simp: word_le_nat_alt word_less_nat_alt)
    then have b: "bs = [ucast (0xE0 OR (drop_bit 12 c AND 0x0F)), ucast (0x80 OR (drop_bit 6 c AND 0x3F)), ucast (0x80 OR (c AND 0x3F))]"
      and s: "\<not> IsSurrogate c"
      using assms 3 by (auto simp: put_utf_def split: if_splits)
    have "\<not> 0x110000 \<le> c" "\<not> c < 0x80" "\<not> 0x10000 \<le> c" using 3 by (auto simp: word_le_nat_alt word_less_nat_alt)
    then show ?thesis using 3 s unfolding b tchar2uni_def
      by (simp add: char_at_def lead_bytes lead_byte_def Let_def trailing_bytes del: trailing.simps)
  next
    case 4
    then have c: "\<not> c < 0x80" "\<not> c < 0x800" "\<not> c < 0x10000" by (auto simp: word_le_nat_alt word_less_nat_alt)
    define x where "x = (drop_bit 6 ((c AND 0xFFFF0000) - 0xD8000000) OR ((c AND 0xFFFF) - 0xDC00)) + 0x10000"
    have h: "drop_bit 6 ((c AND 0xFFFF0000) - 0xD8000000) < 0x100000" "(c AND 0xFFFF) - 0xDC00 < 0x400"
      and b: "bs = [ucast (0xF0 OR (drop_bit 18 x AND 0x07)), ucast (0x80 OR (drop_bit 12 x AND 0x3F)), ucast (0x80 OR (drop_bit 6 x AND 0x3F)), ucast (0x80 OR (x AND 0x3F))]"
      using assms c by (auto simp: put_utf_def x_def Let_def not_less split: if_splits)
    note s = surrogates [OF h, folded x_def]
    have "\<not> IsSurrogate x" "\<not> x < 0x80" "x < 0x200000" "\<not> 0x110000 \<le> x" using s(1,2) by (auto simp: IsSurrogate_def word_le_nat_alt word_less_nat_alt)
    then show ?thesis using s unfolding b tchar2uni_def
      by (simp add: char_at_def lead_bytes lead_byte_def Let_def trailing_bytes del: trailing.simps)
  qed
qed

end
