(* ===== verification/Fat_Name.thy ===== *)
theory Fat_Name
  imports Fat_Unicode Fat_Window
begin

text \<open>
  File names of FatFs (\<^verbatim>\<open>fatfs/ff.c\<close>, with long names in UTF-8 as \<^verbatim>\<open>fatfs/ffconf.h\<close> selects them): the 13 units that an
  entry of a long name holds (\<open>cmp_lfn\<close>, \<open>pick_lfn\<close>, \<open>put_lfn\<close>), the checksum that ties them to the short name, numbered short
  names, the names that \<open>create_name\<close> makes of a segment of a path, and the names that \<open>get_fileinfo\<close> gives to the program.
  The table of the code page is an argument of the functions that convert short names.
\<close>

section \<open>Constants\<close>

definition FF_MAX_LFN :: nat where "FF_MAX_LFN = 255"
definition FF_LFN_BUF :: nat where "FF_LFN_BUF = 255"
definition FF_SFN_BUF :: nat where "FF_SFN_BUF = 12"
definition AM_VOL :: u8 where "AM_VOL = 0x08"
definition AM_LFN :: u8 where "AM_LFN = 0x0F"
definition AM_MASK :: u8 where "AM_MASK = 0x3F"
definition NSFLAG :: nat where "NSFLAG = 11"
definition NS_LOSS :: u8 where "NS_LOSS = 0x01"
definition NS_LFN :: u8 where "NS_LFN = 0x02"
definition NS_LAST :: u8 where "NS_LAST = 0x04"
definition NS_BODY :: u8 where "NS_BODY = 0x08"
definition NS_EXT :: u8 where "NS_EXT = 0x10"
definition NS_DOT :: u8 where "NS_DOT = 0x20"
definition NS_NOLFN :: u8 where "NS_NOLFN = 0x40"
definition NS_NONAME :: u8 where "NS_NONAME = 0x80"
definition DIR_Name :: nat where "DIR_Name = 0"
definition DIR_NTres :: nat where "DIR_NTres = 12"
definition LDIR_Ord :: nat where "LDIR_Ord = 0"
definition LDIR_Attr :: nat where "LDIR_Attr = 11"
definition LDIR_Type :: nat where "LDIR_Type = 12"
definition LDIR_Chksum :: nat where "LDIR_Chksum = 13"
definition LDIR_FstClusLO :: nat where "LDIR_FstClusLO = 26"
definition DDEM :: u8 where "DDEM = 0xE5"
definition RDDEM :: u8 where "RDDEM = 0x05"
definition LLEF :: u8 where "LLEF = 0x40"
definition LfnOfs :: "nat list" where "LfnOfs = [1, 3, 5, 7, 9, 14, 16, 18, 20, 22, 24, 28, 30]"
definition DbcTbl :: "u8 list" where "DbcTbl = [0x81, 0x9F, 0xE0, 0xFC, 0x40, 0x7E, 0x80, 0xFC, 0x00, 0x00]"

definition IsUpper :: "u16 \<Rightarrow> bool" where "IsUpper c \<longleftrightarrow> c \<ge> 0x41 \<and> c \<le> 0x5A"
definition IsLower :: "u16 \<Rightarrow> bool" where "IsLower c \<longleftrightarrow> c \<ge> 0x61 \<and> c \<le> 0x7A"

definition chk_chr :: "u16 list \<Rightarrow> u16 \<Rightarrow> bool" where
  "chk_chr s c \<longleftrightarrow> c \<in> set s"

definition dbc_1st :: "u8 \<Rightarrow> bool" where
  "dbc_1st c \<longleftrightarrow> c \<ge> DbcTbl ! 0 \<and> (c \<le> DbcTbl ! 1 \<or> c \<ge> DbcTbl ! 2 \<and> c \<le> DbcTbl ! 3)"

definition dbc_2nd :: "u8 \<Rightarrow> bool" where
  "dbc_2nd c \<longleftrightarrow> c \<ge> DbcTbl ! 4 \<and>
     (c \<le> DbcTbl ! 5 \<or> c \<ge> DbcTbl ! 6 \<and> c \<le> DbcTbl ! 7 \<or> c \<ge> DbcTbl ! 8 \<and> c \<le> DbcTbl ! 9)"

section \<open>Entries of a long name\<close>

text \<open>
  An entry is the 32 bytes from \<open>dir\<close> on of the window \<open>b\<close>. The working buffer of a name has 256 units, as \<open>INIT_NAMBUF\<close> allocates it.
  The loops go over the offsets of the 13 units in the entry; \<open>None\<close> is a return of 0.
\<close>

fun cmp_loop :: "u16 list \<Rightarrow> u8 list \<Rightarrow> nat \<Rightarrow> nat list \<Rightarrow> u16 \<Rightarrow> u32 \<Rightarrow> (u16 \<times> u32) option" where
  "cmp_loop lfnbuf b dir [] wc i = Some (wc, i)"
| "cmp_loop lfnbuf b dir (s # ss) wc i =
     (let uc = ld_word b (dir + s) in
      if wc \<noteq> 0 then
        if i \<ge> of_nat FF_MAX_LFN \<or> ff_wtoupper (ucast uc) \<noteq> ff_wtoupper (ucast (lfnbuf ! unat i)) then None
        else cmp_loop lfnbuf b dir ss uc (i + 1)
      else if uc \<noteq> 0xFFFF then None else cmp_loop lfnbuf b dir ss wc i)"

definition cmp_lfn :: "u16 list \<Rightarrow> u8 list \<Rightarrow> nat \<Rightarrow> bool" where
  "cmp_lfn lfnbuf b dir =
     (if ld_word b (dir + LDIR_FstClusLO) \<noteq> 0 then False else
      case cmp_loop lfnbuf b dir LfnOfs 1 ((ucast (b ! (dir + LDIR_Ord) AND 0x3F) - 1) * 13) of
        None \<Rightarrow> False
      | Some (wc, i) \<Rightarrow> \<not> (b ! (dir + LDIR_Ord) AND LLEF \<noteq> 0 \<and> wc \<noteq> 0 \<and> lfnbuf ! unat i \<noteq> 0))"

text \<open>The result and the buffer.\<close>

fun pick_loop :: "u8 list \<Rightarrow> nat \<Rightarrow> nat list \<Rightarrow> u16 \<Rightarrow> u32 \<Rightarrow> u16 list \<Rightarrow> (u32 option \<times> u16 list)" where
  "pick_loop b dir [] wc i lfnbuf = (Some i, lfnbuf)"
| "pick_loop b dir (s # ss) wc i lfnbuf =
     (let uc = ld_word b (dir + s) in
      if wc \<noteq> 0 then
        if i \<ge> of_nat FF_MAX_LFN then (None, lfnbuf)
        else pick_loop b dir ss uc (i + 1) (lfnbuf[unat i := uc])
      else if uc \<noteq> 0xFFFF then (None, lfnbuf) else pick_loop b dir ss wc i lfnbuf)"

definition pick_lfn :: "u8 list \<Rightarrow> nat \<Rightarrow> u16 list \<Rightarrow> bool \<times> u16 list" where
  "pick_lfn b dir lfnbuf =
     (if ld_word b (dir + LDIR_FstClusLO) \<noteq> 0 then (False, lfnbuf) else
      case pick_loop b dir LfnOfs 1 ((ucast (b ! (dir + LDIR_Ord) AND NOT LLEF) - 1) * 13) lfnbuf of
        (None, lfnbuf) \<Rightarrow> (False, lfnbuf)
      | (Some i, lfnbuf) \<Rightarrow>
          if b ! (dir + LDIR_Ord) AND LLEF \<noteq> 0 then
            if i \<ge> of_nat FF_MAX_LFN then (False, lfnbuf) else (True, lfnbuf[unat i := 0])
          else (True, lfnbuf))"

fun put_loop :: "u16 list \<Rightarrow> nat \<Rightarrow> nat list \<Rightarrow> u16 \<Rightarrow> nat \<Rightarrow> u8 list \<Rightarrow> u16 \<times> nat \<times> u8 list" where
  "put_loop lfn dir [] wc i b = (wc, i, b)"
| "put_loop lfn dir (s # ss) wc i b =
     (let (wc, i) = (if wc \<noteq> 0xFFFF then (lfn ! i, i + 1) else (wc, i));
          b = st_word (dir + s) wc b
      in put_loop lfn dir ss (if wc = 0 then 0xFFFF else wc) i b)"

definition put_lfn :: "u16 list \<Rightarrow> nat \<Rightarrow> u8 \<Rightarrow> u8 \<Rightarrow> u8 list \<Rightarrow> u8 list" where
  "put_lfn lfn dir ord chk b =
     (let b = b[dir + LDIR_Chksum := chk, dir + LDIR_Attr := AM_LFN, dir + LDIR_Type := 0];
          b = st_word (dir + LDIR_FstClusLO) 0 b;
          (wc, i, b) = put_loop lfn dir LfnOfs 0 ((unat ord - 1) * 13) b;
          ord = (if wc = 0xFFFF \<or> lfn ! i = 0 then ord OR LLEF else ord)
      in b[dir + LDIR_Ord := ord])"

definition sum_sfn :: "u8 list \<Rightarrow> nat \<Rightarrow> u8" where
  "sum_sfn b dir = foldl (\<lambda>s c. drop_bit 1 s + push_bit 7 s + c) 0 (take 11 (drop dir b))"

section \<open>Numbered short names\<close>

text \<open>The hash of a long name, of one of its units and of the units up to the end.\<close>

fun hash_bits :: "nat \<Rightarrow> u16 \<Rightarrow> u32 \<Rightarrow> u32" where
  "hash_bits 0 wc sr = sr"
| "hash_bits (Suc n) wc sr =
     (let sr = push_bit 1 sr + ucast (wc AND 1);
          sr = (if sr AND 0x10000 \<noteq> 0 then sr XOR 0x11021 else sr)
      in hash_bits n (drop_bit 1 wc) sr)"

fun hash_name :: "u16 list \<Rightarrow> u32 \<Rightarrow> u32" where
  "hash_name [] sr = sr"
| "hash_name (wc # lfn) sr = (if wc = 0 then sr else hash_name lfn (hash_bits 16 wc sr))"

text \<open>The hexadecimal digits of a number, in front of \<open>ns\<close>.\<close>

fun itoa :: "nat \<Rightarrow> u8 list \<Rightarrow> u8 list" where
  "itoa seq ns =
     (let c = of_nat (seq mod 16) + 0x30;
          c = (if c > 0x39 then c + 7 else c);
          ns = c # ns
      in if seq div 16 = 0 then ns else itoa (seq div 16) ns)"

declare itoa.simps [simp del]

text \<open>Where the number goes to: at most to \<open>i\<close>, not after the first byte of a character of two.\<close>

function body_end :: "u8 list \<Rightarrow> nat \<Rightarrow> nat \<Rightarrow> nat" where
  "body_end dst i j =
     (if j < i \<and> dst ! j \<noteq> 0x20 then
        if dbc_1st (dst ! j) then if j = i - 1 then j else body_end dst i (j + 2)
        else body_end dst i (j + 1)
      else j)"
  by auto
termination
  by (relation "measure (\<lambda>(dst, i, j). i - j)") auto

declare body_end.simps [simp del]

function put_number :: "nat \<Rightarrow> u8 list \<Rightarrow> u8 list \<Rightarrow> u8 list" where
  "put_number j ns dst =
     (let dst = dst[j := if ns = [] then 0x20 else hd ns]
      in if j + 1 < 8 then put_number (j + 1) (tl ns) dst else dst)"
  by auto
termination
  by (relation "measure (\<lambda>(j, ns, dst). 8 - j)") auto

declare put_number.simps [simp del]

definition gen_numname :: "u8 list \<Rightarrow> u8 list \<Rightarrow> u16 list \<Rightarrow> nat \<Rightarrow> u8 list" where
  "gen_numname dst src lfn seq =
     (let dst = take 11 src @ drop 11 dst;
          seq = (if seq > 5 then unat (hash_name lfn (of_nat seq)) else seq);
          ns = 0x7E # itoa seq [];
          i = 8 - length ns;
          j = body_end dst i 0
      in put_number j ns dst)"


section \<open>A name from a path\<close>

lemma trailing_length: "trailing n u p = Some (v, q) \<Longrightarrow> length q \<le> length p"
  by (induction n u p rule: trailing.induct) (auto simp: Let_def split: if_splits)

lemma tchar2uni_shorter: "tchar2uni p = (uc, q) \<Longrightarrow> uc \<noteq> 0xFFFFFFFF \<Longrightarrow> p \<noteq> [] \<Longrightarrow> length q < length p"
  using trailing_length by (cases p) (fastforce simp: tchar2uni_def Let_def split: if_splits option.splits prod.splits)+

lemma tchar2uni_Nil [simp]: "tchar2uni [] = (0, [])"
  by (simp add: tchar2uni_def char_at_def)

definition LFN_ILLEGAL :: "u16 list" where "LFN_ILLEGAL = [0x22, 0x2A, 0x3A, 0x3C, 0x3E, 0x3F, 0x7C, 0x7F]"
definition SFN_ILLEGAL :: "u16 list" where "SFN_ILLEGAL = [0x2B, 0x2C, 0x3B, 0x3D, 0x5B, 0x5D]"

text \<open>
  The long name of the first segment of the path \<open>p\<close> goes into the buffer from \<open>di\<close> on. The results are an error, the last
  character, the buffer, the end of the name and the rest of the path.
\<close>

function lfn_loop :: "u8 list \<Rightarrow> u16 list \<Rightarrow> nat \<Rightarrow> fresult \<times> u16 \<times> u16 list \<times> nat \<times> u8 list" where
  "lfn_loop p lfn di =
     (case tchar2uni p of (uc, p') \<Rightarrow>
        if uc = 0xFFFFFFFF then (FR_INVALID_NAME, 0, lfn, di, p') else
        let lfn1 = (if uc \<ge> 0x10000 then lfn[di := ucast (drop_bit 16 uc)] else lfn);
            di1 = (if uc \<ge> 0x10000 then di + 1 else di);
            wc = ucast uc in
        if wc < 0x20 \<or> wc = 0x2F \<or> wc = 0x5C then (FR_OK, wc, lfn1, di1, p')
        else if wc < 0x80 \<and> chk_chr LFN_ILLEGAL wc then (FR_INVALID_NAME, wc, lfn1, di1, p')
        else if di1 \<ge> FF_MAX_LFN then (FR_INVALID_NAME, wc, lfn1, di1, p')
        else lfn_loop p' (lfn1[di1 := wc]) (di1 + 1))"
  by auto
termination
proof (relation "measure (\<lambda>(p, lfn, di). length p)")
  fix p lfn di x uc p' lfn1 di1 wc
  assume a: "(uc, p') = tchar2uni p" "uc \<noteq> 0xFFFFFFFF" "wc = (ucast uc :: u16)" "\<not> (wc < 0x20 \<or> wc = 0x2F \<or> wc = 0x5C)"
  then have "p \<noteq> []" by auto
  then show "((p', lfn1[di1 := wc], di1 + 1), p, lfn, di) \<in> measure (\<lambda>(p, lfn, di). length p)"
    using tchar2uni_shorter [of p uc p'] a by simp
qed auto

declare lfn_loop.simps [simp del]

fun skip_separators :: "u8 list \<Rightarrow> u8 list" where
  "skip_separators [] = []"
| "skip_separators (c # p) = (if c = 0x2F \<or> c = 0x5C then skip_separators p else c # p)"

fun snip :: "u16 list \<Rightarrow> nat \<Rightarrow> nat" where
  "snip lfn 0 = 0"
| "snip lfn (Suc di) = (if lfn ! di \<noteq> 0x20 \<and> lfn ! di \<noteq> 0x2E then Suc di else snip lfn di)"

fun last_dot :: "u16 list \<Rightarrow> nat \<Rightarrow> nat" where
  "last_dot lfn 0 = 0"
| "last_dot lfn (Suc di) = (if lfn ! di \<noteq> 0x2E then last_dot lfn di else Suc di)"

definition leading_spaces :: "u16 list \<Rightarrow> nat" where
  "leading_spaces lfn = length (takeWhile (\<lambda>c. c = 0x20) lfn)"

text \<open>
  The short name from position \<open>si\<close> of the long name, with the extension from \<open>di\<close>: the field \<open>[i, ni)\<close> of the name \<open>fn\<close> is filled,
  \<open>b\<close> collects the cases of its letters and \<open>cf\<close> the flags. \<open>tbl\<close> is the table of the code page.
\<close>

function sfn_loop :: "(u16 \<times> u16) list \<Rightarrow> u16 list \<Rightarrow> nat \<Rightarrow> nat \<Rightarrow> nat \<Rightarrow> nat \<Rightarrow> u8 \<Rightarrow> u8 \<Rightarrow> u8 list \<Rightarrow> nat \<times> u8 \<times> u8 \<times> u8 list" where
  "sfn_loop tbl lfn di si i ni b cf fn =
     (if si \<ge> length lfn \<or> lfn ! si = 0 then (ni, b, cf, fn) else
      let wc = lfn ! si; si = si + 1 in
      if wc = 0x20 \<or> wc = 0x2E \<and> si \<noteq> di then sfn_loop tbl lfn di si i ni b (cf OR NS_LOSS OR NS_LFN) fn
      else if i \<ge> ni \<or> si = di then
        if ni = 11 then (ni, b, cf OR NS_LOSS OR NS_LFN, fn)
        else
          let cf = (if si \<noteq> di then cf OR NS_LOSS OR NS_LFN else cf) in
          if si > di then (ni, b, cf, fn) else sfn_loop tbl lfn di di 8 11 (push_bit 2 b) cf fn
      else
        let cf = (if wc \<ge> 0x80 then cf OR NS_LFN else cf);
            wc = (if wc \<ge> 0x80 then ff_uni2oem tbl (ff_wtoupper (ucast wc)) FF_CODE_PAGE else wc) in
        if wc \<ge> 0x100 then
          if i \<ge> ni - 1 then sfn_loop tbl lfn di si ni ni b (cf OR NS_LOSS OR NS_LFN) fn
          else sfn_loop tbl lfn di si (i + 2) ni b cf (fn[i := ucast (drop_bit 8 wc), i + 1 := ucast wc])
        else if wc = 0 \<or> chk_chr SFN_ILLEGAL wc then
          sfn_loop tbl lfn di si (i + 1) ni b (cf OR NS_LOSS OR NS_LFN) (fn[i := 0x5F])
        else
          sfn_loop tbl lfn di si (i + 1) ni (if IsLower wc then b OR 1 else if IsUpper wc then b OR 2 else b) cf
            (fn[i := ucast (if IsLower wc then wc - 0x20 else wc)]))"
  by auto
termination
  by (relation "measure (\<lambda>(tbl, lfn, di, si, i, ni, b, cf, fn). length lfn - si)") auto

declare sfn_loop.simps [simp del]

text \<open>The names of the first segment: the result, \<open>fn\<close>, the buffer and the rest of the path.\<close>

definition create_name :: "(u16 \<times> u16) list \<Rightarrow> u8 list \<Rightarrow> u8 list \<Rightarrow> u16 list \<Rightarrow> fresult \<times> u8 list \<times> u16 list \<times> u8 list" where
  "create_name tbl path fn lfn =
     (case lfn_loop path lfn 0 of (res, wc, lfn, di, p) \<Rightarrow>
        if res \<noteq> FR_OK then (res, fn, lfn, path) else
        let path = skip_separators p;
            cf = (if wc < 0x20 then NS_LAST else 0) in
        if di = 1 \<and> lfn ! 0 = 0x2E \<or> di = 2 \<and> lfn ! 1 = 0x2E \<and> lfn ! 0 = 0x2E then
          (FR_OK, map (\<lambda>i. if i < di then 0x2E else 0x20) [0..<11] @ [cf OR NS_DOT], lfn[di := 0], path)
        else
          let di = snip lfn di;
              lfn = lfn[di := 0] in
          if di = 0 then (FR_INVALID_NAME, fn, lfn, path) else
          let si = leading_spaces lfn;
              cf = (if si > 0 \<or> lfn ! si = 0x2E then cf OR NS_LOSS OR NS_LFN else cf);
              (ni, b, cf, fn) = sfn_loop tbl lfn (last_dot lfn di) si 0 8 0 cf (replicate 11 0x20 @ drop 11 fn);
              fn = (if fn ! 0 = DDEM then fn[0 := RDDEM] else fn);
              b = (if ni = 8 then push_bit 2 b else b);
              cf = (if b AND 0x0C = 0x0C \<or> b AND 0x03 = 0x03 then cf OR NS_LFN else cf);
              cf = (if cf AND NS_LFN = 0 \<and> b AND 0x01 \<noteq> 0 then cf OR NS_EXT else cf);
              cf = (if cf AND NS_LFN = 0 \<and> b AND 0x04 \<noteq> 0 then cf OR NS_BODY else cf)
          in (FR_OK, fn[NSFLAG := cf], lfn, path))"

section \<open>A name for the program\<close>

text \<open>The UTF-8 form of a long name; a name that is not valid or too long is the empty one. \<open>hs\<close> is the first surrogate of a pair.\<close>

fun lfn_utf :: "u16 list \<Rightarrow> u16 \<Rightarrow> u8 list \<Rightarrow> u8 list" where
  "lfn_utf [] hs fname = (if hs \<noteq> 0 then [] else fname)"
| "lfn_utf (wc # lfn) hs fname =
     (if wc = 0 then if hs \<noteq> 0 then [] else fname
      else if hs = 0 \<and> IsSurrogate (ucast wc) then lfn_utf lfn wc fname
      else
        let bs = put_utf (push_bit 16 (ucast hs) OR ucast wc) (FF_LFN_BUF - length fname)
        in if bs = [] then [] else lfn_utf lfn 0 (fname @ bs))"

text \<open>The short name of an entry, from its byte \<open>si\<close>, with a dot before the extension. \<open>tbl\<close> is the table of the code page.\<close>

function sfn_utf :: "(u16 \<times> u16) list \<Rightarrow> u8 list \<Rightarrow> nat \<Rightarrow> nat \<Rightarrow> u8 list \<Rightarrow> u8 list" where
  "sfn_utf tbl b dir si altname =
     (if si \<ge> 11 then altname else
      let c = b ! (dir + si); si = si + 1 in
      if c = 0x20 then sfn_utf tbl b dir si altname else
      let c = (if c = RDDEM then DDEM else c);
          altname = (if si = 9 \<and> length altname < FF_SFN_BUF then altname @ [0x2E] else altname);
          dbc = dbc_1st c \<and> si \<noteq> 8 \<and> si \<noteq> 11 \<and> dbc_2nd (b ! (dir + si));
          wc = (if dbc then push_bit 8 (ucast c) OR ucast (b ! (dir + si)) else ucast c);
          si = (if dbc then si + 1 else si);
          wc = ff_oem2uni tbl wc FF_CODE_PAGE in
      if wc = 0 then [] else
      let bs = put_utf (ucast wc) (FF_SFN_BUF - length altname)
      in if bs = [] then [] else sfn_utf tbl b dir si (altname @ bs))"
  by auto
termination
  by (relation "measure (\<lambda>(tbl, b, dir, si, altname). 11 - si)") auto

declare sfn_utf.simps [simp del]

text \<open>The short name with the letters in lower case that the flags of the entry ask for.\<close>

definition case_name :: "u8 \<Rightarrow> u8 list \<Rightarrow> u8 list" where
  "case_name ntres altname =
     map (\<lambda>(si, c). if IsUpper (ucast c) \<and> ntres AND (if si \<ge> 9 then NS_EXT else NS_BODY) \<noteq> 0 then c + 0x20 else c)
       (zip [0..<length altname] altname)"

end
