(* ===== verification/Fat_Lfn.thy ===== *)
theory Fat_Lfn
  imports Fat_Name
begin

text \<open>
  The entries of a long name. What \<open>put_lfn\<close> stores, \<open>cmp_lfn\<close> matches exactly with the names that are equal but for the case of
  their letters, and \<open>pick_lfn\<close> reads back; both stop one or two units short of the longest name the functions accept.
\<close>

section \<open>Long names in entries\<close>

text \<open>Unit \<open>m\<close> of a name in its entries: the units of the name, a zero, and fillers.\<close>

definition lfn_unit :: "u16 list \<Rightarrow> nat \<Rightarrow> u16" where
  "lfn_unit nm m = (if m < length nm then nm ! m else if m = length nm then 0 else 0xFFFF)"

text \<open>A buffer with a name, the units of which are neither the end nor a filler.\<close>

definition lfn_name :: "u16 list \<Rightarrow> u16 list \<Rightarrow> bool" where
  "lfn_name nm lfn \<longleftrightarrow> length lfn = 256 \<and> take (length nm + 1) lfn = nm @ [0] \<and> 0 \<notin> set nm \<and> 0xFFFF \<notin> set nm"

lemma lfn_nameD:
  assumes "lfn_name nm lfn"
  shows "length nm < 256" "length lfn = 256" "m \<le> length nm \<Longrightarrow> lfn ! m = lfn_unit nm m"
    "m < length nm \<Longrightarrow> lfn_unit nm m \<noteq> 0" "m \<le> length nm \<Longrightarrow> lfn_unit nm m \<noteq> 0xFFFF"
proof -
  have t: "take (length nm + 1) lfn = nm @ [0]" "length lfn = 256" using assms by (simp_all add: lfn_name_def)
  have "length (take (length nm + 1) lfn) = length nm + 1" unfolding t(1) by simp
  then show "length nm < 256" using t(2) by simp
  show "length lfn = 256" using t(2) .
  show "lfn ! m = lfn_unit nm m" if "m \<le> length nm"
  proof -
    have "lfn ! m = take (length nm + 1) lfn ! m" using that by simp
    then show ?thesis unfolding t(1) using that by (simp add: lfn_unit_def nth_append)
  qed
  show "m < length nm \<Longrightarrow> lfn_unit nm m \<noteq> 0" "m \<le> length nm \<Longrightarrow> lfn_unit nm m \<noteq> 0xFFFF"
    using assms by (auto simp: lfn_unit_def lfn_name_def) (metis nth_mem)+
qed

fun put_units :: "(nat \<Rightarrow> u16) \<Rightarrow> nat \<Rightarrow> nat list \<Rightarrow> nat \<Rightarrow> u8 list \<Rightarrow> u8 list" where
  "put_units u dir [] m b = b"
| "put_units u dir (s # ss) m b = put_units u dir ss (m + 1) (st_word (dir + s) (u m) b)"

lemma put_loop_units:
  assumes "lfn_name nm lfn" and "if m \<le> length nm then wc \<noteq> 0xFFFF \<and> i = m else wc = 0xFFFF \<and> i = length nm + 1"
  shows "\<exists>wc' i'. put_loop lfn dir ss wc i b = (wc', i', put_units (lfn_unit nm) dir ss m b) \<and>
     (if m + length ss \<le> length nm then wc' \<noteq> 0xFFFF \<and> i' = m + length ss else wc' = 0xFFFF \<and> i' = length nm + 1)"
  using assms(2)
proof (induction ss arbitrary: m wc i b)
  case (Cons s ss)
  note n = lfn_nameD [OF assms(1)]
  define u where "u = lfn_unit nm m"
  have step: "put_loop lfn dir (s # ss) wc i b =
      put_loop lfn dir ss (if u = 0 then 0xFFFF else u) (if m \<le> length nm then m + 1 else i) (st_word (dir + s) u b)"
    using Cons.prems n(3) by (auto simp: u_def lfn_unit_def split: if_splits)
  have "if m + 1 \<le> length nm then (if u = 0 then 0xFFFF else u) \<noteq> 0xFFFF \<and> (if m \<le> length nm then m + 1 else i) = m + 1
      else (if u = 0 then 0xFFFF else u) = 0xFFFF \<and> (if m \<le> length nm then m + 1 else i) = length nm + 1"
    using Cons.prems n(4,5) [of m] by (auto simp: u_def lfn_unit_def split: if_splits)
  from Cons.IH [OF this, of "st_word (dir + s) u b"] show ?case
    unfolding step put_units.simps u_def [symmetric] list.size add.assoc by (simp only: add.commute [of 1] One_nat_def [symmetric])
qed (use assms in auto)

lemma length_put_units [simp]: "length (put_units u dir ss m b) = length b"
  by (induction u dir ss m b rule: put_units.induct) simp_all

lemma put_units_other:
  "(\<And>s. s \<in> set ss \<Longrightarrow> p \<noteq> dir + s \<and> p \<noteq> dir + s + 1) \<Longrightarrow> put_units u dir ss m b ! p = b ! p"
proof (induction u dir ss m b rule: put_units.induct)
  case (2 u dir s ss m b)
  then show ?case by (simp add: nth_st_word)
qed simp

lemma put_units_nth:
  assumes "sorted_wrt (\<lambda>s t. s + 2 \<le> t) ss" and "j < length ss" and "\<forall>s \<in> set ss. dir + s + 1 < length b"
  shows "ld_word (put_units u dir ss m b) (dir + ss ! j) = u (m + j)"
  using assms
proof (induction u dir ss m b arbitrary: j rule: put_units.induct)
  case (2 u dir s ss m b)
  show ?case
  proof (cases j)
    case 0
    have o: "put_units u dir ss (m + 1) b' ! p = b' ! p" if "p = dir + s \<or> p = dir + s + 1" for p b'
      by (rule put_units_other) (use 2(2) that in auto)
    then have "ld_word (put_units u dir ss (m + 1) b') (dir + s) = ld_word b' (dir + s)" for b' by (simp add: ld_word_def)
    then show ?thesis using 0 2(4) by (simp add: ld_st_word)
  next
    case (Suc k)
    then show ?thesis using 2 by simp
  qed
qed simp


text \<open>Entry \<open>k\<close> of a name, as \<open>put_lfn\<close> makes it.\<close>

definition lfn_entry :: "u16 list \<Rightarrow> nat \<Rightarrow> u8 list \<Rightarrow> nat \<Rightarrow> bool" where
  "lfn_entry nm k e dir \<longleftrightarrow> ld_word e (dir + LDIR_FstClusLO) = 0 \<and> e ! (dir + LDIR_Attr) = AM_LFN \<and>
     e ! (dir + LDIR_Ord) = of_nat k OR (if length nm \<le> 13 * k then LLEF else 0) \<and>
     (\<forall>j < 13. ld_word e (dir + LfnOfs ! j) = lfn_unit nm (13 * (k - 1) + j))"

lemma LfnOfs_apart: "sorted_wrt (\<lambda>s t. s + 2 \<le> t) LfnOfs" "length LfnOfs = 13"
  by (simp_all add: LfnOfs_def)

lemma put_lfn_entry:
  assumes "lfn_name nm lfn" and "0 < k" and "13 * (k - 1) \<le> length nm" and "dir + 32 \<le> length b"
  shows "lfn_entry nm k (put_lfn lfn dir (of_nat k) chk b) dir" "put_lfn lfn dir (of_nat k) chk b ! (dir + LDIR_Chksum) = chk"
    "length (put_lfn lfn dir (of_nat k) chk b) = length b"
    "p < dir \<or> dir + 32 \<le> p \<Longrightarrow> put_lfn lfn dir (of_nat k) chk b ! p = b ! p"
proof -
  note n = lfn_nameD [OF assms(1)]
  have k: "k \<le> 20" "unat (of_nat k :: u8) = k" using assms(2,3) n(1) by (simp_all add: unat_of_nat)
  define b1 where "b1 = st_word (dir + LDIR_FstClusLO) 0 (b[dir + LDIR_Chksum := chk, dir + LDIR_Attr := AM_LFN, dir + LDIR_Type := 0])"
  define b2 where "b2 = put_units (lfn_unit nm) dir LfnOfs (13 * (k - 1)) b1"
  have l13: "13 * (k - 1) + length LfnOfs = 13 * k" using assms(2) LfnOfs_apart(2) by (cases k) simp_all
  have pre: "if 13 * (k - 1) \<le> length nm then (0 :: u16) \<noteq> 0xFFFF \<and> 13 * (k - 1) = 13 * (k - 1) else (0 :: u16) = 0xFFFF \<and> 13 * (k - 1) = length nm + 1"
    using assms(3) by simp
  obtain wc i where p: "put_loop lfn dir LfnOfs 0 (13 * (k - 1)) b1 = (wc, i, b2)"
    "if 13 * k \<le> length nm then wc \<noteq> 0xFFFF \<and> i = 13 * k else wc = 0xFFFF \<and> i = length nm + 1"
    using put_loop_units [OF assms(1) pre, of dir LfnOfs b1, unfolded l13] unfolding b2_def by blast
  have last: "(wc = 0xFFFF \<or> lfn ! i = 0) = (length nm \<le> 13 * k)"
  proof (cases "13 * k \<le> length nm")
    case True
    then have "lfn ! i = lfn_unit nm (13 * k)" "wc \<noteq> 0xFFFF" using p(2) n(3) by simp_all
    then show ?thesis using True n(4) [of "13 * k"] by (auto simp: lfn_unit_def)
  qed (use p(2) in auto)
  have e: "put_lfn lfn dir (of_nat k) chk b = b2[dir + LDIR_Ord := of_nat k OR (if length nm \<le> 13 * k then LLEF else 0)]"
    using p(1) last by (simp add: put_lfn_def b1_def [symmetric] k(2) mult.commute)
  have len: "length b1 = length b" "length b2 = length b" by (simp_all add: b1_def b2_def)
  have o: "b2 ! (dir + q) = b1 ! (dir + q)" if "q \<in> {0, 11, 12, 13, 26, 27} \<or> 32 \<le> q" for q
    unfolding b2_def by (rule put_units_other) (use that in \<open>auto simp: LfnOfs_def\<close>)
  have u: "ld_word b2 (dir + LfnOfs ! j) = lfn_unit nm (13 * (k - 1) + j)" if "j < 13" for j
    unfolding b2_def by (rule put_units_nth [OF LfnOfs_apart(1)]) (use that assms(4) len in \<open>auto simp: LfnOfs_def\<close>)
  have pos: "LfnOfs ! j \<noteq> 0" if "j < 13" for j
    using that LfnOfs_apart(2) nth_mem [of j LfnOfs] by (auto simp: LfnOfs_def)
  have z: "b2 ! (dir + 26) = 0" "b2 ! Suc (dir + 26) = 0"
    using o [of 26] o [of 27] assms(4) by (simp_all add: b1_def st_word_def LDIR_FstClusLO_def add.commute [of 27])
  show "lfn_entry nm k (put_lfn lfn dir (of_nat k) chk b) dir"
    unfolding lfn_entry_def e using u pos o [of 11] z assms(4) len
    by (auto simp: ld_word_def LDIR_Ord_def LDIR_Attr_def LDIR_FstClusLO_def b1_def st_word_def LDIR_Chksum_def LDIR_Type_def)
  show "put_lfn lfn dir (of_nat k) chk b ! (dir + LDIR_Chksum) = chk"
    unfolding e using o [of 13] assms(4) len by (auto simp: LDIR_Ord_def LDIR_Attr_def LDIR_FstClusLO_def b1_def st_word_def LDIR_Chksum_def LDIR_Type_def)
  show "length (put_lfn lfn dir (of_nat k) chk b) = length b" unfolding e by (simp add: len)
  show "put_lfn lfn dir (of_nat k) chk b ! p = b ! p" if "p < dir \<or> dir + 32 \<le> p"
  proof -
    have "b2 ! p = b1 ! p" unfolding b2_def by (rule put_units_other) (use that in \<open>auto simp: LfnOfs_def\<close>)
    then show ?thesis unfolding e using that
      by (auto simp: LDIR_Ord_def LDIR_Attr_def LDIR_FstClusLO_def b1_def st_word_def LDIR_Chksum_def LDIR_Type_def)
  qed
qed


text \<open>
  Comparison of an entry with the name in the buffer. The comparison ends at the unit 254, so that the end of a name of 255 units is
  never compared.
\<close>

lemma cmp_loop_units:
  assumes "length nm < 255" and "0 \<notin> set nm"
    and "\<forall>j < length ss. ld_word e (dir + ss ! j) = lfn_unit nm (m + j)" and "if m \<le> length nm then wc \<noteq> 0 \<and> i = of_nat m else wc = 0 \<and> i = of_nat (length nm + 1)"
  shows "cmp_loop lfn e dir ss wc i =
     (if \<forall>j < length ss. m + j \<le> length nm \<longrightarrow> ff_wtoupper (ucast (lfn_unit nm (m + j))) = ff_wtoupper (ucast (lfn ! (m + j)))
      then Some (if m + length ss \<le> length nm then (if ss = [] then wc else lfn_unit nm (m + length ss - 1), of_nat (m + length ss)) else (0, of_nat (length nm + 1)))
      else None)"
  using assms(3,4)
proof (induction ss arbitrary: m wc i)
  case (Cons s ss)
  let ?ok = "\<lambda>p. ff_wtoupper (ucast (lfn_unit nm p)) = ff_wtoupper (ucast (lfn ! p))"
  have u: "ld_word e (dir + s) = lfn_unit nm m" using Cons.prems(1) by auto
  have r: "\<forall>j < length ss. ld_word e (dir + ss ! j) = lfn_unit nm (m + 1 + j)" using Cons.prems(1) by auto
  have all: "(\<forall>j < length (s # ss). m + j \<le> length nm \<longrightarrow> ?ok (m + j)) \<longleftrightarrow>
      (m \<le> length nm \<longrightarrow> ?ok m) \<and> (\<forall>j < length ss. m + 1 + j \<le> length nm \<longrightarrow> ?ok (m + 1 + j))"
    by (auto simp: All_less_Suc2)
  show ?case
  proof (cases "m \<le> length nm")
    case True
    then have w: "wc \<noteq> 0" "i = of_nat m" "unat (of_nat m :: u32) = m" "\<not> (of_nat FF_MAX_LFN :: u32) \<le> of_nat m"
      using Cons.prems(2) assms(1) by (auto simp: unat_of_nat FF_MAX_LFN_def word_le_nat_alt)
    have "if m + 1 \<le> length nm then lfn_unit nm m \<noteq> 0 \<and> (of_nat m + 1 :: u32) = of_nat (m + 1) else lfn_unit nm m = 0 \<and> (of_nat m + 1 :: u32) = of_nat (length nm + 1)"
    proof (cases "m < length nm")
      case less: True
      then have "nm ! m \<noteq> 0" using assms(2) by (metis less nth_mem)
      then show ?thesis using less by (simp add: lfn_unit_def)
    next
      case False
      then show ?thesis using True by (simp add: lfn_unit_def)
    qed
    note ih = Cons.IH [OF r this]
    have step: "cmp_loop lfn e dir (s # ss) wc i = (if ?ok m then cmp_loop lfn e dir ss (lfn_unit nm m) (of_nat m + 1) else None)"
      using w u by (simp add: Let_def)
    have v: "(if m + 1 + length ss \<le> length nm then (if ss = [] then lfn_unit nm m else lfn_unit nm (m + 1 + length ss - 1), of_nat (m + 1 + length ss))
        else (0, of_nat (length nm + 1))) =
      (if m + length (s # ss) \<le> length nm then (if s # ss = [] then wc else lfn_unit nm (m + length (s # ss) - 1), of_nat (m + length (s # ss)))
        else (0, of_nat (length nm + 1) :: u32))"
      by (cases ss) simp_all
    show ?thesis unfolding step ih all v [symmetric] by (cases "?ok m") (simp_all only: True simp_thms if_True if_False)
  next
    case False
    then have "lfn_unit nm m = 0xFFFF" by (simp add: lfn_unit_def)
    moreover have "if m + 1 \<le> length nm then wc \<noteq> 0 \<and> i = of_nat (m + 1) else wc = 0 \<and> i = of_nat (length nm + 1)"
      using False Cons.prems(2) by simp
    ultimately show ?thesis using Cons.IH [OF r, of wc i] False u Cons.prems(2) by simp
  qed
qed (use assms in auto)


lemma ord_fields:
  assumes "0 < k" and "k \<le> 20" and "f = (if c then LLEF else 0)"
  shows "(of_nat k OR f) AND 0x3F = of_nat k" "(of_nat k OR f) AND NOT LLEF = of_nat k" "(of_nat k OR f) AND LLEF \<noteq> 0 \<longleftrightarrow> c"
    "(ucast (of_nat k :: u8) - 1) * 13 = (of_nat (13 * (k - 1)) :: u32)"
proof -
  have u: "unat (of_nat k :: u8) = k" using assms(2) by (simp add: unat_of_nat)
  have m: "of_nat k AND 0x3F = (of_nat k :: u8)" unfolding masks by (rule small_mask) (use u assms(2) in simp)
  have n: "of_nat k AND NOT 0x40 = (of_nat k :: u8)" "of_nat k AND 0x40 = (0 :: u8)"
  proof -
    have "(of_nat k AND 0x3F) AND NOT 0x40 = (of_nat k AND 0x3F :: u8)" "(of_nat k AND 0x3F) AND 0x40 = (0 :: u8)" by (simp_all add: and.assoc)
    then show "of_nat k AND NOT 0x40 = (of_nat k :: u8)" "of_nat k AND 0x40 = (0 :: u8)" unfolding m .
  qed
  show "(of_nat k OR f) AND 0x3F = of_nat k" "(of_nat k OR f) AND NOT LLEF = of_nat k" "(of_nat k OR f) AND LLEF \<noteq> 0 \<longleftrightarrow> c"
    using m n assms(3) by (simp_all add: LLEF_def bit.conj_disj_distrib2)
  have "ucast (of_nat k :: u8) = (of_nat k :: u32)"
    using assms(2) by (simp add: word_unat_eq_iff unsigned_ucast_eq u unat_of_nat take_bit_nat_eq_self)
  then show "(ucast (of_nat k :: u8) - 1) * 13 = (of_nat (13 * (k - 1)) :: u32)" using assms(1) by (simp add: of_nat_diff mult.commute)
qed

lemma shift_all: "(\<forall>j < n. P (c + j)) \<longleftrightarrow> (\<forall>p. c \<le> p \<and> p < c + n \<longrightarrow> P p)" for c n :: nat
proof (intro iffI allI impI)
  fix p assume "\<forall>j < n. P (c + j)" and p: "c \<le> p \<and> p < c + n"
  then have "P (c + (p - c))" by (metis add_less_cancel_left le_add_diff_inverse)
  then show "P p" using p by simp
qed auto

lemma cmp_lfn_entry:
  assumes "lfn_entry nm k e dir" and "0 < k" and "13 * (k - 1) < length nm" and "length nm < 255" and "0 \<notin> set nm"
  shows "cmp_lfn lfn e dir \<longleftrightarrow>
     (\<forall>p \<le> length nm. 13 * (k - 1) \<le> p \<and> p < 13 * k \<longrightarrow> ff_wtoupper (ucast (lfn_unit nm p)) = ff_wtoupper (ucast (lfn ! p))) \<and>
     (length nm = 13 * k \<longrightarrow> lfn ! length nm = 0)"
proof -
  let ?c = "13 * (k - 1)" and ?ok = "\<lambda>p. ff_wtoupper (ucast (lfn_unit nm p)) = ff_wtoupper (ucast (lfn ! p))"
  have k: "k \<le> 20" "13 * k = ?c + 13" using assms(2-4) by (cases k; simp)+
  have e: "ld_word e (dir + LDIR_FstClusLO) = 0" "e ! (dir + LDIR_Ord) = of_nat k OR (if length nm \<le> 13 * k then LLEF else 0)"
    "\<forall>j < length LfnOfs. ld_word e (dir + LfnOfs ! j) = lfn_unit nm (?c + j)"
    using assms(1) by (simp_all add: lfn_entry_def LfnOfs_apart(2))
  note o = ord_fields [OF assms(2) k(1), of "if length nm \<le> 13 * k then LLEF else 0", OF refl]
  have pre: "if ?c \<le> length nm then (1 :: u16) \<noteq> 0 \<and> (of_nat ?c :: u32) = of_nat ?c else (1 :: u16) = 0 \<and> (of_nat ?c :: u32) = of_nat (length nm + 1)"
    using assms(3) by simp
  have all: "(\<forall>j < length LfnOfs. ?c + j \<le> length nm \<longrightarrow> ?ok (?c + j)) \<longleftrightarrow> (\<forall>p \<le> length nm. ?c \<le> p \<and> p < 13 * k \<longrightarrow> ?ok p)"
    using shift_all [of 13 "\<lambda>p. p \<le> length nm \<longrightarrow> ?ok p" ?c] unfolding LfnOfs_apart(2) k(2) by blast
  have lo: "LfnOfs \<noteq> []" "?c + length LfnOfs = 13 * k" using LfnOfs_apart(2) k(2) by auto
  have c: "cmp_loop lfn e dir LfnOfs 1 (of_nat ?c) =
     (if \<forall>p \<le> length nm. ?c \<le> p \<and> p < 13 * k \<longrightarrow> ?ok p
      then Some (if 13 * k \<le> length nm then (lfn_unit nm (13 * k - 1), of_nat (13 * k)) else (0, of_nat (length nm + 1))) else None)"
    unfolding cmp_loop_units [OF assms(4,5) e(3) pre] all lo(2) if_not_P [OF lo(1)] ..
  have l: "lfn_unit nm (13 * k - 1) \<noteq> 0" "unat (of_nat (13 * k) :: u32) = 13 * k" if "13 * k \<le> length nm"
  proof -
    have "13 * k - 1 < length nm" using that assms(2) by simp
    then show "lfn_unit nm (13 * k - 1) \<noteq> 0" using assms(5) by (auto simp: lfn_unit_def) (metis nth_mem)
    show "unat (of_nat (13 * k) :: u32) = 13 * k" using k(1) by (simp only: unat_of_nat) simp
  qed
  have d: "cmp_lfn lfn e dir = (case cmp_loop lfn e dir LfnOfs 1 (of_nat ?c) of None \<Rightarrow> False
      | Some (wc, i) \<Rightarrow> \<not> (length nm \<le> 13 * k \<and> wc \<noteq> 0 \<and> lfn ! unat i \<noteq> 0))"
    by (simp only: cmp_lfn_def e(1,2) o simp_thms if_False)
  show ?thesis
  proof (cases "13 * k \<le> length nm")
    case True
    then show ?thesis unfolding d c using l [OF True] by (auto simp del: of_nat_mult of_nat_numeral)
  next
    case False
    then show ?thesis unfolding d c by auto
  qed
qed

text \<open>All entries of a name match a buffer if the names are equal but for the case of their letters.\<close>

lemma cmp_all_entries:
  assumes "lfn_name nm lfn1" and "lfn_name nm2 lfn2" and "nm \<noteq> []" and "length nm < 255"
    and "\<And>k. 0 < k \<Longrightarrow> 13 * (k - 1) < length nm \<Longrightarrow> lfn_entry nm k (e k) (dir k)"
  shows "(\<forall>k. 0 < k \<and> 13 * (k - 1) < length nm \<longrightarrow> cmp_lfn lfn2 (e k) (dir k)) \<longleftrightarrow>
     map (\<lambda>c. ff_wtoupper (ucast c)) nm = map (\<lambda>c. ff_wtoupper (ucast c)) nm2"
proof -
  let ?up = "\<lambda>c :: u16. ff_wtoupper (ucast c)" and ?L = "length nm"
  have z: "0 \<notin> set nm" using assms(1) by (simp add: lfn_name_def)
  have "(\<forall>k. 0 < k \<and> 13 * (k - 1) < ?L \<longrightarrow> cmp_lfn lfn2 (e k) (dir k)) \<longleftrightarrow>
      (\<forall>k. 0 < k \<and> 13 * (k - 1) < ?L \<longrightarrow> (\<forall>p \<le> ?L. 13 * (k - 1) \<le> p \<and> p < 13 * k \<longrightarrow> ?up (lfn_unit nm p) = ?up (lfn2 ! p)) \<and>
        (?L = 13 * k \<longrightarrow> lfn2 ! ?L = 0))"
    using cmp_lfn_entry [OF assms(5) _ _ assms(4) z] by blast
  also have "\<dots> \<longleftrightarrow> (\<forall>p < ?L. ?up (nm ! p) = ?up (lfn2 ! p)) \<and> lfn2 ! ?L = 0" (is "?A \<longleftrightarrow> ?B")
  proof
    assume a: ?A
    have "?up (nm ! p) = ?up (lfn2 ! p)" if "p < ?L" for p
    proof -
      have "13 * (p div 13 + 1 - 1) \<le> p" "p < 13 * (p div 13 + 1)" using div_mod_decomp [of p 13] mod_less_divisor [of 13 p] by simp_all
      moreover from this have "0 < p div 13 + 1 \<and> 13 * (p div 13 + 1 - 1) < ?L" using that by simp
      ultimately have "?up (lfn_unit nm p) = ?up (lfn2 ! p)" using a that by (meson less_imp_le)
      then show ?thesis using that by (simp add: lfn_unit_def)
    qed
    moreover have "lfn2 ! ?L = 0"
    proof -
      let ?k = "(?L - 1) div 13 + 1"
      have "13 * (?k - 1) \<le> ?L - 1" "?L - 1 < 13 * ?k" using div_mod_decomp [of "?L - 1" 13] mod_less_divisor [of 13 "?L - 1"] by simp_all
      then have k: "13 * (?k - 1) < ?L" "?L \<le> 13 * ?k" using assms(3) by (cases nm; simp)+
      show ?thesis
      proof (cases "?L = 13 * ?k")
        case False
        then have "?up (lfn_unit nm ?L) = ?up (lfn2 ! ?L)" using a [rule_format, of ?k] k by simp
        then show ?thesis using ff_wtoupper_0 [of "lfn2 ! ?L"] ff_wtoupper_0 [of 0] by (simp add: lfn_unit_def)
      qed (use a [rule_format, of ?k] k in simp)
    qed
    ultimately show ?B by blast
  qed (auto simp: lfn_unit_def)
  also have "\<dots> \<longleftrightarrow> map ?up nm = map ?up nm2" (is "?B \<longleftrightarrow> ?C")
  proof
    note n2 = lfn_nameD [OF assms(2)]
    assume b: ?B
    have "\<not> length nm2 < ?L"
    proof
      assume l: "length nm2 < ?L"
      then have "?up (nm ! length nm2) = ?up 0" using b n2(3) [of "length nm2"] by (simp add: lfn_unit_def)
      then have "nm ! length nm2 = 0" using ff_wtoupper_0 [of "nm ! length nm2"] ff_wtoupper_0 [of 0] by simp
      then show False using z nth_mem [OF l] by metis
    qed
    moreover have "\<not> ?L < length nm2" using b n2(3,4) [of ?L] by auto
    ultimately have l: "length nm2 = ?L" by simp
    have "?up (nm ! p) = ?up (nm2 ! p)" if "p < ?L" for p using b n2(3) [of p] that l by (simp add: lfn_unit_def)
    then show ?C using l by (intro nth_equalityI) simp_all
  next
    note n2 = lfn_nameD [OF assms(2)]
    assume c: ?C
    then have l: "length nm2 = ?L" by (metis length_map)
    have "?up (nm ! p) = ?up (lfn2 ! p)" if "p < ?L" for p
      using n2(3) [of p] that l arg_cong [OF c, of "\<lambda>xs. xs ! p"] by (simp add: lfn_unit_def)
    then show ?B using n2(3) [of ?L] l by (simp add: lfn_unit_def)
  qed
  finally show ?thesis .
qed

text \<open>The units of an entry go to their place in the buffer.\<close>

lemma pick_loop_units:
  assumes "length nm < 255" and "0 \<notin> set nm" and "length buf = 256"
    and "\<forall>j < length ss. ld_word e (dir + ss ! j) = lfn_unit nm (m + j)" and "if m \<le> length nm then wc \<noteq> 0 \<and> i = of_nat m else wc = 0 \<and> i = of_nat (length nm + 1)"
  shows "\<exists>buf'. pick_loop e dir ss wc i buf = (Some (if m + length ss \<le> length nm then of_nat (m + length ss) else of_nat (length nm + 1)), buf') \<and>
     length buf' = 256 \<and> (\<forall>p. buf' ! p = (if m \<le> p \<and> p < m + length ss \<and> p \<le> length nm then lfn_unit nm p else buf ! p))"
  using assms(3-5)
proof (induction ss arbitrary: m wc i buf)
  case (Cons s ss)
  have u: "ld_word e (dir + s) = lfn_unit nm m" using Cons.prems(2) by auto
  have r: "\<forall>j < length ss. ld_word e (dir + ss ! j) = lfn_unit nm (m + 1 + j)" using Cons.prems(2) by auto
  have l: "m + 1 + length ss = m + length (s # ss)" by simp
  show ?case
  proof (cases "m \<le> length nm")
    case True
    then have w: "wc \<noteq> 0" "i = of_nat m" "unat (of_nat m :: u32) = m" "\<not> (of_nat FF_MAX_LFN :: u32) \<le> of_nat m"
      using Cons.prems(3) assms(1) by (auto simp: unat_of_nat FF_MAX_LFN_def word_le_nat_alt)
    have st: "if m + 1 \<le> length nm then lfn_unit nm m \<noteq> 0 \<and> (of_nat m + 1 :: u32) = of_nat (m + 1) else lfn_unit nm m = 0 \<and> (of_nat m + 1 :: u32) = of_nat (length nm + 1)"
    proof (cases "m < length nm")
      case less: True
      then have "nm ! m \<noteq> 0" using assms(2) by (metis less nth_mem)
      then show ?thesis using less by (simp add: lfn_unit_def)
    qed (use True in \<open>simp add: lfn_unit_def\<close>)
    have "length (buf[m := lfn_unit nm m]) = 256" using Cons.prems(1) by simp
    from Cons.IH [OF this r st] obtain b where b: "pick_loop e dir ss (lfn_unit nm m) (of_nat m + 1) (buf[m := lfn_unit nm m]) =
        (Some (if m + length (s # ss) \<le> length nm then of_nat (m + length (s # ss)) else of_nat (length nm + 1)), b)" "length b = 256"
      "\<forall>p. b ! p = (if m + 1 \<le> p \<and> p < m + length (s # ss) \<and> p \<le> length nm then lfn_unit nm p else buf[m := lfn_unit nm m] ! p)"
      unfolding l by blast
    have "pick_loop e dir (s # ss) wc i buf = pick_loop e dir ss (lfn_unit nm m) (of_nat m + 1) (buf[m := lfn_unit nm m])"
      using w u by (simp add: Let_def)
    moreover have "b ! p = (if m \<le> p \<and> p < m + length (s # ss) \<and> p \<le> length nm then lfn_unit nm p else buf ! p)" for p
      using b(3) True assms(1) Cons.prems(1) by (cases "p = m") auto
    ultimately show ?thesis using b(1,2) by auto
  next
    case False
    then have f: "lfn_unit nm m = 0xFFFF" by (simp add: lfn_unit_def)
    have st: "if m + 1 \<le> length nm then wc \<noteq> 0 \<and> i = of_nat (m + 1) else wc = 0 \<and> i = of_nat (length nm + 1)"
      using False Cons.prems(3) by simp
    have "pick_loop e dir (s # ss) wc i buf = pick_loop e dir ss wc i buf" using False f u Cons.prems(3) by simp
    then show ?thesis using Cons.IH [OF Cons.prems(1) r st] False by auto
  qed
qed (use assms in auto)

lemma pick_lfn_entry:
  assumes "lfn_entry nm k e dir" and "0 < k" and "13 * (k - 1) < length nm" and "length nm < 254" and "0 \<notin> set nm" and "length buf = 256"
  shows "\<exists>buf'. pick_lfn e dir buf = (True, buf') \<and> length buf' = 256 \<and>
     (\<forall>p \<le> length nm. buf' ! p = (if 13 * (k - 1) \<le> p \<and> p < 13 * k \<or> length nm = 13 * k \<and> p = length nm then lfn_unit nm p else buf ! p))"
proof -
  let ?c = "13 * (k - 1)"
  have k: "k \<le> 20" "13 * k = ?c + 13" using assms(2-4) by (cases k; simp)+
  have e: "ld_word e (dir + LDIR_FstClusLO) = 0" "e ! (dir + LDIR_Ord) = of_nat k OR (if length nm \<le> 13 * k then LLEF else 0)"
    "\<forall>j < length LfnOfs. ld_word e (dir + LfnOfs ! j) = lfn_unit nm (?c + j)"
    using assms(1) by (simp_all add: lfn_entry_def LfnOfs_apart(2))
  note o = ord_fields [OF assms(2) k(1), of "if length nm \<le> 13 * k then LLEF else 0", OF refl]
  have pre: "if ?c \<le> length nm then (1 :: u16) \<noteq> 0 \<and> (of_nat ?c :: u32) = of_nat ?c else (1 :: u16) = 0 \<and> (of_nat ?c :: u32) = of_nat (length nm + 1)"
    using assms(3) by simp
  have lo: "?c + length LfnOfs = 13 * k" using LfnOfs_apart(2) k(2) by auto
  have lt: "length nm < 255" using assms(4) by simp
  obtain b where b: "pick_loop e dir LfnOfs 1 (of_nat ?c) buf = (Some (if 13 * k \<le> length nm then of_nat (13 * k) else of_nat (length nm + 1)), b)" "length b = 256"
    "\<And>p. b ! p = (if ?c \<le> p \<and> p < 13 * k \<and> p \<le> length nm then lfn_unit nm p else buf ! p)"
    using pick_loop_units [OF lt assms(5,6) e(3) pre] unfolding lo by blast
  define i where "i = (if 13 * k \<le> length nm then 13 * k else length nm + 1)"
  have i: "unat (of_nat i :: u32) = i" "\<not> (of_nat FF_MAX_LFN :: u32) \<le> of_nat i"
    using assms(4) k(1) by (auto simp: i_def unat_of_nat FF_MAX_LFN_def word_le_nat_alt)
  have ii: "(if 13 * k \<le> length nm then of_nat (13 * k) else of_nat (length nm + 1)) = (of_nat i :: u32)" by (simp add: i_def)
  have "pick_lfn e dir buf = (True, if length nm \<le> 13 * k then b[i := 0] else b)"
    unfolding pick_lfn_def e(1,2) o b(1) ii using i by (simp only: simp_thms if_False prod.case option.case split: if_split) simp
  then show ?thesis using b(2,3) assms(4) by (auto simp: i_def lfn_unit_def)
qed


text \<open>The entries of a name are read in the order of the directory, the last one first.\<close>

fun pick_all :: "(u8 list \<times> nat) list \<Rightarrow> u16 list \<Rightarrow> bool \<times> u16 list" where
  "pick_all [] buf = (True, buf)"
| "pick_all ((e, dir) # es) buf = (case pick_lfn e dir buf of (ok, buf) \<Rightarrow> if ok then pick_all es buf else (False, buf))"

lemma pick_all_entries:
  assumes "\<And>k. k \<in> set ks \<Longrightarrow> 0 < k \<and> 13 * (k - 1) < length nm \<and> lfn_entry nm k (e k) (dir k)"
    and "length nm < 254" and "0 \<notin> set nm" and "length buf = 256"
  shows "\<exists>buf'. pick_all (map (\<lambda>k. (e k, dir k)) ks) buf = (True, buf') \<and> length buf' = 256 \<and>
     (\<forall>p \<le> length nm. buf' ! p = (if \<exists>k \<in> set ks. 13 * (k - 1) \<le> p \<and> p < 13 * k \<or> length nm = 13 * k \<and> p = length nm then lfn_unit nm p else buf ! p))"
  using assms(1,4)
proof (induction ks arbitrary: buf)
  case (Cons k ks)
  have k: "0 < k" "13 * (k - 1) < length nm" "lfn_entry nm k (e k) (dir k)" using Cons.prems(1) [of k] by simp_all
  obtain b where b: "pick_lfn (e k) (dir k) buf = (True, b)" "length b = 256"
    "\<forall>p \<le> length nm. b ! p = (if 13 * (k - 1) \<le> p \<and> p < 13 * k \<or> length nm = 13 * k \<and> p = length nm then lfn_unit nm p else buf ! p)"
    using pick_lfn_entry [OF k(3,1,2) assms(2,3) Cons.prems(2)] by blast
  obtain b' where "pick_all (map (\<lambda>k. (e k, dir k)) ks) b = (True, b')" "length b' = 256"
    "\<forall>p \<le> length nm. b' ! p = (if \<exists>k \<in> set ks. 13 * (k - 1) \<le> p \<and> p < 13 * k \<or> length nm = 13 * k \<and> p = length nm then lfn_unit nm p else b ! p)"
    using Cons.IH [OF _ b(2)] Cons.prems(1) by auto
  then show ?case using b by (intro exI [of _ b']) auto
qed simp

lemma pick_name:
  assumes "\<And>k. 0 < k \<Longrightarrow> 13 * (k - 1) < length nm \<Longrightarrow> lfn_entry nm k (e k) (dir k)"
    and "nm \<noteq> []" and "length nm < 254" and "0 \<notin> set nm" and "length buf = 256"
  shows "\<exists>buf'. pick_all (map (\<lambda>k. (e k, dir k)) (rev [1..<(length nm + 12) div 13 + 1])) buf = (True, buf') \<and> take (length nm + 1) buf' = nm @ [0]"
proof -
  let ?L = "length nm" and ?n = "(length nm + 12) div 13"
  let ?ks = "rev [1..<?n + 1]"
  have n: "?L \<le> 13 * ?n" "13 * ?n < ?L + 13"
    using div_mod_decomp [of "?L + 12" 13] mod_less_divisor [of 13 "?L + 12"] by simp_all
  have "0 < k \<and> 13 * (k - 1) < ?L \<and> lfn_entry nm k (e k) (dir k)" if "k \<in> set ?ks" for k
  proof -
    have k: "0 < k" "k \<le> ?n" using that by auto
    then have "13 * (k - 1) \<le> 13 * (?n - 1)" by simp
    moreover have "0 < ?n" using k by simp
    ultimately have "13 * (k - 1) < ?L" using n(2) by simp
    then show ?thesis using assms(1) k(1) by simp
  qed
  from pick_all_entries [OF this assms(3-5)] obtain b where b: "pick_all (map (\<lambda>k. (e k, dir k)) ?ks) buf = (True, b)" "length b = 256"
    "\<forall>p \<le> ?L. b ! p = (if \<exists>k \<in> set ?ks. 13 * (k - 1) \<le> p \<and> p < 13 * k \<or> ?L = 13 * k \<and> p = ?L then lfn_unit nm p else buf ! p)" by blast
  have "b ! p = lfn_unit nm p" if "p \<le> ?L" for p
  proof (cases "p < 13 * ?n")
    case True
    have p: "13 * (p div 13 + 1 - 1) \<le> p" "p < 13 * (p div 13 + 1)" using div_mod_decomp [of p 13] mod_less_divisor [of 13 p] by simp_all
    have "p div 13 < ?n" using True by (simp add: div_less_iff_less_mult mult.commute)
    then have "1 \<le> p div 13 + 1" "p div 13 + 1 < ?n + 1" by simp_all
    then have "p div 13 + 1 \<in> set ?ks" by (simp only: set_rev set_upt atLeastLessThan_iff)
    then show ?thesis using b(3) p that by (metis (mono_tags, lifting))
  next
    case False
    then have "p = ?L" "?L = 13 * ?n" using that n(1) by simp_all
    moreover have "?n \<in> set ?ks" using assms(2) n(1) by (cases nm) auto
    ultimately show ?thesis using b(3) that by (metis (mono_tags, lifting))
  qed
  then have "take (?L + 1) b = nm @ [0]"
    using b(2) assms(3) by (intro nth_equalityI) (auto simp: lfn_unit_def nth_append less_Suc_eq)
  then show ?thesis using b(1) by blast
qed

text \<open>The longest names: the entries of a name of 255 units match no buffer, and those of a name of 254 units cannot be read.\<close>

lemma cmp_loop_too_long:
  assumes "length nm = 255" and "0 \<notin> set nm" and "\<forall>j < length ss. ld_word e (dir + ss ! j) = lfn_unit nm (m + j)"
    and "wc \<noteq> 0" and "m \<le> 255" and "255 < m + length ss"
  shows "cmp_loop lfn e dir ss wc (of_nat m) = None"
  using assms(3-6)
proof (induction ss arbitrary: m wc)
  case (Cons s ss)
  show ?case
  proof (cases "m = 255")
    case True
    then show ?thesis using Cons.prems(2) by (simp add: Let_def FF_MAX_LFN_def)
  next
    case False
    then have "nm ! m \<noteq> 0" using assms(1,2) Cons.prems(3) by (metis le_neq_implies_less nth_mem)
    then have u: "ld_word e (dir + s) \<noteq> 0" using Cons.prems(1,3) assms(1) False by (auto simp: lfn_unit_def)
    have "\<forall>j < length ss. ld_word e (dir + ss ! j) = lfn_unit nm (m + 1 + j)" using Cons.prems(1) by auto
    from Cons.IH [OF this u] Cons.prems(3,4) False have "cmp_loop lfn e dir ss (ld_word e (dir + s)) (of_nat (m + 1)) = None" by simp
    moreover have "of_nat (m + 1) = (of_nat m + 1 :: u32)" by simp
    ultimately show ?thesis by (simp only: cmp_loop.simps(2) Let_def) (simp add: Cons.prems(2))
  qed
qed simp

lemma cmp_lfn_too_long:
  assumes "lfn_entry nm 20 e dir" and "length nm = 255" and "0 \<notin> set nm"
  shows "\<not> cmp_lfn lfn e dir"
proof -
  have e: "e ! (dir + LDIR_Ord) = of_nat 20 OR (if length nm \<le> 13 * 20 then LLEF else 0)"
    "\<forall>j < length LfnOfs. ld_word e (dir + LfnOfs ! j) = lfn_unit nm (247 + j)"
    using assms(1) by (simp_all add: lfn_entry_def LfnOfs_apart(2))
  note o = ord_fields [OF zero_less_numeral le_refl, of "if length nm \<le> 13 * 20 then LLEF else 0", OF refl]
  have "cmp_loop lfn e dir LfnOfs 1 (of_nat 247) = None"
    by (rule cmp_loop_too_long [OF assms(2,3) e(2)]) (simp_all add: LfnOfs_apart(2))
  moreover have "of_nat (13 * (20 - 1)) = (of_nat 247 :: u32)" by simp
  ultimately show ?thesis unfolding cmp_lfn_def e(1) by (simp only: o option.case) simp
qed

lemma pick_lfn_too_long:
  assumes "lfn_entry nm 20 e dir" and "length nm = 254" and "0 \<notin> set nm" and "length buf = 256"
  shows "\<not> fst (pick_lfn e dir buf)"
proof -
  have e: "ld_word e (dir + LDIR_FstClusLO) = 0" "e ! (dir + LDIR_Ord) = of_nat 20 OR (if length nm \<le> 13 * 20 then LLEF else 0)"
    "\<forall>j < length LfnOfs. ld_word e (dir + LfnOfs ! j) = lfn_unit nm (247 + j)"
    using assms(1) by (simp_all add: lfn_entry_def LfnOfs_apart(2))
  note o = ord_fields [OF zero_less_numeral le_refl, of "if length nm \<le> 13 * 20 then LLEF else 0", OF refl]
  obtain b where b: "pick_loop e dir LfnOfs 1 (of_nat 247) buf = (Some 255, b)"
    using pick_loop_units [OF _ assms(3,4) e(3), of 1 "of_nat 247"] assms(2) LfnOfs_apart(2) by auto
  have "of_nat (13 * (20 - 1)) = (of_nat 247 :: u32)" by simp
  then show ?thesis unfolding pick_lfn_def e(1,2) o
    by (simp only: b prod.case option.case simp_thms if_False) (simp add: assms(2) FF_MAX_LFN_def)
qed

end
