(* ===== verification/Fat_Listing.thy ===== *)
theory Fat_Listing
  imports Fat_Lfn
begin

text \<open>
  Names in UTF-8: the loop of \<open>create_name\<close> undoes the one of \<open>get_fileinfo\<close>, so that a name that was listed finds the entries it
  was listed from.
\<close>

section \<open>Names in UTF-8\<close>

text \<open>Units that are allowed in a segment of a path.\<close>

definition legal :: "u16 \<Rightarrow> bool" where
  "legal c \<longleftrightarrow> 0x20 \<le> c \<and> c \<noteq> 0x2F \<and> c \<noteq> 0x5C \<and> \<not> (c < 0x80 \<and> chk_chr LFN_ILLEGAL c)"

lemma legal_nonzero: "legal c \<Longrightarrow> c \<noteq> 0"
  by (auto simp: legal_def)

lemma put_utf_nonempty: "put_utf c n \<noteq> [] \<Longrightarrow> c \<noteq> 0xFFFFFFFF"
  by (auto simp: put_utf_def Let_def split: if_split_asm)

lemma put_utf_length: "length (put_utf c n) \<le> n" "0x10000 \<le> c \<Longrightarrow> put_utf c n \<noteq> [] \<Longrightarrow> length (put_utf c n) = 4"
  by (auto simp: put_utf_def Let_def word_le_nat_alt word_less_nat_alt split: if_split_asm)

lemma lfn_loop_character:
  assumes "put_utf c n = bs" and "bs \<noteq> []" and "legal (ucast c)" and "length lfn1 + (if 0x10000 \<le> c then 1 else 0) < 255" and "2 \<le> length lfn2"
  shows "lfn_loop (bs @ rest) (lfn1 @ lfn2) (length lfn1) =
     (let u = (if 0x10000 \<le> c then [ucast (drop_bit 16 c), ucast c] else [ucast c])
      in lfn_loop rest (lfn1 @ u @ drop (length u) lfn2) (length lfn1 + length u))"
proof -
  have t: "tchar2uni (bs @ rest) = (c, rest)" using tchar2uni_put_utf [OF assms(1,2)] .
  have c: "c \<noteq> 0xFFFFFFFF" using put_utf_nonempty assms(1,2) by blast
  obtain x y lfn3 where l: "lfn2 = x # y # lfn3" using assms(5) by (cases lfn2; cases "tl lfn2"; auto)
  have g: "\<not> ((ucast c :: u16) < 0x20 \<or> (ucast c :: u16) = 0x2F \<or> (ucast c :: u16) = 0x5C)" "\<not> ((ucast c :: u16) < 0x80 \<and> chk_chr LFN_ILLEGAL (ucast c))"
    using assms(3) by (auto simp: legal_def)
  show ?thesis
  proof (cases "0x10000 \<le> c")
    case True
    then show ?thesis using assms(4) g c by (subst lfn_loop.simps) (auto simp: t l FF_MAX_LFN_def Let_def list_update_append)
  next
    case False
    then show ?thesis using assms(4) g c by (subst lfn_loop.simps) (auto simp: t l FF_MAX_LFN_def Let_def list_update_append)
  qed
qed


lemma pair_units:
  fixes h w :: u16
  defines "c \<equiv> push_bit 16 (ucast h) OR ucast w :: u32"
  shows "ucast c = w" "ucast (drop_bit 16 c) = h" "h \<noteq> 0 \<Longrightarrow> 0x10000 \<le> c" "h = 0 \<Longrightarrow> \<not> 0x10000 \<le> c"
proof -
  have i: "\<not> bit w (16 + n)" for n using bit_imp_le_length [of w "16 + n"] by auto
  show "ucast c = w" "ucast (drop_bit 16 c) = h" unfolding c_def by (auto intro!: bit_word_eqI simp: bit_simps i)
  have w: "unat (ucast w :: u32) < 65536" using unsigned_less [of w, where ?'a = nat] by (simp add: unsigned_ucast_eq take_bit_nat_eq_self)
  then show "h = 0 \<Longrightarrow> \<not> 0x10000 \<le> c" by (simp add: c_def word_le_nat_alt)
  show "0x10000 \<le> c" if "h \<noteq> 0"
  proof (rule ccontr)
    assume "\<not> 0x10000 \<le> c"
    then have "drop_bit 16 c = 0" by (simp add: word_le_nat_alt word_unat_eq_iff drop_bit_eq_div unat_div)
    then show False using \<open>ucast (drop_bit 16 c) = h\<close> that by simp
  qed
qed

abbreviation first_unit :: "u16 \<Rightarrow> u16 list" where "first_unit hs \<equiv> if hs = 0 then [] else [hs]"

text \<open>The loop of \<open>create_name\<close> reads back the units that \<open>get_fileinfo\<close> has written.\<close>

lemma lfn_utf_loop:
  assumes "lfn_utf (ws @ 0 # x) hs fname = s" and "s \<noteq> []" and "\<forall>c \<in> set ws. legal c" and "length fname \<le> 255"
  shows "\<exists>bs. s = fname @ bs \<and> length s \<le> 255 \<and> length (first_unit hs @ ws) \<le> length bs \<and>
     (\<forall>rest lfn1 lfn2. length lfn1 + length (first_unit hs @ ws) \<le> 255 \<longrightarrow> length (first_unit hs @ ws) < length lfn2 \<longrightarrow>
        lfn_loop (bs @ rest) (lfn1 @ lfn2) (length lfn1) =
        lfn_loop rest (lfn1 @ first_unit hs @ ws @ drop (length (first_unit hs @ ws)) lfn2) (length lfn1 + length (first_unit hs @ ws)))"
  using assms
proof (induction ws arbitrary: hs fname)
  case Nil
  then show ?case by (auto split: if_splits)
next
  case (Cons w ws)
  have w: "legal w" "w \<noteq> 0" using Cons.prems(3) legal_nonzero by auto
  show ?case
  proof (cases "hs = 0 \<and> IsSurrogate (ucast w)")
    case True
    then have "lfn_utf (ws @ 0 # x) w fname = s" using Cons.prems(1) w(2) by simp
    from Cons.IH [OF this Cons.prems(2) _ Cons.prems(4)] Cons.prems(3) w(2) True show ?thesis by simp
  next
    case False
    define c where "c = (push_bit 16 (ucast hs) OR ucast w :: u32)"
    define b where "b = put_utf c (255 - length fname)"
    have b: "b \<noteq> []" "lfn_utf (ws @ 0 # x) 0 (fname @ b) = s"
      using Cons.prems(1,2) w(2) False by (auto simp: b_def c_def Let_def FF_LFN_BUF_def split: if_splits)
    have l: "length (fname @ b) \<le> 255" using put_utf_length(1) [of c "255 - length fname"] Cons.prems(4) by (simp add: b_def)
    obtain bs where bs: "s = (fname @ b) @ bs" "length s \<le> 255" "length ws \<le> length bs"
      "\<And>rest lfn1 lfn2. length lfn1 + length ws \<le> 255 \<Longrightarrow> length ws < length lfn2 \<Longrightarrow>
         lfn_loop (bs @ rest) (lfn1 @ lfn2) (length lfn1) = lfn_loop rest (lfn1 @ ws @ drop (length ws) lfn2) (length lfn1 + length ws)"
      using Cons.IH [OF b(2) Cons.prems(2) _ l] Cons.prems(3) by auto
    note u = pair_units [of hs w, folded c_def]
    have f: "(if 0x10000 \<le> c then [ucast (drop_bit 16 c), ucast c] else [ucast c]) = first_unit hs @ [w]" using u by auto
    have lb: "length (first_unit hs @ [w]) \<le> length b" using u(3) put_utf_length(2) [of c "255 - length fname", folded b_def] b(1) by (cases b) auto
    have "lfn_loop ((b @ bs) @ rest) (lfn1 @ lfn2) (length lfn1) =
        lfn_loop rest (lfn1 @ first_unit hs @ (w # ws) @ drop (length (first_unit hs @ w # ws)) lfn2) (length lfn1 + length (first_unit hs @ w # ws))"
      if a: "length lfn1 + length (first_unit hs @ w # ws) \<le> 255" "length (first_unit hs @ w # ws) < length lfn2" for rest lfn1 lfn2
    proof -
      let ?f = "first_unit hs @ [w]"
      have "lfn_loop (b @ bs @ rest) (lfn1 @ lfn2) (length lfn1) = lfn_loop (bs @ rest) (lfn1 @ ?f @ drop (length ?f) lfn2) (length lfn1 + length ?f)"
        using lfn_loop_character [OF b_def [symmetric] b(1), of lfn1 lfn2 "bs @ rest"] a w(1) u unfolding f Let_def by (auto split: if_splits)
      also have "\<dots> = lfn_loop (bs @ rest) ((lfn1 @ ?f) @ drop (length ?f) lfn2) (length (lfn1 @ ?f))" by simp
      also have "\<dots> = lfn_loop rest ((lfn1 @ ?f) @ ws @ drop (length ws) (drop (length ?f) lfn2)) (length (lfn1 @ ?f) + length ws)"
        using bs(4) [of "lfn1 @ ?f" "drop (length ?f) lfn2" rest] a by auto
      finally show ?thesis by (auto simp: drop_drop add.commute)
    qed
    then show ?thesis using bs(1-3) lb by (intro exI [of _ "b @ bs"]) auto
  qed
qed

lemma snip_last: "di \<noteq> 0 \<Longrightarrow> lfn ! (di - 1) \<notin> {0x20, 0x2E} \<Longrightarrow> snip lfn di = di"
  by (cases di) auto

lemma lfn_utf_units:
  assumes "lfn_utf (nm @ 0 # x) 0 [] = s" and "s \<noteq> []" and "\<forall>c \<in> set nm. legal c" and "length buf = 256"
  shows "lfn_loop (s @ 0 # m) buf 0 = (FR_OK, 0, nm @ drop (length nm) buf, length nm, m) \<and> length nm \<le> 255"
proof -
  obtain bs where b: "s = [] @ bs" "length s \<le> 255" "length nm \<le> length bs"
    "\<And>rest lfn1 lfn2. length lfn1 + length nm \<le> 255 \<Longrightarrow> length nm < length lfn2 \<Longrightarrow>
       lfn_loop (bs @ rest) (lfn1 @ lfn2) (length lfn1) = lfn_loop rest (lfn1 @ nm @ drop (length nm) lfn2) (length lfn1 + length nm)"
    using lfn_utf_loop [OF assms(1-3)] by auto
  have "lfn_loop (s @ 0 # m) buf 0 = lfn_loop (0 # m) (nm @ drop (length nm) buf) (length nm)"
    using b(4) [of "[]" buf "0 # m"] b(1-3) assms(4) by simp
  also have "\<dots> = (FR_OK, 0, nm @ drop (length nm) buf, length nm, m)"
    by (subst lfn_loop.simps) (simp add: tchar2uni_def char_at_def Let_def)
  finally show ?thesis using b(1-3) by simp
qed

lemma create_name_units:
  assumes "lfn_utf (nm @ 0 # x) 0 [] = s" and "s \<noteq> []" and "\<forall>c \<in> set nm. legal c" and "last nm \<notin> {0x20, 0x2E}" and "length buf = 256"
  shows "\<exists>fn' buf'. create_name tbl (s @ 0 # m) fn buf = (FR_OK, fn', buf', skip_separators m) \<and> length buf' = 256 \<and> take (length nm + 1) buf' = nm @ [0]"
proof -
  let ?l = "nm @ drop (length nm) buf"
  have u: "lfn_loop (s @ 0 # m) buf 0 = (FR_OK, 0, ?l, length nm, m)" "length nm \<le> 255" using lfn_utf_units [OF assms(1-3,5)] by auto
  have n: "nm \<noteq> []" using assms(1,2) by (cases nm) auto
  then have la: "?l ! (length nm - 1) \<notin> {0x20, 0x2E}" using assms(4) by (simp add: nth_append last_conv_nth)
  have sn: "snip ?l (length nm) = length nm" using snip_last [OF _ la] n by simp
  have d: "\<not> (length nm = 1 \<and> ?l ! 0 = 0x2E \<or> length nm = 2 \<and> ?l ! 1 = 0x2E \<and> ?l ! 0 = 0x2E)" using la by auto
  obtain y ys where y: "drop (length nm) buf = y # ys" using u(2) assms(5) by (cases "drop (length nm) buf") auto
  moreover have "length nm + length ys = 255" using arg_cong [OF y, of length] u(2) assms(5) by simp
  ultimately have "length (?l[length nm := 0]) = 256 \<and> take (length nm + 1) (?l[length nm := 0]) = nm @ [0]" by (simp add: list_update_append)
  moreover have "\<exists>fn'. create_name tbl (s @ 0 # m) fn buf = (FR_OK, fn', ?l[length nm := 0], skip_separators m)"
    unfolding create_name_def u(1) prod.case using n by (simp only: d sn Let_def if_False simp_thms refl prod.case length_0_conv) (auto split: prod.split)
  ultimately show ?thesis by blast
qed

text \<open>
  C0. A listed name can be opened: the entries of a long name that \<open>put_lfn\<close> has stored in any sectors are read by \<open>pick_lfn\<close>, last
  entry first as they stand in the directory, and when \<open>get_fileinfo\<close> can write the name in its buffer as UTF-8, then \<open>create_name\<close> accepts
  that string and leaves a buffer that \<open>cmp_lfn\<close> finds in each of the entries. The name has 1 to 253 legal units and ends in
  neither a space nor a dot.
\<close>

theorem fat_listed_name:
  assumes "lfn_name nm lfn" and "\<forall>c \<in> set nm. legal c" and "nm \<noteq> []" and "last nm \<notin> {0x20, 0x2E}" and "length nm < 254"
    and "\<forall>k. dir k + 32 \<le> length (b k)" and "length buf = 256" and "length buf2 = 256"
    and "e = (\<lambda>k. put_lfn lfn (dir k) (of_nat k) chk (b k))"
  shows "\<exists>buf'. pick_all (map (\<lambda>k. (e k, dir k)) (rev [1..<(length nm + 12) div 13 + 1])) buf = (True, buf') \<and>
     (lfn_utf buf' 0 [] \<noteq> [] \<longrightarrow>
       (\<exists>fn' lfn2. create_name tbl (lfn_utf buf' 0 [] @ 0 # m) fn buf2 = (FR_OK, fn', lfn2, skip_separators m) \<and>
         (\<forall>k. 0 < k \<and> 13 * (k - 1) < length nm \<longrightarrow> cmp_lfn lfn2 (e k) (dir k))))"
proof -
  have en: "lfn_entry nm k (e k) (dir k)" if "0 < k" "13 * (k - 1) < length nm" for k
    unfolding assms(9) using put_lfn_entry(1) [OF assms(1) that(1) _ assms(6) [rule_format]] that(2) by simp
  have z: "0 \<notin> set nm" using assms(1) by (simp add: lfn_name_def)
  obtain buf' where p: "pick_all (map (\<lambda>k. (e k, dir k)) (rev [1..<(length nm + 12) div 13 + 1])) buf = (True, buf')" "take (length nm + 1) buf' = nm @ [0]"
    using pick_name [OF en assms(3,5) z assms(7)] by auto
  have s: "nm @ 0 # drop (length nm + 1) buf' = buf'" using append_take_drop_id [of "length nm + 1" buf'] unfolding p(2) by simp
  show ?thesis
  proof (rule exI [of _ buf'], intro conjI impI)
    assume l: "lfn_utf buf' 0 [] \<noteq> []"
    obtain fn' lfn2 where c: "create_name tbl (lfn_utf buf' 0 [] @ 0 # m) fn buf2 = (FR_OK, fn', lfn2, skip_separators m)" "length lfn2 = 256" "take (length nm + 1) lfn2 = nm @ [0]"
      using create_name_units [of nm "drop (length nm + 1) buf'", unfolded s, OF refl l assms(2,4,8)] by blast
    have "lfn_name nm lfn2" using c(2,3) assms(1) by (simp add: lfn_name_def)
    then have "\<forall>k. 0 < k \<and> 13 * (k - 1) < length nm \<longrightarrow> cmp_lfn lfn2 (e k) (dir k)"
      using cmp_all_entries [OF assms(1) _ assms(3) _ en] assms(5) by auto
    then show "\<exists>fn' lfn2. create_name tbl (lfn_utf buf' 0 [] @ 0 # m) fn buf2 = (FR_OK, fn', lfn2, skip_separators m) \<and>
         (\<forall>k. 0 < k \<and> 13 * (k - 1) < length nm \<longrightarrow> cmp_lfn lfn2 (e k) (dir k))" using c(1) by blast
  qed (rule p(1))
qed

text \<open>
  C0. The entries of a stored long name of up to 254 units all match the name that is looked for if and only if the two names
  are equal after \<open>ff_wtoupper\<close>, whatever the lengths of the two.
\<close>

theorem fat_lfn_match:
  assumes "lfn_name nm lfn" and "lfn_name nm2 lfn2" and "nm \<noteq> []" and "length nm < 255" and "\<forall>k. dir k + 32 \<le> length (b k)"
  shows "(\<forall>k. 0 < k \<and> 13 * (k - 1) < length nm \<longrightarrow> cmp_lfn lfn2 (put_lfn lfn (dir k) (of_nat k) chk (b k)) (dir k)) \<longleftrightarrow>
     map (\<lambda>c. ff_wtoupper (ucast c)) nm = map (\<lambda>c. ff_wtoupper (ucast c)) nm2"
  by (rule cmp_all_entries [OF assms(1-4)]) (simp add: put_lfn_entry(1) [OF assms(1)] assms(5))

theorem fat_lfn_match_witness:
  "(\<forall>k. 0 < k \<and> 13 * (k - 1) < length [0x61 :: u16] \<longrightarrow>
     cmp_lfn (0x41 # replicate 255 0) (put_lfn (0x61 # replicate 255 0) 64 (of_nat k) 7 (replicate 512 0)) 64)"
proof -
  have "ff_wtoupper 0x61 = ff_wtoupper 0x41" by code_simp
  then show ?thesis
    using fat_lfn_match [of "[0x61]" "0x61 # replicate 255 0" "[0x41]" "0x41 # replicate 255 0" "\<lambda>k. 64" "\<lambda>k. replicate 512 0" 7]
    by (simp add: lfn_name_def)
qed

text \<open>
  C0. The two longest lengths of a name do not work, although \<open>create_name\<close> accepts 255 units: the last entry of a stored name of
  255 units is matched by no name, not even by itself, and the last entry of a name of 254 units is refused by \<open>pick_lfn\<close>.
\<close>

theorem fat_longest_names:
  assumes "lfn_name nm lfn" and "dir + 32 \<le> length b" and "length buf = 256"
  shows "(length nm = 255 \<longrightarrow> \<not> cmp_lfn lfn2 (put_lfn lfn dir 20 chk b) dir) \<and>
     (length nm = 254 \<longrightarrow> \<not> fst (pick_lfn (put_lfn lfn dir 20 chk b) dir buf))"
proof -
  have e: "254 \<le> length nm \<Longrightarrow> lfn_entry nm 20 (put_lfn lfn dir 20 chk b) dir"
    using put_lfn_entry(1) [OF assms(1) zero_less_numeral _ assms(2), of "num.Bit0 (num.Bit0 (num.Bit1 (num.Bit0 num.One)))" chk] by simp
  have z: "0 \<notin> set nm" using assms(1) by (simp add: lfn_name_def)
  show ?thesis using cmp_lfn_too_long [OF e] pick_lfn_too_long [OF e _ z assms(3)] z by simp
qed

theorem fat_longest_names_witness:
  "\<not> cmp_lfn (replicate 255 0x61 @ [0]) (put_lfn (replicate 255 0x61 @ [0]) 64 20 7 (replicate 512 0)) 64"
  using fat_longest_names [of "replicate 255 0x61" "replicate 255 0x61 @ [0]" 64 "replicate 512 0" "replicate 256 0" "replicate 255 0x61 @ [0]" 7]
  by (simp add: lfn_name_def)

theorem fat_listed_name_witness:
  "\<exists>buf'. pick_all [(put_lfn (0x61 # replicate 255 0) 64 1 7 (replicate 512 0), 64)] (replicate 256 0) = (True, buf') \<and>
     (lfn_utf buf' 0 [] \<noteq> [] \<longrightarrow>
       (\<exists>fn' lfn2. create_name [] (lfn_utf buf' 0 [] @ [0, 0]) (replicate 12 0) (replicate 256 0) = (FR_OK, fn', lfn2, [0]) \<and>
         (\<forall>k. 0 < k \<and> k \<le> Suc 0 \<longrightarrow> cmp_lfn lfn2 (put_lfn (0x61 # replicate 255 0) 64 (of_nat k) 7 (replicate 512 0)) 64)))"
proof -
  have "legal 0x61" by code_simp
  then show ?thesis
    using fat_listed_name [of "[0x61]" "0x61 # replicate 255 0" "\<lambda>k. 64" "\<lambda>k. replicate 512 0" "replicate 256 0" "replicate 256 0"
      "\<lambda>k. put_lfn (0x61 # replicate 255 0) 64 (of_nat k) 7 (replicate 512 0)" 7 "[]" "[0]" "replicate 12 0"]
    by (simp add: lfn_name_def) 
qed

lemma case_name_body:
  "length altname \<le> 9 \<Longrightarrow> case_name ntres altname = map (\<lambda>c. if IsUpper (ucast c) \<and> ntres AND NS_BODY \<noteq> 0 then c + 0x20 else c) altname"
  by (rule nth_equalityI) (simp_all add: case_name_def)

text \<open>
  The name \<open>a.TXT\<close> gets no long name, and is listed as \<open>a.txt\<close>: a byte of the printed short name before the ninth has the flag of
  the body, also behind the dot.
\<close>

lemma case_lost:
  "case create_name [] [0x61, 0x2E, 0x54, 0x58, 0x54, 0] (replicate 12 0) (replicate 256 0) of (res, fn, lfn, p) \<Rightarrow>
     res = FR_OK \<and> fn ! NSFLAG AND NS_LFN = 0 \<and> sfn_utf [] fn 0 0 [] = [0x41, 0x2E, 0x54, 0x58, 0x54] \<and>
     case_name (fn ! NSFLAG) (sfn_utf [] fn 0 0 []) = [0x61, 0x2E, 0x74, 0x78, 0x74]"
  by code_simp

end
