(* ===== verification/Uart.thy ===== *)
theory Uart
  imports Ports
begin

text \<open>
  The serial port driver \<^verbatim>\<open>uart.c\<close>. The device is a record: the bytes it has received and not
  yet handed over (\<open>rx\<close>), the bytes stored to its transmit register (\<open>tx\<close>), and the values its two
  status registers show at each successive read. The interface \<open>serial_port\<close> is what the rest of
  the system relies on; the GDB stub is modelled on top of its two streams.
\<close>

section \<open>Device\<close>

record serial =
  rx :: "u8 list"
  tx :: "u8 list"

record uart = serial +
  usr :: "nat \<Rightarrow> u32"
  lsr :: "nat \<Rightarrow> u32"
  reads :: nat

definition UART_BASE :: "nat \<Rightarrow> u32" where
  "UART_BASE n = (if n < 4 then 0x01C28000 + of_nat n * 0x400 else 0x01F02800)"

definition UART_DLL :: "nat \<Rightarrow> u32" where "UART_DLL n = UART_BASE n + 0x00"
definition UART_FCR :: "nat \<Rightarrow> u32" where "UART_FCR n = UART_BASE n + 0x08"
definition UART_LCR :: "nat \<Rightarrow> u32" where "UART_LCR n = UART_BASE n + 0x0C"

text \<open>The two streams of the port: what the polling functions below amount to once they return.\<close>

definition serial_putc :: "u8 \<Rightarrow> 'a serial_scheme \<Rightarrow> 'a serial_scheme" where
  "serial_putc b s = s\<lparr>tx := tx s @ [b]\<rparr>"

definition serial_getc :: "'a serial_scheme \<Rightarrow> (u8 \<times> 'a serial_scheme) option" where
  "serial_getc s = (case rx s of [] \<Rightarrow> None | b # bs \<Rightarrow> Some (b, s\<lparr>rx := bs\<rparr>))"

section \<open>Operations\<close>

text \<open>\<open>uart_init\<close> of the build without the GDB stub; stores to the divisor latch go to \<open>UART_DLL\<close>.\<close>

definition uart_init :: "nat \<Rightarrow> mmio \<Rightarrow> mmio" where
  "uart_init n m0 =
     (let m1 = (if n = 0 then set_pin_mode PORTA 4 2 m0 else m0);
          m2 = (if n < 4 then reg_or BUS_SOFT_RST4 (BIT (16 + n)) (reg_or BUS_CLK_GATING3 (BIT (16 + n)) m1) else m1);
          m3 = reg_write (UART_LCR n) (push_bit 7 1 OR 3) m2;
          m4 = reg_write (UART_DLL n) 13 m3;
          m5 = reg_write (UART_LCR n) 3 m4
      in reg_write (UART_FCR n) 1 m5)"

definition tx_ready_bit :: "u32 \<Rightarrow> bool" where "tx_ready_bit v = truth (v AND 2)"
definition rx_ready_bit :: "u32 \<Rightarrow> bool" where "rx_ready_bit v = truth (v AND 1)"

definition uart_write_byte :: "u8 \<Rightarrow> uart \<Rightarrow> uart option" where
  "uart_write_byte b u =
     (case poll (usr u) tx_ready_bit (reads u) of
        None \<Rightarrow> None
      | Some t \<Rightarrow> Some (u\<lparr>tx := tx u @ [b], reads := t\<rparr>))"

definition uart_putc :: "u8 \<Rightarrow> uart \<Rightarrow> uart option" where
  "uart_putc b u = uart_write_byte b u"

text \<open>Reading the receive register takes the oldest byte; with none there it shows 0.\<close>

definition uart_read_byte :: "uart \<Rightarrow> (u8 \<times> uart) option" where
  "uart_read_byte u =
     (case poll (lsr u) rx_ready_bit (reads u) of
        None \<Rightarrow> None
      | Some t \<Rightarrow> (case rx u of
            [] \<Rightarrow> Some (0, u\<lparr>reads := t\<rparr>)
          | b # bs \<Rightarrow> Some (b, u\<lparr>reads := t, rx := bs\<rparr>)))"

definition uart_getc :: "uart \<Rightarrow> (u8 \<times> uart) option" where
  "uart_getc u = uart_read_byte u"

fun put_all :: "(u8 \<Rightarrow> 'u \<Rightarrow> 'u option) \<Rightarrow> u8 list \<Rightarrow> 'u \<Rightarrow> 'u option" where
  "put_all putc [] u = Some u"
| "put_all putc (c # cs) u = Option.bind (putc c u) (put_all putc cs)"

definition uart_print :: "u8 list \<Rightarrow> uart \<Rightarrow> uart option" where
  "uart_print s u = put_all uart_putc s u"

definition upper_digits :: "u8 list" where
  "upper_digits = str ''0123456789ABCDEF''"

definition uint8_text :: "u8 \<Rightarrow> u8 list" where
  "uint8_text number =
     [upper_digits ! unat (drop_bit 4 number AND 0xF), upper_digits ! unat (drop_bit 0 number AND 0xF)]"

definition uart_print_uint8 :: "u8 \<Rightarrow> uart \<Rightarrow> uart option" where
  "uart_print_uint8 number u = put_all uart_putc (uint8_text number) u"

definition uint32_text :: "u32 \<Rightarrow> u8 list" where
  "uint32_text number = map (\<lambda>sh. upper_digits ! unat (drop_bit sh number AND 0xF)) [28, 24, 20, 16, 12, 8, 4, 0]"

definition uart_print_uint32 :: "u32 \<Rightarrow> uart \<Rightarrow> uart option" where
  "uart_print_uint32 number u = put_all uart_putc (uint32_text number) u"

section \<open>The interface of a serial port\<close>

locale serial_port =
  fixes putc :: "u8 \<Rightarrow> 'u \<Rightarrow> 'u option" and getc :: "'u \<Rightarrow> (u8 \<times> 'u) option"
    and sent :: "'u \<Rightarrow> u8 list" and pending :: "'u \<Rightarrow> u8 list" and live :: "'u \<Rightarrow> bool"
  assumes putc_sends: "live u \<Longrightarrow> \<exists>u'. putc b u = Some u' \<and> sent u' = sent u @ [b]
      \<and> pending u' = pending u \<and> live u'"
    and getc_takes: "live u \<Longrightarrow> pending u = b # bs \<Longrightarrow> \<exists>u'. getc u = Some (b, u') \<and> pending u' = bs
      \<and> sent u' = sent u \<and> live u'"
begin

lemma put_all_sends:
  "live u \<Longrightarrow> \<exists>u'. put_all putc cs u = Some u' \<and> sent u' = sent u @ cs \<and> pending u' = pending u \<and> live u'"
proof (induction cs arbitrary: u)
  case Nil
  then show ?case by simp
next
  case (Cons c cs)
  from putc_sends [OF Cons.prems, of c] obtain u1 where
    u1: "putc c u = Some u1" "sent u1 = sent u @ [c]" "pending u1 = pending u" "live u1" by blast
  from Cons.IH [OF u1(4)] u1 show ?case by auto
qed

end

text \<open>
  The device serves the driver if its transmitter keeps draining and the data-ready flag is shown
  while received bytes wait.
\<close>

definition uart_live :: "uart \<Rightarrow> bool" where
  "uart_live u \<longleftrightarrow> (\<forall>t. \<exists>k \<ge> t. tx_ready_bit (usr u k)) \<and> (rx u \<noteq> [] \<longrightarrow> (\<forall>t. \<exists>k \<ge> t. rx_ready_bit (lsr u k)))"

interpretation console: serial_port uart_putc uart_getc tx rx uart_live
proof
  fix u b assume live: "uart_live u"
  then obtain t where "poll (usr u) tx_ready_bit (reads u) = Some t"
    using poll_returns_iff unfolding uart_live_def by meson
  with live show "\<exists>u'. uart_putc b u = Some u' \<and> tx u' = tx u @ [b] \<and> rx u' = rx u \<and> uart_live u'"
    by (simp add: uart_putc_def uart_write_byte_def uart_live_def)
next
  fix u b bs assume live: "uart_live u" and q: "rx u = b # bs"
  then obtain t where "poll (lsr u) rx_ready_bit (reads u) = Some t"
    using poll_returns_iff unfolding uart_live_def by (metis list.distinct(1))
  with live q show "\<exists>u'. uart_getc u = Some (b, u') \<and> rx u' = bs \<and> tx u' = tx u \<and> uart_live u'"
    by (simp add: uart_getc_def uart_read_byte_def uart_live_def)
qed

text \<open>On a live device the polling functions are the two streams.\<close>

lemma uart_putc_serial:
  "uart_live u \<Longrightarrow> \<exists>t. uart_putc b u = Some ((serial_putc b u)\<lparr>reads := t\<rparr>)"
  using console.putc_sends [of u b]
  by (auto simp: uart_putc_def uart_write_byte_def serial_putc_def split: option.splits)


section \<open>Properties\<close>

text \<open>Printing on a live port sends exactly the text: \<open>uart_print\<close> returns, has sent the string and
  nothing else, and the hexadecimal printers send the eight (or two) digits of the number, most significant first.\<close>

theorem uart_print_sends:
  assumes "uart_live u"
  shows "(\<exists>u'. uart_print cs u = Some u' \<and> tx u' = tx u @ cs \<and> rx u' = rx u) \<and>
    (\<exists>u'. uart_print_uint32 w u = Some u' \<and> tx u' = tx u @ uint32_text w) \<and>
    (\<exists>u'. uart_print_uint8 b u = Some u' \<and> tx u' = tx u @ uint8_text b)"
  using console.put_all_sends [OF assms]
  unfolding uart_print_def uart_print_uint32_def uart_print_uint8_def by blast

theorem uart_print_sends_witness:
  "\<exists>u'. uart_print_uint32 0xCAFE0123 \<lparr>rx = [], tx = [], usr = (\<lambda>t. if t < 3 then 0 else 6), lsr = (\<lambda>_. 0), reads = 0\<rparr> = Some u'
     \<and> tx u' = str ''CAFE0123''"
proof -
  let ?u = "\<lparr>rx = [], tx = [], usr = (\<lambda>t. if t < 3 then 0 else 6), lsr = (\<lambda>_. 0), reads = 0\<rparr>"
  have "\<exists>k\<ge>t. tx_ready_bit (if k < 3 then 0 else 6)" for t :: nat
    by (rule exI [of _ "t + 3"]) (simp add: tx_ready_bit_def)
  then have live: "uart_live ?u" by (simp add: uart_live_def)
  have digits: "uint32_text 0xCAFE0123 = str ''CAFE0123''" by (simp add: uint32_text_def upper_digits_def)
  from uart_print_sends [OF live, of _ "0xCAFE0123"] digits show ?thesis by auto
qed

end
