(* ===== verification/Gdb_Text.thy ===== *)
theory Gdb_Text
  imports Prelude
begin

text \<open>
  The text level of the GDB stub: hexadecimal digits and numbers
  (\<^verbatim>\<open>gdb/string.c\<close>, \<^verbatim>\<open>gdb/printk.c\<close> and the parsing helpers of
  \<^verbatim>\<open>gdb/gdbstub.c\<close>). A \<open>char *\<close> that points into a terminated string is the list of bytes
  from there to the terminator; its end stands for the terminator.
\<close>

section \<open>Definitions\<close>

definition is_hex :: "u8 \<Rightarrow> bool" where
  "is_hex v =
     (let v = (if 65 \<le> v \<and> v \<le> 70 then (v - 65) + 97 else v)
      in (48 \<le> v \<and> v \<le> 57) \<or> (97 \<le> v \<and> v \<le> 102))"

definition hex_nibble_val :: "u8 \<Rightarrow> u8" where
  "hex_nibble_val v = (if 48 \<le> v \<and> v \<le> 57 then v - 48 else (v - 97) + 10)"

fun read_hex_from :: "u32 \<Rightarrow> u8 list \<Rightarrow> u32 \<times> u8 list" where
  "read_hex_from v [] = (v, [])"
| "read_hex_from v (c # cs) =
     (if is_hex c then read_hex_from (v * 16 + ucast (hex_nibble_val c)) cs else (v, c # cs))"

definition read_hex :: "u8 list \<Rightarrow> u32 \<times> u8 list" where
  "read_hex p = read_hex_from 0 p"

definition hex_digits :: "u8 list" where
  "hex_digits = str ''0123456789abcdef''"

definition put_hex_byte :: "u8 \<Rightarrow> u8 list" where
  "put_hex_byte b = [hex_digits ! unat (drop_bit 4 (b AND 0xf0)), hex_digits ! unat (b AND 0xf)]"

definition bswap32 :: "u32 \<Rightarrow> u32" where
  "bswap32 v = le32 (byte_of v 3) (byte_of v 2) (byte_of v 1) (byte_of v 0)"

definition bswap16 :: "u16 \<Rightarrow> u16" where
  "bswap16 v = push_bit 8 (v AND 0xff) OR drop_bit 8 (v AND 0xff00)"

text \<open>\<open>put_reg\<close>: four hex bytes, least significant first (the loop shifts \<open>r\<close> right).\<close>

fun put_reg_loop :: "nat \<Rightarrow> u32 \<Rightarrow> u8 list" where
  "put_reg_loop 0 r = []"
| "put_reg_loop (Suc m) r = put_hex_byte (ucast (r AND 0xff)) @ put_reg_loop m (drop_bit 8 r)"

definition put_reg :: "u32 \<Rightarrow> u8 list" where
  "put_reg r = put_reg_loop 4 r"

definition put_invalid_reg :: "u8 list" where
  "put_invalid_reg = str ''xxxxxxxx''"

text \<open>\<open>slow_memcpy (s, str, 8); s[8] = 0; bswap32 (read_hex (s, NULL))\<close>.\<close>

definition reg_from_str :: "u8 list \<Rightarrow> u32" where
  "reg_from_str s = bswap32 (fst (read_hex (take 8 s)))"

definition strchr :: "u8 list \<Rightarrow> u8 \<Rightarrow> u8 list option" where
  "strchr s d = (case dropWhile (\<lambda>c. c \<noteq> d) s of [] \<Rightarrow> None | t \<Rightarrow> Some t)"

text \<open>\<open>read_field\<close> returns the value and the text after the delimiter, or fails (-1).\<close>

definition read_field :: "u8 list \<Rightarrow> u8 \<Rightarrow> (u32 \<times> u8 list) option" where
  "read_field p delim =
     (case strchr p delim of
        None \<Rightarrow> None
      | Some del \<Rightarrow>
          (let (v, nxt) = read_hex p
           in if nxt \<noteq> del then None else Some (v, tl nxt)))"

definition read_addr :: "u8 list \<Rightarrow> (u32 \<times> u8 list) option" where
  "read_addr p = read_field p (of_char CHR '','')"

definition read_len :: "u8 list \<Rightarrow> (u32 \<times> u8 list) option" where
  "read_len p = read_field p (of_char CHR '':'')"

text \<open>\<open>read_byte\<close> copies two characters and reads them as one number.\<close>

definition read_byte :: "u8 list \<Rightarrow> u8 \<times> u8 list" where
  "read_byte p = (ucast (fst (read_hex (take 2 p))), drop 2 p)"

text \<open>\<open>strncmp (pfx, msg, strlen (pfx)) == 0\<close>.\<close>

definition has_prefix :: "u8 list \<Rightarrow> u8 list \<Rightarrow> bool" where
  "has_prefix pfx msg = (take (length pfx) msg = pfx)"

section \<open>Digits and numbers\<close>

lemma hex_digits_eval:
  "hex_digits = [48, 49, 50, 51, 52, 53, 54, 55, 56, 57, 97, 98, 99, 100, 101, 102]"
  by (simp add: hex_digits_def)

lemma hex_digit:
  assumes "n < 16"
  shows "is_hex (hex_digits ! n)" and "hex_nibble_val (hex_digits ! n) = of_nat n"
proof -
  have "list_all (\<lambda>n. is_hex (hex_digits ! n) \<and> hex_nibble_val (hex_digits ! n) = of_nat n) [0..<16]"
    by code_simp
  with assms show "is_hex (hex_digits ! n)" and "hex_nibble_val (hex_digits ! n) = of_nat n"
    by (simp_all add: list_all_iff)
qed

lemma unat_high_nibble: "unat (drop_bit 4 (b AND 0xf0) :: u8) = unat b div 16"
proof -
  have m: "(0xf0::u8) = push_bit 4 (mask 4)" by (simp add: mask_numeral)
  have "drop_bit 4 (b AND 0xf0) = drop_bit 4 b"
    unfolding m by (rule bit_word_eqI) (auto simp: bit_simps dest: bit_imp_le_length)
  then show ?thesis by (simp add: drop_bit_eq_div unat_div)
qed

lemma unat_low_nibble: "unat (b AND 0xf :: u8) = unat b mod 16"
proof -
  have m: "(0xf::u8) = mask 4" by (simp add: mask_numeral)
  show ?thesis
    unfolding m
    by (simp only: take_bit_eq_mask [symmetric] unsigned_take_bit_eq)
       (simp add: take_bit_eq_mod)
qed

lemma put_hex_byte_eq: "put_hex_byte b = [hex_digits ! (unat b div 16), hex_digits ! (unat b mod 16)]"
  by (simp only: put_hex_byte_def unat_high_nibble unat_low_nibble)

lemma unat_u8_div: "unat (b::u8) div 16 < 16"
  using unsigned_less [of b, where ?'a = nat] by simp

lemma put_hex_byte_hex: "c \<in> set (put_hex_byte b) \<Longrightarrow> is_hex c"
  by (auto simp: put_hex_byte_eq intro!: hex_digit(1) unat_u8_div)

lemma length_put_hex_byte [simp]: "length (put_hex_byte b) = 2"
  by (simp add: put_hex_byte_def)

text \<open>Reading two digits produced by \<open>put_hex_byte\<close> appends the byte to the number read.\<close>

lemma read_hex_from_put_hex_byte:
  "read_hex_from v (put_hex_byte b @ cs) = read_hex_from (v * 256 + ucast b) cs"
proof -
  have "(of_nat (unat b div 16) * 16 + of_nat (unat b mod 16) :: u32) = of_nat (unat b div 16 * 16 + unat b mod 16)"
    by (simp only: of_nat_add of_nat_mult of_nat_numeral)
  also have "\<dots> = of_nat (unat b)" by (simp only: div_mult_mod_eq)
  also have "\<dots> = ucast b" by simp
  finally have s: "of_nat (unat b div 16) * 16 + of_nat (unat b mod 16) = (ucast b :: u32)" .
  have u: "ucast (of_nat n :: u8) = (of_nat n :: u32)" if "n < 16" for n
    using that by (intro word_unat_eq_iff [THEN iffD2]) (simp add: unsigned_ucast_eq unat_of_nat take_bit_eq_mod)
  show ?thesis
    unfolding s [symmetric] by (simp add: put_hex_byte_eq hex_digit unat_u8_div u algebra_simps)
qed

definition hex_of :: "u8 list \<Rightarrow> u8 list" where
  "hex_of bs = concat (map put_hex_byte bs)"

lemma hex_of_simps [simp]:
  "hex_of [] = []" "hex_of (b # bs) = put_hex_byte b @ hex_of bs"
  by (simp_all add: hex_of_def)

lemma length_hex_of [simp]: "length (hex_of bs) = 2 * length bs"
  by (induction bs) auto

lemma hex_of_hex: "c \<in> set (hex_of bs) \<Longrightarrow> is_hex c"
  by (induction bs) (auto dest: put_hex_byte_hex)

definition be_value :: "u32 \<Rightarrow> u8 list \<Rightarrow> u32" where
  "be_value v bs = foldl (\<lambda>v b. v * 256 + ucast b) v bs"

lemma read_hex_from_hex_of: "read_hex_from v (hex_of bs @ cs) = read_hex_from (be_value v bs) cs"
  by (induction bs arbitrary: v) (simp_all add: be_value_def read_hex_from_put_hex_byte)

lemma read_hex_from_stop: "(case cs of [] \<Rightarrow> True | c # _ \<Rightarrow> \<not> is_hex c) \<Longrightarrow> read_hex_from v cs = (v, cs)"
  by (cases cs) auto

text \<open>The text after the number read is a suffix that does not start with a digit.\<close>

lemma read_hex_from_rest:
  "snd (read_hex_from v cs) = dropWhile is_hex cs"
  by (induction cs arbitrary: v) auto

section \<open>Round trips\<close>

lemma be_value_4: "be_value 0 [b0, b1, b2, b3] = le32 b3 b2 b1 b0"
proof -
  have step: "x * 256 + ucast (b::u8) = push_bit 8 x OR ucast b" for x :: u32 and b
  proof -
    have "push_bit 8 x + ucast b = push_bit 8 x OR ucast b"
      by (rule disjunctive_add_eq_or) (auto simp: bit_eq_iff bit_simps bit_u8_high)
    then show ?thesis by (simp add: push_bit_eq_mult mult.commute)
  qed
  show ?thesis
    by (rule bit_word_eqI) (auto simp: be_value_def step bit_simps bit_le32 bit_u8_high)
qed

lemma bswap32_le32 [simp]: "bswap32 (le32 b0 b1 b2 b3) = le32 b3 b2 b1 b0"
  by (simp add: bswap32_def)

lemma put_reg_hex: "put_reg r = hex_of [byte_of r 0, byte_of r 1, byte_of r 2, byte_of r 3]"
proof -
  have m: "(0xff::u32) = mask 8" by (simp add: mask_numeral)
  have "ucast (drop_bit k r AND 0xff) = (ucast (drop_bit k r) :: u8)" for k
    unfolding m by (rule bit_word_eqI) (auto simp: bit_simps)
  from this [of 0] this [of 8] this [of 16] this [of 24] show ?thesis
    by (simp add: put_reg_def eval_nat_numeral(2,3) numeral_eq_Suc byte_of_def drop_bit_drop_bit)
qed

lemma length_put_reg [simp]: "length (put_reg r) = 8"
  by (simp add: put_reg_hex)

lemma length_put_invalid_reg [simp]: "length put_invalid_reg = 8"
  by (simp add: put_invalid_reg_def)

lemma reg_from_str_put_reg [simp]: "reg_from_str (put_reg r @ cs) = r"
proof -
  have "take 8 (put_reg r @ cs) = put_reg r" by simp
  then have "read_hex (take 8 (put_reg r @ cs)) = (be_value 0 [byte_of r 0, byte_of r 1, byte_of r 2, byte_of r 3], [])"
    using read_hex_from_hex_of [of 0 "[byte_of r 0, byte_of r 1, byte_of r 2, byte_of r 3]" "[]"]
    by (simp add: read_hex_def put_reg_hex)
  then show ?thesis by (simp add: reg_from_str_def be_value_4)
qed

lemma read_byte_put_hex_byte [simp]: "read_byte (put_hex_byte b @ cs) = (b, cs)"
proof -
  have "take 2 (put_hex_byte b @ cs) = put_hex_byte b @ []" by simp
  then have "read_hex (take 2 (put_hex_byte b @ cs)) = (ucast b, [])"
    using read_hex_from_put_hex_byte [of 0 b "[]"] by (simp add: read_hex_def)
  moreover have "ucast (ucast b :: u32) = b"
    by (rule bit_word_eqI) (simp add: bit_simps)
  ultimately show ?thesis by (simp add: read_byte_def)
qed

lemma read_field_hex:
  assumes "\<forall>c \<in> set ds. is_hex c \<and> c \<noteq> d" and "\<not> is_hex d"
  shows "read_field (ds @ d # cs) d = Some (fst (read_hex_from 0 ds), cs)"
proof -
  have del: "strchr (ds @ d # cs) d = Some (d # cs)"
    using assms(1) by (simp add: strchr_def dropWhile_append3 dropWhile_append)
  have "read_hex_from v (ds @ d # cs) = (fst (read_hex_from v ds), d # cs)" for v
    using assms by (induction ds arbitrary: v) auto
  with del show ?thesis by (simp add: read_field_def read_hex_def)
qed

end
