(* ===== verification/Gdb_Breakpoints.thy ===== *)
theory Gdb_Breakpoints
  imports Uart Gdb_Text
begin

text \<open>
  State of the GDB stub and its breakpoint table (\<^verbatim>\<open>gdb/gdbstub.c\<close>). The memory of the program
  under test is \<open>ram\<close>; the stub's own static data (\<open>cmd_buf\<close>, \<open>breakpoints\<close>) lies outside it.
  Cache maintenance (\<open>icache_sync\<close>) has no effect on the values in memory and is left out. The
  interface \<open>patch_table\<close> is the promise of a debugger to the program it debugs: patches do not
  change the memory the program was loaded with.
\<close>

section \<open>State\<close>

definition SMC_BKPT :: u32 where "SMC_BKPT = 0xe161097a"

record bkpt =
  bk_addr :: u32
  bk_saved :: u32

definition NR_BREAKPOINTS :: nat where "NR_BREAKPOINTS = 64"

record gdb = serial +
  cmd_buf :: "u8 list"
  running :: bool
  breakpoints :: "bkpt list"
  ram :: mem
  regs :: "u32 list"
  libc_disable_stdout :: int

text \<open>Updates of the streams are moved inside updates of the other fields.\<close>

lemma gdb_update_order [simp]:
  "rx_update g (cmd_buf_update f0 s) = cmd_buf_update f0 (rx_update g s)" "tx_update g (cmd_buf_update f0 s) = cmd_buf_update f0 (tx_update g s)"
  "rx_update g (running_update f1 s) = running_update f1 (rx_update g s)" "tx_update g (running_update f1 s) = running_update f1 (tx_update g s)"
  "rx_update g (breakpoints_update f2 s) = breakpoints_update f2 (rx_update g s)" "tx_update g (breakpoints_update f2 s) = breakpoints_update f2 (tx_update g s)"
  "rx_update g (ram_update f3 s) = ram_update f3 (rx_update g s)" "tx_update g (ram_update f3 s) = ram_update f3 (tx_update g s)"
  "rx_update g (regs_update f4 s) = regs_update f4 (rx_update g s)" "tx_update g (regs_update f4 s) = regs_update f4 (tx_update g s)"
  "rx_update g (libc_disable_stdout_update f5 s) = libc_disable_stdout_update f5 (rx_update g s)" "tx_update g (libc_disable_stdout_update f5 s) = libc_disable_stdout_update f5 (tx_update g s)"
  for s :: gdb
  by (cases s; simp)+

text \<open>
  How the stub can fail to come back: waiting for a byte that never arrives, a store past the end
  of \<open>cmd_buf\<close>, a null pointer dereference, the trap of the \<open>BUG\<close> macro.
\<close>

datatype fault = Blocked | Overflow | Null_Deref | Bug_Trap

section \<open>Operations\<close>

definition alloc_bkpt :: "gdb \<Rightarrow> nat option" where
  "alloc_bkpt s = first_slot (\<lambda>b. bk_addr b = 0) (breakpoints s)"

definition find_bkpt :: "u32 \<Rightarrow> gdb \<Rightarrow> nat option" where
  "find_bkpt a s = first_slot (\<lambda>b. bk_addr b = a) (breakpoints s)"

definition set_bkpt :: "nat \<Rightarrow> (bkpt \<Rightarrow> bkpt) \<Rightarrow> gdb \<Rightarrow> gdb" where
  "set_bkpt i f s = s\<lparr>breakpoints := (breakpoints s)[i := f (breakpoints s ! i)]\<rparr>"

definition free_bkpt :: "nat \<Rightarrow> gdb \<Rightarrow> gdb" where
  "free_bkpt i s = set_bkpt i (bk_addr_update (\<lambda>_. 0)) s"

text \<open>The two four-byte \<open>slow_memcpy\<close> calls are a little-endian load and store.\<close>

definition activate_bkpt :: "nat \<Rightarrow> gdb \<Rightarrow> gdb" where
  "activate_bkpt i s =
     (let b = breakpoints s ! i
      in if bk_saved b = SMC_BKPT then s
         else (set_bkpt i (bk_saved_update (\<lambda>_. load32 (ram s) (bk_addr b))) s)
                \<lparr>ram := store32 (ram s) (bk_addr b) SMC_BKPT\<rparr>)"

definition deactivate_bkpt :: "nat \<Rightarrow> gdb \<Rightarrow> gdb" where
  "deactivate_bkpt i s =
     (let b = breakpoints s ! i in s\<lparr>ram := store32 (ram s) (bk_addr b) (bk_saved b)\<rparr>)"

text \<open>\<open>alloc_bkpt\<close> returns a null pointer when the table is full; \<open>add_bkpt\<close> uses it unchecked.\<close>

definition add_bkpt :: "u32 \<Rightarrow> gdb \<Rightarrow> (fault, gdb, int) res" where
  "add_bkpt a s =
     (case find_bkpt a s of
        Some i \<Rightarrow> Inr (0, activate_bkpt i s)
      | None \<Rightarrow>
          (case alloc_bkpt s of
             None \<Rightarrow> Inl (Null_Deref, s)
           | Some i \<Rightarrow>
               Inr (0, activate_bkpt i
                 (set_bkpt i (\<lambda>b. b\<lparr>bk_addr := a, bk_saved := 0\<rparr>) s))))"

definition del_bkpt :: "u32 \<Rightarrow> gdb \<Rightarrow> (fault, gdb, int) res" where
  "del_bkpt a s =
     (case find_bkpt a s of
        None \<Rightarrow> Inr (- 1, s)
      | Some i \<Rightarrow> Inr (0, free_bkpt i (deactivate_bkpt i s)))"

section \<open>What the program under test should see\<close>

definition active :: "bkpt \<Rightarrow> bool" where
  "active b \<longleftrightarrow> bk_addr b \<noteq> 0"

definition bkpt_set :: "gdb \<Rightarrow> u32 set" where
  "bkpt_set s = bk_addr ` {b \<in> set (breakpoints s). active b}"

text \<open>Memory with every patched word replaced by the instruction saved for it.\<close>

definition shadow :: "gdb \<Rightarrow> mem" where
  "shadow s x =
     (case first_slot (\<lambda>b. active b \<and> x - bk_addr b < 4) (breakpoints s) of
        None \<Rightarrow> ram s x
      | Some i \<Rightarrow> byte_of (bk_saved (breakpoints s ! i)) (unat (x - bk_addr (breakpoints s ! i))))"

definition bkpt_inv :: "gdb \<Rightarrow> bool" where
  "bkpt_inv s \<longleftrightarrow>
     length (breakpoints s) = NR_BREAKPOINTS \<and>
     (\<forall>i < NR_BREAKPOINTS. active (breakpoints s ! i) \<longrightarrow>
        aligned4 (bk_addr (breakpoints s ! i)) \<and>
        load32 (ram s) (bk_addr (breakpoints s ! i)) = SMC_BKPT) \<and>
     (\<forall>i < NR_BREAKPOINTS. \<forall>j < NR_BREAKPOINTS.
        active (breakpoints s ! i) \<and> bk_addr (breakpoints s ! i) = bk_addr (breakpoints s ! j) \<longrightarrow> i = j)"

lemma bkpt_invD:
  assumes "bkpt_inv s"
  shows "length (breakpoints s) = NR_BREAKPOINTS"
    and "\<And>i. i < NR_BREAKPOINTS \<Longrightarrow> active (breakpoints s ! i) \<Longrightarrow> aligned4 (bk_addr (breakpoints s ! i))"
    and "\<And>i. i < NR_BREAKPOINTS \<Longrightarrow> active (breakpoints s ! i) \<Longrightarrow>
      load32 (ram s) (bk_addr (breakpoints s ! i)) = SMC_BKPT"
    and "\<And>i j. i < NR_BREAKPOINTS \<Longrightarrow> j < NR_BREAKPOINTS \<Longrightarrow> active (breakpoints s ! i) \<Longrightarrow>
      bk_addr (breakpoints s ! i) = bk_addr (breakpoints s ! j) \<Longrightarrow> i = j"
  using assms unfolding bkpt_inv_def by blast+

lemma in_bkpt_set_iff:
  "length (breakpoints s) = NR_BREAKPOINTS \<Longrightarrow>
   a \<in> bkpt_set s \<longleftrightarrow> (\<exists>i < NR_BREAKPOINTS. bk_addr (breakpoints s ! i) = a \<and> a \<noteq> 0)"
  by (auto simp: bkpt_set_def active_def in_set_conv_nth)

lemma find_bkpt_active:
  assumes inv: "bkpt_inv s" and i: "i < NR_BREAKPOINTS" and act: "active (breakpoints s ! i)"
  shows "find_bkpt (bk_addr (breakpoints s ! i)) s = Some i"
  unfolding find_bkpt_def
proof (rule first_slot_unique)
  show "i < length (breakpoints s)" using inv i by (simp add: bkpt_invD(1))
  fix j assume "j < length (breakpoints s)" "bk_addr (breakpoints s ! j) = bk_addr (breakpoints s ! i)"
  with inv i act show "j = i" by (metis bkpt_invD(1,4))
qed simp

lemma find_bkpt_None:
  "bkpt_inv s \<Longrightarrow> a \<noteq> 0 \<Longrightarrow> a \<notin> bkpt_set s \<Longrightarrow> find_bkpt a s = None"
  by (auto simp: find_bkpt_def first_slot_None_iff bkpt_set_def active_def)

text \<open>Two active entries patch disjoint words.\<close>

lemma active_spans_disjoint:
  assumes "bkpt_inv s" "i < NR_BREAKPOINTS" "j < NR_BREAKPOINTS"
    and "active (breakpoints s ! i)" "active (breakpoints s ! j)" "i \<noteq> j"
  shows "word_span (bk_addr (breakpoints s ! i)) \<inter> word_span (bk_addr (breakpoints s ! j)) = {}"
  using assms bkpt_invD(2,4) by (metis aligned_spans_disjoint)

lemma shadow_patched:
  assumes inv: "bkpt_inv s" and i: "i < NR_BREAKPOINTS" and act: "active (breakpoints s ! i)"
    and x: "x \<in> word_span (bk_addr (breakpoints s ! i))"
  shows "shadow s x = byte_of (bk_saved (breakpoints s ! i)) (unat (x - bk_addr (breakpoints s ! i)))"
proof -
  have "first_slot (\<lambda>b. active b \<and> x - bk_addr b < 4) (breakpoints s) = Some i"
  proof (rule first_slot_unique)
    show "i < length (breakpoints s)" using inv i by (simp add: bkpt_invD(1))
    show "active (breakpoints s ! i) \<and> x - bk_addr (breakpoints s ! i) < 4"
      using act x by (simp add: in_word_span_iff)
    fix j assume "j < length (breakpoints s)"
      and "active (breakpoints s ! j) \<and> x - bk_addr (breakpoints s ! j) < 4"
    then show "j = i"
      using active_spans_disjoint [OF inv i _ act] x inv
      by (metis bkpt_invD(1) disjoint_iff in_word_span_iff)
  qed
  then show ?thesis by (simp add: shadow_def)
qed

lemma shadow_unpatched:
  assumes "\<And>b. b \<in> set (breakpoints s) \<Longrightarrow> active b \<Longrightarrow> x \<notin> word_span (bk_addr b)"
  shows "shadow s x = ram s x"
proof -
  have "first_slot (\<lambda>b. active b \<and> x - bk_addr b < 4) (breakpoints s) = None"
    using assms by (auto simp: first_slot_None_iff in_word_span_iff)
  then show ?thesis by (simp add: shadow_def)
qed

lemma shadow_no_bkpts: "bkpt_set s = {} \<Longrightarrow> shadow s = ram s"
  by (rule ext, rule shadow_unpatched) (auto simp: bkpt_set_def)

text \<open>A free slot exists as long as fewer than 64 breakpoints are set.\<close>

lemma alloc_bkpt_Some:
  assumes inv: "bkpt_inv s" and "card (bkpt_set s) < NR_BREAKPOINTS"
  obtains i where "alloc_bkpt s = Some i" "i < NR_BREAKPOINTS" "bk_addr (breakpoints s ! i) = 0"
proof (cases "alloc_bkpt s")
  case None
  then have all: "active b" if "b \<in> set (breakpoints s)" for b
    using that by (auto simp: alloc_bkpt_def first_slot_None_iff active_def)
  have "distinct (map bk_addr (breakpoints s))"
    using inv all unfolding distinct_conv_nth
    by (metis bkpt_invD(1,4) length_map nth_map nth_mem)
  then have "card (bk_addr ` set (breakpoints s)) = NR_BREAKPOINTS"
    using inv by (metis bkpt_invD(1) distinct_card length_map set_map)
  moreover have "bkpt_set s = bk_addr ` set (breakpoints s)"
    using all by (auto simp: bkpt_set_def)
  ultimately show thesis using assms(2) by simp
next
  case (Some i)
  with first_slot_SomeD [of "\<lambda>b. bk_addr b = 0" "breakpoints s" i] show thesis
    using that bkpt_invD(1) [OF inv] by (simp add: alloc_bkpt_def)
qed

section \<open>Insertion and removal\<close>

lemma set_bkpt_sel [simp]:
  "length (breakpoints (set_bkpt i f s)) = length (breakpoints s)"
  "ram (set_bkpt i f s) = ram s"
  "i < length (breakpoints s) \<Longrightarrow>
     breakpoints (set_bkpt i f s) ! j = (if j = i then f (breakpoints s ! i) else breakpoints s ! j)"
  by (auto simp: set_bkpt_def)

text \<open>The state after a breakpoint at \<open>a\<close> went into the free slot \<open>i\<close>.\<close>

definition inserted :: "nat \<Rightarrow> u32 \<Rightarrow> gdb \<Rightarrow> gdb" where
  "inserted i a s =
     s\<lparr>breakpoints := (breakpoints s)[i := (breakpoints s ! i)\<lparr>bk_addr := a, bk_saved := load32 (ram s) a\<rparr>],
       ram := store32 (ram s) a SMC_BKPT\<rparr>"

definition removed :: "nat \<Rightarrow> gdb \<Rightarrow> gdb" where
  "removed i s =
     s\<lparr>breakpoints := (breakpoints s)[i := (breakpoints s ! i)\<lparr>bk_addr := 0\<rparr>],
       ram := store32 (ram s) (bk_addr (breakpoints s ! i)) (bk_saved (breakpoints s ! i))\<rparr>"

lemma add_bkpt_new:
  assumes "find_bkpt a s = None" and "alloc_bkpt s = Some i"
  shows "add_bkpt a s = Inr (0, inserted i a s)"
proof -
  have "i < length (breakpoints s)"
    using assms(2) first_slot_SomeD unfolding alloc_bkpt_def by blast
  then show ?thesis
    using assms by (simp add: add_bkpt_def inserted_def activate_bkpt_def set_bkpt_def SMC_BKPT_def)
qed

lemma del_bkpt_found:
  assumes "find_bkpt a s = Some i"
  shows "del_bkpt a s = Inr (0, removed i s)"
  using assms by (simp add: del_bkpt_def removed_def free_bkpt_def deactivate_bkpt_def set_bkpt_def Let_def)

text \<open>The entry and the memory word that insertion and removal touch, and the ones they do not.\<close>

lemma inserted_sel:
  assumes "i < length (breakpoints s)"
  shows "breakpoints (inserted i a s) ! j =
      (if j = i then (breakpoints s ! i)\<lparr>bk_addr := a, bk_saved := load32 (ram s) a\<rparr> else breakpoints s ! j)"
    and "length (breakpoints (inserted i a s)) = length (breakpoints s)"
    and "ram (inserted i a s) = store32 (ram s) a SMC_BKPT"
  using assms by (auto simp: inserted_def)

lemma removed_sel:
  assumes "i < length (breakpoints s)"
  shows "breakpoints (removed i s) ! j =
      (if j = i then (breakpoints s ! i)\<lparr>bk_addr := 0\<rparr> else breakpoints s ! j)"
    and "length (breakpoints (removed i s)) = length (breakpoints s)"
    and "ram (removed i s) = store32 (ram s) (bk_addr (breakpoints s ! i)) (bk_saved (breakpoints s ! i))"
  using assms by (auto simp: removed_def)

lemma new_span_disjoint:
  assumes "bkpt_inv s" "aligned4 a" "a \<notin> bkpt_set s" "j < NR_BREAKPOINTS" "active (breakpoints s ! j)"
  shows "word_span a \<inter> word_span (bk_addr (breakpoints s ! j)) = {}"
proof -
  have "a \<noteq> bk_addr (breakpoints s ! j)"
    using assms by (metis active_def bkpt_invD(1) in_bkpt_set_iff)
  then show ?thesis using assms bkpt_invD(2) by (metis aligned_spans_disjoint)
qed

lemma inserted_inv:
  assumes inv: "bkpt_inv s" and a: "aligned4 a" "a \<noteq> 0" "a \<notin> bkpt_set s"
    and i: "i < NR_BREAKPOINTS" "bk_addr (breakpoints s ! i) = 0"
  shows "bkpt_inv (inserted i a s)"
proof -
  have len: "length (breakpoints s) = NR_BREAKPOINTS" using inv by (rule bkpt_invD)
  note sel = inserted_sel [of i s a, unfolded len, OF i(1)]
  have ld: "load32 (store32 (ram s) a SMC_BKPT) (bk_addr (breakpoints s ! j)) = SMC_BKPT"
    if "j < NR_BREAKPOINTS" "active (breakpoints s ! j)" for j
    using that new_span_disjoint [OF inv a(1,3) that] bkpt_invD(3) [OF inv that]
    by (simp add: load32_store32_other)
  have fresh: "bk_addr (breakpoints s ! j) \<noteq> a" if "j < NR_BREAKPOINTS" for j
    using that a len by (auto simp: in_bkpt_set_iff)
  show ?thesis
    unfolding bkpt_inv_def sel(2,3) sel(1)
    using a i inv len ld fresh bkpt_invD(2,4) [OF inv] by (auto simp: active_def)
qed

lemma inserted_shadow:
  assumes inv: "bkpt_inv s" and a: "aligned4 a" "a \<noteq> 0" "a \<notin> bkpt_set s"
    and i: "i < NR_BREAKPOINTS" "bk_addr (breakpoints s ! i) = 0"
  shows "shadow (inserted i a s) = shadow s"
proof
  fix x
  have len: "length (breakpoints s) = NR_BREAKPOINTS" using inv by (rule bkpt_invD)
  note sel = inserted_sel [of i s a, unfolded len, OF i(1)]
  note inv' = inserted_inv [OF assms]
  consider (new) "x \<in> word_span a"
    | (old) j where "j < NR_BREAKPOINTS" "active (breakpoints s ! j)" "x \<in> word_span (bk_addr (breakpoints s ! j))"
    | (none) "x \<notin> word_span a" "\<And>b. b \<in> set (breakpoints s) \<Longrightarrow> active b \<Longrightarrow> x \<notin> word_span (bk_addr b)"
    using len by (metis in_set_conv_nth)
  then show "shadow (inserted i a s) x = shadow s x"
  proof cases
    case new
    have "shadow (inserted i a s) x = byte_of (load32 (ram s) a) (unat (x - a))"
      using shadow_patched [OF inv' i(1)] new a(2) by (simp add: sel active_def)
    also have "\<dots> = ram s x" using new by (rule byte_of_load32)
    also have "\<dots> = shadow s x"
    proof (rule shadow_unpatched [symmetric])
      fix b assume "b \<in> set (breakpoints s)" "active b"
      then obtain j where "j < NR_BREAKPOINTS" "b = breakpoints s ! j" "active (breakpoints s ! j)"
        using len by (metis in_set_conv_nth)
      with new_span_disjoint [OF inv a(1,3)] new show "x \<notin> word_span (bk_addr b)" by blast
    qed
    finally show ?thesis .
  next
    case old
    then have "j \<noteq> i" using i(2) by (auto simp: active_def)
    with old show ?thesis
      using shadow_patched [OF inv' old(1)] shadow_patched [OF inv old] by (simp add: sel)
  next
    case none
    have "x \<notin> word_span (bk_addr b)" if "b \<in> set (breakpoints (inserted i a s))" "active b" for b
      using that none len i by (auto simp: inserted_def active_def dest!: set_update_subset_insert [THEN subsetD])
    then have "shadow (inserted i a s) x = ram (inserted i a s) x" by (rule shadow_unpatched)
    with none show ?thesis by (simp add: sel shadow_unpatched store32_outside)
  qed
qed

lemma inserted_set:
  assumes inv: "bkpt_inv s" and a: "a \<noteq> 0" and i: "i < NR_BREAKPOINTS" "bk_addr (breakpoints s ! i) = 0"
  shows "bkpt_set (inserted i a s) = insert a (bkpt_set s)"
proof -
  have len: "length (breakpoints s) = NR_BREAKPOINTS" using inv by (rule bkpt_invD)
  note sel = inserted_sel [of i s a, unfolded len, OF i(1)]
  have "x \<in> bkpt_set (inserted i a s) \<longleftrightarrow> x \<in> insert a (bkpt_set s)" for x
    using len i a by (auto simp: in_bkpt_set_iff sel)
  then show ?thesis by blast
qed

lemma removed_active:
  assumes "i < length (breakpoints s)" and "active (breakpoints (removed i s) ! j)"
  shows "j \<noteq> i \<and> active (breakpoints s ! j) \<and> breakpoints (removed i s) ! j = breakpoints s ! j"
  using assms by (auto simp: removed_sel active_def split: if_splits)

lemma removed_inv:
  assumes inv: "bkpt_inv s" and i: "i < NR_BREAKPOINTS" and act: "active (breakpoints s ! i)"
  shows "bkpt_inv (removed i s)"
proof -
  have len: "length (breakpoints s) = NR_BREAKPOINTS" using inv by (rule bkpt_invD)
  note sel = removed_sel [of i s, unfolded len, OF i]
  note ract = removed_active [of i s, unfolded len, OF i]
  have ld: "load32 (ram (removed i s)) (bk_addr (breakpoints s ! j)) = SMC_BKPT"
    if "j < NR_BREAKPOINTS" "active (breakpoints s ! j)" "j \<noteq> i" for j
  proof -
    have "word_span (bk_addr (breakpoints s ! i)) \<inter> word_span (bk_addr (breakpoints s ! j)) = {}"
      by (rule active_spans_disjoint [OF inv i that(1) act that(2)]) (use that(3) in simp)
    with that bkpt_invD(3) [OF inv] show ?thesis by (simp add: sel load32_store32_other)
  qed
  have inj: "j = k" if "j < NR_BREAKPOINTS" "k < NR_BREAKPOINTS" "active (breakpoints (removed i s) ! j)"
    "bk_addr (breakpoints (removed i s) ! j) = bk_addr (breakpoints (removed i s) ! k)" for j k
  proof -
    from that(3,4) have "active (breakpoints (removed i s) ! k)" by (simp add: active_def)
    with ract [of j] ract [of k] that bkpt_invD(4) [OF inv] show ?thesis by metis
  qed
  show ?thesis
    unfolding bkpt_inv_def using len sel(2) inj
    by (auto dest!: ract simp: ld bkpt_invD(2) [OF inv])
qed

lemma removed_shadow:
  assumes inv: "bkpt_inv s" and i: "i < NR_BREAKPOINTS" and act: "active (breakpoints s ! i)"
  shows "shadow (removed i s) = shadow s"
proof
  fix x
  have len: "length (breakpoints s) = NR_BREAKPOINTS" using inv by (rule bkpt_invD)
  note sel = removed_sel [of i s, unfolded len, OF i]
  note inv' = removed_inv [OF assms]
  have unpatched: "shadow (removed i s) x = ram (removed i s) x"
    if "\<And>j. j < NR_BREAKPOINTS \<Longrightarrow> j \<noteq> i \<Longrightarrow> active (breakpoints s ! j) \<Longrightarrow>
      x \<notin> word_span (bk_addr (breakpoints s ! j))"
  proof (rule shadow_unpatched)
    fix b assume "b \<in> set (breakpoints (removed i s))" "active b"
    then obtain j where "j < NR_BREAKPOINTS" "b = breakpoints (removed i s) ! j"
      using len sel(2) by (metis in_set_conv_nth)
    with \<open>active b\<close> that removed_active [of i s j, unfolded len, OF i]
    show "x \<notin> word_span (bk_addr b)" by metis
  qed
  consider (here) "x \<in> word_span (bk_addr (breakpoints s ! i))"
    | (old) j where "j < NR_BREAKPOINTS" "j \<noteq> i" "active (breakpoints s ! j)"
        "x \<in> word_span (bk_addr (breakpoints s ! j))"
    | (none) "\<And>j. j < NR_BREAKPOINTS \<Longrightarrow> active (breakpoints s ! j) \<Longrightarrow> x \<notin> word_span (bk_addr (breakpoints s ! j))"
    by metis
  then show "shadow (removed i s) x = shadow s x"
  proof cases
    case here
    have "x \<notin> word_span (bk_addr (breakpoints s ! j))"
      if "j < NR_BREAKPOINTS" "j \<noteq> i" "active (breakpoints s ! j)" for j
      using active_spans_disjoint [OF inv i that(1) act that(3)] that(2) here by blast
    then have "shadow (removed i s) x = ram (removed i s) x" by (rule unpatched)
    with here show ?thesis
      using shadow_patched [OF inv i act here] by (simp add: sel store32_inside)
  next
    case old
    then show ?thesis
      using shadow_patched [OF inv' old(1)] shadow_patched [OF inv old(1,3,4)] by (simp add: sel)
  next
    case none
    have "shadow s x = ram s x"
      using none len by (intro shadow_unpatched) (metis in_set_conv_nth)
    with none unpatched none [OF i act] show ?thesis by (simp add: sel store32_outside)
  qed
qed

lemma removed_set:
  assumes inv: "bkpt_inv s" and i: "i < NR_BREAKPOINTS" and act: "active (breakpoints s ! i)"
  shows "bkpt_set (removed i s) = bkpt_set s - {bk_addr (breakpoints s ! i)}"
proof -
  have len: "length (breakpoints s) = NR_BREAKPOINTS" using inv by (rule bkpt_invD)
  note sel = removed_sel [of i s, unfolded len, OF i]
  have "x \<in> bkpt_set (removed i s) \<longleftrightarrow> x \<in> bkpt_set s - {bk_addr (breakpoints s ! i)}" for x
    using len i act bkpt_invD(4) [OF inv i _ act] by (simp add: in_bkpt_set_iff sel) metis
  then show ?thesis by blast
qed

section \<open>The interface of a patch table\<close>

datatype bkpt_cmd = Insert_Bkpt u32 | Remove_Bkpt u32

type_synonym ('f, 's) bkpt_action = "u32 \<Rightarrow> 's \<Rightarrow> ('f, 's, int) res"

fun run_cmds :: "('f, 's) bkpt_action \<Rightarrow> ('f, 's) bkpt_action \<Rightarrow> bkpt_cmd list \<Rightarrow> 's \<Rightarrow> ('f, 's, unit) res" where
  "run_cmds ins del [] s = Inr ((), s)"
| "run_cmds ins del (Insert_Bkpt a # cs) s = andThen (ins a s) (\<lambda>_. run_cmds ins del cs)"
| "run_cmds ins del (Remove_Bkpt a # cs) s = andThen (del a s) (\<lambda>_. run_cmds ins del cs)"

text \<open>
  A debugger session: insertions of new, aligned breakpoints while there is room, removals of
  breakpoints that are set. \<open>set_after\<close> is the set of breakpoints it ends with.
\<close>

fun legal_cmds :: "nat \<Rightarrow> bkpt_cmd list \<Rightarrow> u32 set \<Rightarrow> bool" where
  "legal_cmds cap [] A = True"
| "legal_cmds cap (Insert_Bkpt a # cs) A =
     (aligned4 a \<and> a \<noteq> 0 \<and> a \<notin> A \<and> card A < cap \<and> legal_cmds cap cs (insert a A))"
| "legal_cmds cap (Remove_Bkpt a # cs) A = (a \<in> A \<and> legal_cmds cap cs (A - {a}))"

fun set_after :: "bkpt_cmd list \<Rightarrow> u32 set \<Rightarrow> u32 set" where
  "set_after [] A = A"
| "set_after (Insert_Bkpt a # cs) A = set_after cs (insert a A)"
| "set_after (Remove_Bkpt a # cs) A = set_after cs (A - {a})"

locale patch_table =
  fixes ins del :: "('f, 's) bkpt_action" and memory view :: "'s \<Rightarrow> mem"
    and patched :: "'s \<Rightarrow> u32 set" and inv :: "'s \<Rightarrow> bool" and cap :: nat
  assumes ins_ok: "inv s \<Longrightarrow> aligned4 a \<Longrightarrow> a \<noteq> 0 \<Longrightarrow> a \<notin> patched s \<Longrightarrow> card (patched s) < cap \<Longrightarrow>
      \<exists>s'. ins a s = Inr (0, s') \<and> inv s' \<and> view s' = view s \<and> patched s' = insert a (patched s)"
    and del_ok: "inv s \<Longrightarrow> a \<in> patched s \<Longrightarrow>
      \<exists>s'. del a s = Inr (0, s') \<and> inv s' \<and> view s' = view s \<and> patched s' = patched s - {a}"
    and bare: "inv s \<Longrightarrow> patched s = {} \<Longrightarrow> memory s = view s"
begin

lemma run_keeps_view:
  "inv s \<Longrightarrow> legal_cmds cap cs (patched s) \<Longrightarrow>
   \<exists>s'. run_cmds ins del cs s = Inr ((), s') \<and> inv s' \<and> view s' = view s \<and> patched s' = set_after cs (patched s)"
proof (induction cs arbitrary: s)
  case Nil
  then show ?case by simp
next
  case (Cons c cs)
  show ?case
  proof (cases c)
    case (Insert_Bkpt a)
    with Cons.prems ins_ok [of s a] obtain s1 where
      s1: "ins a s = Inr (0, s1)" "inv s1" "view s1 = view s" "patched s1 = insert a (patched s)" by auto
    with Cons.IH [of s1] Cons.prems Insert_Bkpt show ?thesis by auto
  next
    case (Remove_Bkpt a)
    with Cons.prems del_ok [of s a] obtain s1 where
      s1: "del a s = Inr (0, s1)" "inv s1" "view s1 = view s" "patched s1 = patched s - {a}" by auto
    with Cons.IH [of s1] Cons.prems Remove_Bkpt show ?thesis by auto
  qed
qed

lemma run_restores_memory:
  assumes "inv s" "patched s = {}" "legal_cmds cap cs {}" "set_after cs {} = {}"
  shows "\<exists>s'. run_cmds ins del cs s = Inr ((), s') \<and> memory s' = memory s"
  using run_keeps_view [of s cs] assms by (auto simp: bare)

end

interpretation bk: patch_table add_bkpt del_bkpt ram shadow bkpt_set bkpt_inv NR_BREAKPOINTS
proof
  fix s a
  assume inv: "bkpt_inv s" and a: "aligned4 a" "a \<noteq> 0" "a \<notin> bkpt_set s"
    and room: "card (bkpt_set s) < NR_BREAKPOINTS"
  from alloc_bkpt_Some [OF inv room] obtain i where
    i: "alloc_bkpt s = Some i" "i < NR_BREAKPOINTS" "bk_addr (breakpoints s ! i) = 0" .
  with add_bkpt_new [OF find_bkpt_None [OF inv a(2,3)] i(1)]
  show "\<exists>s'. add_bkpt a s = Inr (0, s') \<and> bkpt_inv s' \<and> shadow s' = shadow s \<and> bkpt_set s' = insert a (bkpt_set s)"
    using inserted_inv [OF inv a i(2,3)] inserted_shadow [OF inv a i(2,3)] inserted_set [OF inv a(2) i(2,3)]
    by blast
next
  fix s a
  assume inv: "bkpt_inv s" and a: "a \<in> bkpt_set s"
  then obtain i where i: "i < NR_BREAKPOINTS" "active (breakpoints s ! i)" "bk_addr (breakpoints s ! i) = a"
    using in_bkpt_set_iff [OF bkpt_invD(1) [OF inv]] by (auto simp: active_def)
  with del_bkpt_found [OF find_bkpt_active [OF inv i(1,2)]]
  show "\<exists>s'. del_bkpt a s = Inr (0, s') \<and> bkpt_inv s' \<and> shadow s' = shadow s \<and> bkpt_set s' = bkpt_set s - {a}"
    using removed_inv [OF inv i(1,2)] removed_shadow [OF inv i(1,2)] removed_set [OF inv i(1,2)] by auto
next
  fix s assume "bkpt_inv s" "bkpt_set s = {}"
  then show "ram s = shadow s" by (simp add: shadow_no_bkpts)
qed

section \<open>Properties\<close>

definition fresh_gdb :: gdb where
  "fresh_gdb = \<lparr>rx = [], tx = [], cmd_buf = replicate 512 0, running = False,
     breakpoints = replicate NR_BREAKPOINTS \<lparr>bk_addr = 0, bk_saved = 0\<rparr>, ram = (\<lambda>_. 0), regs = replicate 17 0,
     libc_disable_stdout = 0\<rparr>"

lemma fresh_gdb_inv: "bkpt_inv fresh_gdb" and fresh_gdb_set: "bkpt_set fresh_gdb = {}"
  by (auto simp: fresh_gdb_def bkpt_inv_def bkpt_set_def active_def)

end
