(* ===== verification/Gdb_Stub.thy ===== *)
theory Gdb_Stub
  imports Gdb_Breakpoints
begin

text \<open>
  The remote serial protocol of the GDB stub (\<^verbatim>\<open>gdb/gdbstub.c\<close>): reception of packets into the
  static buffer \<open>cmd_buf\<close>, dispatch to the command handlers, responses, and the loop that serves the
  debugger while the program is stopped. A pointer into \<open>cmd_buf\<close> is an index; a store past the end
  of the buffer, or a read past it, is the fault \<open>Overflow\<close>.
\<close>

section \<open>The packet buffer\<close>

definition CMD_BUF_LEN :: nat where "CMD_BUF_LEN = 512"
definition EXTRA_REGS :: nat where "EXTRA_REGS = 25"
definition PC :: nat where "PC = 15"
definition CPSR :: nat where "CPSR = 16"

definition cstr_at :: "u8 list \<Rightarrow> nat \<Rightarrow> u8 list" where
  "cstr_at buf i = takeWhile (\<lambda>c. c \<noteq> 0) (drop i buf)"

text \<open>Bytes stored at index \<open>i\<close> of \<open>cmd_buf\<close>; text is always stored with its terminator.\<close>

definition buf_store :: "nat \<Rightarrow> u8 list \<Rightarrow> gdb \<Rightarrow> (fault, gdb, unit) res" where
  "buf_store i bs s =
     (if i + length bs \<le> CMD_BUF_LEN
      then Inr ((), s\<lparr>cmd_buf := take i (cmd_buf s) @ bs @ drop (i + length bs) (cmd_buf s)\<rparr>)
      else Inl (Overflow, s))"

definition buf_put :: "nat \<Rightarrow> u8 list \<Rightarrow> gdb \<Rightarrow> (fault, gdb, unit) res" where
  "buf_put i cs s = buf_store i (cs @ [0]) s"

section \<open>Memory access\<close>

text \<open>\<open>read_mem\<close> returns the bytes it stores to \<open>dst\<close> as a number; -1 is \<open>None\<close>.\<close>

definition read_mem :: "u32 \<Rightarrow> u32 \<Rightarrow> gdb \<Rightarrow> u32 option" where
  "read_mem addr len s =
     (if len = 4 then Some (bswap32 (load32 (ram s) addr))
      else if len = 2 then Some (ucast (bswap16 (ucast (ram s addr) OR push_bit 8 (ucast (ram s (addr + 1))))))
      else if len = 1 then Some (ucast (ram s addr))
      else None)"

text \<open>The low \<open>len\<close> bytes of \<open>v\<close> are what \<open>src\<close> points to.\<close>

definition write_mem :: "u32 \<Rightarrow> u32 \<Rightarrow> u32 \<Rightarrow> gdb \<Rightarrow> int \<times> gdb" where
  "write_mem v addr len s =
     (if len = 4 then (0, s\<lparr>ram := store32 (ram s) addr (bswap32 v)\<rparr>)
      else if len = 2 then (0, s\<lparr>ram := store16 (ram s) addr (bswap16 (ucast v))\<rparr>)
      else if len = 1 then (0, s\<lparr>ram := (ram s)(addr := ucast v)\<rparr>)
      else (- 1, s))"

section \<open>Responses\<close>

fun put_bytes :: "u8 list \<Rightarrow> gdb \<Rightarrow> gdb" where
  "put_bytes [] s = s"
| "put_bytes (b # bs) s = put_bytes bs (serial_putc b s)"

fun gdbstub_writev :: "u8 list list \<Rightarrow> gdb \<Rightarrow> int \<times> gdb" where
  "gdbstub_writev [] s = (0, s)"
| "gdbstub_writev (v # vs) s =
     (let (n, s') = gdbstub_writev vs (put_bytes v s) in (int (length v) + n, s'))"

definition checksum :: "u8 list \<Rightarrow> u8" where
  "checksum msg = foldl (+) 0 msg"

definition send_response :: "u8 list \<Rightarrow> gdb \<Rightarrow> int \<times> gdb" where
  "send_response msg s = gdbstub_writev [str ''$'', msg, str ''#'' @ put_hex_byte (checksum msg)] s"

definition hit_breakpoint :: "gdb \<Rightarrow> gdb" where
  "hit_breakpoint s = snd (send_response (str ''S05'') (s\<lparr>running := False\<rparr>))"

definition gdbstub_break :: "gdb \<Rightarrow> int \<times> gdb" where
  "gdbstub_break s = send_response (str ''S05'') (s\<lparr>running := False\<rparr>)"

definition unsupported_op :: "gdb \<Rightarrow> int \<times> gdb" where
  "unsupported_op s = send_response [] s"

section \<open>Command handlers\<close>

text \<open>A handler runs with its message in \<open>cmd_buf\<close>, from index 0.\<close>

type_synonym handler = "gdb \<Rightarrow> (fault, gdb, int) res"

definition qsupported :: handler where
  "qsupported s = Inr (send_response (str ''qSupported:PacketSize=256;multiprocess+'') s)"

definition stop_status :: handler where
  "stop_status s = Inr (send_response (str ''S05'') s)"

text \<open>The loop of \<open>gdb_read_mem\<close> over \<open>m\<close>, with \<open>n\<close> iterations left.\<close>

fun read_mem_loop :: "nat \<Rightarrow> u32 \<Rightarrow> u32 \<Rightarrow> gdb \<Rightarrow> (fault, gdb, unit) res" where
  "read_mem_loop 0 m addr s = Inr ((), s)"
| "read_mem_loop (Suc n) m addr s =
     (case read_mem (addr + m) 1 s of
        None \<Rightarrow> Inr ((), s)
      | Some v \<Rightarrow> andThen (buf_put (unat (m * 2)) (put_hex_byte (ucast (v AND 0xff))) s)
                    (\<lambda>_. read_mem_loop n (m + 1) addr))"

definition gdb_read_mem :: handler where
  "gdb_read_mem s =
     (let (addr, nxt) = read_hex (cstr_at (cmd_buf s) 1)
      in case nxt of
           [] \<Rightarrow> Inr (send_response (str ''E01'') s)
         | c # rest \<Rightarrow>
             (if c \<noteq> of_char CHR '','' then Inr (send_response (str ''E01'') s)
              else andThen (read_mem_loop (unat (fst (read_hex rest))) 0 addr s)
                     (\<lambda>_ s'. Inr (send_response (cstr_at (cmd_buf s') 0) s'))))"

text \<open>The byte loop of \<open>gdb_write_mem\<close>: \<open>p\<close> is the index of the next two digits.\<close>

fun write_mem_loop :: "nat \<Rightarrow> u32 \<Rightarrow> nat \<Rightarrow> u32 \<Rightarrow> gdb \<Rightarrow> (fault, gdb, bool) res" where
  "write_mem_loop 0 m p addr s = Inr (True, s)"
| "write_mem_loop (Suc n) m p addr s =
     (if p + 2 \<le> CMD_BUF_LEN
      then (let (v, _) = read_byte (drop p (cmd_buf s));
                (rc, s') = write_mem (ucast v) (addr + m) 1 s
            in if rc \<noteq> 0 then Inr (False, s') else write_mem_loop n (m + 1) (p + 2) addr s')
      else Inl (Overflow, s))"

definition write_mem_body :: "u32 \<Rightarrow> u32 \<Rightarrow> u8 list \<Rightarrow> gdb \<Rightarrow> (fault, gdb, bool) res" where
  "write_mem_body addr len p s =
     (if len = 2 \<or> len = 4
      then (let (rc, s') = write_mem (fst (read_hex p)) addr len s in Inr (rc = 0, s'))
      else write_mem_loop (unat len) 0 (1 + (length (cstr_at (cmd_buf s) 1) - length p)) addr s)"

definition gdb_write_mem :: handler where
  "gdb_write_mem s =
     (case read_addr (cstr_at (cmd_buf s) 1) of
        None \<Rightarrow> Inr (send_response (str ''E01'') s)
      | Some (addr, p1) \<Rightarrow>
          (case read_len p1 of
             None \<Rightarrow> Inr (send_response (str ''E01'') s)
           | Some (len, p2) \<Rightarrow>
               (if of_nat (length p2) \<noteq> len * 2 then Inr (send_response (str ''E01'') s)
                else andThen (write_mem_body addr len p2 s)
                       (\<lambda>ok s'. Inr (send_response (if ok then str ''OK'' else str ''E02'') s')))))"

definition reg_dump :: "u32 list \<Rightarrow> u8 list" where
  "reg_dump rs = concat (map (\<lambda>m. put_reg (rs ! m)) [0..<PC + 1]) @
     concat (replicate EXTRA_REGS put_invalid_reg) @ put_reg (rs ! CPSR)"

definition read_regs :: handler where
  "read_regs s =
     andThen (buf_put 0 (reg_dump (regs s)) s)
       (\<lambda>_ s'. Inr (send_response (take ((17 + EXTRA_REGS) * 8) (cmd_buf s')) s'))"

definition write_regs :: handler where
  "write_regs s =
     (let msg = cstr_at (cmd_buf s) 1
      in if length msg \<noteq> (17 + EXTRA_REGS) * 8 then Inr (send_response (str ''E 01'') s)
         else (let rs = map (\<lambda>m. reg_from_str (drop (m * 8) msg)) [0..<PC + 1] @ drop (PC + 1) (regs s);
                   s' = s\<lparr>regs := rs[CPSR := reg_from_str (drop ((16 + EXTRA_REGS) * 8) msg)]\<rparr>
               in Inr (send_response (str ''OK'') s')))"

definition do_continue :: handler where
  "do_continue s =
     (case strchr (cstr_at (cmd_buf s) 0) (of_char CHR '';'') of
        None \<Rightarrow> Inr (send_response [] s)
      | Some p \<Rightarrow>
          (case tl p of
             [] \<Rightarrow> Inr (send_response [] s)
           | c # _ \<Rightarrow> (if c = of_char CHR ''c'' then Inr (1, s\<lparr>running := True\<rparr>)
                      else if c = of_char CHR ''t'' then Inr (1, s\<lparr>running := False\<rparr>)
                      else Inr (send_response [] s))))"

definition vcont_query :: handler where
  "vcont_query s = Inr (send_response (str ''vCont;c;C;s;S'') s)"

definition qattached :: handler where
  "qattached s = Inr (send_response (str ''1'') s)"

definition detach :: handler where
  "detach s = Inr (send_response (str ''OK'') (s\<lparr>running := True\<rparr>))"

definition bkpt_op :: "(u32 \<Rightarrow> gdb \<Rightarrow> (fault, gdb, int) res) \<Rightarrow> handler" where
  "bkpt_op op s =
     (case read_field (cstr_at (cmd_buf s) 3) (of_char CHR '','') of
        None \<Rightarrow> Inr (send_response (str ''E01'') s)
      | Some (addr, _) \<Rightarrow>
          andThen (op addr s)
            (\<lambda>rc s'. Inr (send_response (if rc = 0 then str ''OK'' else str ''E01'') s')))"

definition insert_bkpt :: handler where
  "insert_bkpt s = bkpt_op add_bkpt s"

definition remove_bkpt :: handler where
  "remove_bkpt s = bkpt_op del_bkpt s"

definition handlers :: "(u8 list \<times> handler) list" where
  "handlers =
     [(str ''qSupported:'', qsupported), (str ''?'', stop_status), (str ''g'', read_regs),
      (str ''G'', write_regs), (str ''m'', gdb_read_mem), (str ''M'', gdb_write_mem),
      (str ''z1'', remove_bkpt), (str ''Z1'', insert_bkpt), (str ''z0'', remove_bkpt),
      (str ''Z0'', insert_bkpt), (str ''vCont?'', vcont_query), (str ''vCont'', do_continue),
      (str ''qAttached'', qattached), (str ''D'', detach)]"

definition lookup_cmdhandler :: "u8 list \<Rightarrow> handler option" where
  "lookup_cmdhandler msg =
     map_option (\<lambda>m. snd (handlers ! m)) (first_slot (\<lambda>(pfx, _). has_prefix pfx msg) handlers)"

section \<open>Receiving a packet\<close>

text \<open>\<open>unescape\<close> with its write and read pointers; \<open>None\<close> is a read past the buffer.\<close>

function unescape_loop :: "nat \<Rightarrow> nat \<Rightarrow> u8 list \<Rightarrow> u8 list option" where
  "unescape_loop w r buf =
     (if length buf \<le> r then None
      else if buf ! r = 0 then Some (buf[w := 0])
      else if buf ! r \<noteq> of_char CHR ''}'' then unescape_loop (Suc w) (Suc r) (buf[w := buf ! r])
      else if length buf \<le> Suc r then None
      else unescape_loop (Suc w) (Suc (Suc r)) (buf[w := buf ! Suc r XOR 0x20]))"
  by pat_completeness auto

termination unescape_loop
  by (relation "measure (\<lambda>(w, r, buf). length buf - r)") auto

declare unescape_loop.simps [simp del]

definition unescape :: "gdb \<Rightarrow> (fault, gdb, unit) res" where
  "unescape s =
     (case unescape_loop 0 0 (cmd_buf s) of
        None \<Rightarrow> Inl (Overflow, s)
      | Some buf \<Rightarrow> Inr ((), s\<lparr>cmd_buf := buf\<rparr>))"

definition gdbstub_recv_byte :: "gdb \<Rightarrow> (fault, gdb, u8) res" where
  "gdbstub_recv_byte s =
     (case serial_getc s of None \<Rightarrow> Inl (Blocked, s) | Some (b, s') \<Rightarrow> Inr (b, s'))"

lemma gdbstub_recv_byte_shrinks:
  "gdbstub_recv_byte s = Inr (b, s') \<Longrightarrow> length (rx s') < length (rx s)"
  by (auto simp: gdbstub_recv_byte_def serial_getc_def split: option.splits list.splits)

text \<open>The receive loop: \<open>p\<close> is the index of the next byte. No bound on \<open>p\<close> is tested.\<close>

function recv_loop :: "nat \<Rightarrow> u8 \<Rightarrow> gdb \<Rightarrow> (fault, gdb, nat \<times> u8) res" where
  "recv_loop p csum s =
     andThen (gdbstub_recv_byte s) (\<lambda>b s1.
       andThen (buf_store p [b] s1) (\<lambda>_ s2.
         if b = of_char CHR ''#'' then Inr ((p, csum), s2) else recv_loop (Suc p) (csum + b) s2))"
  by pat_completeness auto

termination recv_loop
  by (relation "measure (\<lambda>(p, csum, s). length (rx s))")
     (auto simp: buf_store_def split: if_splits dest: gdbstub_recv_byte_shrinks)

declare recv_loop.simps [simp del]

definition read_csum :: "gdb \<Rightarrow> (fault, gdb, u8) res" where
  "read_csum s =
     andThen (gdbstub_recv_byte s) (\<lambda>b0 s1.
     andThen (gdbstub_recv_byte s1) (\<lambda>b1 s2.
       Inr (hex_nibble_val b0 * 16 + hex_nibble_val b1, s2)))"

definition ack_packet :: "bool \<Rightarrow> gdb \<Rightarrow> gdb" where
  "ack_packet is_good s = serial_putc (if is_good then of_char CHR ''+'' else of_char CHR ''-'') s"

definition gdbstub_handle :: handler where
  "gdbstub_handle s =
     andThen (recv_loop 0 0 s) (\<lambda>(p, csum) s1.
     andThen (buf_store p [0] s1) (\<lambda>_ s2.
     andThen (read_csum s2) (\<lambda>recvd_csum s3.
     andThen (unescape (ack_packet (recvd_csum = csum) s3)) (\<lambda>_ s4.
       case lookup_cmdhandler (cstr_at (cmd_buf s4) 0) of
         Some handler \<Rightarrow> handler s4
       | None \<Rightarrow> Inr (unsupported_op s4)))))"

section \<open>What every handler keeps\<close>

text \<open>
  The static data keeps its sizes and the last byte of \<open>cmd_buf\<close> stays a terminator, so that every
  C string in the buffer ends inside it.
\<close>

definition stub_ok :: "gdb \<Rightarrow> bool" where
  "stub_ok s \<longleftrightarrow> length (cmd_buf s) = CMD_BUF_LEN \<and> cmd_buf s ! (CMD_BUF_LEN - 1) = 0 \<and>
     length (regs s) = 17 \<and> length (breakpoints s) = NR_BREAKPOINTS"

definition keeps :: "gdb \<Rightarrow> (fault, gdb, 'a) res \<Rightarrow> bool" where
  "keeps s r \<longleftrightarrow> rx (state_of r) = rx s \<and> (stub_ok s \<longrightarrow> stub_ok (state_of r))"

named_theorems keeps_rules \<open>operations of the stub that keep its static data and take no input\<close>

lemma keeps_andThen [keeps_rules]:
  assumes "keeps s r" and "\<And>x s'. r = Inr (x, s') \<Longrightarrow> keeps s' (k x s')"
  shows "keeps s (andThen r k)"
proof (cases r)
  case (Inr p)
  obtain x s' where "p = (x, s')" by fastforce
  with Inr assms(1) assms(2) [of x s'] show ?thesis by (simp add: keeps_def)
next
  case (Inl p)
  with assms(1) show ?thesis by (cases p) (simp add: keeps_def)
qed

lemma keeps_same [keeps_rules]: "keeps s (Inl (e, s))" "keeps s (Inr (x, s))"
  by (simp_all add: keeps_def)

lemma put_bytes_eq: "put_bytes bs s = s\<lparr>tx := tx s @ bs\<rparr>"
  by (induction bs arbitrary: s) (simp_all add: serial_putc_def)

text \<open>The text of a response packet.\<close>

definition frame :: "u8 list \<Rightarrow> u8 list" where
  "frame msg = str ''$'' @ msg @ str ''#'' @ put_hex_byte (checksum msg)"

lemma send_response_eq:
  "send_response msg s = (int (length msg) + 4, s\<lparr>tx := tx s @ frame msg\<rparr>)"
  by (simp add: send_response_def frame_def put_bytes_eq)

lemma keeps_running [keeps_rules]: "keeps s (Inr (x, s\<lparr>running := b\<rparr>))"
  by (simp add: keeps_def stub_ok_def)

lemma keeps_send [keeps_rules]:
  "keeps s (Inr (send_response msg s))"
  "keeps s (Inr (send_response msg (s\<lparr>running := b\<rparr>)))"
  by (simp_all add: send_response_eq keeps_def stub_ok_def)

lemma nth_stored_text:
  assumes "i + length cs < n" "length buf = n" "buf ! (n - 1) = 0"
  shows "(take i buf @ (cs @ [0]) @ drop (i + length (cs @ [0])) buf) ! (n - 1) = (0 :: u8)"
proof (cases "i + length cs + 1 = n")
  case True
  with assms(2) have "n - 1 = i + length cs" "min (length buf) i = i" by auto
  with assms(2) True show ?thesis by (simp add: nth_append)
next
  case False
  with assms(1) have "\<not> n - 1 < i" "\<not> n - 1 - i < Suc (length cs)" 
    and e: "i + length (cs @ [0]) + (n - 1 - i - Suc (length cs)) = n - 1" by auto
  then show ?thesis
    using assms False by (simp add: nth_append del: append_assoc drop_append)
qed

lemma keeps_buf_put [keeps_rules]: "keeps s (buf_put i cs s)"
  using nth_stored_text [of i cs CMD_BUF_LEN "cmd_buf s"]
  by (auto simp: buf_put_def buf_store_def keeps_def stub_ok_def)

lemma keeps_read_mem_loop [keeps_rules]: "keeps s (read_mem_loop n m addr s)"
  by (induction n arbitrary: m s)
     (auto split: option.splits intro!: keeps_rules)

lemma write_mem_keeps: "write_mem v addr len s = (rc, s') \<Longrightarrow> keeps s (Inr (x, s'))"
  by (auto simp: write_mem_def keeps_def stub_ok_def split: if_splits)

lemma keeps_write_mem_loop [keeps_rules]: "keeps s (write_mem_loop n m p addr s)"
proof (induction n arbitrary: m p s)
  case (Suc n)
  have "keeps s (write_mem_loop n (m + 1) (p + 2) addr s')" if "write_mem v (addr + m) 1 s = (rc, s')" for v rc s'
    using write_mem_keeps [OF that, of "()"] Suc.IH [of s' "m + 1" "p + 2"] by (simp add: keeps_def)
  then show ?case by (auto split: prod.splits intro: write_mem_keeps keeps_same)
qed (simp add: keeps_same)

lemma keeps_write_mem_body [keeps_rules]: "keeps s (write_mem_body addr len p s)"
  by (auto simp: write_mem_body_def split: prod.splits intro: write_mem_keeps keeps_rules)

lemma keeps_bkpts [keeps_rules]: "keeps s (add_bkpt a s)" "keeps s (del_bkpt a s)"
  by (auto simp: add_bkpt_def del_bkpt_def activate_bkpt_def deactivate_bkpt_def free_bkpt_def set_bkpt_def
      keeps_def stub_ok_def Let_def split: option.splits)

lemma keeps_regs [keeps_rules]: "keeps s (read_regs s)" "keeps s (write_regs s)"
proof -
  show "keeps s (read_regs s)"
    unfolding read_regs_def by (intro keeps_rules)
  show "keeps s (write_regs s)"
    by (auto simp: write_regs_def Let_def send_response_eq keeps_def stub_ok_def PC_def)
qed

lemma keeps_handlers [keeps_rules]:
  "keeps s (qsupported s)" "keeps s (stop_status s)" "keeps s (gdb_read_mem s)"
  "keeps s (gdb_write_mem s)" "keeps s (do_continue s)" "keeps s (vcont_query s)" "keeps s (qattached s)"
  "keeps s (detach s)" "keeps s (insert_bkpt s)" "keeps s (remove_bkpt s)"
  unfolding qsupported_def stop_status_def gdb_read_mem_def gdb_write_mem_def do_continue_def
    vcont_query_def qattached_def detach_def insert_bkpt_def remove_bkpt_def bkpt_op_def
  by (auto split: prod.splits list.splits option.splits intro!: keeps_rules)

lemma lookup_keeps:
  assumes "lookup_cmdhandler msg = Some h"
  shows "keeps s (h s)"
proof -
  have all: "keeps s (snd p s)" if "p \<in> set handlers" for p
    using that by (auto simp: handlers_def keeps_rules)
  from assms obtain m where "h = snd (handlers ! m)" "m < length handlers"
    by (auto simp: lookup_cmdhandler_def dest: first_slot_SomeD)
  with all [of "handlers ! m"] show ?thesis by simp
qed

text \<open>Reception takes bytes from the input and leaves the rest of the static data alone.\<close>

lemma recv_loop_rx: "recv_loop p c s = Inr (x, s') \<Longrightarrow> length (rx s') < length (rx s)"
proof (induction p c s rule: recv_loop.induct)
  case (1 p csum s)
  from "1.prems" obtain b s1 s2 where
    s1: "gdbstub_recv_byte s = Inr (b, s1)" and s2: "buf_store p [b] s1 = Inr ((), s2)" and
    k: "(if b = of_char CHR ''#'' then Inr ((p, csum), s2) else recv_loop (Suc p) (csum + b) s2) = Inr (x, s')"
    by (subst (asm) recv_loop.simps) (auto simp: andThen_Inr_iff)
  have "rx s2 = rx s1" using s2 by (auto simp: buf_store_def split: if_splits)
  with gdbstub_recv_byte_shrinks [OF s1] have less: "length (rx s2) < length (rx s)" by simp
  show ?case
  proof (cases "b = of_char CHR ''#''")
    case True
    with k less show ?thesis by simp
  next
    case False
    with k "1.IH" [OF s1 s2] have "length (rx s') < length (rx s2)" by simp
    with less show ?thesis by simp
  qed
qed

lemma gdbstub_handle_rx:
  assumes "gdbstub_handle s = Inr (x, s')"
  shows "length (rx s') < length (rx s)"
proof -
  from assms obtain p csum s1 s2 c s3 s4 where
    s1: "recv_loop 0 0 s = Inr ((p, csum), s1)" and s2: "buf_store p [0] s1 = Inr ((), s2)" and
    s3: "read_csum s2 = Inr (c, s3)" and s4: "unescape (ack_packet (c = csum) s3) = Inr ((), s4)" and
    s5: "(case lookup_cmdhandler (cstr_at (cmd_buf s4) 0) of
         Some handler \<Rightarrow> handler s4 | None \<Rightarrow> Inr (unsupported_op s4)) = Inr (x, s')"
    unfolding gdbstub_handle_def by (auto simp: andThen_Inr_iff)
  have "length (rx s3) < length (rx s2)"
    using s3 by (auto simp: read_csum_def andThen_Inr_iff dest!: gdbstub_recv_byte_shrinks)
  moreover have "rx s2 = rx s1" using s2 by (auto simp: buf_store_def split: if_splits)
  moreover have "rx s4 = rx s3"
    using s4 by (auto simp: unescape_def ack_packet_def serial_putc_def split: option.splits)
  moreover have "rx s' = rx s4"
  proof (cases "lookup_cmdhandler (cstr_at (cmd_buf s4) 0)")
    case None
    with s5 show ?thesis by (auto simp: unsupported_op_def send_response_eq)
  next
    case (Some h)
    with s5 lookup_keeps [OF Some, of s4] show ?thesis by (simp add: keeps_def)
  qed
  ultimately show ?thesis using recv_loop_rx [OF s1] by simp
qed

section \<open>Serving the debugger\<close>

definition io_step :: "u8 \<Rightarrow> gdb \<Rightarrow> (fault, gdb, unit) res" where
  "io_step c s =
     (if c = of_char CHR ''+'' then Inr ((), s)
      else if c = 0x03 then Inr ((), snd (gdbstub_break s))
      else if c = of_char CHR ''$'' then andThen (gdbstub_handle s) (\<lambda>_ s'. Inr ((), s'))
      else if c = of_char CHR ''-'' then Inl (Bug_Trap, s)
      else Inr ((), snd (unsupported_op s)))"

lemma io_step_rx: "io_step c s = Inr (x, s') \<Longrightarrow> length (rx s') \<le> length (rx s)"
  by (auto simp: io_step_def gdbstub_break_def unsupported_op_def send_response_eq andThen_Inr_iff
      split: if_splits dest: gdbstub_handle_rx)

text \<open>The \<open>do ... while (!running)\<close> loop; every iteration takes at least one byte of input.\<close>

function io_loop :: "gdb \<Rightarrow> (fault, gdb, unit) res" where
  "io_loop s =
     andThen (gdbstub_recv_byte s) (\<lambda>c s1.
     andThen (io_step c s1) (\<lambda>_ s2. if running s2 then Inr ((), s2) else io_loop s2))"
  by pat_completeness auto

termination io_loop
  by (relation "measure (\<lambda>s. length (rx s))")
     (auto dest!: gdbstub_recv_byte_shrinks io_step_rx)

declare io_loop.simps [simp del]

definition gdbstub_io_handler :: "gdb \<Rightarrow> (fault, gdb, unit) res" where
  "gdbstub_io_handler s = io_loop (s\<lparr>libc_disable_stdout := 1\<rparr>)"

fun smc_scan :: "bkpt list \<Rightarrow> gdb \<Rightarrow> gdb" where
  "smc_scan [] s = s"
| "smc_scan (b # bs) s = smc_scan bs (if bk_addr b = regs s ! PC then hit_breakpoint s else s)"

definition gdbstub_smc_handler :: "gdb \<Rightarrow> (fault, gdb, unit) res" where
  "gdbstub_smc_handler s = gdbstub_io_handler (smc_scan (breakpoints s) s)"

end
