(* ===== verification/Gdb_Protocol.thy ===== *)
theory Gdb_Protocol
  imports Gdb_Stub
begin

text \<open>
  What the GDB stub promises to a debugger: packets sent by the protocol's rules reach the handler
  of their command unchanged, the answer to a memory or register access is the memory or the
  registers, no sequence of input bytes breaks the static data, and the limits of the buffer.
\<close>

section \<open>Strings in the buffer\<close>

lemma takeWhile_nonzero: "0 \<notin> set ms \<Longrightarrow> takeWhile (\<lambda>c. c \<noteq> (0::u8)) (ms @ 0 # cs) = ms"
  by (induction ms) auto

text \<open>The buffer holds the message \<open>ms\<close>, terminated, from index 0.\<close>

definition holds :: "u8 list \<Rightarrow> u8 list \<Rightarrow> bool" where
  "holds buf ms \<longleftrightarrow> 0 \<notin> set ms \<and> take (Suc (length ms)) buf = ms @ [0]"

lemma holdsE:
  assumes "holds buf ms"
  obtains cs where "buf = ms @ 0 # cs" and "0 \<notin> set ms"
proof (rule that)
  show "buf = ms @ 0 # drop (Suc (length ms)) buf"
    using assms append_take_drop_id [of "Suc (length ms)" buf] by (simp add: holds_def)
qed (use assms in \<open>simp add: holds_def\<close>)

lemma drop_ConsD:
  assumes "drop r buf = c # cs"
  shows "r < length buf" and "buf ! r = c" and "drop (Suc r) buf = cs"
proof -
  show r: "r < length buf" using assms by (metis drop_all list.distinct(1) not_le)
  show "buf ! r = c" "drop (Suc r) buf = cs"
    using assms r by (simp_all add: Cons_nth_drop_Suc [symmetric])
qed

lemma holds_length: "holds buf ms \<Longrightarrow> length ms < length buf"
  by (elim holdsE) simp

lemma holds_cstr_at: "holds buf ms \<Longrightarrow> i \<le> length ms \<Longrightarrow> cstr_at buf i = drop i ms"
  by (elim holdsE) (auto simp: cstr_at_def intro!: takeWhile_nonzero dest: in_set_dropD)

lemma holds_drop: "holds buf ms \<Longrightarrow> i \<le> length ms \<Longrightarrow> \<exists>cs. drop i buf = drop i ms @ 0 # cs"
  by (elim holdsE) simp

section \<open>Escaping\<close>

text \<open>
  The sender's side of the protocol: the characters with a meaning in the framing are sent as
  \<open>}\<close> followed by the character with bit 5 flipped.
\<close>

definition special :: "u8 \<Rightarrow> bool" where
  "special c \<longleftrightarrow> c \<in> set (str ''#$}*'')"

fun escape :: "u8 list \<Rightarrow> u8 list" where
  "escape [] = []"
| "escape (c # cs) = (if special c then [of_char CHR ''}'', c XOR 0x20] else [c]) @ escape cs"

lemma escape_plain: "(\<And>c. c \<in> set ms \<Longrightarrow> \<not> special c) \<Longrightarrow> escape ms = ms"
  by (induction ms) auto

lemma escape_no_hash: "of_char CHR ''#'' \<notin> set (escape ms)"
  by (induction ms) (auto simp: special_def)

lemma xor_0x20_twice [simp]: "(c XOR 0x20) XOR 0x20 = (c::u8)"
  by (simp add: xor.assoc)

text \<open>No matter what the buffer holds, \<open>unescape\<close> writes only at or before the byte it reads.\<close>

lemma unescape_loop_keeps:
  "unescape_loop w r buf = Some buf' \<Longrightarrow> w \<le> r \<Longrightarrow> buf \<noteq> [] \<Longrightarrow> buf ! (length buf - 1) = 0 \<Longrightarrow>
   length buf' = length buf \<and> buf' ! (length buf - 1) = 0"
proof (induction w r buf rule: unescape_loop.induct)
  case (1 w r buf)
  show ?case
  proof (cases "length buf \<le> r \<or> buf ! r = 0")
    case True
    with "1.prems" show ?thesis
      by (subst (asm) unescape_loop.simps) (auto simp: nth_list_update split: if_splits)
  next
    case False
    then have r: "r < length buf" "buf ! r \<noteq> 0" by auto
    with "1.prems"(3,4) have "r \<noteq> length buf - 1" by metis
    with r "1.prems"(2) have w: "w \<noteq> length buf - 1" "Suc r < length buf" by auto
    show ?thesis
    proof (cases "buf ! r = of_char CHR ''}''")
      case True
      with "1.prems" w r have "unescape_loop (Suc w) (Suc (Suc r)) (buf[w := buf ! Suc r XOR 0x20]) = Some buf'"
        by (subst (asm) unescape_loop.simps) simp
      with "1.IH"(2) "1.prems" w r True show ?thesis by simp
    next
      case False
      with "1.prems" w r have "unescape_loop (Suc w) (Suc r) (buf[w := buf ! r]) = Some buf'"
        by (subst (asm) unescape_loop.simps) simp
      with "1.IH"(1) "1.prems" w r False show ?thesis by simp
    qed
  qed
qed

text \<open>Escaped text is decoded in place.\<close>

lemma take_Suc_update: "w < length buf \<Longrightarrow> take (Suc w) (buf[w := c]) = take w buf @ [c]"
  by (simp add: take_Suc_conv_app_nth)

lemma unescape_loop_escape:
  "drop r buf = escape ms @ 0 # cs \<Longrightarrow> w \<le> r \<Longrightarrow> 0 \<notin> set ms \<Longrightarrow>
   \<exists>buf'. unescape_loop w r buf = Some buf' \<and> take (Suc (w + length ms)) buf' = take w buf @ ms @ [0]"
proof (induction ms arbitrary: w r buf)
  case Nil
  then have "drop r buf = 0 # cs" by simp
  with Nil drop_ConsD [OF this] show ?case
    by (subst unescape_loop.simps) (simp add: take_Suc_update)
next
  case (Cons c ms)
  show ?case
  proof (cases "special c")
    case True
    have d: "drop r buf = of_char CHR ''}'' # (c XOR 0x20) # escape ms @ 0 # cs"
      using Cons.prems(1) True by simp
    note b = drop_ConsD [OF this] drop_ConsD [OF drop_ConsD(3) [OF this]]
    have "drop (Suc (Suc r)) (buf[w := c]) = escape ms @ 0 # cs"
      using b(6) Cons.prems(2) by simp
    from Cons.IH [OF this, of "Suc w"] Cons.prems obtain buf' where
      "unescape_loop (Suc w) (Suc (Suc r)) (buf[w := c]) = Some buf'"
      "take (Suc (Suc w + length ms)) buf' = take (Suc w) (buf[w := c]) @ ms @ [0]" by auto
    with b Cons.prems(2) show ?thesis
      by (subst unescape_loop.simps) (auto simp: take_Suc_update)
  next
    case False
    then have ne: "c \<noteq> of_char CHR ''}''" by (auto simp: special_def)
    have d: "drop r buf = c # escape ms @ 0 # cs" using Cons.prems(1) False by simp
    note b = drop_ConsD [OF this]
    have "drop (Suc r) (buf[w := c]) = escape ms @ 0 # cs"
      using b(3) Cons.prems(2) by simp
    from Cons.IH [OF this, of "Suc w"] Cons.prems obtain buf' where
      "unescape_loop (Suc w) (Suc r) (buf[w := c]) = Some buf'"
      "take (Suc (Suc w + length ms)) buf' = take (Suc w) (buf[w := c]) @ ms @ [0]" by auto
    with b ne Cons.prems(2,3) show ?thesis
      by (subst unescape_loop.simps) (auto simp: take_Suc_update)
  qed
qed

section \<open>Reception\<close>

lemma gdbstub_recv_byte_Cons [simp]:
  "rx s = b # bs \<Longrightarrow> gdbstub_recv_byte s = Inr (b, s\<lparr>rx := bs\<rparr>)"
  "rx s = [] \<Longrightarrow> gdbstub_recv_byte s = Inl (Blocked, s)"
  by (simp_all add: gdbstub_recv_byte_def serial_getc_def)

text \<open>Bytes up to the \<open>#\<close> are stored from index \<open>p\<close> on and summed.\<close>

lemma recv_loop_packet:
  assumes "of_char CHR ''#'' \<notin> set ms" and "p + length ms < CMD_BUF_LEN"
    and "rx s = ms @ of_char CHR ''#'' # rest" and "length (cmd_buf s) = CMD_BUF_LEN"
  shows "recv_loop p c s = Inr ((p + length ms, foldl (+) c ms),
    s\<lparr>rx := rest, cmd_buf := take p (cmd_buf s) @ ms @ of_char CHR ''#'' # drop (Suc (p + length ms)) (cmd_buf s)\<rparr>)"
  using assms
proof (induction ms arbitrary: p c s)
  case Nil
  then show ?case by (subst recv_loop.simps) (simp add: buf_store_def)
next
  case (Cons b ms)
  define s2 where "s2 = s\<lparr>rx := ms @ of_char CHR ''#'' # rest,
     cmd_buf := take p (cmd_buf s) @ b # drop (Suc p) (cmd_buf s)\<rparr>"
  have "recv_loop p c s = recv_loop (Suc p) (c + b) s2"
    using Cons.prems by (subst recv_loop.simps) (simp add: buf_store_def s2_def)
  also have "\<dots> = Inr ((Suc p + length ms, foldl (+) (c + b) ms), s2\<lparr>rx := rest,
      cmd_buf := take (Suc p) (cmd_buf s2) @ ms @ of_char CHR ''#'' # drop (Suc (Suc p + length ms)) (cmd_buf s2)\<rparr>)"
    using Cons.prems by (intro Cons.IH) (auto simp: s2_def)
  finally show ?case
    using Cons.prems by (simp add: s2_def min_absorb1 min_absorb2 add.commute)
qed

text \<open>A packet that does not end within the buffer runs over it.\<close>

lemma recv_loop_overflow:
  assumes "of_char CHR ''#'' \<notin> set ms" and "p + length ms = CMD_BUF_LEN" and "rx s = ms @ b # rest"
  shows "\<exists>s'. recv_loop p c s = Inl (Overflow, s')"
  using assms
proof (induction ms arbitrary: p c s)
  case Nil
  then show ?case by (subst recv_loop.simps) (simp add: buf_store_def)
next
  case (Cons c' ms)
  then show ?case by (subst recv_loop.simps) (simp add: buf_store_def)
qed

text \<open>Dispatch on a message, as \<open>gdbstub_handle\<close> does it once the message is in the buffer.\<close>

definition dispatch :: "u8 list \<Rightarrow> handler" where
  "dispatch ms s = (case lookup_cmdhandler ms of Some h \<Rightarrow> h s | None \<Rightarrow> Inr (unsupported_op s))"

definition ack :: "bool \<Rightarrow> u8" where
  "ack good = (if good then of_char CHR ''+'' else of_char CHR ''-'')"

text \<open>A well-formed packet: payload, end mark and two checksum digits.\<close>

definition packet_text :: "u8 list \<Rightarrow> u8 \<Rightarrow> u8 \<Rightarrow> u8 list" where
  "packet_text payload c0 c1 = payload @ of_char CHR ''#'' # [c0, c1]"

lemma gdbstub_handle_packet:
  assumes ok: "stub_ok s" and ms: "0 \<notin> set ms" "length (escape ms) < CMD_BUF_LEN"
    and inp: "rx s = packet_text (escape ms) c0 c1 @ rest"
  shows "\<exists>buf. holds buf ms \<and> length buf = CMD_BUF_LEN \<and> buf ! (CMD_BUF_LEN - 1) = 0 \<and>
    gdbstub_handle s = dispatch ms (s\<lparr>rx := rest,
      tx := tx s @ [ack (hex_nibble_val c0 * 16 + hex_nibble_val c1 = checksum (escape ms))], cmd_buf := buf\<rparr>)"
proof -
  define buf0 where "buf0 = escape ms @ 0 # drop (Suc (length (escape ms))) (cmd_buf s)"
  have len: "length buf0 = CMD_BUF_LEN" using ok ms by (simp add: buf0_def stub_ok_def)
  have last: "buf0 ! (CMD_BUF_LEN - 1) = 0"
    using ok ms nth_stored_text [of 0 "escape ms" CMD_BUF_LEN "cmd_buf s"] by (simp add: buf0_def stub_ok_def)
  from unescape_loop_escape [of 0 buf0 ms _ 0] ms(1) obtain buf where
    buf: "unescape_loop 0 0 buf0 = Some buf" "take (Suc (length ms)) buf = ms @ [0]"
    by (auto simp: buf0_def)
  have "buf0 \<noteq> []" by (simp add: buf0_def)
  with unescape_loop_keeps [OF buf(1)] len last have
    k: "length buf = CMD_BUF_LEN" "buf ! (CMD_BUF_LEN - 1) = 0" by auto
  have h: "holds buf ms" using buf(2) ms(1) by (simp add: holds_def)
  have "gdbstub_handle s = dispatch ms (s\<lparr>rx := rest,
      tx := tx s @ [ack (hex_nibble_val c0 * 16 + hex_nibble_val c1 = checksum (escape ms))], cmd_buf := buf\<rparr>)"
    using recv_loop_packet [OF escape_no_hash, of 0 ms s "c0 # c1 # rest" 0] ok ms inp buf(1)
      holds_cstr_at [OF h, of 0]
    by (simp add: gdbstub_handle_def stub_ok_def packet_text_def buf_store_def read_csum_def unescape_def
        ack_packet_def ack_def serial_putc_def buf0_def dispatch_def checksum_def)
  with h k show ?thesis by blast
qed

lemma dispatch_by_letter:
  "dispatch (of_char CHR ''g'' # cs) = read_regs" "dispatch (of_char CHR ''G'' # cs) = write_regs"
  "dispatch (of_char CHR ''m'' # cs) = gdb_read_mem" "dispatch (of_char CHR ''M'' # cs) = gdb_write_mem"
  "dispatch (of_char CHR ''D'' # cs) = detach"
  "dispatch (of_char CHR ''Z'' # of_char CHR ''0'' # cs) = insert_bkpt"
  "dispatch (of_char CHR ''z'' # of_char CHR ''0'' # cs) = remove_bkpt"
  by (rule ext, simp add: dispatch_def lookup_cmdhandler_def handlers_def has_prefix_def)+

lemmas dispatch_simps [simp] = dispatch_by_letter [simplified]

section \<open>Memory access\<close>

text \<open>A number written with eight hexadecimal digits.\<close>

definition word_text :: "u32 \<Rightarrow> u8 list" where
  "word_text a = hex_of [byte_of a 3, byte_of a 2, byte_of a 1, byte_of a 0]"

lemma length_word_text [simp]: "length (word_text a) = 8"
  by (simp add: word_text_def)

lemma word_text_hex: "c \<in> set (word_text a) \<Longrightarrow> is_hex c"
  unfolding word_text_def by (rule hex_of_hex)

lemma be_value_word: "be_value 0 [byte_of a 3, byte_of a 2, byte_of a 1, byte_of a 0] = a"
  using le32_byte_of [of a] by (simp add: be_value_4)

lemma read_hex_word_text: "read_hex (word_text a @ cs) = read_hex_from a cs"
  using be_value_word [of a] by (simp only: read_hex_def word_text_def read_hex_from_hex_of)

lemma not_is_hex [simp]: "\<not> is_hex 0" "\<not> is_hex 44" "\<not> is_hex 58" "\<not> is_hex 35" "\<not> is_hex 36" "\<not> is_hex 42" "\<not> is_hex 125"
  by (simp_all add: is_hex_def Let_def)

lemma read_field_word_text:
  assumes "\<not> is_hex d"
  shows "read_field (word_text a @ d # cs) d = Some (a, cs)"
  using read_field_hex [of "word_text a" d cs] read_hex_word_text [of a "[]"] assms word_text_hex
  by (auto simp: read_hex_def)

definition read_mem_text :: "u32 \<Rightarrow> u32 \<Rightarrow> u8 list" where
  "read_mem_text a n = str ''m'' @ word_text a @ str '','' @ word_text n"

definition write_mem_text :: "u32 \<Rightarrow> u8 list \<Rightarrow> u8 list" where
  "write_mem_text a bs = str ''M'' @ word_text a @ str '','' @ word_text (of_nat (length bs)) @ str '':'' @ hex_of bs"

subsection \<open>Reading\<close>

lemma read_mem_1: "read_mem a 1 s = Some (ucast (ram s a))"
  by (simp add: read_mem_def)

lemma ucast_and_ff: "ucast (ucast (b::u8) AND (0xff::u32)) = b"
proof -
  have m: "(0xff::u32) = mask 8" by (simp add: mask_numeral)
  show ?thesis unfolding m by (rule bit_word_eqI) (auto simp: bit_simps)
qed

lemma unat_twice: "k < 4096 \<Longrightarrow> unat (of_nat k * 2 :: u32) = 2 * k"
  using unat_of_nat_small [of "2 * k"] by (simp add: mult.commute)

text \<open>One iteration stores two digits and a terminator.\<close>

lemma read_mem_loop_step:
  assumes "2 * Suc k < CMD_BUF_LEN" "length (cmd_buf s) = CMD_BUF_LEN" "take (2 * k) (cmd_buf s) = pre"
  obtains buf where "read_mem_loop (Suc n) (of_nat k) addr s = read_mem_loop n (of_nat (Suc k)) addr (s\<lparr>cmd_buf := buf\<rparr>)"
    and "length buf = CMD_BUF_LEN"
    and "take (Suc (2 * Suc k)) buf = pre @ put_hex_byte (ram s (addr + of_nat k)) @ [0]"
proof -
  let ?h = "put_hex_byte (ram s (addr + of_nat k))"
  let ?buf = "take (2 * k) (cmd_buf s) @ ?h @ 0 # drop (2 * k + 3) (cmd_buf s)"
  have "buf_put (unat (of_nat k * 2 :: u32)) (put_hex_byte (ucast (ucast (ram s (addr + of_nat k)) AND (0xff::u32)))) s
      = Inr ((), s\<lparr>cmd_buf := ?buf\<rparr>)"
    using assms(1) unat_twice [of k] by (simp add: ucast_and_ff buf_put_def buf_store_def CMD_BUF_LEN_def)
  then have "read_mem_loop (Suc n) (of_nat k) addr s = read_mem_loop n (of_nat (Suc k)) addr (s\<lparr>cmd_buf := ?buf\<rparr>)"
    by (simp add: read_mem_1 add.commute)
  moreover have "length ?buf = CMD_BUF_LEN" "take (Suc (2 * Suc k)) ?buf = pre @ ?h @ [0]"
    unfolding assms(3) [symmetric] using assms(1,2) by simp_all
  ultimately show thesis by (rule that)
qed

lemma read_mem_loop_dump:
  assumes "2 * (k + n) < CMD_BUF_LEN" "length (cmd_buf s) = CMD_BUF_LEN"
    and "take (Suc (2 * k)) (cmd_buf s) = pre @ [0]"
  shows "\<exists>buf. read_mem_loop n (of_nat k) addr s = Inr ((), s\<lparr>cmd_buf := buf\<rparr>) \<and> length buf = CMD_BUF_LEN \<and>
    take (Suc (2 * (k + n))) buf = pre @ hex_of (load_bytes (ram s) (addr + of_nat k) n) @ [0]"
  using assms
proof (induction n arbitrary: k s pre)
  case 0
  have "s = s\<lparr>cmd_buf := cmd_buf s\<rparr>" by simp
  with 0 show ?case by (intro exI [of _ "cmd_buf s"]) simp
next
  case (Suc n)
  have "take (2 * k) (cmd_buf s) @ [cmd_buf s ! (2 * k)] = pre @ [0]"
    using Suc.prems by (simp add: take_Suc_conv_app_nth)
  then have "take (2 * k) (cmd_buf s) = pre" by simp
  with Suc.prems obtain buf where
    b: "read_mem_loop (Suc n) (of_nat k) addr s = read_mem_loop n (of_nat (Suc k)) addr (s\<lparr>cmd_buf := buf\<rparr>)"
      "length buf = CMD_BUF_LEN" "take (Suc (2 * Suc k)) buf = (pre @ put_hex_byte (ram s (addr + of_nat k))) @ [0]"
    using read_mem_loop_step [of k s pre n addr] by auto
  from Suc.IH [of "Suc k" "s\<lparr>cmd_buf := buf\<rparr>" "pre @ put_hex_byte (ram s (addr + of_nat k))"] Suc.prems(1) b
  show ?case by (simp add: algebra_simps)
qed

lemma read_mem_loop_holds:
  assumes "0 < n" "2 * n < CMD_BUF_LEN" "length (cmd_buf s) = CMD_BUF_LEN"
  shows "\<exists>buf. read_mem_loop n 0 addr s = Inr ((), s\<lparr>cmd_buf := buf\<rparr>) \<and> length buf = CMD_BUF_LEN \<and>
    holds buf (hex_of (load_bytes (ram s) addr n))"
proof -
  obtain n' where n: "n = Suc n'" using assms(1) by (cases n) auto
  with assms obtain buf where
    b: "read_mem_loop n 0 addr s = read_mem_loop n' (of_nat 1) addr (s\<lparr>cmd_buf := buf\<rparr>)"
      "length buf = CMD_BUF_LEN" "take (Suc (2 * 1)) buf = put_hex_byte (ram s addr) @ [0]"
    using read_mem_loop_step [of 0 s "[]" n' addr] by auto
  have "0 \<notin> set (hex_of (load_bytes (ram s) addr n))" using hex_of_hex not_is_hex(1) by blast
  with b n assms read_mem_loop_dump [of 1 n' "s\<lparr>cmd_buf := buf\<rparr>" "put_hex_byte (ram s addr)" addr]
  show ?thesis by (auto simp: holds_def)
qed

lemma read_mem_loop_overflow:
  assumes "CMD_BUF_LEN \<le> 2 * (k + n)" "2 * k < CMD_BUF_LEN" "length (cmd_buf s) = CMD_BUF_LEN"
  shows "\<exists>s'. read_mem_loop n (of_nat k) addr s = Inl (Overflow, s')"
  using assms
proof (induction n arbitrary: k s)
  case 0
  then show ?case by simp
next
  case (Suc n)
  show ?case
  proof (cases "2 * Suc k < CMD_BUF_LEN")
    case True
    from read_mem_loop_step [OF True Suc.prems(3) refl, of n addr] obtain buf where
      "read_mem_loop (Suc n) (of_nat k) addr s = read_mem_loop n (of_nat (Suc k)) addr (s\<lparr>cmd_buf := buf\<rparr>)"
      "length buf = CMD_BUF_LEN" by blast
    with Suc.IH [of "Suc k" "s\<lparr>cmd_buf := buf\<rparr>"] Suc.prems True show ?thesis by simp
  next
    case False
    with Suc.prems show ?thesis
      using unat_twice [of k] by (simp add: read_mem_1 buf_put_def buf_store_def CMD_BUF_LEN_def)
  qed
qed

lemma gdb_read_mem_parses:
  assumes "holds (cmd_buf s) (read_mem_text a n)"
  shows "gdb_read_mem s = andThen (read_mem_loop (unat n) 0 a s)
    (\<lambda>_ s'. Inr (send_response (cstr_at (cmd_buf s') 0) s'))"
proof -
  have "cstr_at (cmd_buf s) 1 = word_text a @ 44 # word_text n"
    using holds_cstr_at [OF assms, of 1] by (simp add: read_mem_text_def)
  then show ?thesis
    using read_hex_word_text [of n "[]"] by (simp add: gdb_read_mem_def read_hex_word_text)
qed

lemma gdb_read_mem_reply:
  assumes "length (cmd_buf s) = CMD_BUF_LEN" "holds (cmd_buf s) (read_mem_text a n)" "0 < n" "n < 256"
  shows "\<exists>buf. gdb_read_mem s = Inr (send_response (hex_of (load_bytes (ram s) a (unat n))) (s\<lparr>cmd_buf := buf\<rparr>))
    \<and> length buf = CMD_BUF_LEN"
proof -
  have "0 < unat n" "2 * unat n < CMD_BUF_LEN"
    using assms(3,4) by (simp_all add: word_less_nat_alt CMD_BUF_LEN_def)
  from read_mem_loop_holds [OF this assms(1), of a] show ?thesis
    using holds_cstr_at [of _ "hex_of (load_bytes (ram s) a (unat n))" 0]
    by (auto simp: gdb_read_mem_parses [OF assms(2)])
qed

subsection \<open>Writing\<close>

lemma store16_bswap16: "store16 m a (bswap16 (ucast (be_value 0 [b0, b1]))) = store_bytes m a [b0, b1]"
proof -
  have m: "(0xff::u16) = mask 8" "(0xff00::u16) = push_bit 8 (mask 8)" by (simp_all add: mask_numeral)
  have v: "be_value 0 [b0, b1] = le32 b1 b0 0 0"
    using be_value_4 [of 0 0 b0 b1] by (simp add: be_value_def)
  have "ucast (bswap16 (ucast (le32 b1 b0 0 0))) = b0"
    unfolding bswap16_def m by (rule bit_word_eqI) (auto simp: bit_simps bit_le32)
  moreover have "ucast (drop_bit 8 (bswap16 (ucast (le32 b1 b0 0 0)))) = b1"
    unfolding bswap16_def m by (rule bit_word_eqI) (auto simp: bit_simps bit_le32)
  ultimately show ?thesis by (simp add: v store16_def)
qed

lemma store32_bswap32: "store32 m a (bswap32 (be_value 0 [b0, b1, b2, b3])) = store_bytes m a [b0, b1, b2, b3]"
  using store_bytes_4 [of m a "le32 b0 b1 b2 b3"] by (simp add: be_value_4)

lemma write_mem_1: "write_mem (ucast (b::u8)) a 1 s = (0, s\<lparr>ram := (ram s)(a := b)\<rparr>)"
proof -
  have "ucast (ucast b :: u32) = b" by (rule bit_word_eqI) (simp add: bit_simps)
  then show ?thesis by (simp add: write_mem_def del: fun_upd_apply)
qed

lemma write_mem_loop_stores:
  assumes "drop p (cmd_buf s) = hex_of bs @ cs" "length (cmd_buf s) = CMD_BUF_LEN"
  shows "write_mem_loop (length bs) m p addr s = Inr (True, s\<lparr>ram := store_bytes (ram s) (addr + m) bs\<rparr>)"
  using assms
proof (induction bs arbitrary: m p s)
  case Nil
  then show ?case by simp
next
  case (Cons b bs)
  have "p + 2 \<le> CMD_BUF_LEN"
    using arg_cong [OF Cons.prems(1), of length] Cons.prems(2) by simp
  moreover have "drop (p + 2) (cmd_buf s) = hex_of bs @ cs"
    using arg_cong [OF Cons.prems(1), of "drop 2"] by (simp add: add.commute)
  ultimately show ?case
    using Cons by (simp add: write_mem_1 add.assoc fun_upd_def)
qed

text \<open>
  The three ways of storing agree: two or four bytes at once, or byte by byte, put the bytes of the
  message at consecutive addresses.
\<close>

lemma write_mem_body_stores:
  assumes "drop p (cstr_at (cmd_buf s) 1) = hex_of bs" "p \<le> length (cstr_at (cmd_buf s) 1)"
    and "\<exists>cs. drop (Suc p) (cmd_buf s) = hex_of bs @ cs" and "length (cmd_buf s) = CMD_BUF_LEN"
    and "length bs < 4294967296"
  shows "write_mem_body a (of_nat (length bs)) (hex_of bs) s = Inr (True, s\<lparr>ram := store_bytes (ram s) a bs\<rparr>)"
proof -
  have rh: "fst (read_hex (hex_of bs)) = be_value 0 bs"
    using read_hex_from_hex_of [of 0 bs "[]"] by (simp add: read_hex_def)
  have u: "unat (of_nat (length bs) :: u32) = length bs" using assms(5) by (rule unat_of_nat_small)
  consider (two) b0 b1 where "bs = [b0, b1]" | (four) b0 b1 b2 b3 where "bs = [b0, b1, b2, b3]"
    | (other) "length bs \<noteq> 2" "length bs \<noteq> 4"
    by (cases "length bs = 2 \<or> length bs = 4") (auto simp: length_Suc_conv numeral_eq_Suc)
  then show ?thesis
  proof cases
    case two
    then show ?thesis
      using rh store16_bswap16 [of "ram s" a b0 b1] by (simp add: write_mem_body_def write_mem_def)
  next
    case four
    then show ?thesis
      using rh store32_bswap32 [of "ram s" a b0 b1 b2 b3] by (simp add: write_mem_body_def write_mem_def)
  next
    case other
    then have "of_nat (length bs) \<noteq> (2::u32)" "of_nat (length bs) \<noteq> (4::u32)"
      using u by (auto dest: arg_cong [of _ _ "unat :: u32 \<Rightarrow> nat"])
    moreover have "length (cstr_at (cmd_buf s) 1) - length (hex_of bs) = p"
      using assms(1,2) by (metis diff_diff_cancel length_drop)
    ultimately show ?thesis
      using assms(3,4) write_mem_loop_stores [of "Suc p" s bs _ 0 a] u
      by (auto simp: write_mem_body_def)
  qed
qed

lemma gdb_write_mem_stores:
  assumes "length (cmd_buf s) = CMD_BUF_LEN" "holds (cmd_buf s) (write_mem_text a bs)"
  shows "gdb_write_mem s = Inr (send_response (str ''OK'') (s\<lparr>ram := store_bytes (ram s) a bs\<rparr>))"
proof -
  have msg: "cstr_at (cmd_buf s) 1 = word_text a @ 44 # word_text (of_nat (length bs)) @ 58 # hex_of bs"
    using holds_cstr_at [OF assms(2), of 1] by (simp add: write_mem_text_def)
  have "19 + 2 * length bs < CMD_BUF_LEN"
    using holds_length [OF assms(2)] assms(1) by (simp add: write_mem_text_def)
  then have len: "length bs < 4294967296" by (simp add: CMD_BUF_LEN_def)
  obtain cs where cs: "drop 19 (cmd_buf s) = drop 19 (write_mem_text a bs) @ 0 # cs"
    using holds_drop [OF assms(2), of 19] by (auto simp: write_mem_text_def)
  have "write_mem_body a (of_nat (length bs)) (hex_of bs) s = Inr (True, s\<lparr>ram := store_bytes (ram s) a bs\<rparr>)"
    by (rule write_mem_body_stores [where p = 18]) (use assms len cs in \<open>auto simp: msg [simplified] write_mem_text_def\<close>)
  then show ?thesis
    by (simp add: gdb_write_mem_def msg [simplified] read_addr_def read_len_def read_field_word_text)
qed


section \<open>Registers\<close>

lemma length_put_regs: "length (concat (map put_reg rs)) = 8 * length rs"
  by (induction rs) auto

lemma length_replicate_reg: "length (concat (replicate n put_invalid_reg)) = 8 * n"
  by (induction n) auto

lemma length_invalid_regs: "length (concat (replicate EXTRA_REGS put_invalid_reg)) = 200"
  by (simp add: length_replicate_reg) (simp add: EXTRA_REGS_def)

lemma concat_put_regs:
  "m \<le> length rs \<Longrightarrow> drop (m * 8) (concat (map put_reg rs) @ cs) = concat (map put_reg (drop m rs)) @ cs"
proof -
  assume m: "m \<le> length rs"
  have "concat (map put_reg rs) = concat (map put_reg (take m rs)) @ concat (map put_reg (drop m rs))"
    by (metis append_take_drop_id concat_append map_append)
  moreover have "length (concat (map put_reg (take m rs))) = m * 8"
    using m by (simp add: length_put_regs)
  ultimately show ?thesis by simp
qed

lemma reg_dump_eq:
  assumes "length rs = 17"
  shows "reg_dump rs = concat (map put_reg (take 16 rs)) @ concat (replicate EXTRA_REGS put_invalid_reg) @ put_reg (rs ! CPSR)"
proof -
  have "map (\<lambda>m. put_reg (rs ! m)) [0..<PC + 1] = map put_reg (take 16 rs)"
    using assms by (intro nth_equalityI) (auto simp: PC_def)
  then show ?thesis by (simp only: reg_dump_def)
qed

lemma reg_from_str_dump:
  assumes "length rs = 17" "m < 16"
  shows "reg_from_str (drop (m * 8) (reg_dump rs)) = rs ! m"
proof -
  have "drop m (take 16 rs) = rs ! m # drop (Suc m) (take 16 rs)"
    using assms by (simp add: Cons_nth_drop_Suc [symmetric])
  then show ?thesis
    using assms concat_put_regs [of m "take 16 rs"] by (simp add: reg_dump_eq del: drop_append)
qed

lemma length_reg_dump: "length rs = 17 \<Longrightarrow> length (reg_dump rs) = (17 + EXTRA_REGS) * 8"
  by (simp add: reg_dump_eq length_put_regs length_invalid_regs) (simp add: EXTRA_REGS_def)

lemma drop_length_append: "drop (length xs) (xs @ ys) = ys"
  by simp

lemma reg_from_str_dump_CPSR:
  assumes "length rs = 17"
  shows "reg_from_str (drop ((16 + EXTRA_REGS) * 8) (reg_dump rs)) = rs ! CPSR"
proof -
  have "(16 + EXTRA_REGS) * 8 = length (concat (map put_reg (take 16 rs)) @ concat (replicate EXTRA_REGS put_invalid_reg))"
    using assms by (simp add: length_put_regs length_replicate_reg)
  then have "drop ((16 + EXTRA_REGS) * 8) (reg_dump rs) = put_reg (rs ! CPSR)"
    using assms by (simp only: reg_dump_eq append_assoc [symmetric] drop_length_append)
  then show ?thesis using reg_from_str_put_reg [of "rs ! CPSR" "[]"] by simp
qed

lemma reg_dump_nonzero: "0 \<notin> set (reg_dump rs)"
proof -
  have "0 \<notin> set (put_reg r)" for r
    unfolding put_reg_hex using hex_of_hex not_is_hex(1) by blast
  then show ?thesis by (auto simp: reg_dump_def put_invalid_reg_def)
qed

lemma read_regs_reply:
  assumes "length (cmd_buf s) = CMD_BUF_LEN" "length (regs s) = 17"
  shows "\<exists>buf. read_regs s = Inr (send_response (reg_dump (regs s)) (s\<lparr>cmd_buf := buf\<rparr>)) \<and> length buf = CMD_BUF_LEN"
  using assms length_reg_dump [of "regs s"]
  by (auto simp: read_regs_def buf_put_def buf_store_def CMD_BUF_LEN_def EXTRA_REGS_def)

lemma write_regs_dump:
  assumes "length (cmd_buf s) = CMD_BUF_LEN" "holds (cmd_buf s) (str ''G'' @ reg_dump rs)" "length rs = 17"
    "length (regs s) = 17"
  shows "write_regs s = Inr (send_response (str ''OK'') (s\<lparr>regs := rs\<rparr>))"
proof -
  have msg: "cstr_at (cmd_buf s) 1 = reg_dump rs"
    using holds_cstr_at [OF assms(2), of 1] by simp
  have "(map (\<lambda>m. reg_from_str (drop (m * 8) (reg_dump rs))) [0..<PC + 1] @ drop (PC + 1) (regs s))
      [CPSR := rs ! CPSR] = rs"
    using assms(3,4)
    by (intro nth_equalityI)
       (auto simp: nth_list_update nth_append CPSR_def reg_from_str_dump PC_def)
  then show ?thesis
    using length_reg_dump [OF assms(3)] reg_from_str_dump_CPSR [OF assms(3)] by (simp only: write_regs_def msg Let_def) simp
qed


section \<open>Sessions\<close>

text \<open>A packet as the debugger sends it, with its checksum.\<close>

definition packet :: "u8 list \<Rightarrow> u8 list" where
  "packet ms = frame (escape ms)"

lemma checksum_digits:
  "hex_nibble_val (hex_digits ! (unat b div 16)) * 16 + hex_nibble_val (hex_digits ! (unat b mod 16)) = (b::u8)"
proof -
  have "(of_nat (unat b div 16) * 16 + of_nat (unat b mod 16) :: u8) = of_nat (unat b div 16 * 16 + unat b mod 16)"
    by (simp only: of_nat_add of_nat_mult of_nat_numeral)
  also have "\<dots> = b" by (simp only: div_mult_mod_eq) simp
  finally show ?thesis by (simp add: hex_digit unat_u8_div)
qed

lemma packet_eq: "packet ms = of_char CHR ''$'' # packet_text (escape ms)
   (hex_digits ! (unat (checksum (escape ms)) div 16)) (hex_digits ! (unat (checksum (escape ms)) mod 16))"
  by (simp add: packet_def frame_def packet_text_def put_hex_byte_eq)

definition after :: "(fault, gdb, 'a) res \<Rightarrow> (fault, gdb, unit) res" where
  "after r = andThen r (\<lambda>_ s. if running s then Inr ((), s) else io_loop s)"

lemma after_Inr [simp]: "after (Inr (x, s)) = (if running s then Inr ((), s) else io_loop s)"
  by (simp add: after_def)

lemma io_loop_packet:
  assumes ok: "stub_ok s" and ms: "0 \<notin> set ms" "length (escape ms) < CMD_BUF_LEN"
    and inp: "rx s = packet ms @ rest"
  obtains buf where "holds buf ms"
    and "stub_ok (s\<lparr>rx := rest, tx := tx s @ str ''+'', cmd_buf := buf\<rparr>)"
    and "io_loop s = after (dispatch ms (s\<lparr>rx := rest, tx := tx s @ str ''+'', cmd_buf := buf\<rparr>))"
proof -
  let ?c0 = "hex_digits ! (unat (checksum (escape ms)) div 16)"
  let ?c1 = "hex_digits ! (unat (checksum (escape ms)) mod 16)"
  let ?s = "s\<lparr>rx := packet_text (escape ms) ?c0 ?c1 @ rest\<rparr>"
  have "stub_ok ?s" using ok by (simp add: stub_ok_def)
  from gdbstub_handle_packet [OF this ms, of ?c0 ?c1 rest] checksum_digits [of "checksum (escape ms)"] obtain buf where
    buf: "holds buf ms" "length buf = CMD_BUF_LEN" "buf ! (CMD_BUF_LEN - 1) = 0"
      "gdbstub_handle ?s = dispatch ms (s\<lparr>rx := rest, tx := tx s @ str ''+'', cmd_buf := buf\<rparr>)"
    by (auto simp: ack_def)
  have "io_loop s = after (gdbstub_handle ?s)"
    using inp by (subst io_loop.simps) (simp add: packet_eq io_step_def after_def andThen_def split: sum.splits)
  with buf ok show thesis by (intro that [of buf]) (auto simp: stub_ok_def)
qed

lemma escape_hex: "(\<And>c. c \<in> set ms \<Longrightarrow> is_hex c) \<Longrightarrow> escape (ms @ cs) = ms @ escape cs"
  by (induction ms) (fastforce simp: special_def)+

lemma escape_numbers:
  "escape (word_text a @ cs) = word_text a @ escape cs" "escape (word_text a) = word_text a"
  "escape (hex_of bs) = hex_of bs"
  using escape_hex [of "word_text a" cs] escape_hex [of "word_text a" "[]"] escape_hex [of "hex_of bs" "[]"]
  by (simp_all add: word_text_hex hex_of_hex)

lemma escape_texts:
  "escape (read_mem_text a n) = read_mem_text a n" "escape (write_mem_text a bs) = write_mem_text a bs"
  by (simp_all add: read_mem_text_def write_mem_text_def special_def escape_numbers)

lemma texts_nonzero:
  "0 \<notin> set (read_mem_text a n)" "0 \<notin> set (write_mem_text a bs)"
  using word_text_hex hex_of_hex not_is_hex(1) by (fastforce simp: read_mem_text_def write_mem_text_def)+

lemma escape_reg_dump: "escape (reg_dump rs) = reg_dump rs"
proof (rule escape_plain)
  fix c assume c: "c \<in> set (reg_dump rs)"
  have "is_hex c \<or> c = of_char CHR ''x''"
    using c by (auto simp: reg_dump_def put_reg_hex put_invalid_reg_def dest: put_hex_byte_hex split: if_splits)
  then show "\<not> special c" by (auto simp: special_def)
qed

lemma io_loop_write_mem:
  assumes ok: "stub_ok s" and run: "\<not> running s" and bs: "length bs \<le> 246"
    and inp: "rx s = packet (write_mem_text a bs) @ rest"
  obtains buf where "io_loop s = io_loop (s\<lparr>rx := rest, tx := tx s @ str ''+'' @ frame (str ''OK''), cmd_buf := buf,
       ram := store_bytes (ram s) a bs\<rparr>)"
    and "length buf = CMD_BUF_LEN" and "buf ! (CMD_BUF_LEN - 1) = 0"
proof -
  have len: "length (escape (write_mem_text a bs)) < CMD_BUF_LEN"
    using bs by (simp only: escape_texts) (simp add: write_mem_text_def CMD_BUF_LEN_def)
  obtain buf where b: "holds buf (write_mem_text a bs)"
    "stub_ok (s\<lparr>rx := rest, tx := tx s @ str ''+'', cmd_buf := buf\<rparr>)"
    "io_loop s = after (dispatch (write_mem_text a bs) (s\<lparr>rx := rest, tx := tx s @ str ''+'', cmd_buf := buf\<rparr>))"
    by (rule io_loop_packet [OF ok texts_nonzero(2) len inp])
  moreover have "dispatch (write_mem_text a bs) = gdb_write_mem" by (simp add: write_mem_text_def)
  ultimately show thesis
    using run gdb_write_mem_stores [of "s\<lparr>rx := rest, tx := tx s @ str ''+'', cmd_buf := buf\<rparr>" a bs] by (intro that [of buf]) (simp_all add: stub_ok_def send_response_eq)
qed

lemma io_loop_read_mem:
  assumes ok: "stub_ok s" and run: "\<not> running s" and n: "0 < n" "n < 256"
    and inp: "rx s = packet (read_mem_text a n) @ rest"
  obtains buf where "io_loop s = io_loop (s\<lparr>rx := rest,
       tx := tx s @ str ''+'' @ frame (hex_of (load_bytes (ram s) a (unat n))), cmd_buf := buf\<rparr>)"
proof -
  have len: "length (escape (read_mem_text a n)) < CMD_BUF_LEN"
    by (simp only: escape_texts) (simp add: read_mem_text_def CMD_BUF_LEN_def)
  obtain buf where b: "holds buf (read_mem_text a n)"
    "stub_ok (s\<lparr>rx := rest, tx := tx s @ str ''+'', cmd_buf := buf\<rparr>)"
    "io_loop s = after (dispatch (read_mem_text a n) (s\<lparr>rx := rest, tx := tx s @ str ''+'', cmd_buf := buf\<rparr>))"
    by (rule io_loop_packet [OF ok texts_nonzero(1) len inp])
  moreover have "dispatch (read_mem_text a n) = gdb_read_mem" by (simp add: read_mem_text_def)
  moreover obtain buf' where
    "gdb_read_mem (s\<lparr>rx := rest, tx := tx s @ str ''+'', cmd_buf := buf\<rparr>) =
       Inr (send_response (hex_of (load_bytes (ram s) a (unat n))) (s\<lparr>rx := rest, tx := tx s @ str ''+'', cmd_buf := buf'\<rparr>))"
    using gdb_read_mem_reply [of "s\<lparr>rx := rest, tx := tx s @ str ''+'', cmd_buf := buf\<rparr>" a n] b n
    by (auto simp: stub_ok_def)
  ultimately show thesis
    using run by (intro that [of buf']) (simp add: send_response_eq)
qed

text \<open>C1. Memory written by an \<open>M\<close> packet is what a following \<open>m\<close> packet reports: with any run of 1
  to 246 bytes (the most an \<open>M\<close> packet of this form can carry), whatever access width the stub picks, the
  stub acknowledges both packets, stores the bytes at consecutive addresses and answers the second packet
  with exactly those bytes in hexadecimal; nothing else of its state changes but the packet buffer.\<close>

theorem gdb_memory_round_trip:
  assumes "stub_ok s" and "\<not> running s" and "0 < length bs" and "length bs \<le> 246"
    and "rx s = packet (write_mem_text a bs) @ packet (read_mem_text a (of_nat (length bs))) @ rest"
  shows "\<exists>buf. gdbstub_io_handler s = io_loop (s\<lparr>rx := rest,
      tx := tx s @ str ''+'' @ frame (str ''OK'') @ str ''+'' @ frame (hex_of bs),
      cmd_buf := buf, ram := store_bytes (ram s) a bs, libc_disable_stdout := 1\<rparr>)"
proof -
  let ?n = "of_nat (length bs) :: u32"
  let ?s0 = "s\<lparr>libc_disable_stdout := 1\<rparr>"
  have n: "unat ?n = length bs" "0 < ?n" "?n < 256"
    using assms(3,4) unat_of_nat_small [of "length bs"] by (simp_all add: word_less_nat_alt)
  have ok0: "stub_ok ?s0" using assms(1) by (simp add: stub_ok_def)
  have run0: "\<not> running ?s0" and inp0: "rx ?s0 = packet (write_mem_text a bs) @ packet (read_mem_text a ?n) @ rest"
    using assms by simp_all
  let ?s1 = "\<lambda>buf. ?s0\<lparr>rx := packet (read_mem_text a ?n) @ rest, tx := tx ?s0 @ str ''+'' @ frame (str ''OK''),
      cmd_buf := buf, ram := store_bytes (ram ?s0) a bs\<rparr>"
  obtain buf where b: "io_loop ?s0 = io_loop (?s1 buf)" "length buf = CMD_BUF_LEN" "buf ! (CMD_BUF_LEN - 1) = 0"
    by (rule io_loop_write_mem [OF ok0 run0 assms(4) inp0])
  have ok1: "stub_ok (?s1 buf)" and run1: "\<not> running (?s1 buf)" and inp1: "rx (?s1 buf) = packet (read_mem_text a ?n) @ rest"
    using ok0 b assms(2) by (simp_all add: stub_ok_def)
  obtain buf' where b': "io_loop (?s1 buf) = io_loop ((?s1 buf)\<lparr>rx := rest,
      tx := tx (?s1 buf) @ str ''+'' @ frame (hex_of (load_bytes (ram (?s1 buf)) a (unat ?n))), cmd_buf := buf'\<rparr>)"
    by (rule io_loop_read_mem [OF ok1 run1 n(2,3) inp1])
  have "load_bytes (ram (?s1 buf)) a (unat ?n) = bs"
    using n(1) load_store_bytes [of bs "ram s" a] assms(4) by simp
  with b b' show ?thesis
    unfolding gdbstub_io_handler_def by (intro exI [of _ buf'], cases s) simp
qed


lemma fresh_gdb_ok: "stub_ok (fresh_gdb\<lparr>rx := bs\<rparr>)" "\<not> running (fresh_gdb\<lparr>rx := bs\<rparr>)" "rx (fresh_gdb\<lparr>rx := bs\<rparr>) = bs"
  by (simp_all add: stub_ok_def fresh_gdb_def CMD_BUF_LEN_def)

theorem gdb_memory_round_trip_witness:
  "\<exists>buf. gdbstub_io_handler (fresh_gdb\<lparr>rx := packet (write_mem_text 0x40000000 [1, 2, 3]) @
        packet (read_mem_text 0x40000000 (of_nat (length [1, 2, 3 :: u8]))) @ []\<rparr>) =
     io_loop (fresh_gdb\<lparr>rx := [], tx := str ''+'' @ frame (str ''OK'') @ str ''+'' @ frame (hex_of [1, 2, 3]),
        cmd_buf := buf, ram := store_bytes (\<lambda>_. 0) 0x40000000 [1, 2, 3], libc_disable_stdout := 1\<rparr>)"
  using gdb_memory_round_trip [where bs = "[1, 2, 3]" and a = "0x40000000" and rest = "[]", OF fresh_gdb_ok(1,2) _ _ fresh_gdb_ok(3)]
  by (auto simp: fresh_gdb_def)

subsection \<open>Registers\<close>

lemma io_loop_write_regs:
  assumes ok: "stub_ok s" and run: "\<not> running s" and rs: "length rs = 17"
    and inp: "rx s = packet (str ''G'' @ reg_dump rs) @ rest"
  obtains buf where "io_loop s = io_loop (s\<lparr>rx := rest, tx := tx s @ str ''+'' @ frame (str ''OK''), cmd_buf := buf, regs := rs\<rparr>)"
    and "stub_ok (s\<lparr>rx := rest, tx := tx s @ str ''+'' @ frame (str ''OK''), cmd_buf := buf, regs := rs\<rparr>)"
proof -
  have esc: "escape (str ''G'' @ reg_dump rs) = str ''G'' @ reg_dump rs"
    by (simp add: escape_reg_dump special_def)
  have len: "length (escape (str ''G'' @ reg_dump rs)) < CMD_BUF_LEN"
    using rs by (simp only: esc) (simp add: length_reg_dump CMD_BUF_LEN_def EXTRA_REGS_def)
  have nz: "0 \<notin> set (str ''G'' @ reg_dump rs)" by (simp add: reg_dump_nonzero)
  obtain buf where b: "holds buf (str ''G'' @ reg_dump rs)"
    "stub_ok (s\<lparr>rx := rest, tx := tx s @ str ''+'', cmd_buf := buf\<rparr>)"
    "io_loop s = after (dispatch (str ''G'' @ reg_dump rs) (s\<lparr>rx := rest, tx := tx s @ str ''+'', cmd_buf := buf\<rparr>))"
    by (rule io_loop_packet [OF ok nz len inp])
  then show thesis
    using run rs write_regs_dump [of "s\<lparr>rx := rest, tx := tx s @ str ''+'', cmd_buf := buf\<rparr>" rs]
    by (intro that [of buf]) (simp_all add: stub_ok_def send_response_eq)
qed

lemma io_loop_read_regs:
  assumes ok: "stub_ok s" and run: "\<not> running s" and inp: "rx s = packet (str ''g'') @ rest"
  obtains buf where "io_loop s = io_loop (s\<lparr>rx := rest, tx := tx s @ str ''+'' @ frame (reg_dump (regs s)), cmd_buf := buf\<rparr>)"
proof -
  have len: "length (escape (str ''g'')) < CMD_BUF_LEN" by (simp add: special_def CMD_BUF_LEN_def)
  have nz: "0 \<notin> set (str ''g'')" by simp
  obtain buf where b: "stub_ok (s\<lparr>rx := rest, tx := tx s @ str ''+'', cmd_buf := buf\<rparr>)"
    "io_loop s = after (dispatch (str ''g'') (s\<lparr>rx := rest, tx := tx s @ str ''+'', cmd_buf := buf\<rparr>))"
    by (rule io_loop_packet [OF ok nz len inp])
  with run obtain buf' where "io_loop s = io_loop (s\<lparr>rx := rest, tx := tx s @ str ''+'' @ frame (reg_dump (regs s)), cmd_buf := buf'\<rparr>)"
    using read_regs_reply [of "s\<lparr>rx := rest, tx := tx s @ str ''+'', cmd_buf := buf\<rparr>"]
    by (auto simp: stub_ok_def send_response_eq)
  then show thesis by (rule that)
qed

text \<open>C7. Registers written by a \<open>G\<close> packet are the ones the next \<open>g\<close> packet reports: sending the text
  of any seventeen register values sets exactly these registers, and the register dump the stub then sends is
  the same text, little-endian bytes, the 25 absent registers marked with \<open>x\<close>.\<close>

theorem gdb_register_round_trip:
  assumes "stub_ok s" and "\<not> running s" and "length rs = 17"
    and "rx s = packet (str ''G'' @ reg_dump rs) @ packet (str ''g'') @ rest"
  shows "\<exists>buf. gdbstub_io_handler s = io_loop (s\<lparr>rx := rest,
      tx := tx s @ str ''+'' @ frame (str ''OK'') @ str ''+'' @ frame (reg_dump rs),
      cmd_buf := buf, regs := rs, libc_disable_stdout := 1\<rparr>)"
proof -
  let ?s0 = "s\<lparr>libc_disable_stdout := 1\<rparr>"
  have pre: "stub_ok ?s0" "\<not> running ?s0" "rx ?s0 = packet (str ''G'' @ reg_dump rs) @ packet (str ''g'') @ rest"
    using assms by (simp_all add: stub_ok_def)
  let ?s1 = "\<lambda>buf. ?s0\<lparr>rx := packet (str ''g'') @ rest, tx := tx ?s0 @ str ''+'' @ frame (str ''OK''), cmd_buf := buf, regs := rs\<rparr>"
  obtain buf where b: "io_loop ?s0 = io_loop (?s1 buf)" "stub_ok (?s1 buf)"
    by (rule io_loop_write_regs [OF pre(1,2) assms(3) pre(3)])
  have run1: "\<not> running (?s1 buf)" and inp1: "rx (?s1 buf) = packet (str ''g'') @ rest"
    using assms(2) by simp_all
  obtain buf' where "io_loop (?s1 buf) = io_loop ((?s1 buf)\<lparr>rx := rest,
      tx := tx (?s1 buf) @ str ''+'' @ frame (reg_dump (regs (?s1 buf))), cmd_buf := buf'\<rparr>)"
    by (rule io_loop_read_regs [OF b(2) run1 inp1])
  with b show ?thesis
    unfolding gdbstub_io_handler_def by (intro exI [of _ buf'], cases s) simp
qed

theorem gdb_register_round_trip_witness:
  "\<exists>buf. gdbstub_io_handler (fresh_gdb\<lparr>rx := packet (str ''G'' @ reg_dump (replicate 17 7)) @ packet (str ''g'') @ []\<rparr>) =
     io_loop (fresh_gdb\<lparr>rx := [], tx := str ''+'' @ frame (str ''OK'') @ str ''+'' @ frame (reg_dump (replicate 17 7)),
        cmd_buf := buf, regs := replicate 17 7, libc_disable_stdout := 1\<rparr>)"
  using gdb_register_round_trip [where rs = "replicate 17 7" and rest = "[]", OF fresh_gdb_ok(1,2) _ fresh_gdb_ok(3)]
  by (auto simp: fresh_gdb_def)

end
