(* ===== verification/Gdb_Sessions.thy ===== *)
theory Gdb_Sessions
  imports Gdb_Protocol
begin

text \<open>
  Properties of whole debugging sessions with the GDB stub: breakpoint packets leave the program's
  memory as it was, the invariant of the static data over any input, and the situations in which the
  stub leaves its specification.
\<close>

section \<open>Breakpoint packets\<close>

text \<open>\<open>Z0,addr,kind\<close> and \<open>z0,addr,kind\<close>.\<close>

fun cmd_text :: "bkpt_cmd \<Rightarrow> u8 list" where
  "cmd_text (Insert_Bkpt a) = str ''Z0,'' @ word_text a @ str '',4''"
| "cmd_text (Remove_Bkpt a) = str ''z0,'' @ word_text a @ str '',4''"

definition session :: "bkpt_cmd list \<Rightarrow> u8 list" where
  "session cs = concat (map (\<lambda>c. packet (cmd_text c)) cs)"

lemma session_simps [simp]:
  "session [] = []" "session (c # cs) = packet (cmd_text c) @ session cs"
  by (simp_all add: session_def)

lemma cmd_text_plain: "escape (cmd_text c) = cmd_text c" "0 \<notin> set (cmd_text c)" "length (cmd_text c) = 13"
  using word_text_hex not_is_hex(1) by (cases c; fastforce simp: special_def escape_numbers)+

text \<open>The abstraction of the stub for breakpoints looks at the table and the memory only.\<close>

lemma bkpt_view_streams:
  assumes "ram s' = ram s" "breakpoints s' = breakpoints s"
  shows "bkpt_inv s' = bkpt_inv s" and "shadow s' = shadow s" and "bkpt_set s' = bkpt_set s"
proof -
  show "bkpt_inv s' = bkpt_inv s" unfolding bkpt_inv_def assms ..
  show "shadow s' = shadow s" by (rule ext) (simp only: shadow_def assms)
  show "bkpt_set s' = bkpt_set s" unfolding bkpt_set_def assms ..
qed

lemma bkpts_keep_running:
  "add_bkpt a s = Inr (x, s') \<Longrightarrow> running s' = running s"
  "del_bkpt a s = Inr (x, s') \<Longrightarrow> running s' = running s"
  by (auto simp: add_bkpt_def del_bkpt_def activate_bkpt_def deactivate_bkpt_def free_bkpt_def set_bkpt_def Let_def
      split: option.splits if_splits)

fun bkpt_run :: "bkpt_cmd \<Rightarrow> gdb \<Rightarrow> (fault, gdb, int) res" where
  "bkpt_run (Insert_Bkpt a) = add_bkpt a"
| "bkpt_run (Remove_Bkpt a) = del_bkpt a"

lemma dispatch_cmd_text:
  assumes "holds (cmd_buf s) (cmd_text c)" and "bkpt_run c s = Inr (0, s')"
  shows "dispatch (cmd_text c) s = Inr (send_response (str ''OK'') s')"
proof -
  have msg: "cstr_at (cmd_buf s) 3 = drop 3 (cmd_text c)"
    using holds_cstr_at [OF assms(1), of 3] by (simp add: cmd_text_plain)
  show ?thesis
    using assms(2) msg by (cases c) (simp_all add: insert_bkpt_def remove_bkpt_def bkpt_op_def read_field_word_text)
qed

lemma io_loop_cmd:
  assumes ok: "stub_ok s" and run: "\<not> running s" and inp: "rx s = packet (cmd_text c) @ rest"
    and step: "\<And>s0. ram s0 = ram s \<Longrightarrow> breakpoints s0 = breakpoints s \<Longrightarrow> 
      \<exists>s1. bkpt_run c s0 = Inr (0, s1) \<and> P s1"
    and frame: "\<And>s1 s2. ram s2 = ram s1 \<Longrightarrow> breakpoints s2 = breakpoints s1 \<Longrightarrow> P s1 \<Longrightarrow> P s2"
  shows "\<exists>s'. io_loop s = io_loop s' \<and> stub_ok s' \<and> \<not> running s' \<and> rx s' = rest \<and> P s'"
proof -
  have len: "length (escape (cmd_text c)) < CMD_BUF_LEN" by (simp add: cmd_text_plain CMD_BUF_LEN_def)
  obtain buf where b: "holds buf (cmd_text c)"
    "stub_ok (s\<lparr>rx := rest, tx := tx s @ str ''+'', cmd_buf := buf\<rparr>)"
    "io_loop s = after (dispatch (cmd_text c) (s\<lparr>rx := rest, tx := tx s @ str ''+'', cmd_buf := buf\<rparr>))"
    by (rule io_loop_packet [OF ok cmd_text_plain(2) len inp])
  let ?s0 = "s\<lparr>rx := rest, tx := tx s @ str ''+'', cmd_buf := buf\<rparr>"
  from step [of ?s0] obtain s1 where s1: "bkpt_run c ?s0 = Inr (0, s1)" "P s1" by auto
  have "keeps ?s0 (bkpt_run c ?s0)" by (cases c) (auto intro: keeps_rules)
  with s1 b(2) have k: "stub_ok s1" "rx s1 = rest" by (simp_all add: keeps_def)
  have r1: "\<not> running s1" using s1(1) run by (cases c) (auto dest: bkpts_keep_running)
  have "io_loop s = io_loop (s1\<lparr>tx := tx s1 @ frame (str ''OK'')\<rparr>)"
    using b(3) dispatch_cmd_text [OF _ s1(1)] b(1) r1 by (simp add: send_response_eq)
  then show ?thesis
    by (rule exI [where x = "s1\<lparr>tx := tx s1 @ frame (str ''OK'')\<rparr>", OF conjI])
       (use k r1 frame [OF _ _ s1(2)] in \<open>simp add: stub_ok_def\<close>)
qed

lemma session_keeps_view:
  "stub_ok s \<Longrightarrow> \<not> running s \<Longrightarrow> bkpt_inv s \<Longrightarrow> rx s = session cs @ rest \<Longrightarrow>
   legal_cmds NR_BREAKPOINTS cs (bkpt_set s) \<Longrightarrow>
   \<exists>s'. io_loop s = io_loop s' \<and> stub_ok s' \<and> \<not> running s' \<and> rx s' = rest \<and>
     bkpt_inv s' \<and> shadow s' = shadow s \<and> bkpt_set s' = set_after cs (bkpt_set s)"
proof (induction cs arbitrary: s)
  case Nil
  then show ?case by auto
next
  case (Cons c cs)
  define A where "A = (case c of Insert_Bkpt a \<Rightarrow> insert a (bkpt_set s) | Remove_Bkpt a \<Rightarrow> bkpt_set s - {a})"
  have step: "\<exists>s1. bkpt_run c s0 = Inr (0, s1) \<and> bkpt_inv s1 \<and> shadow s1 = shadow s \<and> bkpt_set s1 = A"
    if "ram s0 = ram s" "breakpoints s0 = breakpoints s" for s0
  proof -
    have i: "bkpt_inv s0" "shadow s0 = shadow s" "bkpt_set s0 = bkpt_set s"
      using bkpt_view_streams [OF that] Cons.prems(3) by auto
    show ?thesis
    proof (cases c)
      case (Insert_Bkpt a)
      with Cons.prems(5) bk.ins_ok [OF i(1), of a] i show ?thesis unfolding A_def by auto
    next
      case (Remove_Bkpt a)
      with Cons.prems(5) bk.del_ok [OF i(1), of a] i show ?thesis unfolding A_def by auto
    qed
  qed
  let ?P = "\<lambda>s1. bkpt_inv s1 \<and> shadow s1 = shadow s \<and> bkpt_set s1 = A"
  have inp: "rx s = packet (cmd_text c) @ session cs @ rest" using Cons.prems(4) by simp
  have frm: "?P s2" if "ram s2 = ram s1" "breakpoints s2 = breakpoints s1" "?P s1" for s1 s2
    using that bkpt_view_streams by metis
  obtain s1 where s1: "io_loop s = io_loop s1" "stub_ok s1" "\<not> running s1" "rx s1 = session cs @ rest"
    and P: "bkpt_inv s1" "shadow s1 = shadow s" "bkpt_set s1 = A"
  proof -
    have "\<exists>s'. io_loop s = io_loop s' \<and> stub_ok s' \<and> \<not> running s' \<and> rx s' = session cs @ rest \<and> ?P s'"
      by (rule io_loop_cmd [OF Cons.prems(1,2) inp]) (use step in blast, use frm in blast)
    then show thesis using that by blast
  qed
  have "legal_cmds NR_BREAKPOINTS cs A" and "set_after (c # cs) (bkpt_set s) = set_after cs A"
    using Cons.prems(5) by (cases c; simp add: A_def)+
  with Cons.IH [of s1] s1 P show ?case by auto
qed



section \<open>Any input\<close>

lemma buf_store_byte:
  "buf_store p [b] s = Inr (x, s') \<longleftrightarrow> p < CMD_BUF_LEN \<and> s' = s\<lparr>cmd_buf := take p (cmd_buf s) @ b # drop (Suc p) (cmd_buf s)\<rparr>"
  by (auto simp: buf_store_def)

lemma nth_store_byte:
  "p < length buf \<Longrightarrow> (take p buf @ b # drop (Suc p) buf) ! i = (if i = p then b else buf ! i)"
  using upd_conv_take_nth_drop [of p buf b] by (metis nth_list_update_eq nth_list_update_neq)

lemma recv_byte_fields:
  "gdbstub_recv_byte s = Inr (b, s1) \<Longrightarrow>
   cmd_buf s1 = cmd_buf s \<and> regs s1 = regs s \<and> breakpoints s1 = breakpoints s \<and> running s1 = running s"
  by (auto simp: gdbstub_recv_byte_def serial_getc_def split: list.splits)

lemma recv_loop_ok:
  "recv_loop q c s = Inr ((p, c'), s') \<Longrightarrow> length (cmd_buf s) = CMD_BUF_LEN \<Longrightarrow>
   q < CMD_BUF_LEN \<longrightarrow> cmd_buf s ! (CMD_BUF_LEN - 1) = 0 \<Longrightarrow>
   p < CMD_BUF_LEN \<and> length (cmd_buf s') = CMD_BUF_LEN \<and>
   (p = CMD_BUF_LEN - 1 \<or> cmd_buf s' ! (CMD_BUF_LEN - 1) = 0) \<and> regs s' = regs s \<and> breakpoints s' = breakpoints s"
proof (induction q c s rule: recv_loop.induct)
  case (1 q c s)
  from "1.prems"(1) obtain b s1 s2 where
    s1: "gdbstub_recv_byte s = Inr (b, s1)" and s2: "buf_store q [b] s1 = Inr ((), s2)" and
    k: "(if b = of_char CHR ''#'' then Inr ((q, c), s2) else recv_loop (Suc q) (c + b) s2) = Inr ((p, c'), s')"
    by (subst (asm) recv_loop.simps) (auto simp: andThen_Inr_iff)
  note f = recv_byte_fields [OF s1]
  have q: "q < CMD_BUF_LEN" and s2': "s2 = s1\<lparr>cmd_buf := take q (cmd_buf s1) @ b # drop (Suc q) (cmd_buf s1)\<rparr>"
    using s2 by (auto simp: buf_store_byte)
  have len: "length (cmd_buf s2) = CMD_BUF_LEN" using q f "1.prems"(2) by (simp add: s2')
  have last: "q = CMD_BUF_LEN - 1 \<or> cmd_buf s2 ! (CMD_BUF_LEN - 1) = 0"
    using q f "1.prems"(2,3) by (auto simp: s2' nth_store_byte)
  show ?case
  proof (cases "b = of_char CHR ''#''")
    case True
    with k q len last f show ?thesis by (auto simp: s2')
  next
    case False
    have "Suc q < CMD_BUF_LEN \<longrightarrow> cmd_buf s2 ! (CMD_BUF_LEN - 1) = 0" using last q by auto
    with False k len "1.IH" [OF s1 s2] have "p < CMD_BUF_LEN \<and> length (cmd_buf s') = CMD_BUF_LEN \<and>
      (p = CMD_BUF_LEN - 1 \<or> cmd_buf s' ! (CMD_BUF_LEN - 1) = 0) \<and> regs s' = regs s2 \<and> breakpoints s' = breakpoints s2" by simp
    then show ?thesis using f by (simp add: s2')
  qed
qed

lemma unescape_ok: "unescape s = Inr (x, s') \<Longrightarrow> stub_ok s \<Longrightarrow> stub_ok s'"
  using unescape_loop_keeps [of 0 0 "cmd_buf s"] list.size(3) [where ?'a = u8]
  by (force simp: unescape_def stub_ok_def CMD_BUF_LEN_def split: option.splits)

lemma gdbstub_handle_ok:
  assumes "gdbstub_handle s = Inr (x, s')" and ok: "stub_ok s"
  shows "stub_ok s'"
proof -
  from assms(1) obtain p csum s1 s2 c s3 s4 where
    s1: "recv_loop 0 0 s = Inr ((p, csum), s1)" and s2: "buf_store p [0] s1 = Inr ((), s2)" and
    s3: "read_csum s2 = Inr (c, s3)" and s4: "unescape (ack_packet (c = csum) s3) = Inr ((), s4)" and
    s5: "dispatch (cstr_at (cmd_buf s4) 0) s4 = Inr (x, s')"
    unfolding gdbstub_handle_def dispatch_def by (auto simp: andThen_Inr_iff)
  have "stub_ok s2"
    using recv_loop_ok [OF s1] ok s2 by (auto simp: stub_ok_def buf_store_byte nth_store_byte)
  with s3 have "stub_ok s3"
    by (auto simp: read_csum_def andThen_Inr_iff stub_ok_def dest!: recv_byte_fields)
  then have "stub_ok (ack_packet (c = csum) s3)" by (simp add: ack_packet_def serial_putc_def stub_ok_def)
  from unescape_ok [OF s4 this] have "stub_ok s4" .
  then show ?thesis
    using s5 lookup_keeps [of "cstr_at (cmd_buf s4) 0" _ s4]
    by (auto simp: dispatch_def unsupported_op_def send_response_eq stub_ok_def keeps_def split: option.splits)
qed

lemma io_loop_ok:
  "io_loop s = Inr (x, s') \<Longrightarrow> stub_ok s \<Longrightarrow> stub_ok s' \<and> running s' \<and> length (rx s') < length (rx s)"
proof (induction s rule: io_loop.induct)
  case (1 s)
  from "1.prems"(1) obtain c s1 s2 where
    s1: "gdbstub_recv_byte s = Inr (c, s1)" and s2: "io_step c s1 = Inr ((), s2)" and
    k: "(if running s2 then Inr ((), s2) else io_loop s2) = Inr (x, s')"
    by (subst (asm) io_loop.simps) (auto simp: andThen_Inr_iff)
  have "stub_ok s1" using recv_byte_fields [OF s1] "1.prems"(2) by (simp add: stub_ok_def)
  with s2 have "stub_ok s2"
    by (auto simp: io_step_def gdbstub_break_def unsupported_op_def send_response_eq stub_ok_def andThen_Inr_iff
        split: if_splits dest: gdbstub_handle_ok [unfolded stub_ok_def])
  moreover have "length (rx s2) < length (rx s)"
    using gdbstub_recv_byte_shrinks [OF s1] io_step_rx [OF s2] by simp
  ultimately show ?case using k "1.IH" [OF s1 s2] by (cases "running s2") auto
qed


lemma detach_session: "\<exists>s'. gdbstub_io_handler (fresh_gdb\<lparr>rx := packet (str ''D'')\<rparr>) = Inr ((), s')"
proof -
  let ?s = "fresh_gdb\<lparr>rx := packet (str ''D''), libc_disable_stdout := 1\<rparr>"
  have pre: "stub_ok ?s" "0 \<notin> set (str ''D'')" "length (escape (str ''D'')) < CMD_BUF_LEN" "rx ?s = packet (str ''D'') @ []"
    by (simp_all add: stub_ok_def fresh_gdb_def CMD_BUF_LEN_def special_def)
  obtain buf where "io_loop ?s = after (dispatch (str ''D'') (?s\<lparr>rx := [], tx := tx ?s @ str ''+'', cmd_buf := buf\<rparr>))"
    by (rule io_loop_packet [OF pre])
  then show ?thesis by (simp add: gdbstub_io_handler_def detach_def send_response_eq)
qed


section \<open>Where the stub leaves its specification\<close>

text \<open>C17. The packet buffer is not guarded: a packet whose end mark does not arrive within the first 512
  bytes is stored past the end of \<open>cmd_buf\<close>, whatever it contains.\<close>

theorem gdbstub_long_packet_overflows:
  assumes "of_char CHR ''#'' \<notin> set ms" and "length ms = CMD_BUF_LEN" and "rx s = ms @ b # rest"
  shows "\<exists>s'. gdbstub_handle s = Inl (Overflow, s')"
proof -
  obtain s' where "recv_loop 0 0 s = Inl (Overflow, s')"
    using recv_loop_overflow [OF assms(1), of 0 s b rest 0] assms(2,3) by auto
  then show ?thesis by (simp add: gdbstub_handle_def)
qed

theorem gdbstub_long_packet_overflows_witness:
  "\<exists>s'. gdbstub_handle (fresh_gdb\<lparr>rx := replicate CMD_BUF_LEN 0x61 @ 0x23 # []\<rparr>) = Inl (Overflow, s')"
  by (rule gdbstub_long_packet_overflows [where ms = "replicate CMD_BUF_LEN 0x61"]) auto

text \<open>C18. Nor is the length of a memory dump: a well-formed \<open>m\<close> packet that asks for 256 bytes or more
  makes the stub write the answer past the end of \<open>cmd_buf\<close>.\<close>

theorem gdb_read_mem_overflows:
  assumes "stub_ok s" and "256 \<le> n" and "rx s = packet_text (read_mem_text a n) c0 c1 @ rest"
  shows "\<exists>s'. gdbstub_handle s = Inl (Overflow, s')"
proof -
  have len: "length (escape (read_mem_text a n)) < CMD_BUF_LEN"
    by (simp only: escape_texts) (simp add: read_mem_text_def CMD_BUF_LEN_def)
  have inp: "rx s = packet_text (escape (read_mem_text a n)) c0 c1 @ rest" using assms(3) by (simp only: escape_texts)
  obtain s1 where s1: "holds (cmd_buf s1) (read_mem_text a n)" "length (cmd_buf s1) = CMD_BUF_LEN"
      "gdbstub_handle s = dispatch (read_mem_text a n) s1"
  proof -
    from gdbstub_handle_packet [OF assms(1) texts_nonzero(1) len inp] obtain buf where
      "holds buf (read_mem_text a n)" "length buf = CMD_BUF_LEN" "gdbstub_handle s = dispatch (read_mem_text a n)
        (s\<lparr>rx := rest, tx := tx s @ [ack (hex_nibble_val c0 * 16 + hex_nibble_val c1 =
           checksum (escape (read_mem_text a n)))], cmd_buf := buf\<rparr>)" by blast
    then show thesis by (intro that) auto
  qed
  have "CMD_BUF_LEN \<le> 2 * (0 + unat n)" using assms(2) by (simp add: word_le_nat_alt CMD_BUF_LEN_def)
  from read_mem_loop_overflow [OF this _ s1(2), of a] gdb_read_mem_parses [OF s1(1)] s1(3)
  show ?thesis by (auto simp: read_mem_text_def CMD_BUF_LEN_def)
qed

theorem gdb_read_mem_overflows_witness:
  "\<exists>s'. gdbstub_handle (fresh_gdb\<lparr>rx := packet_text (read_mem_text 0x40000000 256) 0x30 0x30 @ []\<rparr>) = Inl (Overflow, s')"
  by (rule gdb_read_mem_overflows [OF fresh_gdb_ok(1) _ fresh_gdb_ok(3)]) simp

text \<open>C19. A packet with a wrong checksum is refused and executed all the same: the stub answers the
  rejection mark, then stores the bytes of the corrupted \<open>M\<close> packet and reports success.\<close>

theorem gdb_bad_checksum_executed:
  assumes "stub_ok s" and "length bs \<le> 246"
    and "hex_nibble_val c0 * 16 + hex_nibble_val c1 \<noteq> checksum (write_mem_text a bs)"
    and "rx s = packet_text (write_mem_text a bs) c0 c1 @ rest"
  shows "\<exists>x s'. gdbstub_handle s = Inr (x, s') \<and> tx s' = tx s @ str ''-'' @ frame (str ''OK'') \<and>
    ram s' = store_bytes (ram s) a bs"
proof -
  have len: "length (escape (write_mem_text a bs)) < CMD_BUF_LEN"
    using assms(2) by (simp only: escape_texts) (simp add: write_mem_text_def CMD_BUF_LEN_def)
  have inp: "rx s = packet_text (escape (write_mem_text a bs)) c0 c1 @ rest" using assms(4) by (simp only: escape_texts)
  from gdbstub_handle_packet [OF assms(1) texts_nonzero(2) len inp] obtain buf where
    b: "holds buf (write_mem_text a bs)" "length buf = CMD_BUF_LEN"
      "gdbstub_handle s = dispatch (write_mem_text a bs) (s\<lparr>rx := rest, tx := tx s @ str ''-'', cmd_buf := buf\<rparr>)"
    using assms(3) by (auto simp: ack_def escape_texts)
  moreover have "dispatch (write_mem_text a bs) = gdb_write_mem" by (simp add: write_mem_text_def)
  ultimately show ?thesis
    using gdb_write_mem_stores [of "s\<lparr>rx := rest, tx := tx s @ str ''-'', cmd_buf := buf\<rparr>" a bs]
    by (simp add: send_response_eq)
qed

theorem gdb_bad_checksum_executed_witness:
  "\<exists>x s'. gdbstub_handle (fresh_gdb\<lparr>rx := packet_text (write_mem_text 0x40000000 [7]) 0x30 0x30 @ []\<rparr>) = Inr (x, s') \<and>
     tx s' = tx (fresh_gdb\<lparr>rx := packet_text (write_mem_text 0x40000000 [7]) 0x30 0x30 @ []\<rparr>) @ str ''-'' @ frame (str ''OK'') \<and>
     ram s' = store_bytes (ram (fresh_gdb\<lparr>rx := packet_text (write_mem_text 0x40000000 [7]) 0x30 0x30 @ []\<rparr>)) 0x40000000 [7]"
proof (rule gdb_bad_checksum_executed [OF fresh_gdb_ok(1) _ _ fresh_gdb_ok(3)])
  show "hex_nibble_val 0x30 * 16 + hex_nibble_val 0x30 \<noteq> checksum (write_mem_text 0x40000000 [7])" by code_simp
qed simp

lemma find_bkpt_addrs: "map bk_addr (breakpoints s') = map bk_addr (breakpoints s) \<Longrightarrow> find_bkpt a s' = find_bkpt a s"
proof -
  have "first_slot (\<lambda>b. bk_addr b = a) bs = first_slot (\<lambda>x. x = a) (map bk_addr bs)" for bs :: "bkpt list"
    by (induction bs) auto
  then show "map bk_addr (breakpoints s') = map bk_addr (breakpoints s) \<Longrightarrow> ?thesis" by (simp only: find_bkpt_def)
qed

text \<open>C20. Setting a breakpoint that is already set destroys the instruction saved for it: after inserting
  the same breakpoint twice and removing it, the program is left with the trap instruction in place of
  its own.\<close>

theorem gdb_double_insert_corrupts:
  assumes "bkpt_inv s" and "aligned4 a" and "a \<noteq> 0" and "a \<notin> bkpt_set s"
    and "card (bkpt_set s) < NR_BREAKPOINTS" and "load32 (ram s) a \<noteq> SMC_BKPT"
  shows "\<exists>s'. run_cmds add_bkpt del_bkpt [Insert_Bkpt a, Insert_Bkpt a, Remove_Bkpt a] s = Inr ((), s') \<and>
    find_bkpt a s' = None \<and> load32 (ram s') a = SMC_BKPT"
proof -
  from alloc_bkpt_Some [OF assms(1,5)] obtain i where
    i: "alloc_bkpt s = Some i" "i < NR_BREAKPOINTS" "bk_addr (breakpoints s ! i) = 0" .
  let ?s1 = "inserted i a s"
  have len: "length (breakpoints s) = NR_BREAKPOINTS" using assms(1) by (rule bkpt_invD)
  note sel = inserted_sel [of i s a, unfolded len, OF i(2)]
  have add1: "add_bkpt a s = Inr (0, ?s1)"
    using add_bkpt_new [OF find_bkpt_None [OF assms(1,3,4)] i(1)] .
  have inv1: "bkpt_inv ?s1" by (rule inserted_inv [OF assms(1-4) i(2,3)])
  have f1: "find_bkpt a ?s1 = Some i"
    using find_bkpt_active [OF inv1 i(2)] assms(3) by (simp add: sel active_def)
  let ?s2 = "?s1\<lparr>breakpoints := (breakpoints ?s1)[i := (breakpoints ?s1 ! i)\<lparr>bk_saved := SMC_BKPT\<rparr>]\<rparr>"
  have add2: "add_bkpt a ?s1 = Inr (0, ?s2)"
    using f1 assms(6) by (simp add: add_bkpt_def activate_bkpt_def set_bkpt_def Let_def sel)
  have "map bk_addr (breakpoints ?s2) = map bk_addr (breakpoints ?s1)"
    by (simp add: map_update list_update_same_conv nth_map i(2) sel(2) len)
  then have f2: "find_bkpt a ?s2 = Some i" using f1 find_bkpt_addrs by metis
  let ?s3 = "removed i ?s2"
  have sv: "bk_addr (breakpoints ?s2 ! i) = a" "bk_saved (breakpoints ?s2 ! i) = SMC_BKPT"
    using i(2) sel len by (simp_all add: inserted_def)
  have del: "del_bkpt a ?s2 = Inr (0, ?s3)" using del_bkpt_found [OF f2] sv by simp
  have "map bk_addr (breakpoints ?s3) = map bk_addr (breakpoints (removed i ?s1))"
    using i(2) sel len by (intro nth_equalityI) (auto simp: removed_def nth_list_update)
  moreover have "find_bkpt a (removed i ?s1) = None"
  proof (rule find_bkpt_None)
    have act: "active (breakpoints ?s1 ! i)" using sel assms(3) by (simp add: active_def)
    show "bkpt_inv (removed i ?s1)" by (rule removed_inv [OF inv1 i(2) act])
    show "a \<notin> bkpt_set (removed i ?s1)" using removed_set [OF inv1 i(2) act] sel by simp
  qed (rule assms(3))
  ultimately have "find_bkpt a ?s3 = None" using find_bkpt_addrs by metis
  moreover have "load32 (ram ?s3) a = SMC_BKPT" using sv by (simp add: removed_def)
  ultimately show ?thesis using add1 add2 del by simp
qed

theorem gdb_double_insert_corrupts_witness:
  "\<exists>s'. run_cmds add_bkpt del_bkpt [Insert_Bkpt 8, Insert_Bkpt 8, Remove_Bkpt 8] fresh_gdb = Inr ((), s') \<and>
    find_bkpt 8 s' = None \<and> load32 (ram s') 8 = SMC_BKPT"
proof (rule gdb_double_insert_corrupts [OF fresh_gdb_inv])
  show "load32 (ram fresh_gdb) 8 \<noteq> SMC_BKPT" by (simp add: fresh_gdb_def load32_def le32_def SMC_BKPT_def)
qed (simp_all add: fresh_gdb_set aligned4_def NR_BREAKPOINTS_def)

end
