(* ===== verification/Libc_Io.thy ===== *)
theory Libc_Io
  imports Prelude
begin

text \<open>
  The system calls behind the C library (\<^verbatim>\<open>libc_io.c\<close>): the file descriptor table over FatFs, the
  console, directories and the heap break. FatFs itself is a parameter: a record of the functions
  that are called, over an unspecified volume; what the calls rely on is stated by \<open>fatfs_ok\<close>.
  The state is seen from one core: its \<open>errno\<close>, the file system lock, the file objects, the
  number of buffers taken from \<open>malloc\<close> and not yet freed, the caller's memory and the bytes sent to the
  console.
\<close>

section \<open>FatFs as a parameter\<close>

record fil =
  fil_fs :: bool
  fil_flag :: u8
  fptr :: u32
  objsize :: u32

record filinfo =
  fsize :: u32
  ftime :: u16
  fattrib :: u8
  fname :: "u8 list"

type_synonym path = "u8 list"

text \<open>Every function returns the result code first (0 is \<open>FR_OK\<close>) and the volume last.\<close>

record 'v fatfs =
  f_open :: "path \<Rightarrow> u8 \<Rightarrow> fil \<Rightarrow> 'v \<Rightarrow> nat \<times> fil \<times> 'v"
  f_close :: "fil \<Rightarrow> 'v \<Rightarrow> nat \<times> fil \<times> 'v"
  f_read :: "nat \<Rightarrow> fil \<Rightarrow> 'v \<Rightarrow> nat \<times> u8 list \<times> fil \<times> 'v"
  f_write :: "u8 list \<Rightarrow> fil \<Rightarrow> 'v \<Rightarrow> nat \<times> nat \<times> fil \<times> 'v"
  f_lseek :: "u32 \<Rightarrow> fil \<Rightarrow> 'v \<Rightarrow> nat \<times> fil \<times> 'v"
  f_unlink :: "path \<Rightarrow> 'v \<Rightarrow> nat \<times> 'v"
  f_rename :: "path \<Rightarrow> path \<Rightarrow> 'v \<Rightarrow> nat \<times> 'v"
  f_mkdir :: "path \<Rightarrow> 'v \<Rightarrow> nat \<times> 'v"
  f_rmdir :: "path \<Rightarrow> 'v \<Rightarrow> nat \<times> 'v"
  f_chdir :: "path \<Rightarrow> 'v \<Rightarrow> nat \<times> 'v"
  f_getcwd :: "nat \<Rightarrow> 'v \<Rightarrow> nat \<times> path \<times> 'v"
  f_stat :: "path \<Rightarrow> 'v \<Rightarrow> nat \<times> filinfo \<times> 'v"
  f_opendir :: "path \<Rightarrow> 'v \<Rightarrow> nat \<times> nat \<times> 'v"
  f_readdir :: "nat \<Rightarrow> 'v \<Rightarrow> nat \<times> filinfo \<times> 'v"
  f_closedir :: "nat \<Rightarrow> 'v \<Rightarrow> nat \<times> 'v"

text \<open>
  Documented behaviour: \<open>f_open\<close> attaches the file object to a volume exactly when it succeeds,
  a successful \<open>f_close\<close> detaches it, the other functions leave the attachment alone; \<open>f_read\<close>
  delivers at most the bytes asked for.
\<close>

definition open_attaches :: "'v fatfs \<Rightarrow> bool" where
  "open_attaches ops \<longleftrightarrow> (\<forall>p fl f v rc f' v'. f_open ops p fl f v = (rc, f', v') \<longrightarrow> fil_fs f' = (rc = 0))"

definition close_detaches :: "'v fatfs \<Rightarrow> bool" where
  "close_detaches ops \<longleftrightarrow> (\<forall>f v rc f' v'. f_close ops f v = (rc, f', v') \<longrightarrow> fil_fs f' = (rc \<noteq> 0 \<and> fil_fs f))"

definition read_bounded :: "'v fatfs \<Rightarrow> bool" where
  "read_bounded ops \<longleftrightarrow>
     (\<forall>n f v rc bs f' v'. f_read ops n f v = (rc, bs, f', v') \<longrightarrow> fil_fs f' = fil_fs f \<and> length bs \<le> n)"

definition write_seek_keep :: "'v fatfs \<Rightarrow> bool" where
  "write_seek_keep ops \<longleftrightarrow>
     (\<forall>ws f v rc k f' v'. f_write ops ws f v = (rc, k, f', v') \<longrightarrow> fil_fs f' = fil_fs f) \<and>
     (\<forall>d f v rc f' v'. f_lseek ops d f v = (rc, f', v') \<longrightarrow> fil_fs f' = fil_fs f)"

definition fatfs_ok :: "'v fatfs \<Rightarrow> bool" where
  "fatfs_ok ops \<longleftrightarrow> open_attaches ops \<and> close_detaches ops \<and> read_bounded ops \<and> write_seek_keep ops"

section \<open>State\<close>

record 'v libc =
  console :: "u8 list"
  disable_stdout :: int
  fs_lock_v :: bool
  file_descriptor :: "fil list"
  volume :: 'v
  errno :: int
  mallocs :: nat
  malloc_fails :: bool
  malloc_junk :: "nat \<Rightarrow> u8"
  umem :: mem

text \<open>
  \<open>Self_Deadlock\<close>: a core spins on a lock it holds; \<open>Null_Write\<close>: the unchecked result of a failed
  \<open>malloc\<close> is used as a buffer.
\<close>

datatype libc_fault = Self_Deadlock | Null_Write

type_synonym ('v, 'a) call = "'v libc \<Rightarrow> (libc_fault, 'v libc, 'a) res"

definition MAX_FILE_DESCRIPTORS :: nat where "MAX_FILE_DESCRIPTORS = 16"

definition EPERM :: int where "EPERM = 1"
definition ENOENT :: int where "ENOENT = 2"
definition EIO :: int where "EIO = 5"
definition EBADF :: int where "EBADF = 9"
definition EAGAIN :: int where "EAGAIN = 11"
definition ENOMEM :: int where "ENOMEM = 12"
definition EEXIST :: int where "EEXIST = 17"
definition EINVAL :: int where "EINVAL = 22"
definition EMFILE :: int where "EMFILE = 24"
definition EROFS :: int where "EROFS = 30"

lemmas errno_defs = EPERM_def ENOENT_def EIO_def EBADF_def EAGAIN_def ENOMEM_def EEXIST_def EINVAL_def
  EMFILE_def EROFS_def

section \<open>Helpers\<close>

definition fs_lock :: "('v, unit) call" where
  "fs_lock s = (if fs_lock_v s then Inl (Self_Deadlock, s) else Inr ((), s\<lparr>fs_lock_v := True\<rparr>))"

definition fs_unlock :: "'v libc \<Rightarrow> 'v libc" where
  "fs_unlock s = s\<lparr>fs_lock_v := False\<rparr>"

definition fs_unlock_ret :: "int \<Rightarrow> ('v, int) call" where
  "fs_unlock_ret n s = Inr (n, fs_unlock s)"

text \<open>The result codes of FatFs are numbered in the order of the enumeration in \<^verbatim>\<open>ff.h\<close>.\<close>

definition rc2errno :: "nat \<Rightarrow> int" where
  "rc2errno rc =
     (if rc = 0 then 0
      else if rc = 1 then EIO
      else if rc = 3 then EAGAIN
      else if rc = 4 then ENOENT
      else if rc = 5 then ENOENT
      else if rc = 6 then EINVAL
      else if rc = 7 then EPERM
      else if rc = 8 then EEXIST
      else if rc = 9 then EBADF
      else if rc = 10 then EROFS
      else if rc = 17 then ENOMEM
      else if rc = 18 then EMFILE
      else if rc = 19 then EINVAL
      else EIO)"

definition get_descr :: "int \<Rightarrow> 'v libc \<Rightarrow> nat option \<times> 'v libc" where
  "get_descr fd s =
     (if fd - 3 < 0 \<or> fd - 3 \<ge> int MAX_FILE_DESCRIPTORS then (None, s\<lparr>errno := EBADF\<rparr>)
      else (Some (nat (fd - 3)), s))"

definition set_fil :: "nat \<Rightarrow> fil \<Rightarrow> 'v libc \<Rightarrow> 'v libc" where
  "set_fil i f s = s\<lparr>file_descriptor := (file_descriptor s)[i := f]\<rparr>"

fun console_put :: "u8 list \<Rightarrow> u8 list" where
  "console_put [] = []"
| "console_put (c # cs) = (if c = 10 then [13, c] else [c]) @ console_put cs"

definition console_write :: "u8 list \<Rightarrow> 'v libc \<Rightarrow> int \<times> 'v libc" where
  "console_write bs s =
     (if disable_stdout s \<noteq> 0 then (int (length bs), s)
      else (int (length bs), s\<lparr>console := console s @ console_put bs\<rparr>))"

text \<open>A temporary buffer for a caller's buffer that is not word aligned.\<close>

definition tmp_alloc :: "u32 \<Rightarrow> ('v, bool) call" where
  "tmp_alloc a s =
     (if a AND 3 = 0 then Inr (False, s)
      else if malloc_fails s then Inl (Null_Write, s)
      else Inr (True, s\<lparr>mallocs := mallocs s + 1\<rparr>))"

definition tmp_free :: "bool \<Rightarrow> 'v libc \<Rightarrow> 'v libc" where
  "tmp_free free_tmp_buffer s = (if free_tmp_buffer then s\<lparr>mallocs := mallocs s - 1\<rparr> else s)"

section \<open>Files\<close>

text \<open>\<open>buf\<close> is the address of the caller's buffer, \<open>bs\<close> the \<open>n\<close> bytes it holds.\<close>

definition write_r :: "'v fatfs \<Rightarrow> int \<Rightarrow> u32 \<Rightarrow> u8 list \<Rightarrow> ('v, int) call" where
  "write_r ops fd buf bs s =
     (if fd = 1 \<or> fd = 2 then Inr (console_write bs s)
      else andThen (tmp_alloc buf s) (\<lambda>tmp s1.
           andThen (fs_lock s1) (\<lambda>_ s2.
             let (d, s3) = get_descr fd s2
             in case d of
                  None \<Rightarrow> fs_unlock_ret (- 1) (tmp_free tmp s3)
                | Some i \<Rightarrow>
                    (let (rc, bw, f, v) = f_write ops bs (file_descriptor s3 ! i) (volume s3);
                         s4 = (set_fil i f s3)\<lparr>volume := v\<rparr>
                     in if rc \<noteq> 0 then fs_unlock_ret (- 1) (tmp_free tmp (s4\<lparr>errno := rc2errno rc\<rparr>))
                        else fs_unlock_ret (int bw) (tmp_free tmp s4)))))"

text \<open>
  A read into an aligned buffer stores the bytes delivered. Through a temporary buffer, \<open>n\<close> bytes
  are copied back: the bytes delivered and, after a short read, what \<open>malloc\<close> left in the rest.
\<close>

definition read_back :: "bool \<Rightarrow> u32 \<Rightarrow> nat \<Rightarrow> u8 list \<Rightarrow> 'v libc \<Rightarrow> 'v libc" where
  "read_back tmp a n bs s =
     (if tmp then s\<lparr>umem := store_bytes (umem s) a (bs @ map (malloc_junk s) [length bs..<n])\<rparr>
      else s\<lparr>umem := store_bytes (umem s) a bs\<rparr>)"

definition read_r :: "'v fatfs \<Rightarrow> int \<Rightarrow> u32 \<Rightarrow> nat \<Rightarrow> ('v, int) call" where
  "read_r ops fd buf n s =
     (if fd = 1 \<or> fd = 2 then Inr (- 1, s)
      else andThen (tmp_alloc buf s) (\<lambda>tmp s1.
           andThen (fs_lock s1) (\<lambda>_ s2.
             let (d, s3) = get_descr fd s2
             in case d of
                  None \<Rightarrow> fs_unlock_ret (- 1) (tmp_free tmp s3)
                | Some i \<Rightarrow>
                    (let (rc, bs, f, v) = f_read ops n (file_descriptor s3 ! i) (volume s3);
                         s4 = (set_fil i f s3)\<lparr>volume := v\<rparr>
                     in if rc \<noteq> 0 then fs_unlock_ret (- 1) (tmp_free tmp (s4\<lparr>errno := rc2errno rc\<rparr>))
                        else fs_unlock_ret (int (length bs)) (tmp_free tmp (read_back tmp buf n bs s4))))))"

text \<open>\<open>off_t\<close> is a 32-bit signed integer; the sum wraps.\<close>

definition lseek_r :: "'v fatfs \<Rightarrow> int \<Rightarrow> u32 \<Rightarrow> int \<Rightarrow> ('v, int) call" where
  "lseek_r ops fd ptr dir s =
     andThen (fs_lock s) (\<lambda>_ s1.
       let (d, s2) = get_descr fd s1
       in case d of
            None \<Rightarrow> fs_unlock_ret (- 1) (s2\<lparr>errno := EBADF\<rparr>)
          | Some i \<Rightarrow>
              (let fil = file_descriptor s2 ! i
               in if dir \<noteq> 0 \<and> dir \<noteq> 1 \<and> dir \<noteq> 2 then fs_unlock_ret (- 1) (s2\<lparr>errno := EINVAL\<rparr>)
                  else (let dest = (if dir = 0 then ptr else if dir = 1 then ptr + fptr fil else ptr + objsize fil);
                            (rc, f, v) = f_lseek ops dest fil (volume s2);
                            s3 = (set_fil i f s2)\<lparr>volume := v\<rparr>
                        in if rc \<noteq> 0 then fs_unlock_ret (- 1) (s3\<lparr>errno := rc2errno rc\<rparr>)
                           else fs_unlock_ret (sint dest) s3)))"

record stat =
  st_mode :: u32
  st_size :: u32
  st_blksize :: u32
  st_blocks :: u32
  st_mtime :: u32

definition S_IFREG :: u32 where "S_IFREG = 0x8000"
definition S_IFDIR :: u32 where "S_IFDIR = 0x4000"

definition fstat_r :: "int \<Rightarrow> ('v, int \<times> stat option) call" where
  "fstat_r fd s =
     andThen (fs_lock s) (\<lambda>_ s1.
       let (d, s2) = get_descr fd s1
       in case d of
            None \<Rightarrow> Inr ((- 1, None), fs_unlock (s2\<lparr>errno := EBADF\<rparr>))
          | Some i \<Rightarrow>
              (let fil = file_descriptor s2 ! i
               in Inr ((0, Some \<lparr>st_mode = S_IFREG, st_size = objsize fil, st_blksize = 512,
                     st_blocks = objsize fil div 512, st_mtime = 0\<rparr>), fs_unlock s2)))"

definition O_WRONLY :: u32 where "O_WRONLY = 1"
definition O_RDWR :: u32 where "O_RDWR = 2"
definition O_APPEND :: u32 where "O_APPEND = 8"
definition O_CREAT :: u32 where "O_CREAT = 0x200"
definition O_TRUNC :: u32 where "O_TRUNC = 0x400"

lemmas open_flag_defs = O_WRONLY_def O_RDWR_def O_APPEND_def O_CREAT_def O_TRUNC_def
  FA_READ_def FA_WRITE_def FA_CREATE_ALWAYS_def FA_OPEN_ALWAYS_def FA_OPEN_APPEND_def

definition open_flags :: "u32 \<Rightarrow> u8" where
  "open_flags c_flags =
     (let f0 = (if truth (c_flags AND (O_RDWR OR O_WRONLY)) then FA_WRITE else FA_READ);
          f1 = (if truth (c_flags AND O_CREAT)
                then f0 OR (if truth (c_flags AND O_TRUNC) then FA_CREATE_ALWAYS else FA_OPEN_ALWAYS) else f0)
      in if truth (c_flags AND O_APPEND) then f1 OR FA_OPEN_APPEND else f1)"

definition open_r :: "'v fatfs \<Rightarrow> path \<Rightarrow> u32 \<Rightarrow> ('v, int) call" where
  "open_r ops p c_flags s =
     andThen (fs_lock s) (\<lambda>_ s1.
       case first_slot (\<lambda>f. \<not> fil_fs f) (file_descriptor s1) of
         None \<Rightarrow> fs_unlock_ret (- 1) (s1\<lparr>errno := ENOMEM\<rparr>)
       | Some i \<Rightarrow>
           (let (rc, f, v) = f_open ops p (open_flags c_flags) (file_descriptor s1 ! i) (volume s1);
                s2 = (set_fil i f s1)\<lparr>volume := v\<rparr>
            in if rc \<noteq> 0 then fs_unlock_ret (- 1) (s2\<lparr>errno := rc2errno rc\<rparr>)
               else fs_unlock_ret (int i + 3) s2))"

definition close_r :: "'v fatfs \<Rightarrow> int \<Rightarrow> ('v, int) call" where
  "close_r ops fd s =
     andThen (fs_lock s) (\<lambda>_ s1.
       let (d, s2) = get_descr fd s1
       in case d of
            None \<Rightarrow> fs_unlock_ret (- 1) s2
          | Some i \<Rightarrow>
              (let (rc, f, v) = f_close ops (file_descriptor s2 ! i) (volume s2);
                   s3 = (set_fil i f s2)\<lparr>volume := v\<rparr>
               in if rc \<noteq> 0 then fs_unlock_ret (- 1) (s3\<lparr>errno := rc2errno rc\<rparr>)
                  else fs_unlock_ret 0 s3))"

section \<open>Names and directories\<close>

text \<open>A call of FatFs under the lock, with the error code translated after the lock is released.\<close>

definition fs_call :: "('v \<Rightarrow> nat \<times> 'v) \<Rightarrow> ('v, int) call" where
  "fs_call f s =
     andThen (fs_lock s) (\<lambda>_ s1.
       let (rc, v) = f (volume s1); s2 = fs_unlock (s1\<lparr>volume := v\<rparr>)
       in if rc \<noteq> 0 then Inr (- 1, s2\<lparr>errno := rc2errno rc\<rparr>) else Inr (0, s2))"

definition unlink_r :: "'v fatfs \<Rightarrow> path \<Rightarrow> ('v, int) call" where
  "unlink_r ops p = fs_call (f_unlink ops p)"

definition rename_r :: "'v fatfs \<Rightarrow> path \<Rightarrow> path \<Rightarrow> ('v, int) call" where
  "rename_r ops p q = fs_call (f_rename ops p q)"

definition mkdir :: "'v fatfs \<Rightarrow> path \<Rightarrow> ('v, int) call" where
  "mkdir ops p = fs_call (f_mkdir ops p)"

definition rmdir :: "'v fatfs \<Rightarrow> path \<Rightarrow> ('v, int) call" where
  "rmdir ops p = fs_call (f_rmdir ops p)"

definition chdir :: "'v fatfs \<Rightarrow> path \<Rightarrow> ('v, int) call" where
  "chdir ops p = fs_call (f_chdir ops p)"

definition getcwd :: "'v fatfs \<Rightarrow> nat \<Rightarrow> ('v, path option) call" where
  "getcwd ops len s =
     andThen (fs_lock s) (\<lambda>_ s1.
       let (rc, p, v) = f_getcwd ops len (volume s1); s2 = fs_unlock (s1\<lparr>volume := v\<rparr>)
       in if rc \<noteq> 0 then Inr (None, s2\<lparr>errno := rc2errno rc\<rparr>) else Inr (Some p, s2))"

definition stat_r :: "'v fatfs \<Rightarrow> path \<Rightarrow> ('v, int \<times> stat option) call" where
  "stat_r ops p s =
     andThen (fs_lock s) (\<lambda>_ s1.
       let (rc, fi, v) = f_stat ops p (volume s1); s2 = fs_unlock (s1\<lparr>volume := v\<rparr>)
       in if rc \<noteq> 0 then Inr ((- 1, None), s2\<lparr>errno := rc2errno rc\<rparr>)
          else Inr ((0, Some \<lparr>st_mode = (if truth (ucast (fattrib fi) AND 0x10) then S_IFDIR else S_IFREG),
                  st_size = fsize fi, st_blksize = 0, st_blocks = 0, st_mtime = ucast (ftime fi)\<rparr>), s2))"

text \<open>A \<open>DIR *\<close> is a directory object of FatFs in memory from \<open>malloc\<close>.\<close>

definition opendir :: "'v fatfs \<Rightarrow> path \<Rightarrow> ('v, nat option) call" where
  "opendir ops p s =
     (if malloc_fails s then Inr (None, s\<lparr>errno := ENOMEM\<rparr>)
      else andThen (fs_lock (s\<lparr>mallocs := mallocs s + 1\<rparr>)) (\<lambda>_ s1.
        let (rc, d, v) = f_opendir ops p (volume s1); s2 = fs_unlock (s1\<lparr>volume := v\<rparr>)
        in if rc \<noteq> 0 then Inr (None, s2\<lparr>mallocs := mallocs s2 - 1, errno := rc2errno rc\<rparr>)
           else Inr (Some d, s2)))"

definition closedir :: "'v fatfs \<Rightarrow> nat \<Rightarrow> ('v, int) call" where
  "closedir ops d s =
     andThen (fs_lock s) (\<lambda>_ s1.
       let (rc, v) = f_closedir ops d (volume s1); s2 = fs_unlock (s1\<lparr>volume := v\<rparr>)
       in if rc \<noteq> 0 then Inr (- 1, s2\<lparr>errno := rc2errno rc\<rparr>)
          else Inr (0, s2\<lparr>mallocs := mallocs s2 - 1\<rparr>))"

record dirent =
  d_type :: u8
  d_name :: "u8 list"

definition DT_DIR :: u8 where "DT_DIR = 4"
definition DT_REG :: u8 where "DT_REG = 8"

text \<open>\<open>d_name\<close> is a buffer of 256 bytes; \<open>strncpy\<close> copies at most 255 of them.\<close>

definition readdir :: "'v fatfs \<Rightarrow> nat \<Rightarrow> ('v, dirent option) call" where
  "readdir ops d s =
     andThen (fs_lock s) (\<lambda>_ s1.
       let (rc, fi, v) = f_readdir ops d (volume s1); s2 = fs_unlock (s1\<lparr>volume := v\<rparr>)
       in if rc \<noteq> 0 then Inr (None, s2\<lparr>errno := rc2errno rc\<rparr>)
          else if fname fi = [] then Inr (None, s2)
          else Inr (Some \<lparr>d_type = (if truth (ucast (fattrib fi) AND 0x10) then DT_DIR else DT_REG),
                  d_name = take 255 (fname fi) @ replicate (256 - length (take 255 (fname fi))) 0\<rparr>, s2))"

definition isatty_r :: "int \<Rightarrow> int" where "isatty_r fd = of_bool (fd \<le> 2)"
definition getpid_r :: int where "getpid_r = 1"
definition link :: "('v, int) call" where "link s = Inr (- 1, s\<lparr>errno := EPERM\<rparr>)"


section \<open>The calls as one interface\<close>

datatype syscall =
    Write int u32 "u8 list" | Read int u32 nat | Lseek int u32 int | Fstat int | Open path u32 | Close int
  | Unlink path | Rename path path | Mkdir path | Rmdir path | Chdir path | Getcwd nat | Stat path
  | Opendir path | Closedir nat | Readdir nat | Link

definition done_with :: "(libc_fault, 'v libc, 'a) res \<Rightarrow> (libc_fault, 'v libc, unit) res" where
  "done_with r = andThen r (\<lambda>_ s. Inr ((), s))"

fun do_call :: "'v fatfs \<Rightarrow> syscall \<Rightarrow> ('v, unit) call" where
  "do_call ops (Write fd a bs) s = done_with (write_r ops fd a bs s)"
| "do_call ops (Read fd a n) s = done_with (read_r ops fd a n s)"
| "do_call ops (Lseek fd d w) s = done_with (lseek_r ops fd d w s)"
| "do_call ops (Fstat fd) s = done_with (fstat_r fd s)"
| "do_call ops (Open p fl) s = done_with (open_r ops p fl s)"
| "do_call ops (Close fd) s = done_with (close_r ops fd s)"
| "do_call ops (Unlink p) s = done_with (unlink_r ops p s)"
| "do_call ops (Rename p q) s = done_with (rename_r ops p q s)"
| "do_call ops (Mkdir p) s = done_with (mkdir ops p s)"
| "do_call ops (Rmdir p) s = done_with (rmdir ops p s)"
| "do_call ops (Chdir p) s = done_with (chdir ops p s)"
| "do_call ops (Getcwd n) s = done_with (getcwd ops n s)"
| "do_call ops (Stat p) s = done_with (stat_r ops p s)"
| "do_call ops (Opendir p) s = done_with (opendir ops p s)"
| "do_call ops (Closedir d) s = done_with (closedir ops d s)"
| "do_call ops (Readdir d) s = done_with (readdir ops d s)"
| "do_call ops Link s = done_with (link s)"

text \<open>A program's calls one after the other; a fault ends it.\<close>

fun run_calls :: "('c \<Rightarrow> 's \<Rightarrow> ('f, 's, unit) res) \<Rightarrow> 'c list \<Rightarrow> 's \<Rightarrow> ('f, 's, unit) res" where
  "run_calls step [] s = Inr ((), s)"
| "run_calls step (c # cs) s = andThen (step c s) (\<lambda>_. run_calls step cs)"

text \<open>
  The interface of a service under a lock: a call made while the lock is free returns with the lock
  free, and respects the relation \<open>R\<close> between the states around it.
\<close>

locale locked_service =
  fixes step :: "'c \<Rightarrow> 's \<Rightarrow> ('f, 's, unit) res" and free :: "'s \<Rightarrow> bool" and R :: "'s \<Rightarrow> 's \<Rightarrow> bool"
    and ok :: "'c \<Rightarrow> bool"
  assumes returns: "free s \<Longrightarrow> ok c \<Longrightarrow> \<exists>s'. step c s = Inr ((), s') \<and> free s' \<and> R s s'"
    and R_refl: "R s s" and R_trans: "R s s1 \<Longrightarrow> R s1 s2 \<Longrightarrow> R s s2"
begin

lemma run_returns:
  "free s \<Longrightarrow> (\<And>c. c \<in> set cs \<Longrightarrow> ok c) \<Longrightarrow> \<exists>s'. run_calls step cs s = Inr ((), s') \<and> free s' \<and> R s s'"
proof (induction cs arbitrary: s)
  case Nil
  then show ?case by (auto simp: R_refl)
next
  case (Cons c cs)
  from returns [of s c] Cons.prems obtain s1 where s1: "step c s = Inr ((), s1)" "free s1" "R s s1" by auto
  from Cons.IH [OF s1(2)] Cons.prems(2) obtain s2 where "run_calls step cs s1 = Inr ((), s2)" "free s2" "R s1 s2" by auto
  with s1 show ?case using R_trans by auto
qed

end

text \<open>What a call may rely on and what it leaves: the lock, the size of the table, the temporary buffers.\<close>

definition lock_free :: "'v libc \<Rightarrow> bool" where
  "lock_free s \<longleftrightarrow> \<not> fs_lock_v s \<and> \<not> malloc_fails s \<and> length (file_descriptor s) = MAX_FILE_DESCRIPTORS"

fun no_dir_object :: "syscall \<Rightarrow> bool" where
  "no_dir_object (Opendir p) = False"
| "no_dir_object (Closedir d) = False"
| "no_dir_object c = True"

lemmas file_call_defs = write_r_def read_r_def lseek_r_def fstat_r_def open_r_def close_r_def
lemmas name_call_defs = fs_call_def unlink_r_def rename_r_def mkdir_def rmdir_def chdir_def getcwd_def stat_r_def
  opendir_def closedir_def readdir_def link_def
lemmas libc_helper_defs = fs_lock_def fs_unlock_def fs_unlock_ret_def get_descr_def set_fil_def tmp_alloc_def tmp_free_def
  read_back_def console_write_def done_with_def Let_def

lemma do_call_returns:
  assumes "lock_free s"
  shows "\<exists>s'. do_call ops c s = Inr ((), s') \<and> lock_free s' \<and> (no_dir_object c \<longrightarrow> mallocs s' = mallocs s)"
  using assms unfolding lock_free_def
  by (cases c) (auto simp: file_call_defs name_call_defs libc_helper_defs split: prod.splits option.splits)

interpretation files: locked_service "do_call ops" lock_free "\<lambda>s s'. mallocs s' = mallocs s" no_dir_object for ops :: "'v fatfs"
proof
  fix s :: "'v libc" and c assume "lock_free s" "no_dir_object c"
  with do_call_returns [of s ops c] show "\<exists>s'. do_call ops c s = Inr ((), s') \<and> lock_free s' \<and> mallocs s' = mallocs s" by blast
qed simp_all

interpretation calls: locked_service "do_call ops" lock_free "\<lambda>s s'. True" "\<lambda>_. True" for ops :: "'v fatfs"
proof
  fix s :: "'v libc" and c assume "lock_free s"
  with do_call_returns [of s ops c] show "\<exists>s'. do_call ops c s = Inr ((), s') \<and> lock_free s' \<and> True" by blast
qed simp_all


section \<open>The descriptor table\<close>

definition open_fds :: "'v libc \<Rightarrow> nat set" where
  "open_fds s = {i. i < length (file_descriptor s) \<and> fil_fs (file_descriptor s ! i)}"

lemma open_fds_set_fil:
  assumes "i < length (file_descriptor s)" and "file_descriptor s' = (file_descriptor s)[i := f]"
  shows "open_fds s' = (if fil_fs f then insert i (open_fds s) else open_fds s - {i})"
  using assms by (auto simp: open_fds_def nth_list_update split: if_splits)

lemma open_attachesD: "fatfs_ok ops \<Longrightarrow> f_open ops p fl f v = (rc, f', v') \<Longrightarrow> fil_fs f' = (rc = 0)"
  unfolding fatfs_ok_def open_attaches_def by blast

lemma close_detachesD: "fatfs_ok ops \<Longrightarrow> f_close ops f v = (rc, f', v') \<Longrightarrow> fil_fs f' = (rc \<noteq> 0 \<and> fil_fs f)"
  unfolding fatfs_ok_def close_detaches_def by blast

lemma read_boundedD: "fatfs_ok ops \<Longrightarrow> f_read ops n f v = (rc, bs, f', v') \<Longrightarrow> fil_fs f' = fil_fs f \<and> length bs \<le> n"
  unfolding fatfs_ok_def read_bounded_def by blast

text \<open>The least number not in use, as the specification of a POSIX \<open>open\<close> asks for.\<close>

lemma first_free_least:
  assumes "first_slot (\<lambda>f. \<not> fil_fs f) (file_descriptor s) = Some i"
  shows "i < length (file_descriptor s)" "i \<notin> open_fds s" "\<And>j. j < i \<Longrightarrow> j \<in> open_fds s"
  using first_slot_SomeD [OF assms] by (auto simp: open_fds_def)

text \<open>A volume with one file, to run the calls on: its state is the contents of the file \<open>a\<close>.\<close>

definition one_file :: "u8 list fatfs" where
  "one_file = \<lparr>
     f_open = (\<lambda>p fl f v. if p = str ''a'' then (0, \<lparr>fil_fs = True, fil_flag = fl, fptr = 0, objsize = of_nat (length v)\<rparr>, v)
                 else (4, f\<lparr>fil_fs := False\<rparr>, v)),
     f_close = (\<lambda>f v. if fil_fs f then (0, f\<lparr>fil_fs := False\<rparr>, v) else (9, f, v)),
     f_read = (\<lambda>n f v. if fil_fs f \<and> fil_flag f AND FA_READ \<noteq> 0
                 then (0, take n (drop (unat (fptr f)) v), f\<lparr>fptr := fptr f + of_nat n\<rparr>, v) else (7, [], f, v)),
     f_write = (\<lambda>bs f v. (7, 0, f, v)), f_lseek = (\<lambda>d f v. (0, f\<lparr>fptr := d\<rparr>, v)),
     f_unlink = (\<lambda>p v. (7, v)), f_rename = (\<lambda>p q v. (7, v)), f_mkdir = (\<lambda>p v. (7, v)), f_rmdir = (\<lambda>p v. (7, v)),
     f_chdir = (\<lambda>p v. (5, v)), f_getcwd = (\<lambda>n v. (0, [], v)),
     f_stat = (\<lambda>p v. (0, \<lparr>fsize = of_nat (length v), ftime = 0, fattrib = 0, fname = p\<rparr>, v)),
     f_opendir = (\<lambda>p v. (0, 0, v)), f_readdir = (\<lambda>d v. (0, \<lparr>fsize = 0, ftime = 0, fattrib = 0, fname = []\<rparr>, v)),
     f_closedir = (\<lambda>d v. (0, v))\<rparr>"

lemma one_file_ok: "fatfs_ok one_file"
  unfolding fatfs_ok_def open_attaches_def close_detaches_def read_bounded_def write_seek_keep_def one_file_def
  by (auto split: if_splits)

definition libc0 :: "u8 list libc" where
  "libc0 = \<lparr>console = [], disable_stdout = 0, fs_lock_v = False,
     file_descriptor = replicate 16 \<lparr>fil_fs = False, fil_flag = 0, fptr = 0, objsize = 0\<rparr>, volume = str ''hello'',
     errno = 0, mallocs = 0, malloc_fails = False, malloc_junk = (\<lambda>_. 0xA5), umem = (\<lambda>_. 0)\<rparr>"

lemma libc0_free: "lock_free libc0"
  by (simp add: lock_free_def libc0_def MAX_FILE_DESCRIPTORS_def)

section \<open>Properties\<close>



text \<open>C21. The descriptor table implements POSIX descriptors: opening a file with the lock free either fails
  with -1 and leaves the set of open descriptors alone, with error \<open>ENOMEM\<close> when all 16 are in use, or returns the least
  unused descriptor (numbers start at 3) and adds exactly this one; the FatFs functions are assumed to attach a file
  object exactly when they succeed.\<close>

theorem open_r_least_descriptor:
  assumes "fatfs_ok ops" and "lock_free s"
  shows "\<exists>r s'. open_r ops p fl s = Inr (r, s') \<and> lock_free s' \<and>
    (r = - 1 \<and> open_fds s' = open_fds s \<and> (open_fds s = {..<16} \<longrightarrow> errno s' = ENOMEM) \<or>
     r \<ge> 3 \<and> nat (r - 3) < 16 \<and> nat (r - 3) \<notin> open_fds s \<and> (\<forall>j < nat (r - 3). j \<in> open_fds s) \<and>
     open_fds s' = insert (nat (r - 3)) (open_fds s))"
proof (cases "first_slot (\<lambda>f. \<not> fil_fs f) (file_descriptor s)")
  case None
  with assms(2) show ?thesis
    by (auto simp: open_r_def libc_helper_defs lock_free_def open_fds_def)
next
  case (Some i)
  note i = first_free_least [OF Some]
  have ne: "open_fds s \<noteq> {..<16}" using i assms(2) by (auto simp: lock_free_def MAX_FILE_DESCRIPTORS_def)
  obtain rc f v where o: "f_open ops p (open_flags fl) (file_descriptor s ! i) (volume s) = (rc, f, v)"
    by (cases "f_open ops p (open_flags fl) (file_descriptor s ! i) (volume s)") auto
  have fs: "fil_fs f = (rc = 0)" by (rule open_attachesD [OF assms(1) o])
  define s' where "s' = (if rc = 0 then s\<lparr>file_descriptor := (file_descriptor s)[i := f], volume := v\<rparr>
     else s\<lparr>file_descriptor := (file_descriptor s)[i := f], volume := v, errno := rc2errno rc\<rparr>)"
  have fd: "file_descriptor s' = (file_descriptor s)[i := f]" by (simp add: s'_def)
  have "open_r ops p fl s = Inr (if rc = 0 then int i + 3 else - 1, s')"
    using Some o assms(2) by (simp add: open_r_def libc_helper_defs lock_free_def s'_def)
  moreover have "lock_free s'" using assms(2) by (simp add: lock_free_def s'_def)
  moreover have "open_fds s' = (if rc = 0 then insert i (open_fds s) else open_fds s)"
    using open_fds_set_fil [OF i(1) fd] fs i(2) by simp
  ultimately show ?thesis using ne i assms(2) by (auto simp: lock_free_def MAX_FILE_DESCRIPTORS_def)
qed


theorem open_r_least_descriptor_witness:
  "\<exists>r s'. open_r one_file (str ''a'') 0 libc0 = Inr (r, s') \<and> lock_free s' \<and> (r = - 1 \<or> open_fds s' = insert (nat (r - 3)) (open_fds libc0))"
  using open_r_least_descriptor [OF one_file_ok libc0_free, of "str ''a''" 0] by blast

text \<open>The bytes a successful read stores: those delivered and, after a temporary buffer, the rest of it.\<close>

lemma read_r_stores:
  assumes "lock_free s" and "3 \<le> fd" and "fd < 19"
    and "f_read ops n (file_descriptor s ! nat (fd - 3)) (volume s) = (0, bs, f, v)"
  shows "\<exists>s'. read_r ops fd buf n s = Inr (int (length bs), s') \<and>
    umem s' = store_bytes (umem s) buf (if buf AND 3 = 0 then bs else bs @ map (malloc_junk s) [length bs..<n])"
  using assms by (auto simp: read_r_def lock_free_def libc_helper_defs MAX_FILE_DESCRIPTORS_def)

text \<open>C22. Reading delivers the file: when FatFs delivers the bytes \<open>bs\<close>, the call returns their number, the caller's buffer
  starts with them, whether it is aligned or goes through a temporary buffer, and no byte outside the \<open>n\<close> bytes of the buffer changes.\<close>

theorem read_r_delivers:
  assumes "fatfs_ok ops" and "lock_free s" and "3 \<le> fd" and "fd < 19" and "n < 2 ^ 32"
    and "f_read ops n (file_descriptor s ! nat (fd - 3)) (volume s) = (0, bs, f, v)"
  shows "\<exists>s'. read_r ops fd buf n s = Inr (int (length bs), s') \<and> load_bytes (umem s') buf (length bs) = bs \<and>
    (\<forall>x. n \<le> unat (x - buf) \<longrightarrow> umem s' x = umem s x)"
proof -
  have len: "length bs \<le> n" using read_boundedD [OF assms(1,6)] ..
  define ts where "ts = (if buf AND 3 = 0 then [] else map (malloc_junk s) [length bs..<n])"
  from read_r_stores [OF assms(2-4,6), of buf] obtain s' where
    s': "read_r ops fd buf n s = Inr (int (length bs), s')" "umem s' = store_bytes (umem s) buf (bs @ ts)"
    by (auto simp: ts_def)
  have "length (bs @ ts) \<le> n" using len by (simp add: ts_def)
  with assms(5) have "length (bs @ ts) \<le> 2 ^ 32" and "\<And>x. n \<le> unat (x - buf) \<Longrightarrow> umem s' x = umem s x"
    by (simp_all add: s'(2) store_bytes_apply)
  with s' load_store_prefix [of bs ts "umem s" buf] show ?thesis by auto
qed

definition libc1 :: "u8 list libc" where
  "libc1 = libc0\<lparr>file_descriptor := \<lparr>fil_fs = True, fil_flag = FA_READ, fptr = 0, objsize = 5\<rparr> # replicate 15
     \<lparr>fil_fs = False, fil_flag = 0, fptr = 0, objsize = 0\<rparr>\<rparr>"

lemma libc1_free: "lock_free libc1"
  by (simp add: lock_free_def libc1_def libc0_def MAX_FILE_DESCRIPTORS_def)

lemma libc1_read: "f_read one_file 8 (file_descriptor libc1 ! nat (3 - 3)) (volume libc1) =
   (0, str ''hello'', \<lparr>fil_fs = True, fil_flag = FA_READ, fptr = 8, objsize = 5\<rparr>, str ''hello'')"
  by (simp add: one_file_def libc1_def libc0_def FA_READ_def)

theorem read_r_delivers_witness:
  "\<exists>s'. read_r one_file 3 0x40000001 8 libc1 = Inr (int (length (str ''hello'')), s') \<and>
     load_bytes (umem s') 0x40000001 (length (str ''hello'')) = str ''hello''"
  using read_r_delivers [OF one_file_ok libc1_free _ _ _ libc1_read, of "0x40000001"] by simp blast

text \<open>C23. After a short read, the rest of a buffer that is not word aligned is overwritten with what \<open>malloc\<close> left in
  the temporary buffer, although the file delivered nothing there; an aligned buffer keeps its contents.\<close>

theorem read_r_short_read:
  assumes "lock_free s" and "3 \<le> fd" and "fd < 19" and "n < 2 ^ 32"
    and "f_read ops n (file_descriptor s ! nat (fd - 3)) (volume s) = (0, bs, f, v)"
    and "length bs \<le> i" and "i < n"
  shows "\<exists>s'. read_r ops fd buf n s = Inr (int (length bs), s') \<and>
    umem s' (buf + of_nat i) = (if buf AND 3 = 0 then umem s (buf + of_nat i) else malloc_junk s i)"
proof -
  from read_r_stores [OF assms(1-3,5), of buf] obtain s' where
    s': "read_r ops fd buf n s = Inr (int (length bs), s')"
      "umem s' = store_bytes (umem s) buf (if buf AND 3 = 0 then bs else bs @ map (malloc_junk s) [length bs..<n])" by blast
  have i: "unat (of_nat i :: u32) = i" using assms(4,7) by (simp add: unat_of_nat)
  have "umem s' (buf + of_nat i) = (if buf AND 3 = 0 then umem s (buf + of_nat i) else malloc_junk s i)"
    using assms(4,6,7) i by (simp add: s'(2) store_bytes_apply nth_append)
  with s'(1) show ?thesis by blast
qed

theorem read_r_short_read_witness:
  "\<exists>s'. read_r one_file 3 0x40000001 8 libc1 = Inr (5, s') \<and> umem s' 0x40000008 = 0xA5 \<and> umem libc1 0x40000008 = 0"
proof -
  have "\<exists>s'. read_r one_file 3 0x40000001 8 libc1 = Inr (int (length (str ''hello'')), s') \<and>
     umem s' (0x40000001 + of_nat 7) = (if (0x40000001 :: u32) AND 3 = 0 then umem libc1 (0x40000001 + of_nat 7) else malloc_junk libc1 7)"
    by (rule read_r_short_read [OF libc1_free _ _ _ libc1_read]) simp_all
  then show ?thesis by (simp add: libc1_def libc0_def)
qed

text \<open>The access mode of an opened file: any of the two write flags of the C library asks FatFs for writing only and
  none for reading only, so a file opened for reading and writing cannot be read; the truncation flag counts only together with
  the creation flag, and the exclusive flag never.\<close>

theorem open_flags_access:
  "(open_flags c AND FA_WRITE \<noteq> 0) = (c AND (O_RDWR OR O_WRONLY) \<noteq> 0) \<and>
   (open_flags c AND FA_READ \<noteq> 0) = (c AND (O_RDWR OR O_WRONLY) = 0) \<and>
   (open_flags c AND FA_CREATE_ALWAYS \<noteq> 0) = (c AND O_CREAT \<noteq> 0 \<and> c AND O_TRUNC \<noteq> 0) \<and>
   open_flags c AND 0x04 = 0"
  by (simp add: open_flags_def Let_def) (simp add: open_flag_defs)

end
