(* ===== verification/Spinlock.thy ===== *)
theory Spinlock
  imports Prelude
begin

text \<open>
  The spin lock of \<^verbatim>\<open>spinlock.c\<close>. Both functions are a few ARM instructions; the step relation has one
  rule per instruction that touches the lock word, for any number of cores, with the exclusive
  monitor that \<open>ldrex\<close> sets and any store to the word clears. The locale \<open>mutex\<close> is what code that
  uses a lock relies on.
\<close>

section \<open>Instructions\<close>

text \<open>Where a core is: outside, before \<open>ldrex\<close>, before \<open>strexeq\<close>, or past \<open>spin_lock\<close>.\<close>

datatype spin_point = Out | Ldrex | Strex | Held

record spin =
  lock_word :: int
  monitor :: "nat \<Rightarrow> bool"
  point :: "nat \<Rightarrow> spin_point"

inductive spin_step :: "nat \<Rightarrow> spin \<Rightarrow> spin \<Rightarrow> bool" for c where
  call: "point s c = Out \<Longrightarrow> spin_step c s (s\<lparr>point := (point s)(c := Ldrex)\<rparr>)"
| ldrex_free: "point s c = Ldrex \<Longrightarrow> lock_word s = 0 \<Longrightarrow>
    spin_step c s (s\<lparr>monitor := (monitor s)(c := True), point := (point s)(c := Strex)\<rparr>)"
| ldrex_taken: "point s c = Ldrex \<Longrightarrow> lock_word s \<noteq> 0 \<Longrightarrow>
    spin_step c s (s\<lparr>monitor := (monitor s)(c := True)\<rparr>)"
| strex_ok: "point s c = Strex \<Longrightarrow> monitor s c \<Longrightarrow>
    spin_step c s (s\<lparr>lock_word := 1, monitor := (\<lambda>_. False), point := (point s)(c := Held)\<rparr>)"
| strex_fail: "point s c = Strex \<Longrightarrow> \<not> monitor s c \<Longrightarrow>
    spin_step c s (s\<lparr>point := (point s)(c := Ldrex)\<rparr>)"
| unlock: "point s c = Held \<Longrightarrow>
    spin_step c s (s\<lparr>lock_word := 0, monitor := (\<lambda>_. False), point := (point s)(c := Out)\<rparr>)"
| lose_monitor: "spin_step c s (s\<lparr>monitor := (monitor s)(c := False)\<rparr>)"

text \<open>The two functions with every other core standing still, on one core.\<close>

definition spin_lock :: "nat \<Rightarrow> spin \<Rightarrow> spin option" where
  "spin_lock c s =
     (if lock_word s = 0 then Some (s\<lparr>lock_word := 1, monitor := (\<lambda>_. False), point := (point s)(c := Held)\<rparr>)
      else None)"

definition spin_unlock :: "nat \<Rightarrow> spin \<Rightarrow> spin" where
  "spin_unlock c s = s\<lparr>lock_word := 0, monitor := (\<lambda>_. False), point := (point s)(c := Out)\<rparr>"

definition spin_init :: spin where
  "spin_init = \<lparr>lock_word = 0, monitor = (\<lambda>_. False), point = (\<lambda>_. Out)\<rparr>"

inductive_simps spin_step_iff: "spin_step c s s'"

section \<open>Mutual exclusion\<close>

definition spin_inv :: "spin \<Rightarrow> bool" where
  "spin_inv s \<longleftrightarrow>
     (lock_word s = 0 \<longrightarrow> (\<forall>c. point s c \<noteq> Held)) \<and>
     (\<forall>c d. point s c = Held \<longrightarrow> point s d = Held \<longrightarrow> c = d) \<and>
     (\<forall>c. point s c = Strex \<longrightarrow> monitor s c \<longrightarrow> lock_word s = 0) \<and>
     (lock_word s \<noteq> 0 \<longrightarrow> (\<exists>c. point s c = Held))"

lemma spin_inv_init: "spin_inv spin_init"
  by (simp add: spin_inv_def spin_init_def)

lemma spin_inv_step:
  assumes "spin_step c s s'" and "spin_inv s"
  shows "spin_inv s'"
  using assms(1)
proof cases
  case strex_ok
  then have "lock_word s = 0" using assms(2) by (auto simp: spin_inv_def)
  then have "\<And>d. point s d \<noteq> Held" using assms(2) by (auto simp: spin_inv_def)
  with strex_ok show ?thesis by (auto simp: spin_inv_def)
next
  case unlock
  have u: "point s d = Held \<Longrightarrow> point s e = Held \<Longrightarrow> d = e" for d e
    using assms(2) unfolding spin_inv_def by blast
  have "((point s)(c := Out)) d \<noteq> Held" for d
    using u [of d c] unlock(2) by auto
  with unlock(1) show ?thesis by (simp add: spin_inv_def)
next
  case call
  then show ?thesis using assms(2) by (auto simp: spin_inv_def) (metis spin_point.distinct(5))
next
  case strex_fail
  then show ?thesis using assms(2) by (auto simp: spin_inv_def) (metis spin_point.distinct(11))
qed (use assms(2) in \<open>auto simp: spin_inv_def split: if_splits\<close>)

definition holds_lock :: "spin \<Rightarrow> nat \<Rightarrow> bool" where
  "holds_lock s c \<longleftrightarrow> point s c = Held"

section \<open>The interface of a lock\<close>

locale mutex =
  fixes step :: "nat \<Rightarrow> 's \<Rightarrow> 's \<Rightarrow> bool" and inv :: "'s \<Rightarrow> bool" and holds :: "'s \<Rightarrow> nat \<Rightarrow> bool"
  assumes inv_step: "step c s s' \<Longrightarrow> inv s \<Longrightarrow> inv s'"
    and exclusive: "inv s \<Longrightarrow> holds s c \<Longrightarrow> holds s d \<Longrightarrow> c = d"
    and others: "step c s s' \<Longrightarrow> d \<noteq> c \<Longrightarrow> holds s' d = holds s d"

interpretation spin: mutex spin_step spin_inv holds_lock
proof
  fix c s s' d
  show "spin_step c s s' \<Longrightarrow> spin_inv s \<Longrightarrow> spin_inv s'" by (rule spin_inv_step)
  show "spin_step c s s' \<Longrightarrow> d \<noteq> c \<Longrightarrow> holds_lock s' d = holds_lock s d"
    by (auto simp: spin_step_iff holds_lock_def)
qed (auto simp: spin_inv_def holds_lock_def)

section \<open>Properties\<close>

text \<open>Interleavings: the core that moves at each step, and the states in between.\<close>

inductive spin_run :: "nat list \<Rightarrow> spin \<Rightarrow> spin \<Rightarrow> bool" where
  nil: "spin_run [] s s"
| step: "spin_step c s s1 \<Longrightarrow> spin_run cs s1 s2 \<Longrightarrow> spin_run (c # cs) s s2"

lemma spin_run_inv: "spin_run cs s s' \<Longrightarrow> spin_inv s \<Longrightarrow> spin_inv s'"
  by (induction rule: spin_run.induct) (auto intro: spin_inv_step)

text \<open>C14. The spin lock excludes: however the instructions of any number of cores interleave, and however often
  exclusive monitors are lost, two cores are never both past \<open>spin_lock\<close>, and the lock word is nonzero exactly while one is.\<close>

theorem spin_lock_mutual_exclusion:
  assumes "spin_run cs spin_init s"
  shows "(holds_lock s c \<and> holds_lock s d \<longrightarrow> c = d) \<and> (lock_word s \<noteq> 0) = (\<exists>c. holds_lock s c)"
  using spin_run_inv [OF assms spin_inv_init] by (auto simp: spin_inv_def holds_lock_def)

lemma two_core_run: "spin_run [0, 1, 0, 1, 0, 1]
   spin_init \<lparr>lock_word = 1, monitor = (\<lambda>_. False), point = (\<lambda>_. Out)(0 := Held, 1 := Ldrex)\<rparr>"
  unfolding spin_init_def
  apply (rule spin_run.step, rule spin_step.call, simp)
  apply (rule spin_run.step, rule spin_step.call, simp)
  apply (rule spin_run.step, rule spin_step.ldrex_free, simp, simp)
  apply (rule spin_run.step, rule spin_step.ldrex_free, simp, simp)
  apply (rule spin_run.step, rule spin_step.strex_ok, simp, simp)
  apply (rule spin_run.step, rule spin_step.strex_fail, simp, simp)
  apply (simp add: fun_upd_twist spin_run.nil)
  done

theorem spin_lock_mutual_exclusion_witness:
  "\<exists>s. spin_run [0, 1, 0, 1, 0, 1] spin_init s \<and> holds_lock s 0 \<and> \<not> holds_lock s 1 \<and> lock_word s \<noteq> 0"
  using two_core_run spin_lock_mutual_exclusion [OF two_core_run] by (auto simp: holds_lock_def)



end
