(* ===== verification/Malloc_Lock.thy ===== *)
theory Malloc_Lock
  imports Spinlock
begin

text \<open>
  The recursive lock around \<open>malloc\<close> (\<^verbatim>\<open>__wrap___malloc_lock\<close> and \<^verbatim>\<open>__wrap___malloc_unlock\<close> of
  \<^verbatim>\<open>libc_io.c\<close>): a counter and an owner, protected by a spin lock. Loads and stores of the two
  variables are separate steps, so that the proof needs the spin lock; the spin lock is any \<open>mutex\<close>,
  and the result is instantiated with the one of \<^verbatim>\<open>spinlock.c\<close>. \<open>m_depth\<close> counts, for each core, the
  calls of \<open>malloc_lock\<close> that have taken effect and are not yet undone; no rule tests it but the one
  that lets a core call \<open>malloc_unlock\<close> only when it holds the lock.
\<close>

section \<open>Steps\<close>

text \<open>
  Where a core is: outside, in the spin lock of either function, after loading the two variables,
  or about to call \<open>spin_unlock\<close> and then return or try again.
\<close>

datatype malloc_point = M_Idle | M_Locking | M_Loaded int nat | M_Unlocking | M_Decrement int | M_Return | M_Retry

record 's mlock =
  spin_state :: 's
  m_count :: int
  m_owner :: nat
  m_depth :: "nat \<Rightarrow> nat"
  m_point :: "nat \<Rightarrow> malloc_point"

definition goto :: "nat \<Rightarrow> malloc_point \<Rightarrow> 's mlock \<Rightarrow> 's mlock" where
  "goto c p s = s\<lparr>m_point := (m_point s)(c := p)\<rparr>"

lemma goto_sel [simp]:
  "m_point (goto c p s) = (m_point s)(c := p)" "spin_state (goto c p s) = spin_state s"
  "m_count (goto c p s) = m_count s" "m_owner (goto c p s) = m_owner s" "m_depth (goto c p s) = m_depth s"
  by (simp_all add: goto_def)

inductive mlock_step :: "(nat \<Rightarrow> 's \<Rightarrow> 's \<Rightarrow> bool) \<Rightarrow> ('s \<Rightarrow> nat \<Rightarrow> bool) \<Rightarrow> nat \<Rightarrow> 's mlock \<Rightarrow> 's mlock \<Rightarrow> bool"
  for step holds c where
  call_lock: "m_point s c = M_Idle \<Longrightarrow> mlock_step step holds c s (goto c M_Locking s)"
| call_unlock: "m_point s c = M_Idle \<Longrightarrow> 0 < m_depth s c \<Longrightarrow> mlock_step step holds c s (goto c M_Unlocking s)"
| spinning: "m_point s c \<in> {M_Locking, M_Unlocking} \<Longrightarrow> \<not> holds (spin_state s) c \<Longrightarrow> step c (spin_state s) l \<Longrightarrow>
    mlock_step step holds c s (s\<lparr>spin_state := l\<rparr>)"
| load: "m_point s c = M_Locking \<Longrightarrow> holds (spin_state s) c \<Longrightarrow>
    mlock_step step holds c s (goto c (M_Loaded (m_count s) (m_owner s)) s)"
| take_free: "m_point s c = M_Loaded n w \<Longrightarrow> n \<le> 0 \<Longrightarrow>
    mlock_step step holds c s (goto c M_Return (s\<lparr>m_count := 1, m_owner := c, m_depth := (m_depth s)(c := m_depth s c + 1)\<rparr>))"
| take_again: "m_point s c = M_Loaded n w \<Longrightarrow> 0 < n \<Longrightarrow> w = c \<Longrightarrow>
    mlock_step step holds c s (goto c M_Return (s\<lparr>m_count := n + 1, m_depth := (m_depth s)(c := m_depth s c + 1)\<rparr>))"
| busy: "m_point s c = M_Loaded n w \<Longrightarrow> 0 < n \<Longrightarrow> w \<noteq> c \<Longrightarrow> mlock_step step holds c s (goto c M_Retry s)"
| load_dec: "m_point s c = M_Unlocking \<Longrightarrow> holds (spin_state s) c \<Longrightarrow>
    mlock_step step holds c s (goto c (M_Decrement (m_count s)) s)"
| store_dec: "m_point s c = M_Decrement n \<Longrightarrow>
    mlock_step step holds c s (goto c M_Return
      (s\<lparr>m_count := (if n - 1 \<le> 0 then 0 else n - 1), m_depth := (m_depth s)(c := m_depth s c - 1)\<rparr>))"
| return: "m_point s c = M_Return \<Longrightarrow> step c (spin_state s) l \<Longrightarrow> \<not> holds l c \<Longrightarrow>
    mlock_step step holds c s (goto c M_Idle (s\<lparr>spin_state := l\<rparr>))"
| retry: "m_point s c = M_Retry \<Longrightarrow> step c (spin_state s) l \<Longrightarrow> \<not> holds l c \<Longrightarrow>
    mlock_step step holds c s (goto c M_Locking (s\<lparr>spin_state := l\<rparr>))"

inductive mlock_run :: "(nat \<Rightarrow> 's \<Rightarrow> 's \<Rightarrow> bool) \<Rightarrow> ('s \<Rightarrow> nat \<Rightarrow> bool) \<Rightarrow> nat list \<Rightarrow> 's mlock \<Rightarrow> 's mlock \<Rightarrow> bool"
  for step holds where
  nil: "mlock_run step holds [] s s"
| step: "mlock_step step holds c s s1 \<Longrightarrow> mlock_run step holds cs s1 s2 \<Longrightarrow> mlock_run step holds (c # cs) s s2"

section \<open>Invariant\<close>

text \<open>Points between the two calls of the spin lock, where the core holds it.\<close>

fun in_section :: "malloc_point \<Rightarrow> bool" where
  "in_section (M_Loaded n w) = True"
| "in_section (M_Decrement n) = True"
| "in_section M_Return = True"
| "in_section M_Retry = True"
| "in_section _ = False"

fun unlocking :: "malloc_point \<Rightarrow> bool" where
  "unlocking M_Unlocking = True"
| "unlocking (M_Decrement n) = True"
| "unlocking _ = False"

definition depth_ok :: "'s mlock \<Rightarrow> bool" where
  "depth_ok s \<longleftrightarrow> 0 \<le> m_count s \<and>
     (\<forall>c. 0 < m_depth s c \<longrightarrow> c = m_owner s \<and> m_count s = int (m_depth s c)) \<and>
     (0 < m_count s \<longrightarrow> 0 < m_depth s (m_owner s))"

definition points_ok :: "('s \<Rightarrow> nat \<Rightarrow> bool) \<Rightarrow> 's mlock \<Rightarrow> bool" where
  "points_ok holds s \<longleftrightarrow>
     (\<forall>c. in_section (m_point s c) \<longrightarrow> holds (spin_state s) c) \<and>
     (\<forall>c n w. m_point s c = M_Loaded n w \<longrightarrow> n = m_count s \<and> w = m_owner s) \<and>
     (\<forall>c n. m_point s c = M_Decrement n \<longrightarrow> n = m_count s) \<and>
     (\<forall>c. unlocking (m_point s c) \<longrightarrow> 0 < m_depth s c)"

lemma depth_okD:
  assumes "depth_ok s"
  shows "0 \<le> m_count s"
    and "0 < m_depth s c \<Longrightarrow> c = m_owner s" and "0 < m_depth s c \<Longrightarrow> m_count s = int (m_depth s c)"
    and "0 < m_count s \<Longrightarrow> 0 < m_depth s (m_owner s)"
  using assms unfolding depth_ok_def by auto

lemma points_okD:
  assumes "points_ok holds s"
  shows "in_section (m_point s c) \<Longrightarrow> holds (spin_state s) c"
    and "m_point s c = M_Loaded n w \<Longrightarrow> n = m_count s" and "m_point s c = M_Loaded n w \<Longrightarrow> w = m_owner s"
    and "m_point s c = M_Decrement n \<Longrightarrow> n = m_count s"
    and "unlocking (m_point s c) \<Longrightarrow> 0 < m_depth s c"
  using assms unfolding points_ok_def by auto

text \<open>
  A step of core \<open>c\<close> keeps the conditions on the other cores if it leaves alone what they look at, or if
  no other core is in its section.
\<close>

lemma points_ok_step:
  assumes ok: "points_ok holds s"
    and pt: "\<And>d. d \<noteq> c \<Longrightarrow> m_point s' d = m_point s d" and dp: "\<And>d. d \<noteq> c \<Longrightarrow> m_depth s' d = m_depth s d"
    and hl: "\<And>d. d \<noteq> c \<Longrightarrow> holds (spin_state s') d = holds (spin_state s) d"
    and vars: "m_count s' = m_count s \<and> m_owner s' = m_owner s \<or> (\<forall>d. d \<noteq> c \<longrightarrow> \<not> in_section (m_point s d))"
    and own: "in_section (m_point s' c) \<Longrightarrow> holds (spin_state s') c"
      "\<And>n w. m_point s' c = M_Loaded n w \<Longrightarrow> n = m_count s' \<and> w = m_owner s'"
      "\<And>n. m_point s' c = M_Decrement n \<Longrightarrow> n = m_count s'"
      "unlocking (m_point s' c) \<Longrightarrow> 0 < m_depth s' c"
  shows "points_ok holds s'"
  unfolding points_ok_def
proof (intro conjI allI impI)
  fix d n w
  show "in_section (m_point s' d) \<Longrightarrow> holds (spin_state s') d"
    using own(1) points_okD(1) [OF ok, of d] pt [of d] hl [of d] by (cases "d = c") auto
  have eq: "m_count s' = m_count s" "m_owner s' = m_owner s" if "d \<noteq> c" "in_section (m_point s d)"
    using vars that by blast+
  show "m_point s' d = M_Loaded n w \<Longrightarrow> n = m_count s'"
    using own(2) [of n w] points_okD(2) [OF ok, of d n w] pt [of d] eq by (cases "d = c") simp_all
  show "m_point s' d = M_Loaded n w \<Longrightarrow> w = m_owner s'"
    using own(2) [of n w] points_okD(3) [OF ok, of d n w] pt [of d] eq by (cases "d = c") simp_all
  show "m_point s' d = M_Decrement n \<Longrightarrow> n = m_count s'"
    using own(3) [of n] points_okD(4) [OF ok, of d n] pt [of d] eq by (cases "d = c") simp_all
  show "unlocking (m_point s' d) \<Longrightarrow> 0 < m_depth s' d"
    using own(4) points_okD(5) [OF ok, of d] pt [of d] dp [of d] by (cases "d = c") auto
qed

text \<open>The effect of the three stores on the counter.\<close>

lemma depth_ok_take_free:
  assumes "depth_ok s" and "m_count s \<le> 0"
  shows "depth_ok (s\<lparr>m_count := 1, m_owner := c, m_depth := (m_depth s)(c := m_depth s c + 1)\<rparr>)"
proof -
  have "m_depth s d = 0" for d using depth_okD(3) [OF assms(1), of d] assms(2) by fastforce
  then show ?thesis by (simp add: depth_ok_def)
qed

lemma depth_ok_only:
  assumes "m_owner s = c" and "m_count s = int (m_depth s c)" and "\<And>d. d \<noteq> c \<Longrightarrow> m_depth s d = 0"
  shows "depth_ok s"
proof -
  have only: "d = c" if "0 < m_depth s d" for d using assms(3) [of d] that by (cases "d = c") auto
  show ?thesis unfolding depth_ok_def
  proof (intro conjI allI impI)
    fix d assume "0 < m_depth s d"
    then have "d = c" by (rule only)
    then show "d = m_owner s" and "m_count s = int (m_depth s d)" using assms(1,2) by simp_all
  qed (use assms(1,2) in simp_all)
qed

lemma depth_ok_others:
  "depth_ok s \<Longrightarrow> d \<noteq> m_owner s \<Longrightarrow> m_depth s d = 0"
  using depth_okD(2) [of s d] by fastforce

lemma depth_ok_take_again:
  assumes "depth_ok s" and "0 < m_count s" and "m_owner s = c"
  shows "depth_ok (s\<lparr>m_count := m_count s + 1, m_depth := (m_depth s)(c := m_depth s c + 1)\<rparr>)"
  using assms depth_okD(4) [OF assms(1)] depth_okD(3) [OF assms(1), of c] depth_ok_others [OF assms(1)]
  by (intro depth_ok_only [of _ c]) simp_all

lemma depth_ok_store_dec:
  assumes "depth_ok s" and "0 < m_depth s c"
  shows "depth_ok (s\<lparr>m_count := (if m_count s - 1 \<le> 0 then 0 else m_count s - 1), m_depth := (m_depth s)(c := m_depth s c - 1)\<rparr>)"
  using assms(2) depth_okD(2,3) [OF assms(1) assms(2)] depth_ok_others [OF assms(1)]
  by (intro depth_ok_only [of _ c]) auto

lemma depth_ok_other [simp]:
  "depth_ok (goto c p s) = depth_ok s" "depth_ok (s\<lparr>spin_state := l\<rparr>) = depth_ok s"
  by (simp_all add: depth_ok_def goto_def)

context mutex
begin

definition mlock_inv :: "'s mlock \<Rightarrow> bool" where
  "mlock_inv s \<longleftrightarrow> inv (spin_state s) \<and> depth_ok s \<and> points_ok holds s"

lemma section_exclusive:
  assumes "mlock_inv s" and "in_section (m_point s c)" and "in_section (m_point s d)"
  shows "c = d"
  using assms exclusive [of "spin_state s" c d] points_okD(1) [of holds s c] points_okD(1) [of holds s d]
  by (auto simp: mlock_inv_def)

lemma points_inv_step:
  assumes "mlock_step step holds c s s'" and I: "mlock_inv s"
  shows "points_ok holds s'"
proof -
  have pok: "points_ok holds s" using I by (simp add: mlock_inv_def)
  note pd = points_okD [OF pok] and keep = points_ok_step [OF pok, of c]
  have alone: "\<forall>d. d \<noteq> c \<longrightarrow> \<not> in_section (m_point s d)" if "in_section (m_point s c)"
    using section_exclusive [OF I that] by blast
  from assms(1) show ?thesis
  proof cases
    case call_lock
    then show ?thesis by (intro keep) auto
  next
    case call_unlock
    then show ?thesis by (intro keep) auto
  next
    case (spinning l)
    then show ?thesis using others [OF spinning(4)] pd(5) [of c] by (intro keep) auto
  next
    case load
    then show ?thesis by (intro keep) auto
  next
    case (take_free n w)
    then show ?thesis using alone pd(1) [of c] by (intro keep) auto
  next
    case (take_again n w)
    then show ?thesis using alone pd(1) [of c] by (intro keep) auto
  next
    case (busy n w)
    then show ?thesis using pd(1) [of c] by (intro keep) auto
  next
    case load_dec
    then show ?thesis using pd(5) [of c] by (intro keep) auto
  next
    case (store_dec n)
    then show ?thesis using alone pd(1) [of c] by (intro keep) auto
  next
    case (return l)
    then show ?thesis using others [OF return(3)] by (intro keep) auto
  next
    case (retry l)
    then show ?thesis using others [OF retry(3)] by (intro keep) auto
  qed
qed

lemma depth_inv_step:
  assumes "mlock_step step holds c s s'" and I: "mlock_inv s"
  shows "depth_ok s'"
proof -
  have dok: "depth_ok s" and pok: "points_ok holds s" using I by (auto simp: mlock_inv_def)
  note pd = points_okD [OF pok]
  from assms(1) show ?thesis
  proof cases
    case (take_free n w)
    then show ?thesis using pd(2) [of c n w] depth_ok_take_free [OF dok, of c] by simp
  next
    case (take_again n w)
    then show ?thesis using pd(2,3) [of c n w] depth_ok_take_again [OF dok, of c] by simp
  next
    case (store_dec n)
    then show ?thesis using pd(4) [of c n] pd(5) [of c] depth_ok_store_dec [OF dok, of c] by (simp split: if_splits)
  qed (use dok in simp_all)
qed

lemma mlock_inv_step:
  assumes "mlock_step step holds c s s'" and I: "mlock_inv s"
  shows "mlock_inv s'"
proof -
  have lk: "inv (spin_state s)" using I by (simp add: mlock_inv_def)
  from assms(1) have "inv (spin_state s')" by cases (use lk inv_step [OF _ lk] in simp_all)
  then show ?thesis using points_inv_step [OF assms] depth_inv_step [OF assms] by (simp add: mlock_inv_def)
qed

lemma mlock_run_inv: "mlock_run step holds cs s s' \<Longrightarrow> mlock_inv s \<Longrightarrow> mlock_inv s'"
  by (induction rule: mlock_run.induct) (auto intro: mlock_inv_step)

text \<open>The lock excludes as soon as the spin lock does.\<close>

lemma malloc_exclusive:
  assumes "mlock_run step holds cs s0 s" and "mlock_inv s0" and "0 < m_depth s c"
  shows "m_owner s = c \<and> m_count s = int (m_depth s c) \<and> (\<forall>d. d \<noteq> c \<longrightarrow> m_depth s d = 0)"
proof -
  have ok: "depth_ok s" using mlock_run_inv [OF assms(1,2)] by (simp add: mlock_inv_def)
  from depth_okD(2,3) [OF ok assms(3)] depth_ok_others [OF ok] show ?thesis by auto
qed

end


section \<open>On the spin lock of the program\<close>

definition malloc_init :: "spin mlock" where
  "malloc_init = \<lparr>spin_state = spin_init, m_count = 0, m_owner = 0, m_depth = (\<lambda>_. 0), m_point = (\<lambda>_. M_Idle)\<rparr>"

lemma malloc_init_inv: "spin.mlock_inv malloc_init"
  by (simp add: spin.mlock_inv_def malloc_init_def spin_inv_init depth_ok_def points_ok_def)


definition locked_once :: "spin mlock" where
  "locked_once = \<lparr>spin_state = \<lparr>lock_word = 1, monitor = (\<lambda>_. False), point = (\<lambda>_. Out)(0 := Held)\<rparr>,
     m_count = 1, m_owner = 0, m_depth = (\<lambda>_. 0)(0 := 1), m_point = (\<lambda>_. M_Idle)(0 := M_Return)\<rparr>"

lemma lock_once_run: "mlock_run spin_step holds_lock [0, 0, 0, 0, 0, 0] malloc_init locked_once"
  unfolding malloc_init_def spin_init_def goto_def
  apply (rule mlock_run.step, rule mlock_step.call_lock, simp)
  apply (rule mlock_run.step, rule mlock_step.spinning, simp add: goto_def, simp add: holds_lock_def, rule spin_step.call, simp)
  apply (rule mlock_run.step, rule mlock_step.spinning, simp add: goto_def, simp add: holds_lock_def, rule spin_step.ldrex_free, simp, simp)
  apply (rule mlock_run.step, rule mlock_step.spinning, simp add: goto_def, simp add: holds_lock_def, rule spin_step.strex_ok, simp, simp)
  apply (rule mlock_run.step, rule mlock_step.load, simp, simp add: holds_lock_def)
  apply (rule mlock_run.step, rule mlock_step.take_free, simp, simp)
  apply (simp add: goto_def locked_once_def mlock_run.nil)
  done


end
