(* ===== verification/Heap.thy ===== *)
theory Heap
  imports Prelude
begin

text \<open>
  The break of the heap (\<open>libc_set_heap\<close> and \<^verbatim>\<open>_sbrk_r\<close> of \<^verbatim>\<open>libc_io.c\<close>) and the memory accounting
  of \<^verbatim>\<open>system.c\<close>. Pointers are 32-bit; the sum that is compared with the limit wraps.
\<close>

section \<open>Operations\<close>

record heap =
  current_brk :: u32
  max_brk :: u32

definition libc_set_heap :: "u32 \<Rightarrow> u32 \<Rightarrow> heap" where
  "libc_set_heap start fin = \<lparr>current_brk = start, max_brk = fin\<rparr>"

text \<open>\<open>None\<close> is the result \<open>(void * )-1\<close> with \<open>errno\<close> set to \<open>ENOMEM\<close>.\<close>

definition sbrk_r :: "u32 \<Rightarrow> heap \<Rightarrow> u32 option \<times> heap" where
  "sbrk_r incr h =
     (if current_brk h + incr \<ge> max_brk h then (None, h)
      else (Some (current_brk h), h\<lparr>current_brk := current_brk h + incr\<rparr>))"

definition sys_mem_free :: "u32 \<Rightarrow> heap \<Rightarrow> u32" where
  "sys_mem_free fordblks h = fordblks + (max_brk h - current_brk h)"

text \<open>The blocks that a sequence of requests obtains, as start and size.\<close>

fun sbrk_run :: "u32 list \<Rightarrow> heap \<Rightarrow> (nat \<times> nat) list \<times> heap" where
  "sbrk_run [] h = ([], h)"
| "sbrk_run (n # ns) h =
     (case sbrk_r n h of
        (None, h') \<Rightarrow> sbrk_run ns h'
      | (Some p, h') \<Rightarrow> (let (bs, h'') = sbrk_run ns h' in ((unat p, unat n) # bs, h'')))"

section \<open>Blocks\<close>

text \<open>Blocks that follow one another from address \<open>lo\<close> on.\<close>

fun laid_out :: "nat \<Rightarrow> (nat \<times> nat) list \<Rightarrow> nat \<Rightarrow> bool" where
  "laid_out lo [] hi = (lo \<le> hi)"
| "laid_out lo ((p, n) # bs) hi = (lo \<le> p \<and> laid_out (p + n) bs hi)"

lemma laid_out_le: "laid_out lo bs hi \<Longrightarrow> lo \<le> hi"
  by (induction lo bs hi rule: laid_out.induct) auto

lemma laid_out_bounds: "laid_out lo bs hi \<Longrightarrow> (p, n) \<in> set bs \<Longrightarrow> lo \<le> p \<and> p + n \<le> hi"
  by (induction lo bs hi rule: laid_out.induct) (auto dest: laid_out_le)

lemma laid_out_disjoint:
  "laid_out lo bs hi \<Longrightarrow> i < j \<Longrightarrow> j < length bs \<Longrightarrow> fst (bs ! i) + snd (bs ! i) \<le> fst (bs ! j)"
proof (induction lo bs hi arbitrary: i j rule: laid_out.induct)
  case (2 lo p n bs hi)
  then obtain j' where j: "j = Suc j'" "j' < length bs" by (cases j) auto
  show ?case
  proof (cases i)
    case 0
    then show ?thesis using laid_out_bounds [of "p + n" bs hi "fst (bs ! j')" "snd (bs ! j')"] 2 j by auto
  next
    case (Suc i')
    with 2 j show ?thesis by auto
  qed
qed simp

lemma sbrk_step:
  assumes "max_brk h \<le> 0x80000000" and "n < 0x80000000" and "sbrk_r n h = (Some p, h')"
  shows "p = current_brk h" and "unat (current_brk h') = unat (current_brk h) + unat n \<or> current_brk h \<ge> max_brk h"
    and "current_brk h' < max_brk h" and "max_brk h' = max_brk h"
  using assms by (auto simp: sbrk_r_def unat_word_ariths word_less_nat_alt word_le_nat_alt split: if_splits)

lemma sbrk_run_laid_out:
  assumes "max_brk h \<le> 0x80000000" and "current_brk h < max_brk h" and "\<forall>n \<in> set ns. n < 0x80000000"
    and "sbrk_run ns h = (bs, h')"
  shows "laid_out (unat (current_brk h)) bs (unat (current_brk h')) \<and> current_brk h' < max_brk h \<and> max_brk h' = max_brk h"
  using assms
proof (induction ns arbitrary: h bs)
  case Nil
  then show ?case by simp
next
  case (Cons n ns)
  show ?case
  proof (cases "sbrk_r n h")
    case (Pair r h1)
    show ?thesis
    proof (cases r)
      case None
      with Pair have "h1 = h" by (auto simp: sbrk_r_def split: if_splits)
      with Cons Pair None show ?thesis by simp
    next
      case (Some p)
      note st = sbrk_step [OF Cons.prems(1) _ Pair [unfolded Some]]
      have n: "n < 0x80000000" using Cons.prems(3) by simp
      obtain bs1 where bs1: "sbrk_run ns h1 = (bs1, h')" "bs = (unat p, unat n) # bs1"
        using Cons.prems(4) Pair Some by (auto split: prod.splits)
      have "laid_out (unat (current_brk h1)) bs1 (unat (current_brk h')) \<and> current_brk h' < max_brk h1 \<and> max_brk h' = max_brk h1"
        using Cons.IH [OF _ _ _ bs1(1)] Cons.prems(1,3) st(3,4) [OF n] by simp
      moreover have "unat (current_brk h1) = unat (current_brk h) + unat n"
        using st(2) [OF n] Cons.prems(2) by (auto simp: not_le [symmetric])
      ultimately show ?thesis using st(1,4) [OF n] bs1(2) by simp
    qed
  qed
qed

section \<open>Properties\<close>



text \<open>The comparison with the limit does not notice wrap-around: on a board with 2 GB of memory, a request that passes the
  top of the address space is granted, and the break ends up below the start of memory.\<close>

theorem sbrk_wraps:
  assumes "0x80000000 < current_brk h" and "max_brk h = 0xC0000000"
  shows "\<exists>n < 0x80000000. sbrk_r n h = (Some (current_brk h), h\<lparr>current_brk := 0\<rparr>)"
proof -
  have "uint (- current_brk h) = (- uint (current_brk h)) mod 4294967296" by (simp add: uint_word_ariths)
  moreover have "2147483648 < uint (current_brk h)" "uint (current_brk h) < 4294967296"
    using assms(1) uint_lt2p [of "current_brk h"] by (simp_all add: word_less_def)
  ultimately have "uint (- current_brk h) < 2147483648" by (simp add: zmod_zminus1_eq_if)
  then have "- current_brk h < 0x80000000" by (simp add: word_less_def)
  moreover have "sbrk_r (- current_brk h) h = (Some (current_brk h), h\<lparr>current_brk := 0\<rparr>)"
    using assms(2) by (simp add: sbrk_r_def)
  ultimately show ?thesis by blast
qed

theorem sbrk_wraps_witness:
  "\<exists>n < 0x80000000. sbrk_r n \<lparr>current_brk = 0x90000000, max_brk = 0xC0000000\<rparr> =
     (Some 0x90000000, \<lparr>current_brk = 0, max_brk = 0xC0000000\<rparr>)"
  using sbrk_wraps [of "\<lparr>current_brk = 0x90000000, max_brk = 0xC0000000\<rparr>"] by simp

end
