(* ===== verification/Mmu.thy ===== *)
theory Mmu
  imports Heap
begin

text \<open>
  Memory detection and address translation (\<^verbatim>\<open>mmu.c\<close>). The memory bus is the function \<open>cell\<close> from
  word addresses to cells of the chip: addresses that the chip does not decode show the same cell, which is
  what the probe looks for. The page table is a list of 4096 section descriptors.
\<close>

section \<open>Detection of the memory size\<close>

definition DRAM_START :: u32 where [addr_defs]: "DRAM_START = 0x40000000"
definition DRAM_MAX :: u32 where [addr_defs]: "DRAM_MAX = 0xc0000000"
definition DRAM_STEP :: u32 where [addr_defs]: "DRAM_STEP = 0x02000000"

text \<open>The word at address \<open>a\<close> of a chip with contents \<open>d\<close> is \<open>d (cell a)\<close>.\<close>

type_synonym 'c dram = "'c \<Rightarrow> u32"

text \<open>
  The loop of \<open>mmu_detect_dram_end\<close>: at each step the word at \<open>dram_end\<close> is overwritten, the word
  at the start looked at, and the overwritten word restored unless the probe hit an alias.
\<close>

function detect_loop :: "(u32 \<Rightarrow> 'c) \<Rightarrow> u32 \<Rightarrow> 'c dram \<Rightarrow> u32 \<times> 'c dram" where
  "detect_loop cell dram_end d =
     (if dram_end < DRAM_MAX
      then (let saved_dram_end = d (cell dram_end);
                d1 = d(cell dram_end := 0xcafebabe)
            in if d1 (cell DRAM_START) = 0xcafebabe then (dram_end, d1)
               else detect_loop cell (dram_end + DRAM_STEP) (d1(cell dram_end := saved_dram_end)))
      else (dram_end, d))"
  by pat_completeness auto

termination detect_loop
  by (relation "measure (\<lambda>(cell, a, d). 2 ^ 32 - unat a)")
     (auto simp: DRAM_MAX_def DRAM_STEP_def word_less_nat_alt unat_word_ariths)

declare detect_loop.simps [simp del]

definition mmu_detect_dram_end :: "(u32 \<Rightarrow> 'c) \<Rightarrow> 'c dram \<Rightarrow> u32 \<times> 'c dram" where
  "mmu_detect_dram_end cell d =
     (let saved_dram_start = d (cell DRAM_START);
          (dram_end, d') = detect_loop cell (DRAM_START + DRAM_STEP) (d(cell DRAM_START := 0xdeadbeef))
      in (dram_end, d'(cell DRAM_START := saved_dram_start)))"

text \<open>A chip of \<open>2 ^ n\<close> bytes decodes the low \<open>n\<close> bits of the offset from the start of memory.\<close>

definition chip_cell :: "nat \<Rightarrow> u32 \<Rightarrow> nat" where
  "chip_cell n a = unat (a - DRAM_START) mod 2 ^ n"

section \<open>Page table\<close>

definition section_entry :: "u32 \<Rightarrow> u32" where
  "section_entry n =
     (if n = 0 then push_bit 20 n OR push_bit 16 1 OR push_bit 12 1 OR push_bit 10 3 OR push_bit 2 3 OR 2
      else if 0x400 \<le> n \<and> n < 0x410 then push_bit 20 n OR push_bit 16 1 OR push_bit 12 1 OR push_bit 10 3 OR push_bit 2 3 OR 2
      else if 0x410 \<le> n \<and> n < 0x420 then push_bit 20 n OR push_bit 16 1 OR push_bit 12 1 OR push_bit 10 3 OR push_bit 2 0 OR 2
      else if 0x420 \<le> n \<and> n < 0xc00 then push_bit 20 n OR push_bit 16 1 OR push_bit 12 1 OR push_bit 10 3 OR push_bit 2 3 OR 2
      else push_bit 20 n OR push_bit 12 0 OR push_bit 10 3 OR push_bit 2 0 OR 2)"

definition mmu_pagetable :: "u32 list" where
  "mmu_pagetable = map (\<lambda>n. section_entry (of_nat n)) [0..<0x1000]"

text \<open>
  How the processor reads a section descriptor (short-descriptor format): the entry is chosen by the top
  twelve bits of the address; bits 31 to 20 of the entry replace them, bits 1 and 0 are its type (2: section),
  bits 3 and 2 the cacheable and bufferable flags.
\<close>

definition translate :: "u32 list \<Rightarrow> u32 \<Rightarrow> u32" where
  "translate pt a = (pt ! unat (drop_bit 20 a) AND 0xfff00000) OR (a AND 0x000fffff)"

definition entry_type :: "u32 \<Rightarrow> u32" where "entry_type e = e AND 3"
definition cacheable :: "u32 list \<Rightarrow> u32 \<Rightarrow> bool" where
  "cacheable pt a \<longleftrightarrow> bit (pt ! unat (drop_bit 20 a)) 3"

section \<open>Detection: proofs\<close>

text \<open>Whatever the bus does, the probe leaves everything but the first word of memory alone.\<close>

lemma detect_loop_restores:
  "d (cell DRAM_START) = 0xdeadbeef \<Longrightarrow> \<exists>v. snd (detect_loop cell a d) = d(cell DRAM_START := v)"
proof (induction cell a d rule: detect_loop.induct)
  case (1 cell a d)
  show ?case
  proof (cases "a < DRAM_MAX")
    case False
    then show ?thesis
      by (subst detect_loop.simps) (simp add: exI [of _ "d (cell DRAM_START)"])
  next
    case True
    show ?thesis
    proof (cases "cell a = cell DRAM_START")
      case True
      with \<open>a < DRAM_MAX\<close> show ?thesis by (subst detect_loop.simps) auto
    next
      case False
      let ?d = "(d(cell a := 0xcafebabe))(cell a := d (cell a))"
      have d: "?d = d" by simp
      have "\<exists>v. snd (detect_loop cell (a + DRAM_STEP) ?d) = ?d(cell DRAM_START := v)"
        by (rule "1.IH" [OF True refl refl]) (use False "1.prems" in simp_all)
      then obtain v where v: "snd (detect_loop cell (a + DRAM_STEP) d) = d(cell DRAM_START := v)" unfolding d by blast
      have "detect_loop cell a d = detect_loop cell (a + DRAM_STEP) d"
        using True False "1.prems" by (subst detect_loop.simps) simp
      with v show ?thesis by (intro exI [of _ v]) simp
    qed
  qed
qed

definition probe :: "nat \<Rightarrow> u32" where
  "probe i = DRAM_START + of_nat i * DRAM_STEP"

lemma unat_probe: "i \<le> 64 \<Longrightarrow> unat (probe i) = 0x40000000 + i * 0x2000000"
  by (simp add: probe_def DRAM_START_def DRAM_STEP_def unat_word_ariths unat_of_nat)

lemma probe_Suc: "probe i + DRAM_STEP = probe (Suc i)"
  by (simp add: probe_def algebra_simps)

lemma detect_loop_finds:
  assumes "k \<le> n" and "n \<le> 64" and "d (cell DRAM_START) = 0xdeadbeef"
    and "\<And>i. k \<le> i \<Longrightarrow> i < n \<Longrightarrow> cell (probe i) \<noteq> cell DRAM_START"
    and "n < 64 \<Longrightarrow> cell (probe n) = cell DRAM_START"
  shows "fst (detect_loop cell (probe k) d) = probe n"
  using assms(1,4)
proof (induction "n - k" arbitrary: k)
  case 0
  then have "k = n" by simp
  moreover have "probe n < DRAM_MAX \<longleftrightarrow> n < 64"
    using assms(2) unat_probe [OF assms(2)] by (simp add: word_less_nat_alt DRAM_MAX_def)
  ultimately show ?case using assms(5) by (subst detect_loop.simps) simp
next
  case (Suc m)
  then have k: "k < n" "k \<le> 64" using assms(2) by auto
  have "probe k < DRAM_MAX"
    using k assms(2) unat_probe [OF k(2)] by (simp add: word_less_nat_alt DRAM_MAX_def)
  moreover have "cell (probe k) \<noteq> cell DRAM_START" using Suc.prems(2) k by simp
  moreover have "fst (detect_loop cell (probe (Suc k)) d) = probe n"
    using Suc.hyps Suc.prems k by (intro Suc.hyps(1)) auto
  ultimately show ?case
    using assms(3) by (subst detect_loop.simps) (simp add: probe_Suc)
qed

lemma chip_cell_probe:
  assumes "25 \<le> m" and "i \<le> 64"
  shows "chip_cell m (probe i) = chip_cell m DRAM_START \<longleftrightarrow> 2 ^ (m - 25) dvd i"
proof -
  have "chip_cell m (probe i) = (i * 2 ^ 25) mod 2 ^ m"
    using unat_probe [OF assms(2)] assms(2)
    by (simp add: chip_cell_def probe_def DRAM_STEP_def unat_word_ariths unat_of_nat)
  moreover have "(2::nat) ^ m = 2 ^ (m - 25) * 2 ^ 25" using assms(1) by (metis le_add_diff_inverse2 power_add)
  ultimately show ?thesis by (simp add: chip_cell_def mult_mod_left mod_eq_0_iff_dvd)
qed

section \<open>Properties\<close>

text \<open>C28. Memory detection finds the size of the chip and leaves its contents alone: for a chip of 32 MB to 2 GB (a power of two)
  whose addresses repeat above its size, the end that is returned is the start of memory plus the size, and every word
  of the chip has its old value afterwards, the overwritten first word included.\<close>

theorem mmu_detect_dram_end_correct:
  assumes "25 \<le> m" and "m \<le> 31"
  shows "mmu_detect_dram_end (chip_cell m) d = (DRAM_START + 2 ^ m, d)"
proof -
  let ?c = "chip_cell m" and ?n = "2 ^ (m - 25) :: nat"
  let ?d = "d(?c DRAM_START := 0xdeadbeef)"
  have n: "?n \<le> 2 ^ 6" "1 \<le> ?n" using assms(2) by (intro power_increasing) auto
  have "fst (detect_loop ?c (probe 1) ?d) = probe ?n"
  proof (rule detect_loop_finds)
    fix i assume "1 \<le> i" "i < ?n"
    then have "\<not> ?n dvd i" by (auto dest: dvd_imp_le)
    with chip_cell_probe [OF assms(1), of i] \<open>i < ?n\<close> n(1) show "?c (probe i) \<noteq> ?c DRAM_START" by simp
  qed (use n chip_cell_probe [OF assms(1), of ?n] in auto)
  moreover have "probe ?n = DRAM_START + 2 ^ m"
  proof -
    have "(2::u32) ^ m = 2 ^ (m - 25) * 2 ^ 25" using assms(1) by (metis le_add_diff_inverse2 power_add)
    then show ?thesis by (simp add: probe_def DRAM_STEP_def)
  qed
  moreover obtain v where "snd (detect_loop ?c (probe 1) ?d) = ?d(?c DRAM_START := v)"
    using detect_loop_restores [of ?d ?c "probe 1"] by auto
  ultimately have "detect_loop ?c (DRAM_START + DRAM_STEP) ?d = (DRAM_START + 2 ^ m, ?d(?c DRAM_START := v))"
    by (simp add: prod_eq_iff probe_def)
  then show ?thesis by (simp add: mmu_detect_dram_end_def Let_def)
qed

theorem mmu_detect_dram_end_correct_witness:
  "mmu_detect_dram_end (chip_cell 29) (\<lambda>i. of_nat i) = (0x60000000, (\<lambda>i. of_nat i))"
  using mmu_detect_dram_end_correct [of 29 "\<lambda>i. of_nat i"] by (simp add: DRAM_START_def)

text \<open>An entry is the section number in its place and one of three attribute words.\<close>

lemma section_entry_eq:
  "section_entry n = push_bit 20 n OR
     (if n = 0 \<or> 0x400 \<le> n \<and> n < 0x410 \<or> 0x420 \<le> n \<and> n < 0xc00 then 0x11c0e
      else if 0x410 \<le> n \<and> n < 0x420 then 0x11c02 else 0xc02)"
  by (auto simp: section_entry_def or.assoc)

lemma attributes_low: "c \<in> {0x11c0e, 0x11c02, 0xc02} \<Longrightarrow> (push_bit 20 n OR c) AND 0xfff00000 = push_bit 20 (n :: u32)"
proof -
  have m: "(0xfff00000::u32) = NOT (mask 20)" by (simp add: mask_numeral)
  assume "c \<in> {0x11c0e, 0x11c02, 0xc02}"
  then have c: "c AND mask 20 = c" by (auto simp: mask_numeral)
  have "(push_bit 20 n OR (c AND mask 20)) AND NOT (mask 20) = push_bit 20 n"
    by (rule bit_word_eqI) (auto simp: bit_simps)
  then show ?thesis unfolding m c .
qed

lemma unat_section: "unat (drop_bit 20 a :: u32) = unat a div 1048576"
  by (simp add: drop_bit_eq_div unat_div)

lemma pagetable_entry: "mmu_pagetable ! unat (drop_bit 20 (a :: u32)) = section_entry (drop_bit 20 a)"
proof -
  have "unat (drop_bit 20 a) < 0x1000"
    using unsigned_less [of a, where ?'a = nat] by (simp add: unat_section)
  then show ?thesis by (simp add: mmu_pagetable_def del: upt_Suc)
qed

text \<open>C29. The page table is the identity: every address is translated to itself by a valid section descriptor, and
  the cached addresses are exactly the first megabyte and the memory at 0x40000000 to 0xbfffffff without the 16 MB from 0x41000000,
  where the buffers shared with devices are; device registers are never cached.\<close>

theorem mmu_identity_map:
  "translate mmu_pagetable a = a \<and> entry_type (mmu_pagetable ! unat (drop_bit 20 a)) = 2 \<and>
   (cacheable mmu_pagetable a \<longleftrightarrow> a < 0x100000 \<or> 0x40000000 \<le> a \<and> a < 0x41000000 \<or> 0x42000000 \<le> a \<and> a < 0xc0000000)"
proof -
  let ?n = "drop_bit 20 a"
  define c where "c = (if ?n = 0 \<or> 0x400 \<le> ?n \<and> ?n < 0x410 \<or> 0x420 \<le> ?n \<and> ?n < 0xc00 then 0x11c0e
      else if 0x410 \<le> ?n \<and> ?n < 0x420 then 0x11c02 else 0xc02 :: u32)"
  have e: "section_entry ?n = push_bit 20 ?n OR c" by (simp only: section_entry_eq c_def)
  have c3: "c \<in> {0x11c0e, 0x11c02, 0xc02}" by (simp add: c_def)
  have low: "(a AND 0x000fffff) = a AND mask 20" by (simp add: mask_numeral)
  have "push_bit 20 ?n OR (a AND mask 20) = a"
    by (rule bit_word_eqI) (auto simp: bit_simps)
  then have tr: "translate mmu_pagetable a = a"
    by (simp only: translate_def pagetable_entry e attributes_low [OF c3] low)
  have m3: "(3::u32) = mask 2" by (simp add: mask_numeral)
  have "(push_bit 20 ?n OR c) AND 3 = c AND 3"
    unfolding m3 by (rule bit_word_eqI) (auto simp: bit_simps)
  also have "c AND 3 = 2" using c3 by auto
  finally have ty: "entry_type (mmu_pagetable ! unat ?n) = 2" by (simp only: entry_type_def pagetable_entry e)
  have "bit (push_bit 20 ?n OR c) 3 \<longleftrightarrow> bit c 3" by (simp add: bit_simps)
  also have "bit c 3 \<longleftrightarrow> c = 0x11c0e" using c3 by (auto simp: bit_iff_odd)
  also have "\<dots> \<longleftrightarrow> ?n = 0 \<or> 0x400 \<le> ?n \<and> ?n < 0x410 \<or> 0x420 \<le> ?n \<and> ?n < 0xc00" by (simp add: c_def)
  also have "\<dots> \<longleftrightarrow> a < 0x100000 \<or> 0x40000000 \<le> a \<and> a < 0x41000000 \<or> 0x42000000 \<le> a \<and> a < 0xc0000000"
    by (simp add: word_less_nat_alt word_le_nat_alt word_unat_eq_iff unat_section) arith
  finally show ?thesis using tr ty by (simp only: cacheable_def pagetable_entry e)
qed

end
