(* ===== verification/Display_Filter.thy ===== *)
theory Display_Filter
  imports Filter_Tables Display_Regs
begin

text \<open>
  Programming the scaler's filters (\<^verbatim>\<open>display_filter.c\<close>). A filter has unity gain if the taps of each of
  its phases sum to 64: a uniform picture then keeps its brightness. The locale \<open>scaler_setup\<close> is
  what the display driver relies on.
\<close>

section \<open>Choice of the coefficient set\<close>

definition SUN8I_VI_SCALER_SCALE_FRAC :: nat where "SUN8I_VI_SCALER_SCALE_FRAC = 20"
definition SUN8I_VI_SCALER_COEFF_COUNT :: nat where "SUN8I_VI_SCALER_COEFF_COUNT = 32"

definition sun8i_vi_scaler_coef_index :: "u32 \<Rightarrow> nat" where
  "sun8i_vi_scaler_coef_index step =
     (let scale = drop_bit (SUN8I_VI_SCALER_SCALE_FRAC - 3) step;
          int_part = drop_bit 3 scale;
          float_part = scale AND 7
      in if int_part = 0 then 0
         else if int_part = 1 then unat float_part
         else if int_part = 2 then 8 + unat (drop_bit 1 float_part)
         else if int_part = 3 then 12
         else if int_part = 4 then 13
         else 14)"

section \<open>Register stores\<close>

definition h_stores :: "(nat \<Rightarrow> u32 \<times> u32 \<times> u32 \<times> u32) \<Rightarrow> (u32 \<times> u32) list" where
  "h_stores f = concat (map (\<lambda>i. case f i of (y0, y1, c0, c1) \<Rightarrow>
     [(DE_MIXER0_VS_Y_HCOEF0 i, y0), (DE_MIXER0_VS_Y_HCOEF1 i, y1),
      (DE_MIXER0_VS_C_HCOEF0 i, c0), (DE_MIXER0_VS_C_HCOEF1 i, c1)]) [0..<SUN8I_VI_SCALER_COEFF_COUNT])"

definition v_stores :: "(nat \<Rightarrow> u32 \<times> u32) \<Rightarrow> (u32 \<times> u32) list" where
  "v_stores f = concat (map (\<lambda>i. case f i of (y, c) \<Rightarrow>
     [(DE_MIXER0_VS_Y_VCOEF i, y), (DE_MIXER0_VS_C_VCOEF i, c)]) [0..<SUN8I_VI_SCALER_COEFF_COUNT])"

definition display_scaler_set_coeff :: "u32 \<Rightarrow> int \<Rightarrow> mmio \<Rightarrow> mmio" where
  "display_scaler_set_coeff hstep sub m =
     (let (ch_left, ch_right, cy) =
            (if sub \<noteq> 0 then (lan3coefftab32_left, lan3coefftab32_right, lan2coefftab32)
             else (bicubic8coefftab32_left, bicubic8coefftab32_right, bicubic4coefftab32));
          offset = sun8i_vi_scaler_coef_index hstep * SUN8I_VI_SCALER_COEFF_COUNT;
          m1 = reg_writes (h_stores (\<lambda>i. (lan3coefftab32_left ! (offset + i), lan3coefftab32_right ! (offset + i),
                 ch_left ! (offset + i), ch_right ! (offset + i)))) m
      in reg_writes (v_stores (\<lambda>i. (lan2coefftab32 ! (offset + i), cy ! (offset + i)))) m1)"

definition nearest_stores :: "(u32 \<times> u32) list" where
  "nearest_stores = concat (map (\<lambda>n.
     [(DE_MIXER0_VS_Y_HCOEF0 n, 0x40000000), (DE_MIXER0_VS_Y_HCOEF1 n, 0), (DE_MIXER0_VS_Y_VCOEF n, 0x00004000),
      (DE_MIXER0_VS_C_HCOEF0 n, 0x40000000), (DE_MIXER0_VS_C_HCOEF1 n, 0), (DE_MIXER0_VS_C_VCOEF n, 0x00004000)])
     [0..<SUN8I_VI_SCALER_COEFF_COUNT])"

definition display_scaler_nearest_neighbour :: "mmio \<Rightarrow> mmio" where
  "display_scaler_nearest_neighbour m = reg_writes nearest_stores m"

section \<open>Unity gain\<close>

definition unity_gain :: "mmio \<Rightarrow> bool" where
  "unity_gain m \<longleftrightarrow> (\<forall>i < 32.
     gain (m (DE_MIXER0_VS_Y_HCOEF0 i)) + gain (m (DE_MIXER0_VS_Y_HCOEF1 i)) = 64 \<and>
     gain (m (DE_MIXER0_VS_C_HCOEF0 i)) + gain (m (DE_MIXER0_VS_C_HCOEF1 i)) = 64 \<and>
     gain (m (DE_MIXER0_VS_Y_VCOEF i)) = 64 \<and> gain (m (DE_MIXER0_VS_C_VCOEF i)) = 64)"

text \<open>The offset of a register in the scaler, and the part of the scaler that holds coefficients.\<close>

definition vs_offset :: "u32 \<Rightarrow> nat" where
  "vs_offset a = unat (a - DE_MIXER0_VS_BASE)"

definition coef_range :: "u32 \<Rightarrow> bool" where
  "coef_range a \<longleftrightarrow> 0x200 \<le> vs_offset a \<and> vs_offset a < 0x880"

lemma coef_index_le: "sun8i_vi_scaler_coef_index step \<le> 14"
proof -
  have f: "unat (v AND 7) < 8" for v :: u32
  proof -
    have "unat (take_bit 3 v) < 8" by (simp add: unsigned_take_bit_eq take_bit_eq_mod unat_mod)
    then show ?thesis by (simp add: take_bit_eq_mask mask_numeral)
  qed
  have h: "unat (drop_bit 1 (v AND 7)) < 4" for v :: u32
    using f [of v] by (simp add: drop_bit_eq_div unat_div)
  have "unat (v AND 7) \<le> 14" "8 + unat (drop_bit 1 (v AND 7)) \<le> 14" for v :: u32
    using f [of v] h [of v] by arith+
  then show ?thesis by (simp only: sun8i_vi_scaler_coef_index_def Let_def split: if_split) simp
qed

lemma vs_offsets:
  assumes "i < 32"
  shows "vs_offset (DE_MIXER0_VS_Y_HCOEF0 i) = 0x200 + 4 * i" "vs_offset (DE_MIXER0_VS_Y_HCOEF1 i) = 0x300 + 4 * i"
    "vs_offset (DE_MIXER0_VS_Y_VCOEF i) = 0x400 + 4 * i" "vs_offset (DE_MIXER0_VS_C_HCOEF0 i) = 0x600 + 4 * i"
    "vs_offset (DE_MIXER0_VS_C_HCOEF1 i) = 0x700 + 4 * i" "vs_offset (DE_MIXER0_VS_C_VCOEF i) = 0x800 + 4 * i"
proof -
  have o: "unat (of_nat c + of_nat i * 4 :: u32) = c + 4 * i" if "c < 0x1000" for c
  proof -
    have "(of_nat c + of_nat i * 4 :: u32) = of_nat (c + 4 * i)" by simp
    then show ?thesis using that assms by (simp only: unat_of_nat) simp
  qed
  from o [of "0x200"] o [of "0x300"] o [of "0x400"] o [of "0x600"] o [of "0x700"] o [of "0x800"]
  show "vs_offset (DE_MIXER0_VS_Y_HCOEF0 i) = 0x200 + 4 * i" "vs_offset (DE_MIXER0_VS_Y_HCOEF1 i) = 0x300 + 4 * i"
    "vs_offset (DE_MIXER0_VS_Y_VCOEF i) = 0x400 + 4 * i" "vs_offset (DE_MIXER0_VS_C_HCOEF0 i) = 0x600 + 4 * i"
    "vs_offset (DE_MIXER0_VS_C_HCOEF1 i) = 0x700 + 4 * i" "vs_offset (DE_MIXER0_VS_C_VCOEF i) = 0x800 + 4 * i"
    by (simp_all add: vs_offset_def DE_MIXER0_VS_Y_HCOEF0_def DE_MIXER0_VS_Y_HCOEF1_def DE_MIXER0_VS_Y_VCOEF_def
        DE_MIXER0_VS_C_HCOEF0_def DE_MIXER0_VS_C_HCOEF1_def DE_MIXER0_VS_C_VCOEF_def)
qed

text \<open>The six register arrays, as one family of addresses.\<close>

definition coef_reg :: "nat \<Rightarrow> nat \<Rightarrow> u32" where
  "coef_reg k i = [DE_MIXER0_VS_Y_HCOEF0 i, DE_MIXER0_VS_Y_HCOEF1 i, DE_MIXER0_VS_Y_VCOEF i,
     DE_MIXER0_VS_C_HCOEF0 i, DE_MIXER0_VS_C_HCOEF1 i, DE_MIXER0_VS_C_VCOEF i] ! k"

lemma coef_reg_simps:
  "coef_reg 0 i = DE_MIXER0_VS_Y_HCOEF0 i" "coef_reg 1 i = DE_MIXER0_VS_Y_HCOEF1 i" "coef_reg 2 i = DE_MIXER0_VS_Y_VCOEF i"
  "coef_reg 3 i = DE_MIXER0_VS_C_HCOEF0 i" "coef_reg 4 i = DE_MIXER0_VS_C_HCOEF1 i" "coef_reg 5 i = DE_MIXER0_VS_C_VCOEF i"
  by (simp_all add: coef_reg_def)

lemma less6: "k < 6 \<longleftrightarrow> k = 0 \<or> k = 1 \<or> k = 2 \<or> k = 3 \<or> k = 4 \<or> k = (5::nat)"
  by arith

lemma coef_reg_offset:
  "k < 6 \<Longrightarrow> i < 32 \<Longrightarrow> vs_offset (coef_reg k i) = [0x200, 0x300, 0x400, 0x600, 0x700, 0x800] ! k + 4 * i"
  unfolding less6 by (elim disjE) (simp_all add: vs_offsets coef_reg_def)

lemma coef_reg_inj:
  assumes "k < 6" "l < 6" "i < 32" "j < 32" and eq: "coef_reg k i = coef_reg l j"
  shows "k = l \<and> i = j"
proof -
  have "[0x200, 0x300, 0x400, 0x600, 0x700, 0x800] ! k + 4 * i = [0x200, 0x300, 0x400, 0x600, 0x700, 0x800] ! l + 4 * j"
    using coef_reg_offset [OF assms(1,3)] coef_reg_offset [OF assms(2,4)] eq by simp
  with assms(1-4) show ?thesis unfolding less6 by (elim disjE) simp_all
qed

lemma coef_reg_range: "k < 6 \<Longrightarrow> i < 32 \<Longrightarrow> coef_range (coef_reg k i)"
  unfolding coef_range_def using coef_reg_offset [of k i] unfolding less6 by (elim disjE) simp_all

text \<open>Stores to members of the family: each register shows what was stored to it, the others are unchanged.\<close>

lemma family_same:
  assumes "\<And>a v. (a, v) \<in> set ps \<longleftrightarrow> (\<exists>i < 32. \<exists>k \<in> K. a = coef_reg k i \<and> v = F k i)"
    and "K \<subseteq> {..<6}" and "k \<in> K" and "i < 32"
  shows "reg_writes ps m (coef_reg k i) = F k i"
proof (rule reg_writes_same)
  show "(coef_reg k i, F k i) \<in> set ps" using assms by blast
next
  fix w assume "(coef_reg k i, w) \<in> set ps"
  then obtain j l where "j < 32" "l \<in> K" "coef_reg k i = coef_reg l j" "w = F l j" using assms(1) by blast
  with coef_reg_inj [of k l i j] assms(2-4) show "w = F k i" by auto
qed

lemma family_other:
  assumes "\<And>a v. (a, v) \<in> set ps \<longleftrightarrow> (\<exists>i < 32. \<exists>k \<in> K. a = coef_reg k i \<and> v = F k i)"
    and "\<And>i k. i < 32 \<Longrightarrow> k \<in> K \<Longrightarrow> a \<noteq> coef_reg k i"
  shows "reg_writes ps m a = m a"
  using assms by (intro reg_writes_other) force

lemma h_stores_family:
  "(a, v) \<in> set (h_stores f) \<longleftrightarrow> (\<exists>i < 32. \<exists>k \<in> {0, 1, 3, 4}. a = coef_reg k i \<and>
     v = (case f i of (y0, y1, c0, c1) \<Rightarrow> [y0, y1, 0, c0, c1, 0] ! k))"
  by (auto simp: h_stores_def SUN8I_VI_SCALER_COEFF_COUNT_def coef_reg_def split_def)

lemma v_stores_family:
  "(a, v) \<in> set (v_stores f) \<longleftrightarrow> (\<exists>i < 32. \<exists>k \<in> {2, 5}. a = coef_reg k i \<and>
     v = (case f i of (y, c) \<Rightarrow> [0, 0, y, 0, 0, c] ! k))"
  by (auto simp: v_stores_def SUN8I_VI_SCALER_COEFF_COUNT_def coef_reg_def split_def)

lemma nearest_stores_family:
  "(a, v) \<in> set nearest_stores \<longleftrightarrow> (\<exists>i < 32. \<exists>k \<in> {0, 1, 2, 3, 4, 5}. a = coef_reg k i \<and>
     v = [0x40000000, 0, 0x00004000, 0x40000000, 0, 0x00004000] ! k)"
  by (auto simp: nearest_stores_def SUN8I_VI_SCALER_COEFF_COUNT_def coef_reg_def)

lemma coef_values:
  assumes "i < 32"
  shows "k \<in> {2, 5} \<Longrightarrow> reg_writes (v_stores g) (reg_writes (h_stores f) m) (coef_reg k i) =
      (case g i of (y, c) \<Rightarrow> [0, 0, y, 0, 0, c] ! k)"
    and "k \<in> {0, 1, 3, 4} \<Longrightarrow> reg_writes (v_stores g) (reg_writes (h_stores f) m) (coef_reg k i) =
      (case f i of (y0, y1, c0, c1) \<Rightarrow> [y0, y1, 0, c0, c1, 0] ! k)"
proof -
  show "reg_writes (v_stores g) (reg_writes (h_stores f) m) (coef_reg k i) =
      (case g i of (y, c) \<Rightarrow> [0, 0, y, 0, 0, c] ! k)" if "k \<in> {2, 5}"
    using assms that by (intro family_same [OF v_stores_family]) auto
  assume k: "k \<in> {0, 1, 3, 4}"
  have "coef_reg k i \<noteq> coef_reg l j" if "j < 32" "l \<in> {2, 5}" for j l
    using coef_reg_inj [of k l i j] assms k that by auto
  then have "reg_writes (v_stores g) n (coef_reg k i) = n (coef_reg k i)" for n
    by (intro family_other [OF v_stores_family])
  moreover have "reg_writes (h_stores f) m (coef_reg k i) =
      (case f i of (y0, y1, c0, c1) \<Rightarrow> [y0, y1, 0, c0, c1, 0] ! k)"
    using assms k by (intro family_same [OF h_stores_family]) auto
  ultimately show "reg_writes (v_stores g) (reg_writes (h_stores f) m) (coef_reg k i) =
      (case f i of (y0, y1, c0, c1) \<Rightarrow> [y0, y1, 0, c0, c1, 0] ! k)" by simp
qed

lemma nearest_values:
  assumes "i < 32" and "k < 6"
  shows "display_scaler_nearest_neighbour m (coef_reg k i) = [0x40000000, 0, 0x00004000, 0x40000000, 0, 0x00004000] ! k"
  unfolding display_scaler_nearest_neighbour_def
  using assms by (intro family_same [OF nearest_stores_family]) auto

text \<open>What a client of the filter code may assume of it.\<close>

locale scaler_setup =
  fixes program :: "mmio \<Rightarrow> mmio"
  assumes program_unity: "unity_gain (program m)"
    and program_frame: "\<not> coef_range a \<Longrightarrow> program m a = m a"

lemma unity_gain_coef_reg:
  "unity_gain m \<longleftrightarrow> (\<forall>i < 32. gain (m (coef_reg 0 i)) + gain (m (coef_reg 1 i)) = 64 \<and>
     gain (m (coef_reg 3 i)) + gain (m (coef_reg 4 i)) = 64 \<and>
     gain (m (coef_reg 2 i)) = 64 \<and> gain (m (coef_reg 5 i)) = 64)"
  by (simp add: unity_gain_def coef_reg_simps del: One_nat_def)

lemma not_coef_reg: "\<not> coef_range a \<Longrightarrow> i < 32 \<Longrightarrow> k < 6 \<Longrightarrow> a \<noteq> coef_reg k i"
  using coef_reg_range by blast

interpretation sharp: scaler_setup "display_scaler_set_coeff hstep sub" for hstep sub
proof
  fix m
  show "unity_gain (display_scaler_set_coeff hstep sub m)"
    unfolding unity_gain_coef_reg
  proof (intro allI impI)
    fix i :: nat assume i: "i < 32"
    define j where "j = sun8i_vi_scaler_coef_index hstep * SUN8I_VI_SCALER_COEFF_COUNT + i"
    have j: "j < 480" using i coef_index_le [of hstep] by (simp add: j_def SUN8I_VI_SCALER_COEFF_COUNT_def)
    let ?n = "display_scaler_set_coeff hstep sub m"
    show "gain (?n (coef_reg 0 i)) + gain (?n (coef_reg 1 i)) = 64 \<and> gain (?n (coef_reg 3 i)) + gain (?n (coef_reg 4 i)) = 64 \<and>
        gain (?n (coef_reg 2 i)) = 64 \<and> gain (?n (coef_reg 5 i)) = 64"
      using table_unity [OF j] i
      by (cases "sub = 0") (simp_all add: display_scaler_set_coeff_def Let_def coef_values j_def [symmetric])
  qed
next
  fix a m assume "\<not> coef_range a"
  note frame = not_coef_reg [OF this]
  have "reg_writes (h_stores f) n a = n a" for f n
    by (intro family_other [OF h_stores_family] frame) auto
  moreover have "reg_writes (v_stores g) n a = n a" for g n
    by (intro family_other [OF v_stores_family] frame) auto
  ultimately show "display_scaler_set_coeff hstep sub m a = m a"
    by (simp add: display_scaler_set_coeff_def Let_def split_def)
qed

interpretation nearest: scaler_setup display_scaler_nearest_neighbour
proof
  have g: "gain 0x40000000 = 64" "gain 0 = 0" "gain 0x00004000 = 64"
    by (simp_all add: gain_def tap_def byte_of_def)
  show "unity_gain (display_scaler_nearest_neighbour m)" for m
    unfolding unity_gain_coef_reg by (simp add: nearest_values g)
  show "display_scaler_nearest_neighbour m a = m a" if "\<not> coef_range a" for a m
    unfolding display_scaler_nearest_neighbour_def
    by (intro family_other [OF nearest_stores_family] not_coef_reg [OF that]) auto
qed

end
