(* ===== verification/Tve_Regs.thy ===== *)
theory Tve_Regs
  imports Mmio
begin

text \<open>
  Registers, constants and gamma tables of the television encoder (\<^verbatim>\<open>tve.c\<close>).
\<close>

section \<open>Registers\<close>

definition TVE_BASE :: u32 where [addr_defs]: "TVE_BASE = 0x01e00000"
definition TVE_GCTRL :: u32 where [addr_defs]: "TVE_GCTRL = TVE_BASE + 0x000"
definition TVE_CFG0 :: u32 where [addr_defs]: "TVE_CFG0 = TVE_BASE + 0x004"
definition TVE_DAC_CFG0 :: u32 where [addr_defs]: "TVE_DAC_CFG0 = TVE_BASE + 0x008"
definition TVE_FILTER :: u32 where [addr_defs]: "TVE_FILTER = TVE_BASE + 0x00C"
definition TVE_CHROMA_FREQ :: u32 where [addr_defs]: "TVE_CHROMA_FREQ = TVE_BASE + 0x010"
definition TVE_PORCH_NUM :: u32 where [addr_defs]: "TVE_PORCH_NUM = TVE_BASE + 0x014"
definition TVE_UNKNOWN0 :: u32 where [addr_defs]: "TVE_UNKNOWN0 = TVE_BASE + 0x018"
definition TVE_LINE_NUM :: u32 where [addr_defs]: "TVE_LINE_NUM = TVE_BASE + 0x01C"
definition TVE_BLANK_BLACK_LEVEL :: u32 where [addr_defs]: "TVE_BLANK_BLACK_LEVEL = TVE_BASE + 0x020"
definition TVE_AUTO_DETECT_EN :: u32 where [addr_defs]: "TVE_AUTO_DETECT_EN = TVE_BASE + 0x030"
definition TVE_AUTO_DETECT_INT_STATUS :: u32 where [addr_defs]: "TVE_AUTO_DETECT_INT_STATUS = TVE_BASE + 0x034"
definition TVE_AUTO_DETECT_STATUS :: u32 where [addr_defs]: "TVE_AUTO_DETECT_STATUS = TVE_BASE + 0x038"
definition TVE_AUTO_DETECT_DEBOUNCE :: u32 where [addr_defs]: "TVE_AUTO_DETECT_DEBOUNCE = TVE_BASE + 0x03C"
definition TVE_COLOR_BURST :: u32 where [addr_defs]: "TVE_COLOR_BURST = TVE_BASE + 0x100"
definition TVE_VSYNC_NUM :: u32 where [addr_defs]: "TVE_VSYNC_NUM = TVE_BASE + 0x104"
definition TVE_NOTCH_FREQ :: u32 where [addr_defs]: "TVE_NOTCH_FREQ = TVE_BASE + 0x108"
definition TVE_CBR_LEVEL :: u32 where [addr_defs]: "TVE_CBR_LEVEL = TVE_BASE + 0x10C"
definition TVE_BURST_PHASE :: u32 where [addr_defs]: "TVE_BURST_PHASE = TVE_BASE + 0x110"
definition TVE_BURST_WIDTH :: u32 where [addr_defs]: "TVE_BURST_WIDTH = TVE_BASE + 0x114"
definition TVE_UNKNOWN2 :: u32 where [addr_defs]: "TVE_UNKNOWN2 = TVE_BASE + 0x118"
definition TVE_SYNC_VBI_LEVEL :: u32 where [addr_defs]: "TVE_SYNC_VBI_LEVEL = TVE_BASE + 0x11C"
definition TVE_WHITE_LEVEL :: u32 where [addr_defs]: "TVE_WHITE_LEVEL = TVE_BASE + 0x120"
definition TVE_ACTIVE_NUM :: u32 where [addr_defs]: "TVE_ACTIVE_NUM = TVE_BASE + 0x124"
definition TVE_CHROMA_BW_GAIN :: u32 where [addr_defs]: "TVE_CHROMA_BW_GAIN = TVE_BASE + 0x128"
definition TVE_NOTCH_WIDTH :: u32 where [addr_defs]: "TVE_NOTCH_WIDTH = TVE_BASE + 0x12C"
definition TVE_RESYNC_NUM :: u32 where [addr_defs]: "TVE_RESYNC_NUM = TVE_BASE + 0x130"

section \<open>Constants\<close>

definition TVE_PORCH_NUM_PAL :: u32 where "TVE_PORCH_NUM_PAL = 0x008a0018"
definition TVE_PORCH_NUM_NTSC :: u32 where "TVE_PORCH_NUM_NTSC = 0x00760020"
definition TVE_LINE_NUM_PAL :: u32 where "TVE_LINE_NUM_PAL = 0x00160271"
definition TVE_LINE_NUM_NTSC :: u32 where "TVE_LINE_NUM_NTSC = 0x0016020d"
definition TVE_BLANK_BLACK_LEVEL_PAL :: u32 where "TVE_BLANK_BLACK_LEVEL_PAL = 0x00fc00fc"
definition TVE_BLANK_BLACK_LEVEL_NTSC :: u32 where "TVE_BLANK_BLACK_LEVEL_NTSC = 0x00f0011a"
definition TVE_CBR_LEVEL_NTSC :: u32 where "TVE_CBR_LEVEL_NTSC = 0x0000004f"
definition TVE_BURST_WIDTH_COMPOSITE :: u32 where "TVE_BURST_WIDTH_COMPOSITE = 0x0016447e"
definition TVE_SYNC_VBI_LEVEL_NTSC :: u32 where "TVE_SYNC_VBI_LEVEL_NTSC = 0x001000f0"
definition TVE_ACTIVE_NUM_COMPOSITE :: u32 where "TVE_ACTIVE_NUM_COMPOSITE = 0x000005a0"

section \<open>Gamma tables\<close>

definition gamma_table_pal :: "u32 list" where
  "gamma_table_pal = [
     0x004E0A12, 0x00DC55E4, 0x0067BF86, 0x0004E7E6, 0x0023A82C, 0x00B7BA92, 0x0058D0C8, 0x00941BCE,
     0x00109A9E, 0x00172FDF, 0x0078F22D, 0x00C9D83E, 0x007A44B0, 0x001BC2AE, 0x00470C8F, 0x0049D62B,
     0x005DEB5B, 0x0000C3EE, 0x007F087E, 0x00446F42, 0x00C56806, 0x004B0E83, 0x00A61160, 0x00B82427,
     0x007827B0, 0x0007BF07, 0x006585BF, 0x006549C1, 0x00DAF450, 0x00163DA2, 0x00BAB2AA, 0x00AF30FC,
     0x004DDCB1, 0x00C5919C, 0x00345D7C, 0x009C76E3, 0x00F900E4, 0x006DB3BB, 0x004E5B0F, 0x002C1925,
     0x00578BF1, 0x00386BB1, 0x00CCE432, 0x004D4D85, 0x00FB9550, 0x00AAC83F, 0x009E18E2, 0x008A0B85,
     0x00AFE791, 0x009F679F, 0x00D89F58, 0x00E07BD8, 0x00F1A78E, 0x00A58C70, 0x0056D062, 0x0075EB96,
     0x00E36021, 0x00CE2E07, 0x000206F3, 0x00716FDB, 0x003E182C, 0x0024CCAE, 0x00D1EB41, 0x00681D20,
     0x00347074, 0x00DE0330, 0x00A1B90C, 0x00FEB55C, 0x00F2E598, 0x000BB02E, 0x00D63A3A, 0x00EA47CB,
     0x0023A18A, 0x00F1B1EE, 0x009DEFDA, 0x0086DE98, 0x003080E4, 0x00BC48C0, 0x0019ADB1, 0x00232D0A,
     0x001F56D9, 0x0002836D, 0x00F9E43B, 0x000A8D15, 0x00C5B1E8, 0x00DFCED6, 0x00185C7B, 0x007B884C,
     0x0015556A, 0x002EAB65, 0x0058FBFB, 0x006BE6D2, 0x002AB274, 0x004A81D5, 0x00AF37A2, 0x00D80086,
     0x004349B3, 0x008754F8, 0x005ABBDC, 0x00492046, 0x003158B8, 0x00C4040B, 0x00808E44, 0x006BB6B9,
     0x006E91EE, 0x000B3F4E, 0x00960C50, 0x00EE01CF, 0x006DB494, 0x00DA3BD1, 0x00F4683A, 0x00229714,
     0x002AA18B, 0x00C71E07, 0x008E8CAC, 0x00EBDDB7, 0x00156434, 0x000D0D40, 0x008594D8, 0x006CF215,
     0x006EE0AB, 0x0021244E, 0x0095E9BE, 0x00B14E1F, 0x00D23239, 0x000A4EAF, 0x00B200B8, 0x0000F340,
     0x008AD4EB, 0x00E336A9, 0x00A06590, 0x00E80846, 0x00247EE1, 0x00850869, 0x006C5AA3, 0x00730624,
     0x00D60A89, 0x0039871E, 0x00F46CA8, 0x00B76E7F, 0x00025151, 0x0044034F, 0x00227DFC, 0x004726CB,
     0x0099A84C, 0x006D677D, 0x0092253B, 0x000D0FA0, 0x00FA1331, 0x0044D2AA, 0x0012B2B2, 0x0042210A,
     0x00F8315C, 0x000F9097, 0x00BCFA41, 0x00DA3768, 0x00D77705, 0x00C68EEA, 0x0044D238, 0x00142103,
     0x00ED597C, 0x000199A7, 0x0045C11C, 0x008A01BE, 0x00AC2072, 0x00BF2BCA, 0x0031B260, 0x00ACD66C,
     0x00791058, 0x008EC01C, 0x00542658, 0x007E4833, 0x00A18814, 0x00AF9DEF, 0x004B0D3E, 0x006D9432,
     0x00DE85F3, 0x008B07A7, 0x0027D1DB, 0x0083AB20, 0x000EB9E3, 0x006BC30E, 0x00EC895E, 0x00CDEB04,
     0x00A7A9E4, 0x001BA87F, 0x0052CFE8, 0x007D8753, 0x0031D260, 0x00011AF8, 0x0092BB43, 0x00108905,
     0x007ADC80, 0x004E08EA, 0x00ACF77C, 0x006C4345, 0x0060E59C, 0x0084ACEE, 0x007830E1, 0x00674A14,
     0x0038C920, 0x00976ABF, 0x00D991F8, 0x005DFC88, 0x00B01873, 0x00E72A64, 0x001D6770, 0x00FFE539,
     0x00D470DC, 0x00D68DFE, 0x001F349D, 0x008D4DFC, 0x00DD567B, 0x0007CED6, 0x0069C799, 0x00F8AA2A,
     0x0019F69B, 0x004259CF, 0x00F044F7, 0x00368C70, 0x00894813, 0x0003BB07, 0x00E46987, 0x00821F0D,
     0x00CAFB7C, 0x00835768, 0x00E5F5AA, 0x00CF3300, 0x00E7AAB1, 0x008AF58C, 0x0045E5DA, 0x001A7D93,
     0x005BEC14, 0x00888ED1, 0x0044E10A, 0x0008CD1F, 0x0000D35E, 0x00E346BD, 0x008422C4, 0x00DCB12C,
     0x004A2B7E, 0x006605ED, 0x00787F35, 0x002A053B, 0x00808A30, 0x00C4017E, 0x003A0E29, 0x000AC883,
     0x003ADDE8, 0x00EB018D, 0x007EE978, 0x00ED6A8B, 0x006E50A4, 0x00D9D8D5, 0x007844CE, 0x00E0D57F]"

definition gamma_table_ntsc :: "u32 list" where
  "gamma_table_ntsc = [
     0x00464AB2, 0x004E15E4, 0x006FBF86, 0x0080E7C2, 0x0023A82C, 0x00B5AA92, 0x0058D0CA, 0x00F85BCE,
     0x0010DB9F, 0x00972FBE, 0x0078622D, 0x00C9D81E, 0x00FB44B0, 0x0019C2AE, 0x00460C8F, 0x004DD72B,
     0x0045E359, 0x002043EA, 0x00BF087C, 0x00C42F42, 0x00C56A26, 0x004A0E83, 0x00A61160, 0x00B83D27,
     0x0078A6B0, 0x0007BF03, 0x006505BF, 0x006749C9, 0x00DAF450, 0x00167DA6, 0x00BA92AB, 0x00BF70FC,
     0x006FDCB1, 0x0085919C, 0x0034557C, 0x008C7663, 0x00DB00E4, 0x006CB3BD, 0x001E590F, 0x002C1925,
     0x00478BF1, 0x00B87BE1, 0x00CCE032, 0x006D4D81, 0x00DB9552, 0x00AB883F, 0x009E19E2, 0x000A0E81,
     0x002FE793, 0x00BF369F, 0x00DA9B58, 0x00E05AD8, 0x00F1A78E, 0x00A58D78, 0x0016D062, 0x0075EB96,
     0x00636021, 0x00CE2E07, 0x000306F3, 0x003565C3, 0x003E1834, 0x00248CAE, 0x0081EB41, 0x00689D20,
     0x00307474, 0x00DF0320, 0x00A9A908, 0x00FEB55C, 0x0072F598, 0x000BB020, 0x00D73A3A, 0x00EA45CF,
     0x0023818A, 0x00F9B1EF, 0x009DAFDA, 0x0084C69E, 0x00B2A8E4, 0x00BC4AC8, 0x0019ADF1, 0x00022D28,
     0x001F54DB, 0x00008365, 0x00FBF413, 0x000AAD2D, 0x00C5B1E8, 0x00DFCE4E, 0x00185FFB, 0x007B884C,
     0x0015556C, 0x002EBB65, 0x0098FBFB, 0x002BE6D2, 0x000AB27C, 0x004A81F9, 0x00AF77A2, 0x00C93006,
     0x004349B3, 0x00A654B8, 0x004AFBDC, 0x00C92046, 0x00B158BA, 0x00E4040B, 0x00808EC4, 0x006AB6B9,
     0x00DE91CE, 0x00033F4E, 0x00D40850, 0x00CE01CF, 0x004DB495, 0x00DA7BD1, 0x00F4685A, 0x00A2173E,
     0x002A01AF, 0x00559E07, 0x008EACAC, 0x00EBDDBF, 0x0055643D, 0x00494D4A, 0x0085D0D8, 0x006CF217,
     0x006FF02B, 0x0021654E, 0x00D4F99E, 0x00B04E3F, 0x00C2323B, 0x000A0EAF, 0x00B200BA, 0x0004F248,
     0x0082D4EB, 0x00E336A9, 0x00B06591, 0x00A40842, 0x00247FE5, 0x00970C69, 0x00EC7AA3, 0x00330624,
     0x00D60A09, 0x0079C71E, 0x00F47CA8, 0x00B74E6F, 0x00001151, 0x0064234D, 0x00665CFD, 0x004726EB,
     0x0099A04C, 0x006F276D, 0x0092253B, 0x000D0FA0, 0x00F23331, 0x0044DAAA, 0x0016B2B2, 0x0042210A,
     0x00702B5C, 0x000D9097, 0x00BDFA41, 0x00DA3668, 0x00C75305, 0x00C68EEB, 0x004CD338, 0x0034210B,
     0x006D514C, 0x002199A7, 0x0045811C, 0x00AA00BE, 0x00BC3260, 0x00ADAB8A, 0x00B1B068, 0x00ACD44C,
     0x00790058, 0x009EC09C, 0x00142748, 0x003E8823, 0x00A98816, 0x00AF9CFF, 0x0049553E, 0x00ED952A,
     0x00DE85F6, 0x008B07A7, 0x0027D1CB, 0x0083BB60, 0x000EB1A1, 0x006BC70E, 0x00EC8956, 0x00D9FB04,
     0x00A78DE4, 0x000BA87F, 0x0052CFF8, 0x007D0743, 0x0031D360, 0x00111CBC, 0x0092BF41, 0x00109915,
     0x007ADCC8, 0x004E08EB, 0x00B8F77C, 0x00666367, 0x0060E5FC, 0x0084ACEE, 0x00F860E1, 0x00674A15,
     0x003CC9A4, 0x00877ABF, 0x00D991F8, 0x005DFC88, 0x00B08DD3, 0x00F72A64, 0x000D6770, 0x007FE539,
     0x00D474F8, 0x00548DBE, 0x003F3495, 0x009D4D7C, 0x00DD467B, 0x0007CED6, 0x0069C719, 0x00F8A82A,
     0x0019F613, 0x005279CF, 0x00F064F7, 0x00B68C70, 0x00894813, 0x0003BB07, 0x00E22987, 0x00861F4D,
     0x00CAF93C, 0x0083576C, 0x00E5F5A2, 0x00CF3300, 0x00E7AA91, 0x008AF189, 0x0075E0DA, 0x001879D3,
     0x004AEC7C, 0x000C8E52, 0x0044E50A, 0x0088CD5F, 0x0010F37C, 0x00E2569D, 0x008422C0, 0x00DCB12C,
     0x004A2F7E, 0x002605CD, 0x00FA7F37, 0x002A042F, 0x00888AF0, 0x0084017E, 0x00384E29, 0x0082D80B,
     0x00BA5DE8, 0x00F9018D, 0x007EE978, 0x00EC6A8B, 0x006E50A4, 0x00D9D8D5, 0x0078444E, 0x00E0D55F]"

text \<open>Each table has 256 entries, of 24 bits each.\<close>

lemma length_gamma [simp]: "length gamma_table_pal = 256" "length gamma_table_ntsc = 256"
  by (simp_all add: gamma_table_pal_def gamma_table_ntsc_def)

end
