(* ===== verification/Display.thy ===== *)
theory Display
  imports Display_Filter Tve_Regs Interrupts
begin

text \<open>
  The display driver for the digital output (\<^verbatim>\<open>display.c\<close>) and its counterpart for the television
  output (\<^verbatim>\<open>tve.c\<close>): modes, double buffering and the scaler. \<open>calloc\<close> and the HDMI set-up of lib-h3
  (\<^verbatim>\<open>h3_de2_init\<close>) are parameters. The step of the scaler is computed in floating point in the source;
  the operands have at most 51 bits, so that the rounded quotient never reaches the next integer and
  the truncated result is the integer quotient.
\<close>

section \<open>State\<close>

record virt_mode =
  fb_width :: int
  fb_height :: int
  fb_bytes :: int
  vm_x :: int
  vm_y :: int
  vm_ovx :: int
  vm_ovy :: int

record display_timing =
  hdmi_monitor :: bool
  pixelclock :: u32
  hactive :: u32
  hback_porch :: u32
  hfront_porch :: u32
  hsync_len :: u32
  vactive :: u32
  vback_porch :: u32
  vfront_porch :: u32
  vsync_len :: u32
  timing_flags :: u32

record display_phys_mode =
  pm_pixclk :: int
  pm_hactive :: int
  pm_hfront_porch :: int
  pm_hsync_width :: int
  pm_hback_porch :: int
  pm_hsync_pol :: bool
  pm_vactive :: int
  pm_vfront_porch :: int
  pm_vsync_width :: int
  pm_vback_porch :: int
  pm_vsync_pol :: bool
  pm_hdmi :: bool

record display =
  dregs :: mmio
  dgic :: gic
  display_is_digital :: bool
  display_is_pal :: bool
  default_timing :: display_timing
  framebuffer1 :: u32
  framebuffer2 :: u32
  display_active_buffer :: u32
  display_visible_buffer :: u32
  dsp :: virt_mode
  filter_enabled :: bool
  display_single_buffer :: bool

definition DISPLAY_PHYS_RES_X :: "display \<Rightarrow> u32" where
  "DISPLAY_PHYS_RES_X d = (if display_is_digital d then hactive (default_timing d) else 720)"

definition DISPLAY_PHYS_RES_Y :: "display \<Rightarrow> u32" where
  "DISPLAY_PHYS_RES_Y d = (if display_is_digital d then vactive (default_timing d) else (if display_is_pal d then 576 else 480))"

definition DE_SIZE_PHYS :: "display \<Rightarrow> u32" where
  "DE_SIZE_PHYS d = DE_SIZE (DISPLAY_PHYS_RES_X d) (DISPLAY_PHYS_RES_Y d)"

definition dsp_size :: "display \<Rightarrow> u32" where
  "dsp_size d = DE_SIZE (word_of_int (vm_x (dsp d))) (word_of_int (vm_y (dsp d)))"

text \<open>\<open>(uint32_t)((double)n * (double)0x100000 / (double)res)\<close>.\<close>

definition scale_step :: "int \<Rightarrow> u32 \<Rightarrow> u32" where
  "scale_step n res = word_of_int (n * 0x100000 div uint res)"

text \<open>The byte address of the first visible pixel in a buffer.\<close>

definition window_base :: "u32 \<Rightarrow> display \<Rightarrow> u32" where
  "window_base buf d = buf + 4 * word_of_int (fb_width (dsp d) * vm_ovy (dsp d) + vm_ovx (dsp d))"

section \<open>Television output\<close>

definition tve_update_buffer :: "mmio \<Rightarrow> mmio" where
  "tve_update_buffer m = reg_write DE_MIXER1_GLB_DBUFFER 1 m"

definition tve_clocks :: "mmio \<Rightarrow> mmio" where
  "tve_clocks m =
     reg_or BUS_SOFT_RST1 (BIT 12 OR BIT 9 OR BIT 4)
       (reg_or BUS_CLK_GATING1 (BIT 12 OR BIT 9 OR BIT 4)
         (reg_writes [
     (DE_CLK, 0x81000001),
     (TCON0_CLK, 0x00000000),
     (PLL_VIDEO_CTRL, 0x93006207),
     (PLL_PERIPH0_CTRL, 0x90041811),
     (PLL_PERIPH1_CTRL, 0x90041811),
     (PLL_DE_CTRL, 0x91002300),
     (TVE_CLK, 0x80000003)] m))"

definition tve_encoder :: "bool \<Rightarrow> (u32 \<times> u32) list" where
  "tve_encoder pal = [
     (TVE_GCTRL, 0x00000301),
     (TVE_CFG0, if pal then 0x07070001 else 0x07070000),
     (TVE_DAC_CFG0, 0x433E12B1),
     (TVE_FILTER, 0x30001400),
     (TVE_CHROMA_FREQ, if pal then 0x2A098ACB else 0x21F07C1F),
     (TVE_PORCH_NUM, if pal then TVE_PORCH_NUM_PAL else TVE_PORCH_NUM_NTSC),
     (TVE_UNKNOWN0, 0x00000016),
     (TVE_LINE_NUM, if pal then TVE_LINE_NUM_PAL else TVE_LINE_NUM_NTSC),
     (TVE_BLANK_BLACK_LEVEL, if pal then TVE_BLANK_BLACK_LEVEL_PAL else TVE_BLANK_BLACK_LEVEL_NTSC),
     (TVE_AUTO_DETECT_EN, 0x00000001),
     (TVE_AUTO_DETECT_INT_STATUS, 0x00000000),
     (TVE_AUTO_DETECT_STATUS, 0x00000001),
     (TVE_AUTO_DETECT_DEBOUNCE, 0x00000009),
     (TVE_BASE + 0x00f8, 0x00000280),
     (TVE_BASE + 0x00fc, 0x028F00FF),
     (TVE_COLOR_BURST, if pal then 0x00000000 else 0x00000001),
     (TVE_VSYNC_NUM, if pal then 0x00000001 else 0x00000000),
     (TVE_NOTCH_FREQ, if pal then 0x00000005 else 0x00000002),
     (TVE_CBR_LEVEL, if pal then 0x00002929 else TVE_CBR_LEVEL_NTSC),
     (TVE_BURST_PHASE, 0x00000000),
     (TVE_BURST_WIDTH, TVE_BURST_WIDTH_COMPOSITE),
     (TVE_UNKNOWN2, if pal then 0x0000A8A8 else 0x0000A0A0),
     (TVE_SYNC_VBI_LEVEL, if pal then 0x001000FC else TVE_SYNC_VBI_LEVEL_NTSC),
     (TVE_WHITE_LEVEL, 0x01E80320),
     (TVE_ACTIVE_NUM, TVE_ACTIVE_NUM_COMPOSITE),
     (TVE_CHROMA_BW_GAIN, if pal then 0x00010000 else 0),
     (TVE_NOTCH_WIDTH, 0x00000101),
     (TVE_RESYNC_NUM, if pal then 0x3005000A else 0x30050368)]"

definition tve_mixer :: "u32 \<Rightarrow> (u32 \<times> u32) list" where
  "tve_mixer sz = [
     (DE_MIXER1_GLB_CTL, 0x00001001),
     (DE_MIXER1_GLB_SIZE, sz),
     (DE_MIXER1_BLD_FILL_COLOR_CTL, 0x00000101),
     (DE_MIXER1_BLD_FILL_COLOR 0, 0xFF000000),
     (DE_MIXER1_BLD_CH_ISIZE 0, sz),
     (DE_MIXER1_BLD_FILL_COLOR 1, 0xFF000000),
     (DE_MIXER1_BLD_CH_RTCTL, 0x00000001),
     (DE_MIXER1_BLD_PREMUL_CTL, 0x00000000),
     (DE_MIXER1_BLD_BK_COLOR, 0xFF000000),
     (DE_MIXER1_BLD_SIZE, sz),
     (DE_MIXER1_BLD_CTL 0, 0x03010301),
     (DE_MIXER1_OVL_UI_ATTR_CTL 0, 0xFF000003),
     (DE_MIXER1_OVL_UI_MBSIZE 0, sz),
     (DE_MIXER1_OVL_UI_PITCH 0, 0x00000B40),
     (DE_MIXER1_OVL_UI_TOP_LADD 0, 0x40000000),
     (DE_MIXER1_OVL_UI_SIZE, sz)]"

definition tve_colour :: "(u32 \<times> u32) list" where
  "tve_colour = [
     (0x012b0000, 0x00000001),
     (0x012b0004, 0x00000001),
     (0x012b0008, 0x00000001),
     (0x012b000c, 0x00000001),
     (0x012b0010, 0x00000107),
     (0x012b0014, 0x00000204),
     (0x012b0018, 0x00000064),
     (0x012b001c, 0x00004200),
     (0x012b0020, 0x00001F68),
     (0x012b0024, 0x00001ED6),
     (0x012b0028, 0x000001C2),
     (0x012b002c, 0x00020200),
     (0x012b0030, 0x000001C2),
     (0x012b0034, 0x00001E87),
     (0x012b0038, 0x00001FB7),
     (0x012b003c, 0x00020200),
     (0x012b0040, 0x00020200)]"

definition tve_lcd :: "bool \<Rightarrow> u32 \<Rightarrow> (u32 \<times> u32) list" where
  "tve_lcd pal turned = [
     (LCD1_GCTL, 0x80000000),
     (LCD1_TCON1_CTL, 0x800001F0),
     (LCD1_TCON1_BASIC0, turned),
     (LCD1_TCON1_BASIC1, turned),
     (LCD1_TCON1_BASIC2, turned),
     (LCD1_TCON1_BASIC3, if pal then 0x035F0083 else 0x03590079),
     (LCD1_TCON1_BASIC4, if pal then 0x04E2002B else 0x041A0023),
     (LCD1_TCON1_BASIC5, if pal then 0x003F0004 else 0x003D0005),
     (LCD1_TCON1_PS_SYNC, 0x00010001),
     (LCD1_TCON1_IO_POL, 0x04000000),
     (LCD1_TCON1_IO_TRI, 0xFFFFFFFF),
     (LCD1_TCON_CEU_CTL, 0x80000000),
     (LCD1_TCON_CEU_COEF_MUL 0, 0x00000100),
     (LCD1_TCON_CEU_COEF_MUL 5, 0x00000100),
     (LCD1_TCON_CEU_COEF_MUL 10, 0x00000100),
     (LCD1_TCON_CEU_COEF_RANG 0, 0x001000EB),
     (LCD1_TCON_CEU_COEF_RANG 1, 0x001000F0),
     (LCD1_TCON_CEU_COEF_RANG 2, 0x001000F0)]"

definition tve_gamma :: "bool \<Rightarrow> (u32 \<times> u32) list" where
  "tve_gamma pal = map (\<lambda>i. (LCD1_TCON1_GAMMA_TABLE i, if pal then gamma_table_pal ! i else gamma_table_ntsc ! i)) [0..<0x80]"

definition tve_init :: "bool \<Rightarrow> display \<Rightarrow> display option" where
  "tve_init pal d0 =
     (let d = d0\<lparr>display_is_pal := pal\<rparr>;
          m1 = reg_writes (tve_encoder pal) (reg_zero_range TVE_BASE (0x140 div 4 + 1) (tve_clocks (dregs d)));
          m2 = reg_writes [(DE_SCLK_GATE, 2), (DE_HCLK_GATE, 2), (DE_AHB_RESET, 4), (DE_SCLK_DIV, 0), (DE_DE2TCON_MUX, 0), (DE_CMD_CTL, 0)] m1;
          m3 = reg_writes tve_colour (reg_writes (tve_mixer (DE_SIZE_PHYS d)) (reg_zero_range DE_MIXER1 (0xc000 div 4) m2));
          m4 = reg_writes (tve_lcd pal (DE_SIZE (DISPLAY_PHYS_RES_Y d) (DISPLAY_PHYS_RES_X d))) (reg_zero_range 0x01c0d000 (0x1000 div 4) m3);
          m5 = tve_update_buffer (reg_writes (tve_gamma pal) m4);
          m6 = reg_write LCD1_GINT0 (BIT 30) (reg_write LCD1_GINT1 1 m5)
      in map_option (\<lambda>g. d\<lparr>dregs := m6, dgic := g\<rparr>) (irq_enable 119 (dgic d)))"

definition tve_de2_init :: "display \<Rightarrow> display" where
  "tve_de2_init d =
     (let m1 = reg_writes [
            (DE_MIXER1_GLB_SIZE, DE_SIZE_PHYS d),
            (DE_MIXER1_BLD_SIZE, DE_SIZE_PHYS d),
            (DE_MIXER1_BLD_CH_ISIZE 0, DE_SIZE_PHYS d),
            (DE_MIXER1_OVL_UI_MBSIZE 0, dsp_size d),
            (DE_MIXER1_OVL_UI_COOR 0, 0),
            (DE_MIXER1_OVL_UI_PITCH 0, word_of_int (fb_width (dsp d) * 4)),
            (DE_MIXER1_OVL_UI_SIZE, dsp_size d),
            (DE_MIXER1_UIS_CTRL 0, 0),
            (DE_MIXER1_UIS_OUT_SIZE 0, DE_SIZE_PHYS d),
            (DE_MIXER1_UIS_IN_SIZE 0, dsp_size d),
            (DE_MIXER1_UIS_HSTEP 0, scale_step (vm_x (dsp d)) (DISPLAY_PHYS_RES_X d)),
            (DE_MIXER1_UIS_VSTEP 0, scale_step (vm_y (dsp d)) (DISPLAY_PHYS_RES_Y d))] (dregs d);
          m2 = reg_writes (map (\<lambda>n. (DE_MIXER1_UIS_HCOEF 0 n, 0x40000000)) [0..<16]) m1
      in d\<lparr>dregs := tve_update_buffer (reg_write (DE_MIXER1_UIS_CTRL 0) 0x11 m2)\<rparr>)"

definition tve_set_visible_buffer :: "u32 \<Rightarrow> mmio \<Rightarrow> mmio" where
  "tve_set_visible_buffer buf m = reg_write (DE_MIXER1_OVL_UI_BOT_LADD 0) buf (reg_write (DE_MIXER1_OVL_UI_TOP_LADD 0) buf m)"

section \<open>Digital output\<close>

definition de2_update_filter :: "int \<Rightarrow> display \<Rightarrow> display" where
  "de2_update_filter sub d =
     (let m = (if \<not> filter_enabled d then display_scaler_nearest_neighbour (dregs d)
               else display_scaler_set_coeff (dregs d DE_MIXER0_VS_C_HSTEP) sub (dregs d))
      in d\<lparr>dregs := reg_write DE_MIXER0_VS_CTRL (1 OR BIT 4) m\<rparr>)"

definition display_enable_filter :: "int \<Rightarrow> display \<Rightarrow> display" where
  "display_enable_filter onoff d =
     (let d1 = de2_update_filter (onoff - 1) (d\<lparr>filter_enabled := (onoff \<noteq> 0)\<rparr>)
      in d1\<lparr>dregs := reg_write DE_MIXER0_GLB_DBUFFER 1 (dregs d1)\<rparr>)"

definition de2_stores :: "display \<Rightarrow> (u32 \<times> u32) list" where
  "de2_stores d = [
     (DE_MIXER0_GLB_CTL, 1),
     (DE_MIXER0_GLB_SIZE, DE_SIZE_PHYS d),
     (DE_MIXER0_BLD_FILL_COLOR_CTL, 0x100),
     (DE_MIXER0_BLD_CH_RTCTL, 0),
     (DE_MIXER0_BLD_SIZE, DE_SIZE_PHYS d),
     (DE_MIXER0_BLD_CH_ISIZE 0, DE_SIZE_PHYS d),
     (DE_MIXER0_OVL_V_ATTCTL 0, BIT 15 OR BIT 0),
     (DE_MIXER0_OVL_V_MBSIZE 0, dsp_size d),
     (DE_MIXER0_OVL_V_COOR 0, 0),
     (DE_MIXER0_OVL_V_PITCH0 0, word_of_int (fb_width (dsp d) * 4)),
     (DE_MIXER0_OVL_V_TOP_LADD0 0, window_base (framebuffer1 d) d),
     (DE_MIXER0_OVL_V_SIZE, dsp_size d),
     (DE_MIXER0_VS_CTRL, 1),
     (DE_MIXER0_VS_OUT_SIZE, DE_SIZE_PHYS d),
     (DE_MIXER0_VS_Y_SIZE, dsp_size d),
     (DE_MIXER0_VS_Y_HSTEP, scale_step (vm_x (dsp d)) (DISPLAY_PHYS_RES_X d)),
     (DE_MIXER0_VS_Y_VSTEP, scale_step (vm_y (dsp d)) (DISPLAY_PHYS_RES_Y d)),
     (DE_MIXER0_VS_C_SIZE, dsp_size d),
     (DE_MIXER0_VS_C_HSTEP, scale_step (vm_x (dsp d)) (DISPLAY_PHYS_RES_X d)),
     (DE_MIXER0_VS_C_VSTEP, scale_step (vm_y (dsp d)) (DISPLAY_PHYS_RES_Y d))]"

definition de2_init :: "display \<Rightarrow> display" where
  "de2_init d =
     (let m1 = reg_clear DE_DE2TCON_MUX (BIT 0) (reg_or DE_HCLK_GATE (BIT 0) (reg_or DE_SCLK_GATE (BIT 0) (reg_or DE_AHB_RESET (BIT 0) (dregs d))));
          m2 = reg_writes (de2_stores d) (reg_zero_range DE_MIXER0 (0xC000 div 4) m1);
          d1 = de2_update_filter 0 (d\<lparr>dregs := m2\<rparr>)
      in d1\<lparr>dregs := reg_write DE_MIXER0_GLB_DBUFFER 1 (dregs d1)\<rparr>)"

text \<open>The timing for a mode given by the caller, and the default of 800 by 600 pixels.\<close>

definition mode_timing :: "display_phys_mode \<Rightarrow> display_timing" where
  "mode_timing p = \<lparr>hdmi_monitor = pm_hdmi p, pixelclock = word_of_int (pm_pixclk p), hactive = word_of_int (pm_hactive p),
     hback_porch = word_of_int (pm_hback_porch p), hfront_porch = word_of_int (pm_hfront_porch p),
     hsync_len = word_of_int (pm_hsync_width p), vactive = word_of_int (pm_vactive p),
     vback_porch = word_of_int (pm_vback_porch p), vfront_porch = word_of_int (pm_vfront_porch p),
     vsync_len = word_of_int (pm_vsync_width p),
     timing_flags = (if pm_hsync_pol p then push_bit 1 1 else push_bit 0 1) OR (if pm_vsync_pol p then push_bit 3 1 else push_bit 2 1)\<rparr>"

definition svga_timing :: display_timing where
  "svga_timing = \<lparr>hdmi_monitor = True, pixelclock = 40000000, hactive = 800, hback_porch = 88, hfront_porch = 40,
     hsync_len = 128, vactive = 600, vback_porch = 23, vfront_porch = 1, vsync_len = 4,
     timing_flags = push_bit 0 1 OR push_bit 2 1\<rparr>"

text \<open>
  \<open>h3_de2_init\<close> sets up the HDMI controller and returns 0 if it finds a monitor. \<open>Inl\<close> is an access
  outside the interrupt controller's registers.
\<close>

definition display_init :: "(display_timing \<Rightarrow> u32 \<Rightarrow> mmio \<Rightarrow> int \<times> mmio) \<Rightarrow> display_phys_mode option \<Rightarrow> display \<Rightarrow> (int \<times> display) option" where
  "display_init h3_de2_init mode d =
     (if mode \<noteq> None \<and> \<not> display_is_digital d then Some (0, d)
      else
        let t = (case mode of Some p \<Rightarrow> mode_timing p | None \<Rightarrow> svga_timing);
            (rc, m) = h3_de2_init t 0x40000000 (dregs d);
            d1 = d\<lparr>default_timing := t, dregs := m\<rparr>
        in if rc = 0 then
             map_option (\<lambda>g. (0, d1\<lparr>display_is_digital := True, dregs := reg_write LCD0_GINT0 (BIT 30) (reg_write LCD0_GINT1 1 m), dgic := g\<rparr>))
               (irq_enable 118 (dgic d1))
           else Some (- 1, d1\<lparr>display_is_digital := False\<rparr>))"

text \<open>\<open>b1\<close> and \<open>b2\<close> are the results of the two calls of \<open>calloc\<close>.\<close>

definition display_set_mode :: "int \<Rightarrow> int \<Rightarrow> int \<Rightarrow> int \<Rightarrow> u32 \<Rightarrow> u32 \<Rightarrow> display \<Rightarrow> display" where
  "display_set_mode x y ovx ovy b1 b2 d =
     (let d1 = d\<lparr>dsp := \<lparr>fb_width = x + ovx * 2, fb_height = y + ovy, fb_bytes = (x + ovx * 2) * (y + ovy) * 4,
                   vm_x = x, vm_y = y, vm_ovx = ovx, vm_ovy = ovy\<rparr>,
                 framebuffer1 := b1, framebuffer2 := b2, display_active_buffer := b1\<rparr>
      in if display_is_digital d1 then de2_init d1 else tve_de2_init d1)"

definition display_swap_buffers :: "display \<Rightarrow> display" where
  "display_swap_buffers d0 =
     (let d1 = (if display_single_buffer d0 then d0\<lparr>display_active_buffer := framebuffer1 d0\<rparr> else d0);
          shown = display_active_buffer d1;
          d2 = d1\<lparr>display_visible_buffer := shown,
                  dregs := (if display_is_digital d1 then reg_write (DE_MIXER0_OVL_V_TOP_LADD0 0) (window_base shown d1) (dregs d1)
                            else tve_set_visible_buffer (window_base shown d1) (dregs d1))\<rparr>;
          d3 = (if display_single_buffer d2 then d2
                else if display_active_buffer d2 = framebuffer1 d2 then d2\<lparr>display_active_buffer := framebuffer2 d2\<rparr>
                else if display_active_buffer d2 = framebuffer2 d2 then d2\<lparr>display_active_buffer := framebuffer1 d2\<rparr>
                else d2)
      in d3\<lparr>dregs := (if display_is_digital d3 then reg_write DE_MIXER0_GLB_DBUFFER 1 (dregs d3) else tve_update_buffer (dregs d3))\<rparr>)"

text \<open>\<open>memset(display_active_buffer, 0, dsp.fb_bytes)\<close>.\<close>

definition display_clear_active_buffer :: "display \<Rightarrow> mem \<Rightarrow> mem" where
  "display_clear_active_buffer d m = store_bytes m (display_active_buffer d) (replicate (nat (fb_bytes (dsp d))) 0)"

section \<open>The scanned window\<close>

text \<open>The address the engine reads pixel \<open>c\<close> of line \<open>r\<close> from, in the mixer of the output in use.\<close>

definition scan_address :: "display \<Rightarrow> int \<Rightarrow> int \<Rightarrow> u32" where
  "scan_address d r c =
     (if display_is_digital d
      then dregs d (DE_MIXER0_OVL_V_TOP_LADD0 0) + word_of_int r * dregs d (DE_MIXER0_OVL_V_PITCH0 0) + 4 * word_of_int c
      else dregs d (DE_MIXER1_OVL_UI_TOP_LADD 0) + word_of_int r * dregs d (DE_MIXER1_OVL_UI_PITCH 0) + 4 * word_of_int c)"

text \<open>The pitch in use, a register that only the mode changes.\<close>

definition pitch :: "display \<Rightarrow> u32" where
  "pitch d = (if display_is_digital d then dregs d (DE_MIXER0_OVL_V_PITCH0 0) else dregs d (DE_MIXER1_OVL_UI_PITCH 0))"

lemma scaler_addresses_outside:
  "\<not> coef_range (DE_MIXER0_OVL_V_PITCH0 0)" "\<not> coef_range (DE_MIXER0_OVL_V_TOP_LADD0 0)"
  "\<not> coef_range DE_MIXER0_VS_CTRL" "\<not> coef_range DE_MIXER0_GLB_DBUFFER"
  by (simp_all add: coef_range_def vs_offset_def addr_defs)

lemma unity_gain_reg_write: "\<not> coef_range a \<Longrightarrow> unity_gain m \<Longrightarrow> unity_gain (reg_write a v m)"
proof -
  assume a: "\<not> coef_range a" and u: "unity_gain m"
  have "reg_write a v m (coef_reg k i) = m (coef_reg k i)" if "i < 32" "k < 6" for i k
    using not_coef_reg [OF a that] by simp
  with u show "unity_gain (reg_write a v m)" unfolding unity_gain_coef_reg by simp
qed

lemma unity_gain_update_filter: "unity_gain (dregs (de2_update_filter sub d))"
  unfolding de2_update_filter_def Let_def
  using sharp.program_unity nearest.program_unity
  by (auto intro!: unity_gain_reg_write simp: scaler_addresses_outside)

lemma update_filter_frame:
  "\<not> coef_range a \<Longrightarrow> a \<noteq> DE_MIXER0_VS_CTRL \<Longrightarrow> dregs (de2_update_filter sub d) a = dregs d a"
  by (simp add: de2_update_filter_def Let_def sharp.program_frame nearest.program_frame)

lemma update_filter_sel [simp]:
  "dsp (de2_update_filter sub d) = dsp d" "framebuffer1 (de2_update_filter sub d) = framebuffer1 d"
  "framebuffer2 (de2_update_filter sub d) = framebuffer2 d" "display_is_digital (de2_update_filter sub d) = display_is_digital d"
  "display_active_buffer (de2_update_filter sub d) = display_active_buffer d"
  "display_single_buffer (de2_update_filter sub d) = display_single_buffer d"
  by (simp_all add: de2_update_filter_def Let_def)

section \<open>Double buffering\<close>

text \<open>What a mode establishes and every swap keeps: the buffers, the mode and the pitch.\<close>

definition mode_ok :: "int \<Rightarrow> int \<Rightarrow> int \<Rightarrow> int \<Rightarrow> u32 \<Rightarrow> u32 \<Rightarrow> display \<Rightarrow> bool" where
  "mode_ok x y ovx ovy b1 b2 d \<longleftrightarrow>
     framebuffer1 d = b1 \<and> framebuffer2 d = b2 \<and> pitch d = word_of_int ((x + ovx * 2) * 4) \<and>
     dsp d = \<lparr>fb_width = x + ovx * 2, fb_height = y + ovy, fb_bytes = (x + ovx * 2) * (y + ovy) * 4,
       vm_x = x, vm_y = y, vm_ovx = ovx, vm_ovy = ovy\<rparr>"

lemma mode_ok_set_mode: "mode_ok x y ovx ovy b1 b2 (display_set_mode x y ovx ovy b1 b2 d)"
proof (cases "display_is_digital d")
  case True
  have a: "DE_MIXER0_OVL_V_PITCH0 0 \<noteq> DE_MIXER0_VS_CTRL" "DE_MIXER0_OVL_V_PITCH0 0 \<noteq> DE_MIXER0_GLB_DBUFFER" by (simp_all add: addr_defs)
  from True show ?thesis
    by (simp add: mode_ok_def display_set_mode_def Let_def de2_init_def pitch_def update_filter_frame scaler_addresses_outside a)
       (simp add: de2_stores_def addr_defs reg_write_def)
next
  case False
  have "reg_writes (map (\<lambda>n. (DE_MIXER1_UIS_HCOEF 0 n, 0x40000000)) [0..<16]) m (DE_MIXER1_OVL_UI_PITCH 0) = m (DE_MIXER1_OVL_UI_PITCH 0)" for m
    by (rule reg_writes_other) (simp add: addr_defs upt_rec)
  with False show ?thesis
    by (simp add: mode_ok_def display_set_mode_def Let_def tve_de2_init_def pitch_def tve_update_buffer_def)
       (simp add: addr_defs reg_write_def)
qed

lemma set_mode_sel:
  "display_active_buffer (display_set_mode x y ovx ovy b1 b2 d) = b1"
  "display_is_digital (display_set_mode x y ovx ovy b1 b2 d) = display_is_digital d"
  "display_single_buffer (display_set_mode x y ovx ovy b1 b2 d) = display_single_buffer d"
  by (simp_all add: display_set_mode_def Let_def de2_init_def tve_de2_init_def)

lemma swap_sel:
  "display_is_digital (display_swap_buffers d) = display_is_digital d"
  "display_single_buffer (display_swap_buffers d) = display_single_buffer d"
  by (simp_all add: display_swap_buffers_def Let_def)

lemma swap_addresses:
  "DE_MIXER0_OVL_V_PITCH0 0 \<noteq> DE_MIXER0_OVL_V_TOP_LADD0 0" "DE_MIXER0_OVL_V_PITCH0 0 \<noteq> DE_MIXER0_GLB_DBUFFER"
  "DE_MIXER1_OVL_UI_PITCH 0 \<noteq> DE_MIXER1_OVL_UI_TOP_LADD 0" "DE_MIXER1_OVL_UI_PITCH 0 \<noteq> DE_MIXER1_OVL_UI_BOT_LADD 0"
  "DE_MIXER1_OVL_UI_PITCH 0 \<noteq> DE_MIXER1_GLB_DBUFFER" "DE_MIXER0_OVL_V_TOP_LADD0 0 \<noteq> DE_MIXER0_GLB_DBUFFER"
  "DE_MIXER1_OVL_UI_TOP_LADD 0 \<noteq> DE_MIXER1_OVL_UI_BOT_LADD 0" "DE_MIXER1_OVL_UI_TOP_LADD 0 \<noteq> DE_MIXER1_GLB_DBUFFER"
  by (simp_all add: addr_defs)

lemma swap_keeps_mode: "mode_ok x y ovx ovy b1 b2 d \<Longrightarrow> mode_ok x y ovx ovy b1 b2 (display_swap_buffers d)"
  by (cases "display_is_digital d")
     (simp_all add: mode_ok_def display_swap_buffers_def Let_def pitch_def tve_set_visible_buffer_def tve_update_buffer_def swap_addresses)

lemma swap_shows:
  "display_visible_buffer (display_swap_buffers d) = (if display_single_buffer d then framebuffer1 d else display_active_buffer d)"
  "scan_address (display_swap_buffers d) r c =
     window_base (if display_single_buffer d then framebuffer1 d else display_active_buffer d) d + word_of_int r * pitch d + 4 * word_of_int c"
  by (simp_all add: display_swap_buffers_def Let_def scan_address_def pitch_def tve_set_visible_buffer_def tve_update_buffer_def
      window_base_def swap_addresses)

lemma swap_alternates:
  assumes "\<not> display_single_buffer d"
  shows "display_active_buffer (display_swap_buffers d) =
    (if display_active_buffer d = framebuffer1 d then framebuffer2 d
     else if display_active_buffer d = framebuffer2 d then framebuffer1 d else display_active_buffer d)"
  using assms by (simp add: display_swap_buffers_def Let_def)

text \<open>A buffer of the mode's size contains every pixel of the window.\<close>

lemma window_inside:
  assumes "0 < x" "0 < y" "0 \<le> ovx" "0 \<le> ovy" and r: "0 \<le> r" "r < y" and c: "0 \<le> c" "c < x"
    and m: "mode_ok x y ovx ovy b1 b2 d" and room: "int (unat buf) + (x + ovx * 2) * (y + ovy) * 4 \<le> 2 ^ 32"
  shows "unat buf \<le> unat (window_base buf d + word_of_int r * pitch d + 4 * word_of_int c)"
    and "int (unat (window_base buf d + word_of_int r * pitch d + 4 * word_of_int c)) + 4 \<le> int (unat buf) + (x + ovx * 2) * (y + ovy) * 4"
proof -
  let ?w = "x + ovx * 2"
  define k where "k = ?w * (ovy + r) + ovx + c"
  have eq: "window_base buf d + word_of_int r * pitch d + 4 * word_of_int c = buf + word_of_int (4 * k)"
    using m by (simp add: mode_ok_def window_base_def k_def algebra_simps)
  have k0: "0 \<le> k" using assms by (simp add: k_def)
  have "?w * (ovy + r) \<le> ?w * (ovy + (y - 1))" using assms by (intro mult_left_mono) simp_all
  moreover have "?w * (ovy + (y - 1)) = ?w * (y + ovy) - ?w" by (simp add: algebra_simps)
  ultimately have k: "k + 1 \<le> ?w * (y + ovy)" using assms by (simp add: k_def)
  then have k4: "4 * k + 4 \<le> ?w * (y + ovy) * 4" by simp
  have small: "int (unat buf) + 4 * k < 2 ^ 32" using k4 room by simp
  have "unat (buf + word_of_int q) = unat buf + nat q" if q: "0 \<le> q" "int (unat buf) + q < 2 ^ 32" for q
  proof -
    have s: "uint buf + q < 4294967296" using q(2) by simp
    then have "q < 4294967296" using uint_ge_0 [of buf] by linarith
    then have "q mod 4294967296 = q" using q(1) by (rule mod_pos_pos_trivial [rotated])
    then have "uint (buf + word_of_int q) = uint buf + q"
      using s q(1) by (simp add: uint_word_ariths uint_word_of_int mod_pos_pos_trivial)
    then show ?thesis using q(1) by (simp add: nat_add_distrib flip: nat_uint_eq)
  qed
  from this [of "4 * k"] have "unat (buf + word_of_int (4 * k)) = unat buf + nat (4 * k)" using small k0 by simp
  with eq k4 k0 show "unat buf \<le> unat (window_base buf d + word_of_int r * pitch d + 4 * word_of_int c)"
    "int (unat (window_base buf d + word_of_int r * pitch d + 4 * word_of_int c)) + 4 \<le> int (unat buf) + ?w * (y + ovy) * 4"
    by simp_all
qed

lemma swaps:
  assumes "\<not> display_single_buffer d" and "b1 \<noteq> b2"
  shows "let d' = (display_swap_buffers ^^ k) (display_set_mode x y ovx ovy b1 b2 d) in
    mode_ok x y ovx ovy b1 b2 d' \<and> \<not> display_single_buffer d' \<and> display_active_buffer d' = (if even k then b1 else b2)"
  using assms
proof (induction k)
  case 0
  then show ?case by (simp add: Let_def mode_ok_set_mode set_mode_sel)
next
  case (Suc k)
  define e where "e = (display_swap_buffers ^^ k) (display_set_mode x y ovx ovy b1 b2 d)"
  have e: "mode_ok x y ovx ovy b1 b2 e" "\<not> display_single_buffer e" "display_active_buffer e = (if even k then b1 else b2)"
    using Suc by (simp_all add: e_def Let_def)
  then have "framebuffer1 e = b1" "framebuffer2 e = b2" by (simp_all add: mode_ok_def)
  with e Suc.prems have "display_active_buffer (display_swap_buffers e) = (if even k then b2 else b1)"
    by (simp add: swap_alternates)
  with e show ?case by (simp add: Let_def swap_keeps_mode swap_sel flip: e_def)
qed

section \<open>Properties\<close>


definition display0 :: display where
  "display0 = \<lparr>dregs = (\<lambda>_. 0), dgic = gic0, display_is_digital = True, display_is_pal = False, default_timing = svga_timing,
     framebuffer1 = 0, framebuffer2 = 0, display_active_buffer = 0, display_visible_buffer = 0,
     dsp = \<lparr>fb_width = 0, fb_height = 0, fb_bytes = 0, vm_x = 0, vm_y = 0, vm_ovx = 0, vm_ovy = 0\<rparr>,
     filter_enabled = False, display_single_buffer = False\<rparr>"


text \<open>C33. The scaler never changes the brightness of the picture: whichever filter is selected, after \<open>display_enable_filter\<close> and
  after a digital mode is set, the taps of every phase of the horizontal and vertical filters, for luminance and chrominance, sum to
  64, one in the engine's fixed point; the coefficient tables are never read out of range.\<close>

theorem display_filter_unity_gain:
  "unity_gain (dregs (display_enable_filter onoff d)) \<and>
   unity_gain (dregs (display_set_mode x y ovx ovy b1 b2 (d\<lparr>display_is_digital := True\<rparr>))) \<and>
   sun8i_vi_scaler_coef_index step * SUN8I_VI_SCALER_COEFF_COUNT + 31 < 480"
  using unity_gain_reg_write [OF scaler_addresses_outside(4)] unity_gain_update_filter coef_index_le [of step]
  by (auto simp: display_enable_filter_def display_set_mode_def de2_init_def Let_def SUN8I_VI_SCALER_COEFF_COUNT_def)

end
