(* ===== verification/Audio.thy ===== *)
theory Audio
  imports Display_Regs Interrupts
begin

text \<open>
  The audio drivers: HDMI audio set-up (\<^verbatim>\<open>audio_hdmi.c\<close>) and the I2S controller that feeds it
  (\<^verbatim>\<open>audio_i2s.c\<close>, \<^verbatim>\<open>audio.h\<close>). The transmit queue of the controller is a list of words and the number of
  words it has room for; its status register shows that number in bits 16 to 23. The codec functions
  of lib-h3 are parameters.
\<close>

section \<open>Registers\<close>

named_theorems i2s_fields \<open>fields of the I2S registers\<close>

definition I2S_BASE_BASE :: u32 where [addr_defs]: "I2S_BASE_BASE = 0x01c22000"
definition I2S_BASE :: "nat \<Rightarrow> u32" where [addr_defs]: "I2S_BASE n = I2S_BASE_BASE + of_nat n * 0x400"
definition I2S_CTL :: "nat \<Rightarrow> u32" where [addr_defs]: "I2S_CTL n = I2S_BASE n + 0x00"
definition I2S_FAT0 :: "nat \<Rightarrow> u32" where [addr_defs]: "I2S_FAT0 n = I2S_BASE n + 0x04"
definition I2S_FAT1 :: "nat \<Rightarrow> u32" where [addr_defs]: "I2S_FAT1 n = I2S_BASE n + 0x08"
definition I2S_FCTL :: "nat \<Rightarrow> u32" where [addr_defs]: "I2S_FCTL n = I2S_BASE n + 0x14"
definition I2S_FSTA :: "nat \<Rightarrow> u32" where [addr_defs]: "I2S_FSTA n = I2S_BASE n + 0x18"
definition I2S_TXFIFO :: "nat \<Rightarrow> u32" where [addr_defs]: "I2S_TXFIFO n = I2S_BASE n + 0x20"
definition I2S_INT :: "nat \<Rightarrow> u32" where [addr_defs]: "I2S_INT n = I2S_BASE n + 0x1c"
definition I2S_CLKD :: "nat \<Rightarrow> u32" where [addr_defs]: "I2S_CLKD n = I2S_BASE n + 0x24"
definition I2S_TXCNT :: "nat \<Rightarrow> u32" where [addr_defs]: "I2S_TXCNT n = I2S_BASE n + 0x28"
definition I2S_RXCNT :: "nat \<Rightarrow> u32" where [addr_defs]: "I2S_RXCNT n = I2S_BASE n + 0x2c"
definition I2S_TXCHCFG_H3 :: "nat \<Rightarrow> u32" where [addr_defs]: "I2S_TXCHCFG_H3 n = I2S_BASE n + 0x30"
definition I2S_TX0CHSEL_H3 :: "nat \<Rightarrow> u32" where [addr_defs]: "I2S_TX0CHSEL_H3 n = I2S_BASE n + 0x34"
definition I2S_TX0CHMAP_H3 :: "nat \<Rightarrow> u32" where [addr_defs]: "I2S_TX0CHMAP_H3 n = I2S_BASE n + 0x44"
definition I2S_RXCHSEL :: "nat \<Rightarrow> u32" where [addr_defs]: "I2S_RXCHSEL n = I2S_BASE n + 0x54"
definition I2S_RXCHMAP :: "nat \<Rightarrow> u32" where [addr_defs]: "I2S_RXCHMAP n = I2S_BASE n + 0x58"

definition I2S_CTL_BCLK_OUT :: u32 where [i2s_fields]: "I2S_CTL_BCLK_OUT = push_bit 18 1"
definition I2S_CTL_LRCK_OUT :: u32 where [i2s_fields]: "I2S_CTL_LRCK_OUT = push_bit 17 1"
definition I2S_CTL_SDO0_EN :: u32 where [i2s_fields]: "I2S_CTL_SDO0_EN = push_bit 8 1"
definition I2S_CTL_MODE_SEL :: "u32 \<Rightarrow> u32" where [i2s_fields]: "I2S_CTL_MODE_SEL n = push_bit 4 n"
definition I2S_CTL_TXEN :: u32 where [i2s_fields]: "I2S_CTL_TXEN = push_bit 2 1"
definition I2S_CTL_RXEN :: u32 where [i2s_fields]: "I2S_CTL_RXEN = push_bit 1 1"
definition I2S_CTL_GEN :: u32 where [i2s_fields]: "I2S_CTL_GEN = push_bit 0 1"
definition I2S_FAT0_SW :: "u32 \<Rightarrow> u32" where [i2s_fields]: "I2S_FAT0_SW n = push_bit 0 n"
definition I2S_FAT0_SR :: "u32 \<Rightarrow> u32" where [i2s_fields]: "I2S_FAT0_SR n = push_bit 4 n"
definition I2S_FAT0_LRCK_PERIOD :: "u32 \<Rightarrow> u32" where [i2s_fields]: "I2S_FAT0_LRCK_PERIOD n = push_bit 8 n"
definition I2S_FAT0_LRCKR_PERIOD :: "u32 \<Rightarrow> u32" where [i2s_fields]: "I2S_FAT0_LRCKR_PERIOD n = push_bit 20 n"
definition I2S_FCTL_TXTL :: "u32 \<Rightarrow> u32" where [i2s_fields]: "I2S_FCTL_TXTL n = push_bit 12 n"
definition I2S_FCTL_RXTL :: "u32 \<Rightarrow> u32" where [i2s_fields]: "I2S_FCTL_RXTL n = push_bit 4 n"
definition I2S_FCTL_TXIM :: "u32 \<Rightarrow> u32" where [i2s_fields]: "I2S_FCTL_TXIM n = push_bit 2 n"
definition I2S_FCTL_RXOM :: "u32 \<Rightarrow> u32" where [i2s_fields]: "I2S_FCTL_RXOM n = push_bit 0 n"
definition I2S_FCTL_FRX :: u32 where [i2s_fields]: "I2S_FCTL_FRX = push_bit 24 1"
definition I2S_INT_TXEI_EN :: u32 where [i2s_fields]: "I2S_INT_TXEI_EN = push_bit 4 1"
definition I2S_CLKD_MCLKDIV :: "u32 \<Rightarrow> u32" where [i2s_fields]: "I2S_CLKD_MCLKDIV n = push_bit 0 n"
definition I2S_CLKD_BCLKDIV :: "u32 \<Rightarrow> u32" where [i2s_fields]: "I2S_CLKD_BCLKDIV n = push_bit 4 n"
definition I2S_CLKD_MCLKO_EN :: u32 where [i2s_fields]: "I2S_CLKD_MCLKO_EN = push_bit 8 1"
definition I2S_CHCFG_RX_SLOT_NUM :: "u32 \<Rightarrow> u32" where [i2s_fields]: "I2S_CHCFG_RX_SLOT_NUM n = push_bit 4 n"
definition I2S_CHCFG_TX_SLOT_NUM :: "u32 \<Rightarrow> u32" where [i2s_fields]: "I2S_CHCFG_TX_SLOT_NUM n = push_bit 0 n"
definition I2S_TXnCHSEL_OFFSET_1 :: u32 where [i2s_fields]: "I2S_TXnCHSEL_OFFSET_1 = push_bit 12 1"
definition I2S_TXnCHSEL_CHSEL_2 :: u32 where [i2s_fields]: "I2S_TXnCHSEL_CHSEL_2 = push_bit 0 1"
definition I2S_TXnCHSEL_CHEN_0 :: u32 where [i2s_fields]: "I2S_TXnCHSEL_CHEN_0 = push_bit 4 1"
definition I2S_TXnCHSEL_CHEN_1 :: u32 where [i2s_fields]: "I2S_TXnCHSEL_CHEN_1 = push_bit 5 1"
definition I2S_TXnCHMAP_CH0_SAMPLE :: "u32 \<Rightarrow> u32" where [i2s_fields]: "I2S_TXnCHMAP_CH0_SAMPLE n = push_bit 0 n"
definition I2S_TXnCHMAP_CH1_SAMPLE :: "u32 \<Rightarrow> u32" where [i2s_fields]: "I2S_TXnCHMAP_CH1_SAMPLE n = push_bit 4 n"
definition I2S_RXCHSEL_OFFSET :: "u32 \<Rightarrow> u32" where [i2s_fields]: "I2S_RXCHSEL_OFFSET n = push_bit 12 n"
definition I2S_RXCHSEL_CHSEL :: "u32 \<Rightarrow> u32" where [i2s_fields]: "I2S_RXCHSEL_CHSEL n = push_bit 0 n"

definition I2S_RXCHMAP_CH_SAMPLE :: "nat \<Rightarrow> u32 \<Rightarrow> u32" where [i2s_fields]: "I2S_RXCHMAP_CH_SAMPLE ch n = push_bit (ch * 4) n"

section \<open>HDMI audio\<close>

definition audio_hdmi_stores :: "(u32 \<times> u32) list" where
  "audio_hdmi_stores = [
     (HDMI_PHY_UNSCRAMBLE, 0x42494E47),
     (HDMI_FC_AUDSCONF, 0xF0),
     (HDMI_FC_AUDSV, 0xEE),
     (HDMI_FC_AUDSU, 0x00),
     (HDMI_FC_AUDSCHNL0, 0x30),
     (HDMI_FC_AUDSCHNL1, 0x00),
     (HDMI_FC_AUDSCHNL2, 0x01),
     (HDMI_FC_AUDSCHNL3, 0x42),
     (HDMI_FC_AUDSCHNL4, 0x86),
     (HDMI_FC_AUDSCHNL5, 0x31),
     (HDMI_FC_AUDSCHNL6, 0x75),
     (HDMI_FC_AUDSCHNL7, 0x01),
     (HDMI_FC_AUDSCHNL7, 0x02),
     (HDMI_FC_AUDSCHNL8, 0x02),
     (HDMI_AUD_CONF1, 0x10),
     (HDMI_AUD_N1, 0x00),
     (HDMI_AUD_N2, 0x18),
     (HDMI_AUD_N3, 0x00),
     (HDMI_AUD_CTS3, 0x00),
     (HDMI_AUD_INPUTCLKFS, 0x04),
     (HDMI_FC_AUDSCONF, 0x00),
     (HDMI_FC_AUDIOCONF0, 0x20),
     (HDMI_FC_AUDIOCONF1, 0x00),
     (HDMI_FC_AUDIOCONF2, 0x00),
     (HDMI_FC_AUDIOCONF3, 0x00),
     (HDMI_AUD_CONF2, 0x00),
     (HDMI_AUD_CONF0, 0x00),
     (HDMI_MC_CLKDIS, 0x74 OR 0x08),
     (HDMI_MC_SWRSTZREQ, 0xF7),
     (HDMI_AUD_CONF0, 0xAF),
     (HDMI_MC_CLKDIS, 0x74 OR 0x00),
     (HDMI_PHY_UNSCRAMBLE, 0)]"

definition audio_hdmi_init :: "mmio \<Rightarrow> mmio" where
  "audio_hdmi_init m = reg_writes audio_hdmi_stores m"

text \<open>
  The header gives the third byte of the clock ratio the address of the audio interrupt register;
  the byte at its own offset is never written.
\<close>

lemma audio_hdmi_n3:
  "HDMI_AUD_N3 = HDMI_AUD_INT" "HDMI_BASE + 0x3202 \<notin> fst ` set audio_hdmi_stores"
  by (simp_all add: audio_hdmi_stores_def addr_defs)

section \<open>Filling the transmit queue\<close>

record i2s =
  fifo :: "u32 list"
  room :: nat
  overrun :: bool

definition I2S_FSTA_value :: "i2s \<Rightarrow> u32" where
  "I2S_FSTA_value d = push_bit 16 (of_nat (room d))"

definition fifo_store :: "u32 \<Rightarrow> i2s \<Rightarrow> i2s" where
  "fifo_store v d =
     (if room d = 0 then d\<lparr>overrun := True\<rparr> else d\<lparr>fifo := fifo d @ [v], room := room d - 1\<rparr>)"

text \<open>The default source of samples, a square wave: \<open>sample_count\<close> is the state.\<close>

definition hook_audio_get_sample :: "int \<Rightarrow> (16 word \<times> 16 word) \<times> int" where
  "hook_audio_get_sample sample_count =
     ((word_of_int ((sample_count div 50 AND 1) * 0x7f), word_of_int ((sample_count div 50 AND 1) * 0x7f)), sample_count + 1)"

text \<open>The loop of \<open>audio_queue_samples\<close>; \<open>hook\<close> produces the next pair of samples.\<close>

function audio_queue_samples :: "('w \<Rightarrow> (16 word \<times> 16 word) \<times> 'w) \<Rightarrow> 'w \<Rightarrow> i2s \<Rightarrow> 'w \<times> i2s" where
  "audio_queue_samples hook w d =
     (if drop_bit 16 (I2S_FSTA_value d) AND 0xff > 2
      then (case hook w of ((l, r), w') \<Rightarrow> audio_queue_samples hook w' (fifo_store (scast r) (fifo_store (scast l) d)))
      else (w, d))"
  by pat_completeness auto

lemma shown_room:
  fixes x :: u32
  shows "drop_bit 16 (push_bit 16 x) AND 0xff = take_bit 8 x"
proof -
  have m: "(0xff :: u32) = mask 8" by (simp add: mask_numeral)
  show ?thesis unfolding m by (rule bit_word_eqI) (auto simp: bit_simps)
qed

lemma room_shown: "unat (drop_bit 16 (I2S_FSTA_value d) AND 0xff) = room d mod 256"
proof -
  have "(4294967296::nat) = 256 * 16777216" by simp
  then have "room d mod 4294967296 mod 256 = room d mod 256" by (metis mod_mult_right_eq mod_mod_cancel dvd_triv_left)
  then show ?thesis by (simp add: I2S_FSTA_value_def shown_room unsigned_take_bit_eq take_bit_eq_mod unat_mod unat_of_nat)
qed

lemma space_test: "drop_bit 16 (I2S_FSTA_value d) AND 0xff > 2 \<longleftrightarrow> 2 < room d mod 256"
  by (simp add: word_less_nat_alt room_shown)

termination audio_queue_samples
proof (relation "measure (\<lambda>(hook, w, d). room d)")
  fix hook :: "'w \<Rightarrow> (16 word \<times> 16 word) \<times> 'w" and w d x w' l r
  assume "drop_bit 16 (I2S_FSTA_value d) AND 0xff > 2"
  then have "2 < room d mod 256" by (simp only: space_test)
  then have "2 < room d" using mod_less_eq_dividend [of "room d" 256] by linarith
  then show "((hook, w', fifo_store (scast r) (fifo_store (scast l) d)), hook, w, d) \<in> measure (\<lambda>(hook, w, d). room d)"
    by (simp add: fifo_store_def)
qed simp

declare audio_queue_samples.simps [simp del]

section \<open>The I2S controller\<close>

text \<open>\<open>pll\<close> is what the PLL register shows at each read after the store; bit 28 is its lock flag.\<close>

definition audio_i2s2_init :: "(nat \<Rightarrow> u32) \<Rightarrow> mmio \<Rightarrow> mmio option" where
  "audio_i2s2_init pll m =
     (case poll pll (\<lambda>v. truth (v AND push_bit 28 1)) 0 of
        None \<Rightarrow> None
      | Some _ \<Rightarrow> Some (
          reg_or BUS_CLK_GATING2 (push_bit 14 1)
            (reg_or BUS_SOFT_RST3 (push_bit 14 1)
              (reg_clear BUS_SOFT_RST3 (push_bit 14 1)
                (reg_write I2S_PCM2_CLK 0x80030000 (reg_write PLL_AUDIO_CTRL 0x80035514 m))))))"

definition audio_i2s2_stores :: "(u32 \<times> u32) list" where
  "audio_i2s2_stores = [
     (I2S_TX0CHSEL_H3 2, I2S_TXnCHSEL_OFFSET_1 OR I2S_TXnCHSEL_CHSEL_2 OR I2S_TXnCHSEL_CHEN_0 OR I2S_TXnCHSEL_CHEN_1),
     (I2S_TX0CHMAP_H3 2, I2S_TXnCHMAP_CH0_SAMPLE 0 OR I2S_TXnCHMAP_CH1_SAMPLE 1),
     (I2S_CLKD 2, I2S_CLKD_MCLKDIV 1 OR I2S_CLKD_BCLKDIV 5 OR I2S_CLKD_MCLKO_EN),
     (I2S_FAT1 2, 0),
     (I2S_FAT0 2, I2S_FAT0_SW 3 OR I2S_FAT0_SR 3 OR I2S_FAT0_LRCK_PERIOD 31 OR I2S_FAT0_LRCKR_PERIOD 0),
     (I2S_TXCHCFG_H3 2, I2S_CHCFG_RX_SLOT_NUM 1 OR I2S_CHCFG_TX_SLOT_NUM 1),
     (I2S_RXCHSEL 2, I2S_RXCHSEL_OFFSET 1 OR I2S_RXCHSEL_CHSEL 1),
     (I2S_RXCHMAP 2, I2S_RXCHMAP_CH_SAMPLE 0 0 OR I2S_RXCHMAP_CH_SAMPLE 1 1),
     (I2S_FCTL 2, I2S_FCTL_TXTL 0x40 OR I2S_FCTL_RXTL 0x0f OR I2S_FCTL_TXIM 1 OR I2S_FCTL_RXOM 1 OR I2S_FCTL_FRX),
     (I2S_RXCNT 2, 0),
     (I2S_TXCNT 2, 0),
     (I2S_INT 2, I2S_INT_TXEI_EN)]"

definition audio_i2s2_on :: "mmio \<times> gic \<Rightarrow> (mmio \<times> gic) option" where
  "audio_i2s2_on s =
     (case s of (m, g) \<Rightarrow>
        map_option (\<lambda>g'. (reg_write (I2S_CTL 2)
            (I2S_CTL_BCLK_OUT OR I2S_CTL_LRCK_OUT OR I2S_CTL_MODE_SEL 1 OR I2S_CTL_RXEN OR I2S_CTL_TXEN OR I2S_CTL_GEN OR I2S_CTL_SDO0_EN)
            (reg_writes audio_i2s2_stores m), g'))
          (irq_enable 47 g))"

definition audio_i2s2_off :: "mmio \<times> gic \<Rightarrow> (mmio \<times> gic) option" where
  "audio_i2s2_off s =
     (case s of (m, g) \<Rightarrow>
        map_option (\<lambda>g'. (reg_write (I2S_INT 2) 0 (reg_write (I2S_RXCNT 2) 0 (reg_or (I2S_FCTL 2) I2S_FCTL_FRX m)), g'))
          (irq_disable 47 g))"

text \<open>The codec functions act on a state of their own.\<close>

record 'c codec =
  codec_begin :: "'c \<Rightarrow> 'c"
  codec_set_buffer_length :: "int \<Rightarrow> 'c \<Rightarrow> 'c"
  codec_start :: "'c \<Rightarrow> 'c"

definition audio_start :: "'c codec \<Rightarrow> (nat \<Rightarrow> u32) \<Rightarrow> int \<Rightarrow> 'c \<times> mmio \<times> gic \<Rightarrow> ('c \<times> mmio \<times> gic) option" where
  "audio_start ops pll buf_len s =
     (case s of (c, m, g) \<Rightarrow>
        (case audio_i2s2_init pll m of
           None \<Rightarrow> None
         | Some m1 \<Rightarrow>
             map_option (\<lambda>s'. (codec_start ops (codec_set_buffer_length ops buf_len (codec_begin ops c)), s')) (audio_i2s2_on (m1, g))))"

section \<open>Lemmas\<close>

text \<open>The register values the comments in the source give.\<close>

lemma audio_i2s2_on_registers:
  assumes "audio_i2s2_on (m, g) = Some (m', g')"
  shows "m' (I2S_TX0CHSEL_H3 2) = 0x00001031" "m' (I2S_CLKD 2) = 0x00000151" "m' (I2S_FAT1 2) = 0"
    "m' (I2S_FAT0 2) = 0x00001F33" "m' (I2S_RXCHSEL 2) = 0x00001001" "m' (I2S_RXCHMAP 2) = 0x00000010"
    "m' (I2S_FCTL 2) = 0x010400F5" "m' (I2S_CTL 2) = 0x00060117"
  using assms by (auto simp: audio_i2s2_on_def audio_i2s2_stores_def addr_defs i2s_fields reg_write_def)

text \<open>\<open>n\<close> pairs of samples, in the order they are queued.\<close>

fun hook_samples :: "('w \<Rightarrow> (16 word \<times> 16 word) \<times> 'w) \<Rightarrow> nat \<Rightarrow> 'w \<Rightarrow> u32 list" where
  "hook_samples hook 0 w = []"
| "hook_samples hook (Suc n) w = (case hook w of ((l, r), w') \<Rightarrow> scast l # scast r # hook_samples hook n w')"

fun hook_run :: "('w \<Rightarrow> (16 word \<times> 16 word) \<times> 'w) \<Rightarrow> nat \<Rightarrow> 'w \<Rightarrow> 'w" where
  "hook_run hook 0 w = w"
| "hook_run hook (Suc n) w = hook_run hook n (snd (hook w))"

lemma queue_step:
  assumes "2 < room d" and "room d < 256" and "hook w = ((l, r), w')"
  shows "audio_queue_samples hook w d =
    audio_queue_samples hook w' (d\<lparr>fifo := fifo d @ [scast l, scast r], room := room d - 2\<rparr>)"
  using assms by (subst audio_queue_samples.simps) (simp add: space_test fifo_store_def numeral_2_eq_2)

lemma queue_run:
  "room d < 256 \<Longrightarrow> n = (room d - 1) div 2 \<Longrightarrow> audio_queue_samples hook w d =
    (hook_run hook n w, d\<lparr>fifo := fifo d @ hook_samples hook n w, room := room d - 2 * n\<rparr>)"
proof (induction n arbitrary: d w)
  case 0
  then have "\<not> 2 < room d mod 256" by simp
  then show ?case by (subst audio_queue_samples.simps) (simp add: space_test)
next
  case (Suc n)
  obtain l r w' where h: "hook w = ((l, r), w')" by (metis prod.exhaust)
  let ?d = "d\<lparr>fifo := fifo d @ [scast l, scast r], room := room d - 2\<rparr>"
  from Suc.prems(2) have big: "2 < room d" by (cases "room d \<le> 2") auto
  have "n = (room ?d - 1) div 2" using Suc.prems(2) big by simp
  then have "audio_queue_samples hook w' ?d =
      (hook_run hook n w', ?d\<lparr>fifo := fifo ?d @ hook_samples hook n w', room := room ?d - 2 * n\<rparr>)"
    using Suc.IH [of ?d w'] Suc.prems(1) by simp
  with queue_step [where hook = hook and w = w, OF big Suc.prems(1) h] h show ?case by simp
qed

section \<open>Properties\<close>



end
