(* ===== verification/Dma.thy ===== *)
theory Dma
  imports Mmio
begin

text \<open>
  The DMA driver (\<^verbatim>\<open>dma.c\<close>). \<open>dma_engine\<close> is what the controller does with a descriptor list when a
  channel is enabled: memory-to-memory transfers with incrementing addresses, one descriptor after
  the other until the end mark. The flush of the data cache does not change values.
\<close>

section \<open>Registers and descriptors\<close>

definition DMA_BASE :: u32 where [addr_defs]: "DMA_BASE = 0x1c02000"
definition DMA_STA_REG :: u32 where [addr_defs]: "DMA_STA_REG = DMA_BASE + 0x30"
definition DMA_EN_REG :: "nat \<Rightarrow> u32" where [addr_defs]: "DMA_EN_REG n = DMA_BASE + (0x100 + of_nat n * 0x40)"
definition DMA_DESC_ADDR_REG :: "nat \<Rightarrow> u32" where [addr_defs]: "DMA_DESC_ADDR_REG n = DMA_BASE + (0x108 + of_nat n * 0x40)"

text \<open>\<open>struct dma_desc\<close>, and the six words it occupies.\<close>

record dma_desc =
  d_config :: u32
  d_src_addr :: u32
  d_dest_addr :: u32
  d_count :: u32
  d_param :: u32
  d_next :: u32

definition store_desc :: "u32 \<Rightarrow> dma_desc \<Rightarrow> mem \<Rightarrow> mem" where
  "store_desc a e m =
     store32 (store32 (store32 (store32 (store32 (store32 m a (d_config e)) (a + 4) (d_src_addr e))
       (a + 8) (d_dest_addr e)) (a + 12) (d_count e)) (a + 16) (d_param e)) (a + 20) (d_next e)"

definition load_desc :: "u32 \<Rightarrow> mem \<Rightarrow> dma_desc" where
  "load_desc a m = \<lparr>d_config = load32 m a, d_src_addr = load32 m (a + 4), d_dest_addr = load32 m (a + 8),
     d_count = load32 m (a + 12), d_param = load32 m (a + 16), d_next = load32 m (a + 20)\<rparr>"

section \<open>Driver\<close>

record dma =
  dma_mem :: mem
  dma_io :: mmio

definition dma_init :: "dma \<Rightarrow> dma" where
  "dma_init s =
     (let m1 = reg_or BUS_CLK_GATING0 0x40 (reg_clear BUS_SOFT_RST0 0x40 (dma_io s));
          m2 = reg_writes (map (\<lambda>i. (DMA_EN_REG i, 0)) [0..<12]) m1
      in s\<lparr>dma_io := reg_or BUS_SOFT_RST0 0x40 m2\<rparr>)"

text \<open>\<open>desc\<close> is the address of the one descriptor, \<open>memcpy_desc\<close>.\<close>

definition dma_memcpy :: "u32 \<Rightarrow> u32 \<Rightarrow> u32 \<Rightarrow> u32 \<Rightarrow> nat \<Rightarrow> dma \<Rightarrow> dma" where
  "dma_memcpy desc dest src len channel s =
     s\<lparr>dma_mem := store_desc desc \<lparr>d_config = 0x04c104c1, d_src_addr = src, d_dest_addr = dest, d_count = len,
         d_param = 8, d_next = 0xfffff800\<rparr> (dma_mem s),
       dma_io := reg_writes [(DMA_EN_REG channel, 0), (DMA_DESC_ADDR_REG channel, desc), (DMA_EN_REG channel, 1)] (dma_io s)\<rparr>"

definition dma_wait :: "nat \<Rightarrow> (nat \<Rightarrow> u32) \<Rightarrow> nat option" where
  "dma_wait channel sta = poll sta (\<lambda>v. v AND push_bit channel 1 = 0) 0"

section \<open>Controller\<close>

text \<open>Source and destination are memory (request type 1) and their addresses are incremented.\<close>

definition linear_copy :: "u32 \<Rightarrow> bool" where
  "linear_copy config \<longleftrightarrow> config AND 0x1f = 1 \<and> drop_bit 16 config AND 0x1f = 1 \<and> \<not> bit config 5 \<and> \<not> bit config 21"

fun dma_engine :: "nat \<Rightarrow> u32 \<Rightarrow> mem \<Rightarrow> mem option" where
  "dma_engine fuel a m =
     (if a = 0xfffff800 then Some m
      else case fuel of
          0 \<Rightarrow> None
        | Suc n \<Rightarrow>
            (let e = load_desc a m
             in if linear_copy (d_config e)
                then dma_engine n (d_next e) (store_bytes m (d_dest_addr e) (load_bytes m (d_src_addr e) (unat (d_count e))))
                else None))"

declare dma_engine.simps [simp del]

lemma load_store_desc: "load_desc a (store_desc a e m) = e"
proof -
  have "load32 (store_desc a e m) a = d_config e" "load32 (store_desc a e m) (a + 4) = d_src_addr e"
    "load32 (store_desc a e m) (a + 8) = d_dest_addr e" "load32 (store_desc a e m) (a + 12) = d_count e"
    "load32 (store_desc a e m) (a + 16) = d_param e" "load32 (store_desc a e m) (a + 20) = d_next e"
    by (simp_all add: load32_def store_desc_def store32_def add.assoc)
  then show ?thesis by (simp add: load_desc_def)
qed

text \<open>The bytes of a block.\<close>

definition block :: "u32 \<Rightarrow> nat \<Rightarrow> u32 set" where
  "block a n = {a + of_nat i |i. i < n}"

lemma store_desc_other: "x \<notin> block a 24 \<Longrightarrow> store_desc a e m x = m x"
proof -
  assume "x \<notin> block a 24"
  then have n: "x \<noteq> a + of_nat i" if "i < 24" for i using that by (auto simp: block_def)
  from n [of 0] n [of 1] n [of 2] n [of 3] n [of 4] n [of 5] n [of 6] n [of 7] n [of 8] n [of 9] n [of 10] n [of 11]
    n [of 12] n [of 13] n [of 14] n [of 15] n [of 16] n [of 17] n [of 18] n [of 19] n [of 20] n [of 21] n [of 22] n [of 23]
  show ?thesis by (simp add: store_desc_def store32_def add.assoc)
qed

lemma load_bytes_cong: "(\<And>i. i < n \<Longrightarrow> m (a + of_nat i) = m' (a + of_nat i)) \<Longrightarrow> load_bytes m a n = load_bytes m' a n"
  by (simp add: load_bytes_eq)

lemma store_bytes_other: "length bs \<le> 2 ^ 32 \<Longrightarrow> x \<notin> block a (length bs) \<Longrightarrow> store_bytes m a bs x = m x"
proof -
  assume l: "length bs \<le> 2 ^ 32" and x: "x \<notin> block a (length bs)"
  have "\<not> unat (x - a) < length bs"
  proof
    assume "unat (x - a) < length bs"
    moreover have "x = a + of_nat (unat (x - a))" by simp
    ultimately show False using x unfolding block_def by blast
  qed
  then show "store_bytes m a bs x = m x" by (simp add: store_bytes_apply [OF l])
qed

lemma block_apart:
  assumes "unat a + n \<le> unat b" and "unat b + k \<le> 2 ^ 32"
  shows "block a n \<inter> block b k = {}" "block b k \<inter> block a n = {}"
proof -
  have "unat (c + of_nat i) = unat c + i" if "i < j" "unat c + j \<le> 2 ^ 32" for c :: u32 and i j
    using that by (simp add: unat_word_ariths unat_of_nat)
  note val = this
  have "a + of_nat i \<noteq> b + of_nat j" if ij: "i < n" "j < k" for i j
  proof
    assume "a + of_nat i = b + of_nat j"
    then have "unat a + i = unat b + j" using val [of i n a] val [of j k b] ij assms by simp
    with ij assms(1) show False by simp
  qed
  then show "block a n \<inter> block b k = {}" by (auto simp: block_def)
  then show "block b k \<inter> block a n = {}" by (simp add: Int_commute)
qed

section \<open>Properties\<close>

text \<open>C35. A DMA copy copies: \<open>dma_memcpy\<close> leaves the channel enabled and pointing at its descriptor, and when the controller follows the
  descriptor it stops after one transfer with the source block at the destination and every other byte outside the descriptor
  unchanged, provided that the blocks and the descriptor do not overlap.\<close>

theorem dma_memcpy_copies:
  assumes "s' = dma_memcpy desc dest src len channel s" and "n = unat len"
    and "block desc 24 \<inter> block src n = {}" and "block dest n \<inter> block src n = {}" and "block desc 24 \<inter> block dest n = {}"
    and "desc \<noteq> 0xfffff800"
  shows "dma_io s' (DMA_EN_REG channel) = 1 \<and> dma_io s' (DMA_DESC_ADDR_REG channel) = desc \<and>
    (\<exists>m. dma_engine 1 desc (dma_mem s') = Some m \<and> load_bytes m dest n = load_bytes (dma_mem s) src n \<and>
       (\<forall>x. x \<notin> block dest n \<longrightarrow> x \<notin> block desc 24 \<longrightarrow> m x = dma_mem s x))"
proof -
  define e where "e = \<lparr>d_config = 0x04c104c1, d_src_addr = src, d_dest_addr = dest, d_count = len, d_param = 8, d_next = 0xfffff800\<rparr>"
  define bs where "bs = load_bytes (dma_mem s) src n"
  have mem: "dma_mem s' = store_desc desc e (dma_mem s)" by (simp add: assms(1) dma_memcpy_def e_def)
  have lin: "linear_copy 0x04c104c1" by (simp add: linear_copy_def bit_simps)
  have "dma_mem s' (src + of_nat i) = dma_mem s (src + of_nat i)" if "i < n" for i
    using assms(3) that unfolding mem by (intro store_desc_other) (auto simp: block_def)
  then have src: "load_bytes (dma_mem s') src n = bs" unfolding bs_def by (intro load_bytes_cong)
  have bl: "length bs = n" "n \<le> 2 ^ 32" using assms(2) unsigned_less [of len, where 'a = nat] by (simp_all add: bs_def)
  have "dma_engine 1 desc (dma_mem s') = Some (store_bytes (dma_mem s') dest bs)"
    using assms(6) src unfolding mem
    by (simp add: dma_engine.simps [of "Suc 0"] dma_engine.simps [of 0] load_store_desc Let_def lin e_def assms(2))
  moreover have "load_bytes (store_bytes (dma_mem s') dest bs) dest n = bs"
    using load_store_bytes [of bs] bl by simp
  moreover have "store_bytes (dma_mem s') dest bs x = dma_mem s x" if "x \<notin> block dest n" "x \<notin> block desc 24" for x
    using that bl by (simp add: store_bytes_other mem store_desc_other)
  moreover have "dma_io s' (DMA_EN_REG channel) = 1" "dma_io s' (DMA_DESC_ADDR_REG channel) = desc"
    by (simp_all add: assms(1) dma_memcpy_def addr_defs reg_write_def)
  ultimately show ?thesis by (auto simp: bs_def)
qed

theorem dma_memcpy_copies_witness:
  "\<exists>m. dma_engine 1 0x41000000 (dma_mem (dma_memcpy 0x41000000 0x43000000 0x42000000 3 5 \<lparr>dma_mem = (\<lambda>a. ucast a + 9), dma_io = (\<lambda>_. 0)\<rparr>)) = Some m \<and>
     load_bytes m 0x43000000 3 = [9, 10, 11]"
proof -
  have "load_bytes (\<lambda>a. ucast a + 9) 0x42000000 3 = [9, 10, 11]" by (simp add: numeral_3_eq_3)
  with dma_memcpy_copies [OF refl, of 3 3 "0x41000000" "0x42000000" "0x43000000" 5 "\<lparr>dma_mem = (\<lambda>a. ucast a + 9), dma_io = (\<lambda>_. 0)\<rparr>"]
    block_apart [of "0x41000000" 24 "0x42000000" 3] block_apart [of "0x42000000" 3 "0x43000000" 3] block_apart [of "0x41000000" 24 "0x43000000" 3]
  show ?thesis by auto
qed

end
