(* ===== verification/Exceptions.thy ===== *)
theory Exceptions
  imports Uart
begin

text \<open>
  The fault reports (\<^verbatim>\<open>exceptions.c\<close>). Each handler prints and then stops the processor, so a handler is
  the program of its output; \<open>None\<close> is output that never finishes. The stack is read from byte memory.
\<close>

section \<open>Output\<close>

type_synonym report = "uart \<Rightarrow> uart option"

definition then_out :: "report \<Rightarrow> report \<Rightarrow> report" where
  "then_out p q u = Option.bind (p u) q"

definition eol :: "u8 list" where
  "eol = [13, 10]"

definition halt :: report where
  "halt = uart_print (str ''System halted.'' @ eol)"

fun dump_lines :: "mem \<Rightarrow> u32 \<Rightarrow> nat list \<Rightarrow> report" where
  "dump_lines m stack [] = Some"
| "dump_lines m stack (i # is) =
     then_out (uart_print (eol @ str ''SP+''))
       (then_out (uart_print_uint8 (of_nat i))
         (then_out (uart_print (str '' [''))
           (then_out (uart_print_uint32 (stack + 4 * of_nat i))
             (then_out (uart_print (str '']  ''))
               (then_out (uart_print_uint32 (load32 m (stack + 4 * of_nat i)))
                 (dump_lines m stack is))))))"

definition stack_dump :: "mem \<Rightarrow> u32 \<Rightarrow> report" where
  "stack_dump m stack =
     then_out (uart_print (str ''Dump from ''))
       (then_out (uart_print_uint32 stack) (then_out (dump_lines m stack [0..<16]) (uart_print eol)))"

definition stack_chk_fail :: "mem \<Rightarrow> u32 \<Rightarrow> u32 \<Rightarrow> report" where
  "stack_chk_fail m sp lr =
     then_out (uart_print (str ''stack check failed'' @ eol))
       (then_out (uart_print (str ''LR ''))
         (then_out (uart_print_uint32 lr)
           (then_out (uart_print eol) (then_out (stack_dump m sp) halt))))"

definition except_undef :: "mem \<Rightarrow> u32 \<Rightarrow> report" where
  "except_undef m sp = then_out (uart_print (str ''undefined instruction'')) (then_out (stack_dump m sp) halt)"

definition except_swi :: "mem \<Rightarrow> u32 \<Rightarrow> report" where
  "except_swi m sp = then_out (uart_print (str ''SWI'')) (then_out (stack_dump m sp) halt)"

definition except_prefetch_abort :: report where
  "except_prefetch_abort = then_out (uart_print (str ''prefetch abort'' @ eol)) halt"

definition except_data_abort :: "u32 \<Rightarrow> report" where
  "except_data_abort lr = then_out (uart_print (str ''data abort at '')) (then_out (uart_print_uint32 lr) halt)"

definition except_fiq :: report where
  "except_fiq = then_out (uart_print (str ''FIQ'' @ eol)) halt"

section \<open>What is sent\<close>

text \<open>\<open>sends p txt\<close>: on a live port the program returns and has sent exactly that text.\<close>

definition sends :: "report \<Rightarrow> u8 list \<Rightarrow> bool" where
  "sends p cs \<longleftrightarrow> (\<forall>u. uart_live u \<longrightarrow> (\<exists>u'. p u = Some u' \<and> tx u' = tx u @ cs \<and> uart_live u'))"

lemma sends_print [intro]: "sends (uart_print cs) cs"
  and sends_uint8 [intro]: "sends (uart_print_uint8 b) (uint8_text b)"
  and sends_uint32 [intro]: "sends (uart_print_uint32 w) (uint32_text w)"
  using console.put_all_sends unfolding sends_def uart_print_def uart_print_uint8_def uart_print_uint32_def by blast+

lemma sends_then [intro]: "sends p cs \<Longrightarrow> sends q ds \<Longrightarrow> sends (then_out p q) (cs @ ds)"
  unfolding sends_def then_out_def by (metis append.assoc bind.bind_lunit)

lemma sends_Some: "sends Some []"
  by (simp add: sends_def)

text \<open>The line of a dump for one word of the stack.\<close>

definition dump_line :: "mem \<Rightarrow> u32 \<Rightarrow> nat \<Rightarrow> u8 list" where
  "dump_line m stack i = eol @ str ''SP+'' @ uint8_text (of_nat i) @ str '' ['' @ uint32_text (stack + 4 * of_nat i) @
     str '']  '' @ uint32_text (load32 m (stack + 4 * of_nat i))"

lemma sends_dump_lines: "sends (dump_lines m stack is) (concat (map (dump_line m stack) is))"
proof (induction "is")
  case Nil
  then show ?case by (simp add: sends_Some)
next
  case (Cons i "is")
  have "sends (dump_lines m stack (i # is))
      ((eol @ str ''SP+'') @ uint8_text (of_nat i) @ str '' ['' @ uint32_text (stack + 4 * of_nat i) @ str '']  '' @
        uint32_text (load32 m (stack + 4 * of_nat i)) @ concat (map (dump_line m stack) is))"
    using Cons unfolding dump_lines.simps by (intro sends_then sends_print sends_uint8 sends_uint32)
  then show ?case by (simp only: list.map concat.simps dump_line_def [of m stack i] append.assoc)
qed

definition dump_text :: "mem \<Rightarrow> u32 \<Rightarrow> u8 list" where
  "dump_text m stack = str ''Dump from '' @ uint32_text stack @ concat (map (dump_line m stack) [0..<16]) @ eol"

definition halt_text :: "u8 list" where
  "halt_text = str ''System halted.'' @ eol"

lemma stack_dump_sends [intro]: "sends (stack_dump m stack) (dump_text m stack)"
  unfolding stack_dump_def dump_text_def by (intro sends_then sends_print sends_uint32 sends_dump_lines)

lemma halt_sends [intro]: "sends halt halt_text"
  unfolding halt_def halt_text_def by (rule sends_print)

text \<open>Every handler names its fault, reports and stops.\<close>

lemma handlers_send:
  "sends (stack_chk_fail m sp lr) ((str ''stack check failed'' @ eol) @ str ''LR '' @ uint32_text lr @ eol @ dump_text m sp @ halt_text)"
  "sends (except_undef m sp) (str ''undefined instruction'' @ dump_text m sp @ halt_text)"
  "sends (except_swi m sp) (str ''SWI'' @ dump_text m sp @ halt_text)"
  "sends except_prefetch_abort ((str ''prefetch abort'' @ eol) @ halt_text)"
  "sends (except_data_abort lr) (str ''data abort at '' @ uint32_text lr @ halt_text)"
  "sends except_fiq ((str ''FIQ'' @ eol) @ halt_text)"
  unfolding stack_chk_fail_def except_undef_def except_swi_def except_prefetch_abort_def except_data_abort_def except_fiq_def
  by (intro sends_then sends_print sends_uint32 stack_dump_sends halt_sends)+

end
