(* ===== verification/Ubsan.thy ===== *)
theory Ubsan
  imports Prelude
begin

text \<open>
  The runtime of the undefined-behaviour sanitizer (\<^verbatim>\<open>ubsan.c\<close>): decoding of the compiler's type
  descriptors, formatting of operands, and the handlers. A handler takes the data the compiler emitted
  for a check, whose location it marks as reported, and returns the marked data with the calls of \<open>printf\<close> it made.
\<close>

section \<open>Data\<close>

record type_descriptor =
  type_kind :: u16
  type_info :: u16
  type_name :: "u8 list"

record source_location =
  filename :: "u8 list"
  line :: u32
  column :: u32

record overflow_data =
  o_loc :: source_location
  o_type :: type_descriptor

record shift_out_of_bounds_data =
  s_loc :: source_location
  lhs_type :: type_descriptor
  rhs_type :: type_descriptor

record out_of_bounds_data =
  b_loc :: source_location
  array_type :: type_descriptor
  index_type :: type_descriptor

record type_mismatch_data =
  m_loc :: source_location
  m_type :: type_descriptor
  log_alignment :: u8
  type_check_kind :: u8

definition TK_INTEGER :: u16 where "TK_INTEGER = 0"

definition type_check_kinds :: "string list" where
  "type_check_kinds = [''load of'', ''store to'', ''reference binding to'', ''member access within'', ''member call on'',
     ''constructor call on'', ''downcast of'', ''downcast of'', ''upcast of'', ''cast to virtual base of'', ''_Nonnull binding to'']"

text \<open>An argument of \<open>printf\<close>: a text, a number, or the address of a text that was never computed from one.\<close>

datatype arg = Text "u8 list" | Num int | At u32

type_synonym prints = "(string \<times> arg list) list"

section \<open>Values\<close>

text \<open>Types have up to 64 bits: the shift count of \<open>bit_width\<close> is at most 6.\<close>

definition bit_width :: "type_descriptor \<Rightarrow> u32" where
  "bit_width t = push_bit (unat (drop_bit 1 (type_info t))) 1"

definition is_inline_int :: "type_descriptor \<Rightarrow> bool" where
  "is_inline_int t \<longleftrightarrow> bit_width t \<le> 32"

definition is_signed :: "type_descriptor \<Rightarrow> bool" where
  "is_signed t \<longleftrightarrow> type_info t AND 1 \<noteq> 0"

definition load64 :: "mem \<Rightarrow> u32 \<Rightarrow> u64" where
  "load64 m a = ucast (load32 m a) OR push_bit 32 (ucast (load32 m (a + 4)))"

definition signed_val :: "mem \<Rightarrow> type_descriptor \<Rightarrow> u32 \<Rightarrow> int" where
  "signed_val m t v =
     (if is_inline_int t
      then let extra_bits = unat (64 - bit_width t) in sint (signed_drop_bit extra_bits (push_bit extra_bits (ucast v :: u64)))
      else sint (load64 m v))"

definition unsigned_val :: "mem \<Rightarrow> type_descriptor \<Rightarrow> u32 \<Rightarrow> int" where
  "unsigned_val m t v = (if is_inline_int t then uint v else uint (load64 m v))"

text \<open>The text of a number (\<open>%lld\<close>, \<open>%llu\<close>), and \<open>snprintf\<close> into a buffer of \<open>n\<close> bytes, which has a terminator.\<close>

definition int_text :: "int \<Rightarrow> u8 list" where
  "int_text k = (if k < 0 then 45 # dec_text (nat (- k)) else dec_text (nat k))"

definition snprintf :: "nat \<Rightarrow> u8 list \<Rightarrow> u8 list" where
  "snprintf n s = take (n - 1) s"

definition format_value :: "mem \<Rightarrow> nat \<Rightarrow> type_descriptor \<Rightarrow> u32 \<Rightarrow> u8 list" where
  "format_value m n t v =
     (if type_kind t = TK_INTEGER
      then snprintf n (int_text (if is_signed t then signed_val m t v else unsigned_val m t v))
      else snprintf n (str ''<unknown>''))"

section \<open>Reports\<close>

text \<open>\<open>strrchr(name, '/') + 1\<close>: for a name without a slash the address 1.\<close>

fun after_last_slash :: "u8 list \<Rightarrow> u8 list option" where
  "after_last_slash [] = None"
| "after_last_slash (c # cs) =
     (case after_last_slash cs of Some r \<Rightarrow> Some r | None \<Rightarrow> if c = 47 then Some cs else None)"

definition base_name :: "u8 list \<Rightarrow> arg" where
  "base_name f = (case after_last_slash f of Some r \<Rightarrow> Text r | None \<Rightarrow> At 1)"

definition ubsan_init :: "source_location \<Rightarrow> source_location \<times> bool \<times> prints" where
  "ubsan_init loc =
     (if column loc = 0xffffffff then (loc, False, [])
      else (loc\<lparr>column := 0xffffffff\<rparr>, True,
        [(''%s:%lu:%lu: runtime error: '', [base_name (filename loc), Num (uint (line loc)), Num (uint (column loc))])]))"

text \<open>The frame of every handler: nothing is printed for a location that was reported before.\<close>

definition report :: "source_location \<Rightarrow> prints \<Rightarrow> source_location \<times> prints" where
  "report loc body = (case ubsan_init loc of (loc', first, p) \<Rightarrow> (loc', if first then p @ body else []))"

definition handle_overflow :: "mem \<Rightarrow> overflow_data \<Rightarrow> u32 \<Rightarrow> string \<Rightarrow> u32 \<Rightarrow> overflow_data \<times> prints" where
  "handle_overflow m d lhs operator rhs =
     (case report (o_loc d)
        [(''%s integer overflow: %s %s %s cannot be representedin type %s\<newline>'',
          [Text (str (if is_signed (o_type d) then ''signed'' else ''unsigned'')), Text (format_value m 20 (o_type d) lhs),
           Text (str operator), Text (format_value m 20 (o_type d) rhs), Text (type_name (o_type d))])]
      of (loc, p) \<Rightarrow> (d\<lparr>o_loc := loc\<rparr>, p))"

definition handle_add_overflow :: "mem \<Rightarrow> overflow_data \<Rightarrow> u32 \<Rightarrow> u32 \<Rightarrow> overflow_data \<times> prints" where
  "handle_add_overflow m d lhs rhs = handle_overflow m d lhs ''+'' rhs"

definition handle_sub_overflow :: "mem \<Rightarrow> overflow_data \<Rightarrow> u32 \<Rightarrow> u32 \<Rightarrow> overflow_data \<times> prints" where
  "handle_sub_overflow m d lhs rhs = handle_overflow m d lhs ''-'' rhs"

definition handle_mul_overflow :: "mem \<Rightarrow> overflow_data \<Rightarrow> u32 \<Rightarrow> u32 \<Rightarrow> overflow_data \<times> prints" where
  "handle_mul_overflow m d lhs rhs = handle_overflow m d lhs ''*'' rhs"

definition handle_divrem_overflow :: "mem \<Rightarrow> overflow_data \<Rightarrow> u32 \<Rightarrow> u32 \<Rightarrow> overflow_data \<times> prints" where
  "handle_divrem_overflow m d lhs rhs =
     (case report (o_loc d)
        [if is_signed (o_type d) \<and> signed_val m (o_type d) rhs = -1
         then (''division of %lld by -1 cannot be representedin type %s\<newline>'',
           [Num (signed_val m (o_type d) lhs), Text (type_name (o_type d))])
         else (''division by zero\<newline>'', [])]
      of (loc, p) \<Rightarrow> (d\<lparr>o_loc := loc\<rparr>, p))"

definition handle_negate_overflow :: "mem \<Rightarrow> overflow_data \<Rightarrow> u32 \<Rightarrow> overflow_data \<times> prints" where
  "handle_negate_overflow m d old =
     (case report (o_loc d)
        [if is_signed (o_type d)
         then (''negation of %lld cannot be represented in type %s; cast to an unsigned type to negate this value to itself\<newline>'',
           [Num (signed_val m (o_type d) old), Text (type_name (o_type d))])
         else (''negation of %lld cannot be represented in type %s\<newline>'',
           [Num (unsigned_val m (o_type d) old), Text (type_name (o_type d))])]
      of (loc, p) \<Rightarrow> (d\<lparr>o_loc := loc\<rparr>, p))"

definition handle_shift_out_of_bounds :: "mem \<Rightarrow> shift_out_of_bounds_data \<Rightarrow> u32 \<Rightarrow> u32 \<Rightarrow> shift_out_of_bounds_data \<times> prints" where
  "handle_shift_out_of_bounds m d lhs rhs =
     (case report (s_loc d)
        [if is_signed (rhs_type d) \<and> signed_val m (rhs_type d) rhs < 0
         then (''shift exponent %lld is negative\<newline>'', [Num (signed_val m (rhs_type d) rhs)])
         else if unsigned_val m (rhs_type d) rhs \<ge> uint (bit_width (lhs_type d))
         then (''shift exponent %llu is too large for %u-bit type %s\<newline>'',
           [Num (unsigned_val m (rhs_type d) rhs), Num (uint (bit_width (rhs_type d))), Text (type_name (lhs_type d))])
         else if is_signed (lhs_type d) \<and> signed_val m (lhs_type d) lhs < 0
         then (''left shift of negative value %lld\<newline>'', [Num (signed_val m (lhs_type d) lhs)])
         else (''left shift of %llu by %llu places cannot be representedin type %s\<newline>'',
           [Num (unsigned_val m (lhs_type d) lhs), Num (unsigned_val m (rhs_type d) rhs), Text (type_name (lhs_type d))])]
      of (loc, p) \<Rightarrow> (d\<lparr>s_loc := loc\<rparr>, p))"

definition handle_out_of_bounds :: "mem \<Rightarrow> out_of_bounds_data \<Rightarrow> u32 \<Rightarrow> out_of_bounds_data \<times> prints" where
  "handle_out_of_bounds m d index =
     (case report (b_loc d)
        [(''index %s out of bounds for type %s\<newline>'',
          [Text (format_value m 20 (index_type d) index), Text (type_name (array_type d))])]
      of (loc, p) \<Rightarrow> (d\<lparr>b_loc := loc\<rparr>, p))"

text \<open>\<open>attr_loc\<close> is \<open>None\<close> when its file name is the null pointer.\<close>

definition handle_nonnull_return :: "source_location option \<Rightarrow> source_location \<Rightarrow> source_location \<times> prints" where
  "handle_nonnull_return attr_loc loc =
     report loc ((''null pointer returned from function declaredto never return null\<newline>'', []) #
       (case attr_loc of
          None \<Rightarrow> []
        | Some a \<Rightarrow> [(''%s:%lu:%lu: note: returns_nonnull attributespecified here\<newline>'',
            [base_name (filename a), Num (uint (line a)), Num (uint (column a))])]))"

text \<open>\<open>None\<close> is an index outside of the table of check kinds.\<close>

definition handle_type_mismatch_v1 :: "type_mismatch_data \<Rightarrow> u32 \<Rightarrow> (type_mismatch_data \<times> prints) option" where
  "handle_type_mismatch_v1 d ptr =
     (let alignment = push_bit (unat (log_alignment d)) 1 :: u32; k = unat (type_check_kind d)
      in if column (m_loc d) \<noteq> 0xffffffff \<and> length type_check_kinds \<le> k then None
         else Some (case report (m_loc d)
           [if ptr = 0 then (''%s null pointer of type %s\<newline>'', [Text (str (type_check_kinds ! k)), Text (type_name (m_type d))])
            else if ptr AND (alignment - 1) \<noteq> 0
            then (''%s misaligned address %p for type %s, which requires %u byte alignment\<newline>'',
              [Text (str (type_check_kinds ! k)), Num (uint ptr), Text (type_name (m_type d)), Num (uint alignment)])
            else (''%s address %p with insufficient space for an object of type %s\<newline>'',
              [Text (str (type_check_kinds ! k)), Num (uint ptr), Text (type_name (m_type d))])]
          of (loc, p) \<Rightarrow> (d\<lparr>m_loc := loc\<rparr>, p)))"

definition handle_vla_bound_not_positive :: "mem \<Rightarrow> overflow_data \<Rightarrow> u32 \<Rightarrow> overflow_data \<times> prints" where
  "handle_vla_bound_not_positive m d bound =
     (case report (o_loc d)
        [(''variable length array bound evaluatesto non-positive value %s\<newline>'', [Text (format_value m 20 (o_type d) bound)])]
      of (loc, p) \<Rightarrow> (d\<lparr>o_loc := loc\<rparr>, p))"

definition handle_load_invalid_value :: "mem \<Rightarrow> overflow_data \<Rightarrow> u32 \<Rightarrow> overflow_data \<times> prints" where
  "handle_load_invalid_value m d v =
     (case report (o_loc d)
        [(''load of value %s, which is not a valid value for type %s\<newline>'',
          [Text (format_value m 20 (o_type d) v), Text (type_name (o_type d))])]
      of (loc, p) \<Rightarrow> (d\<lparr>o_loc := loc\<rparr>, p))"

definition handle_builtin_unreachable :: "source_location \<Rightarrow> source_location \<times> prints" where
  "handle_builtin_unreachable loc = report loc [(''execution reached a __builtin_unreachable() call\<newline>'', [])]"

section \<open>Lemmas\<close>

lemma report_first: "column loc \<noteq> 0xffffffff \<Longrightarrow> report loc body =
    (loc\<lparr>column := 0xffffffff\<rparr>, (''%s:%lu:%lu: runtime error: '', [base_name (filename loc), Num (uint (line loc)), Num (uint (column loc))]) # body)"
  by (simp add: report_def ubsan_init_def)

lemma report_again: "report (fst (report loc body)) body' = (fst (report loc body), [])"
  by (simp add: report_def ubsan_init_def)

lemma base_name_slash: "base_name (dir @ 47 # f) = Text f" if "47 \<notin> set f"
proof -
  have none: "after_last_slash f = None" using that by (induction f) auto
  have "after_last_slash (dir @ 47 # f) = Some f" by (induction dir) (simp_all add: none)
  then show ?thesis by (simp add: base_name_def)
qed

text \<open>A descriptor of an integer type with \<open>2 ^ k\<close> bits.\<close>

definition int_type :: "nat \<Rightarrow> bool \<Rightarrow> u8 list \<Rightarrow> type_descriptor" where
  "int_type k sg n = \<lparr>type_kind = TK_INTEGER, type_info = of_nat (2 * k) OR of_bool sg, type_name = n\<rparr>"

lemma int_type_width: "k \<le> 6 \<Longrightarrow> bit_width (int_type k sg n) = 2 ^ k" "k \<le> 6 \<Longrightarrow> is_signed (int_type k sg n) = sg"
proof -
  assume "k \<le> 6"
  then have "k \<in> {0, 1, 2, 3, 4, 5, 6}" by auto
  then show "bit_width (int_type k sg n) = 2 ^ k" "is_signed (int_type k sg n) = sg"
    by (auto simp: bit_width_def is_signed_def int_type_def)
qed

text \<open>The mathematical value of an operand whose bits are passed in a register.\<close>

definition operand :: "nat \<Rightarrow> bool \<Rightarrow> u32 \<Rightarrow> int" where
  "operand k sg v = (if sg then signed_take_bit (2 ^ k - 1) (uint v) else uint v)"

lemma sign_extension:
  assumes "0 < w" and "w \<le> 32"
  shows "sint (signed_drop_bit (64 - w) (push_bit (64 - w) (ucast (v :: u32) :: u64))) = signed_take_bit (w - 1) (uint v)"
proof -
  have "signed_drop_bit (64 - w) (push_bit (64 - w) (ucast v :: u64)) = signed_take_bit (w - 1) (ucast v :: u64)"
  proof (rule bit_word_eqI)
    fix n
    show "bit (signed_drop_bit (64 - w) (push_bit (64 - w) (ucast v :: u64))) n = bit (signed_take_bit (w - 1) (ucast v :: u64)) n"
      if "n < LENGTH(64)" using assms that by (cases "n = w - 1") (auto simp: bit_simps min_def)
  qed
  then show ?thesis using assms
    by (intro bit_eqI) (auto simp: bit_simps min_def)
qed

lemma signed_val_operand: "k \<le> 5 \<Longrightarrow> signed_val m (int_type k True n) v = operand k True v"
proof -
  assume k: "k \<le> 5"
  then have "k \<in> {0, 1, 2, 3, 4, 5}" by auto
  then have "unat (64 - 2 ^ k :: u32) = 64 - 2 ^ k" "(2 ^ k :: u32) \<le> 32" "(2 ^ k :: nat) \<le> 32" by auto
  then show ?thesis using k sign_extension [of "2 ^ k" v] int_type_width(1) [of k]
    by (simp add: signed_val_def is_inline_int_def operand_def)
qed

lemma unsigned_val_operand: "k \<le> 5 \<Longrightarrow> unsigned_val m (int_type k False n) v = operand k False v"
proof -
  assume k: "k \<le> 5"
  then have "k \<in> {0, 1, 2, 3, 4, 5}" by auto
  then have "(2 ^ k :: u32) \<le> 32" by auto
  then show ?thesis using k int_type_width(1) [of k] by (simp add: unsigned_val_def is_inline_int_def operand_def)
qed

lemma operand_bounds:
  assumes "k \<le> 5"
  shows "- 4294967296 < operand k sg v \<and> operand k sg v < 4294967296"
proof (cases sg)
  case True
  define x where "x = signed_take_bit (2 ^ k - 1) (uint v)"
  have "(2 :: nat) ^ k \<le> 2 ^ 5" using assms by (intro power_increasing) auto
  then have "(2 ^ (2 ^ k - 1) :: int) \<le> 2 ^ 31" by (intro power_increasing) auto
  moreover have "- (2 ^ (2 ^ k - 1)) \<le> x" "x < 2 ^ (2 ^ k - 1)"
    unfolding x_def by (rule signed_take_bit_int_greater_eq_minus_exp, rule signed_take_bit_int_less_exp)
  moreover have "operand k sg v = x" using True by (simp add: operand_def x_def)
  ultimately show ?thesis by simp
next
  case False
  moreover have "0 \<le> uint v" "uint v < 4294967296" using uint_lt2p [of v] by simp_all
  then have "- 4294967296 < uint v \<and> uint v < 4294967296" by linarith
  ultimately show ?thesis by (simp add: operand_def)
qed

lemma length_int_text: "- 4294967296 < i \<Longrightarrow> i < 4294967296 \<Longrightarrow> length (int_text i) \<le> 11"
proof -
  assume "- 4294967296 < i" "i < 4294967296"
  then have "nat i < 10 ^ Suc 9" "nat (- i) < 10 ^ Suc 9" by (simp_all add: nat_less_iff)
  from this [THEN length_dec_text] show ?thesis by (simp add: int_text_def)
qed

text \<open>Operands of up to 32 bits are printed exactly.\<close>

lemma format_value_exact: "k \<le> 5 \<Longrightarrow> format_value m 20 (int_type k sg n) v = int_text (operand k sg v)"
proof -
  assume k: "k \<le> 5"
  have "length (int_text (operand k sg v)) \<le> 11" using operand_bounds [OF k] length_int_text by blast
  moreover have "format_value m 20 (int_type k sg n) v = snprintf 20 (int_text (operand k sg v))"
    using k int_type_width(2) [of k sg n] signed_val_operand [OF k] unsigned_val_operand [OF k]
    by (cases sg) (simp_all add: format_value_def, simp_all add: int_type_def)
  ultimately show ?thesis by (simp add: snprintf_def)
qed

text \<open>Operands of 64 bits are printed exactly if they have at most 19 characters.\<close>

lemma format_value_wide:
  "format_value m 20 (int_type 6 sg n) a = take 19 (int_text (if sg then sint (load64 m a) else uint (load64 m a)))"
proof -
  have "type_kind (int_type 6 sg n) = TK_INTEGER" by (simp add: int_type_def)
  moreover have "is_signed (int_type 6 sg n) = sg" "\<not> is_inline_int (int_type 6 sg n)"
    using int_type_width [of 6 sg n] by (simp_all add: is_inline_int_def)
  ultimately show ?thesis by (cases sg) (simp_all add: format_value_def signed_val_def unsigned_val_def snprintf_def)
qed

section \<open>Properties\<close>

text \<open>A report of an overflow, and that there is one per location. For an integer type of 1 to 32
  bits, the first report of a location in a file with a directory prints the last component of the path, line and column, and
  the message with both operands in decimal, exactly: signed operands are sign-extended from the width of their type.
  The location is marked, and no further report of it prints anything.
\<close>

theorem ubsan_overflow_report:
  assumes "k \<le> 5" and "column loc \<noteq> 0xffffffff" and "filename loc = dir @ 47 # f" and "47 \<notin> set f"
  shows "snd (handle_overflow m \<lparr>o_loc = loc, o_type = int_type k sg n\<rparr> lhs op rhs) =
      [(''%s:%lu:%lu: runtime error: '', [Text f, Num (uint (line loc)), Num (uint (column loc))]),
       (''%s integer overflow: %s %s %s cannot be representedin type %s\<newline>'',
        [Text (str (if sg then ''signed'' else ''unsigned'')), Text (int_text (operand k sg lhs)), Text (str op),
         Text (int_text (operand k sg rhs)), Text n])] \<and>
     snd (handle_overflow m' (fst (handle_overflow m \<lparr>o_loc = loc, o_type = int_type k sg n\<rparr> lhs op rhs)) lhs' op' rhs') = []"
proof -
  have again: "report (loc\<lparr>column := 0xffffffff\<rparr>) body = (loc\<lparr>column := 0xffffffff\<rparr>, [])" for body
    by (simp add: report_def ubsan_init_def)
  have t: "type_name (int_type k sg n) = n" by (simp add: int_type_def)
  show ?thesis using assms(1-4) format_value_exact [OF assms(1)] int_type_width(2) [of k sg n] again
    by (simp add: handle_overflow_def report_first base_name_slash t)
qed

theorem ubsan_overflow_report_witness:
  "snd (handle_overflow (\<lambda>_. 0) \<lparr>o_loc = \<lparr>filename = str ''a/b.c'', line = 7, column = 3\<rparr>, o_type = int_type 5 True (str ''int'')\<rparr> 0x7fffffff ''+'' 1) =
     [(''%s:%lu:%lu: runtime error: '', [Text (str ''b.c''), Num 7, Num 3]),
      (''%s integer overflow: %s %s %s cannot be representedin type %s\<newline>'',
       [Text (str ''signed''), Text (str ''2147483647''), Text (str ''+''), Text (str ''1''), Text (str ''int'')])]"
proof -
  have t: "int_text (operand 5 True 0x7fffffff) = str ''2147483647''" "int_text (operand 5 True 1) = str ''1''"
    by (simp_all add: operand_def int_text_def dec_text.simps signed_take_bit_eq_if_positive bit_simps)
  show ?thesis
    using ubsan_overflow_report [of 5 "\<lparr>filename = str ''a/b.c'', line = 7, column = 3\<rparr>" "str ''a''" "str ''b.c''"
      "\<lambda>_. 0" True "str ''int''" "0x7fffffff" "''+''" 1] t by simp
qed

end
