(* ===== verification/Smp.thy ===== *)
theory Smp
  imports Mmio
begin

text \<open>
  Secondary cores (\<^verbatim>\<open>smp.c\<close>): the first core writes a task and a stack pointer into shared variables and
  releases another core from reset; that core fetches its stack pointer, twice, from the shared variable
  and then calls its task for ever. The cores run concurrently: a step relation interleaves them.
\<close>

section \<open>State\<close>

text \<open>
  A core is held in reset, released, has its stack pointer (set by the entry code), has also its
  interrupt stack pointer, or is in the loop.
\<close>

datatype core = Held | Released | Has_Sp u32 | Has_Stacks u32 u32 | Looping u32 u32

record smp =
  tasks :: "u32 list"
  smp_secondary_sp :: u32
  cpu_regs :: mmio
  cores :: "nat \<Rightarrow> core"
  called :: "(nat \<times> u32) list"

definition CPU_REG :: "u32 \<Rightarrow> u32" where [addr_defs]: "CPU_REG n = 0x01f01c00 + n"
definition CPU_RST_CTRL_REG :: "nat \<Rightarrow> u32" where [addr_defs]: "CPU_RST_CTRL_REG n = CPU_REG (0x40 + of_nat n * 0x40)"

section \<open>Operations\<close>

text \<open>A store of 3 to the reset register releases the core, a store of 0 holds it. \<open>None\<close>: outside of \<open>tasks\<close>.\<close>

definition rst_store :: "nat \<Rightarrow> u32 \<Rightarrow> smp \<Rightarrow> smp" where
  "rst_store c v s = s\<lparr>cpu_regs := reg_write (CPU_RST_CTRL_REG c) v (cpu_regs s),
     cores := (cores s)(c := if v = 0 then Held else if cores s c = Held then Released else cores s c)\<rparr>"

definition smp_start_secondary_core :: "nat \<Rightarrow> u32 \<Rightarrow> u32 \<Rightarrow> u32 \<Rightarrow> smp \<Rightarrow> smp option" where
  "smp_start_secondary_core cpuid task stack stack_size s =
     (if cpuid < length (tasks s) then
        Some (rst_store cpuid 3 (s\<lparr>tasks := (tasks s)[cpuid := task], smp_secondary_sp := stack + stack_size - 0x400\<rparr>))
      else None)"

definition smp_stop_secondary_core :: "nat \<Rightarrow> smp \<Rightarrow> smp" where
  "smp_stop_secondary_core cpuid s = rst_store cpuid 0 s"

text \<open>The steps of a secondary core: the entry code, the first call of \<open>_smp_startup_secondary\<close>, the rest of its start, and one turn of its loop.\<close>

inductive core_step :: "nat \<Rightarrow> smp \<Rightarrow> smp \<Rightarrow> bool" where
  entry: "cores s c = Released \<Longrightarrow> core_step c s (s\<lparr>cores := (cores s)(c := Has_Sp (smp_secondary_sp s))\<rparr>)"
| irq_stack: "cores s c = Has_Sp sp \<Longrightarrow> core_step c s (s\<lparr>cores := (cores s)(c := Has_Stacks sp (smp_secondary_sp s + 0x400))\<rparr>)"
| start: "cores s c = Has_Stacks sp isp \<Longrightarrow> core_step c s (s\<lparr>cores := (cores s)(c := Looping sp isp)\<rparr>)"
| call: "cores s c = Looping sp isp \<Longrightarrow> c < length (tasks s) \<Longrightarrow> tasks s ! c \<noteq> 0 \<Longrightarrow> core_step c s (s\<lparr>called := called s @ [(c, tasks s ! c)]\<rparr>)"
| idle: "cores s c = Looping sp isp \<Longrightarrow> c < length (tasks s) \<Longrightarrow> tasks s ! c = 0 \<Longrightarrow> core_step c s s"

inductive_cases core_stepE: "core_step c s s'"

text \<open>Steps of the secondary cores only.\<close>

inductive secondary_steps :: "smp \<Rightarrow> smp \<Rightarrow> bool" where
  none: "secondary_steps s s"
| more: "secondary_steps s s' \<Longrightarrow> core_step c s' s'' \<Longrightarrow> secondary_steps s s''"

section \<open>Stacks\<close>

text \<open>
  What holds of a core after it was started with a stack, as long as no other core is started: both
  stack pointers are those of the stack it was given, whatever the other cores do.
\<close>

fun stack_ok :: "u32 \<Rightarrow> core \<Rightarrow> bool" where
  "stack_ok sp Held = False"
| "stack_ok sp Released = True"
| "stack_ok sp (Has_Sp p) = (p = sp)"
| "stack_ok sp (Has_Stacks p i) = (p = sp \<and> i = sp + 0x400)"
| "stack_ok sp (Looping p i) = (p = sp \<and> i = sp + 0x400)"

lemma core_step_stack:
  assumes "core_step c s s'" and "stack_ok (smp_secondary_sp s) (cores s i)"
  shows "stack_ok (smp_secondary_sp s') (cores s' i) \<and> smp_secondary_sp s' = smp_secondary_sp s \<and> tasks s' = tasks s"
  using assms by (cases rule: core_stepE) auto

lemma secondary_steps_stack:
  "secondary_steps s s' \<Longrightarrow> stack_ok (smp_secondary_sp s) (cores s i) \<Longrightarrow>
     stack_ok (smp_secondary_sp s') (cores s' i) \<and> smp_secondary_sp s' = smp_secondary_sp s \<and> tasks s' = tasks s"
  by (induction rule: secondary_steps.induct) (use core_step_stack in auto)

lemma start_facts:
  assumes "cpuid < length (tasks s)" and "cores s cpuid = Held"
    and "smp_start_secondary_core cpuid task stack stack_size s = Some s'"
  shows "cores s' cpuid = Released" "smp_secondary_sp s' = stack + stack_size - 0x400" "tasks s' ! cpuid = task"
    "\<And>j. j \<noteq> cpuid \<Longrightarrow> cores s' j = cores s j"
  using assms by (auto simp: smp_start_secondary_core_def rst_store_def)

section \<open>Properties\<close>


definition smp0 :: smp where
  "smp0 = \<lparr>tasks = [0, 0, 0, 0], smp_secondary_sp = 0, cpu_regs = (\<lambda>_. 0), cores = (\<lambda>_. Held), called = []\<rparr>"

definition smp1 :: smp where "smp1 = the (smp_start_secondary_core 1 0x40001000 0x50000000 0x1000 smp0)"
definition smp2 :: smp where "smp2 = the (smp_start_secondary_core 2 0x40002000 0x60000000 0x1000 smp1)"
definition smp3 :: smp where "smp3 = smp2\<lparr>cores := (cores smp2)(1 := Has_Sp (smp_secondary_sp smp2))\<rparr>"


end
