(* ===== verification/Network.thy ===== *)
theory Network
  imports System
begin

text \<open>
  The network glue (\<^verbatim>\<open>network.c\<close>) between the Ethernet driver of lib-h3 and lwIP: frames are copied into
  packet buffers and handed to the interface's input function. Driver and stack are parameters, functions on a state \<open>'w\<close> of their own.
\<close>

section \<open>State\<close>

text \<open>
  \<open>emac_eth_recv\<close> returns the frame at the head of the receive queue, empty when there is none;
  \<open>emac_free_pkt\<close> takes it off. A packet buffer is a number; \<open>pbuf_alloc\<close> may find the pool empty. \<open>netif_input\<close> returns an error code.
\<close>

record 'w net_env =
  emac_eth_recv :: "'w \<Rightarrow> u8 list \<times> 'w"
  emac_free_pkt :: "'w \<Rightarrow> 'w"
  emac_eth_send :: "u8 list \<Rightarrow> 'w \<Rightarrow> 'w"
  emac_init :: "'w \<Rightarrow> 'w"
  emac_start :: "'w \<Rightarrow> 'w"
  emac_shutdown :: "'w \<Rightarrow> 'w"
  hardware_get_mac_address :: "'w \<Rightarrow> u8 list"
  pbuf_alloc :: "nat \<Rightarrow> 'w \<Rightarrow> nat option \<times> 'w"
  pbuf_take :: "nat \<Rightarrow> u8 list \<Rightarrow> 'w \<Rightarrow> 'w"
  pbuf_free :: "nat \<Rightarrow> 'w \<Rightarrow> 'w"
  pbuf_contents :: "nat \<Rightarrow> 'w \<Rightarrow> u8 list"
  netif_input :: "nat \<Rightarrow> 'w \<Rightarrow> int \<times> 'w"
  sys_check_timeouts :: "'w \<Rightarrow> 'w"
  lwip_init :: "'w \<Rightarrow> 'w"

record 'w net =
  link_up :: bool
  if_up :: bool
  if_name :: string
  if_mtu :: nat
  if_flags :: u8
  hwaddr :: "u8 list"
  net_world :: 'w

section \<open>Operations\<close>

definition eth_recv_pbuf :: "'w net_env \<Rightarrow> 'w \<Rightarrow> nat option \<times> 'w" where
  "eth_recv_pbuf e w =
     (case emac_eth_recv e w of
        (d, w1) \<Rightarrow>
          if d = [] then (None, w1)
          else case pbuf_alloc e (length d) w1 of
            (None, w2) \<Rightarrow> (None, emac_free_pkt e w2)
          | (Some p, w2) \<Rightarrow> (Some p, emac_free_pkt e (pbuf_take e p d w2)))"

definition netif_output :: "'w net_env \<Rightarrow> nat \<Rightarrow> 'w \<Rightarrow> 'w" where
  "netif_output e p w = emac_eth_send e (pbuf_contents e p w) w"

definition NETIF_FLAGS :: u8 where
  "NETIF_FLAGS = 0x02 OR 0x08 OR 0x10 OR 0x20 OR 0x40"

definition netif_init :: "'w net_env \<Rightarrow> 'w net \<Rightarrow> 'w net" where
  "netif_init e s = s\<lparr>if_mtu := 1500, if_flags := NETIF_FLAGS, hwaddr := take 6 (hardware_get_mac_address e (net_world s))\<rparr>"

text \<open>The loop of \<open>network_task\<close>: one turn takes a frame and then runs the timers; \<open>None\<close> if frames never end.\<close>

definition frame_turn :: "'w net_env \<Rightarrow> 'w \<Rightarrow> bool \<times> 'w" where
  "frame_turn e w =
     (case eth_recv_pbuf e w of
        (None, w1) \<Rightarrow> (False, sys_check_timeouts e w1)
      | (Some p, w1) \<Rightarrow>
          (case netif_input e p w1 of
             (err, w2) \<Rightarrow> (True, sys_check_timeouts e (if err \<noteq> 0 then pbuf_free e p w2 else w2))))"

partial_function (option) frame_loop :: "'w net_env \<Rightarrow> 'w \<Rightarrow> 'w option" where
  "frame_loop e w = (if fst (frame_turn e w) then frame_loop e (snd (frame_turn e w)) else Some (snd (frame_turn e w)))"

definition network_task :: "'w net_env \<Rightarrow> 'w net \<Rightarrow> 'w net option" where
  "network_task e s =
     (if \<not> link_up s then Some s else map_option (\<lambda>w. s\<lparr>net_world := w\<rparr>) (frame_loop e (net_world s)))"

definition network_if_start :: "'w net_env \<Rightarrow> 'w net \<Rightarrow> 'w net" where
  "network_if_start e s = s\<lparr>net_world := emac_start e (net_world s), link_up := True\<rparr>"

definition network_if_stop :: "'w net_env \<Rightarrow> 'w net \<Rightarrow> 'w net" where
  "network_if_stop e s = s\<lparr>link_up := False, net_world := emac_shutdown e (net_world s)\<rparr>"

definition network_init :: "'w net_env \<Rightarrow> mmio \<times> 'w net \<Rightarrow> mmio \<times> 'w net" where
  "network_init e = (\<lambda>(m, s).
     (reg_or BUS_SOFT_RST0 (BIT 17) (reg_or BUS_CLK_GATING0 (BIT 17) m),
      (netif_init e (s\<lparr>net_world := lwip_init e (emac_init e (net_world s))\<rparr>))\<lparr>if_name := ''en'', if_up := True, link_up := False\<rparr>))"

definition sys_now :: "sys_timer \<Rightarrow> u64 \<Rightarrow> u32 option" where
  "sys_now t tick = map_option ucast (sys_get_msec t tick)"

section \<open>The receive loop ends\<close>

text \<open>
  A bound on the turns: if every turn that takes a frame lowers \<open>pending\<close>, the loop returns, and the
  last turn found no frame or no packet buffer.
\<close>

lemma frame_loop_returns:
  assumes "\<And>w. fst (frame_turn e w) \<Longrightarrow> (pending (snd (frame_turn e w)) :: nat) < pending w"
  shows "\<exists>w'. frame_loop e w = Some (snd (frame_turn e w')) \<and> \<not> fst (frame_turn e w')"
proof (induction "pending w" arbitrary: w rule: less_induct)
  case less
  show ?case
  proof (cases "fst (frame_turn e w)")
    case True
    then obtain w' where "frame_loop e (snd (frame_turn e w)) = Some (snd (frame_turn e w'))" "\<not> fst (frame_turn e w')"
      using less [OF assms [OF True]] by blast
    then show ?thesis using True by (auto simp: frame_loop.simps [of e w])
  next
    case False
    then show ?thesis by (auto simp: frame_loop.simps [of e w])
  qed
qed

text \<open>The queue loses exactly one frame per turn that finds one, also when there is no buffer for it.\<close>

lemma frame_turn_pending:
  assumes recv: "\<And>w. fst (emac_eth_recv e w) \<noteq> [] \<longleftrightarrow> pending w > (0 :: nat)" "\<And>w. pending (snd (emac_eth_recv e w)) = pending w"
    and free: "\<And>w. pending (emac_free_pkt e w) = pending w - 1"
    and others: "\<And>n w. pending (snd (pbuf_alloc e n w)) = pending w" "\<And>p d w. pending (pbuf_take e p d w) = pending w"
      "\<And>p w. pending (pbuf_free e p w) = pending w" "\<And>p w. pending (snd (netif_input e p w)) = pending w"
      "\<And>w. pending (sys_check_timeouts e w) = pending w"
  shows "pending (snd (frame_turn e w)) = pending w - 1" "fst (frame_turn e w) \<Longrightarrow> 0 < pending w"
proof -
  obtain d w1 where d: "emac_eth_recv e w = (d, w1)" by fastforce
  obtain p w2 where p: "pbuf_alloc e (length d) w1 = (p, w2)" by fastforce
  have w: "pending w1 = pending w" "pending w2 = pending w" "d \<noteq> [] \<longleftrightarrow> pending w > 0"
    using recv(1) [of w] recv(2) [of w] others(1) [of "length d" w1] d p by simp_all
  have i: "netif_input e q x = (a, y) \<Longrightarrow> pending y = pending x" for q x a y using others(4) [of q x] by simp
  show "pending (snd (frame_turn e w)) = pending w - 1" "fst (frame_turn e w) \<Longrightarrow> 0 < pending w"
    using w free others by (auto simp: frame_turn_def eth_recv_pbuf_def d p dest!: i split: option.splits prod.splits)
qed

end
