(* ===== verification/Startup.thy ===== *)
theory Startup
  imports Ports Mmu Heap Display Audio
begin

text \<open>
  The boot sequence (\<^verbatim>\<open>startup.c\<close>): the size of the heap, the pins of the board and the choice of the
  video output. The other calls of \<open>startup\<close> are the initialisations of the drivers, each modelled in its own theory.
\<close>

section \<open>Operations\<close>

definition GPIO_MODE_INPUT :: u32 where "GPIO_MODE_INPUT = 0"
definition GPIO_MODE_OUTPUT :: u32 where "GPIO_MODE_OUTPUT = 1"
definition GPIO_MODE_EINT :: u32 where "GPIO_MODE_EINT = 6"
definition GPIO_EINT_FALLING :: u8 where "GPIO_EINT_FALLING = 1"

text \<open>With the debugger the end of memory is fixed, without it the memory is measured.\<close>

definition startup_heap :: "bool \<Rightarrow> (u32 \<Rightarrow> 'c) \<Rightarrow> 'c dram \<Rightarrow> heap \<times> 'c dram" where
  "startup_heap gdbstub cell d =
     (if gdbstub then (libc_set_heap 0x42000000 0x60000000, d)
      else case mmu_detect_dram_end cell d of (fin, d') \<Rightarrow> (libc_set_heap 0x42000000 fin, d'))"

text \<open>The power LED is pin 10 of port L, the reset button pin 3.\<close>

definition startup_gpio :: "mmio \<Rightarrow> mmio" where
  "startup_gpio m =
     (let m1 = set_pin_data PORTL 10 1 (set_pin_mode PORTL 10 GPIO_MODE_OUTPUT (gpio_init m));
          m2 = set_pin_mode PORTL 3 GPIO_MODE_EINT m1
      in gpio_irq_enable PORTL 3 True (gpio_irq_set_trigger PORTL 3 GPIO_EINT_FALLING m2))"

text \<open>The digital output with its sound, or, when it cannot be initialised, the analog one. \<open>None\<close>: a wait for the hardware does not end.\<close>

definition startup_video :: "(display_timing \<Rightarrow> u32 \<Rightarrow> mmio \<Rightarrow> int \<times> mmio) \<Rightarrow> display \<Rightarrow> display option" where
  "startup_video h3_de2_init d =
     (case display_init h3_de2_init None d of
        None \<Rightarrow> None
      | Some (rc, d1) \<Rightarrow> if rc \<noteq> 0 then tve_init False d1 else Some (d1\<lparr>dregs := audio_hdmi_init (dregs d1)\<rparr>))"

definition card_detect_pin :: "mmio \<Rightarrow> mmio" where
  "card_detect_pin m = set_pin_mode PORTF 6 GPIO_MODE_INPUT m"

section \<open>The interrupt functions on the address of a port\<close>

text \<open>
  The interrupt block of a port has the layout of the port's configuration and data registers: on the
  address of the port itself, the trigger is stored as the function of the pin, and the enable bit as its level.
\<close>

lemma trigger_is_mode: "pin < 32 \<Longrightarrow> gpio_irq_set_trigger port pin v m = set_pin_mode port pin (ucast v) m"
  by (simp add: gpio_irq_set_trigger_def set_pin_mode_def)

lemma enable_is_data: "gpio_irq_enable port pin True m = set_pin_data port pin 1 m"
  by (simp add: gpio_irq_enable_def set_pin_data_def ctl_reg_def data_reg_def BIT_def)

lemma mode_set_data: "pin' < 32 \<Longrightarrow> pin_mode port pin' (set_pin_data port pin v m) = pin_mode port pin' m"
proof -
  assume "pin' < 32"
  then have "pin' div 8 \<in> {0, 1, 2, 3}" by auto
  then have "cfg_reg port (pin' div 8) \<noteq> data_reg port" by (auto simp: cfg_reg_def data_reg_def)
  then show ?thesis by (simp add: pin_mode_def set_pin_data_def)
qed

lemma data_set_mode: "pin < 32 \<Longrightarrow> get_pin_data port pin' (set_pin_mode port pin v m) = get_pin_data port pin' m"
proof -
  assume p: "pin < 32"
  have "data_reg port \<notin> cfg_reg port ` {..<4}"
    by (auto simp: data_reg_def cfg_reg_def lessThan_nat_numeral lessThan_Suc)
  then have "set_pin_mode port pin v m (data_reg port) = m (data_reg port)"
    using p by (auto simp: set_pin_mode_def field_update_def cfg_reg_def data_reg_def)
  then show ?thesis by (simp add: get_pin_data_def)
qed

section \<open>Property\<close>

text \<open>C40. The reset button is not armed. \<open>startup\<close> lights the power LED, output and high; but for the button
  it passes the address of the port, not of its interrupt block, to the interrupt functions: pin 3
  ends up as an output driven high instead of an interrupt input, and neither the trigger nor the enable register of the port's
  interrupt block is written.
\<close>

theorem startup_reset_button:
  "pin_mode PORTL 10 (startup_gpio m) = GPIO_MODE_OUTPUT \<and> get_pin_data PORTL 10 (startup_gpio m) = 1 \<and>
   pin_mode PORTL 3 (startup_gpio m) = GPIO_MODE_OUTPUT \<and> get_pin_data PORTL 3 (startup_gpio m) = 1 \<and>
   startup_gpio m (cfg_reg R_PL_EINT_BASE 0) = m (cfg_reg R_PL_EINT_BASE 0) \<and>
   startup_gpio m (ctl_reg R_PL_EINT_BASE) = m (ctl_reg R_PL_EINT_BASE)"
proof -
  have fits: "(1 :: u32) AND mask 3 = 1" "(6 :: u32) AND mask 3 = 6" by (rule small_fits(1), simp)+
  let ?m = "gpio_init m"
  have g: "startup_gpio m = set_pin_data PORTL 3 1 (set_pin_mode PORTL 3 1 (set_pin_mode PORTL 3 6 (set_pin_data PORTL 10 1 (set_pin_mode PORTL 10 1 ?m))))"
    by (simp add: startup_gpio_def enable_is_data trigger_is_mode GPIO_MODE_OUTPUT_def GPIO_MODE_EINT_def GPIO_EINT_FALLING_def)
  have "pin_mode PORTL 10 (startup_gpio m) = 1" "pin_mode PORTL 3 (startup_gpio m) = 1"
    unfolding g by (simp_all add: mode_set_data mode.get_set_other mode.get_set_same fits)
  moreover have "get_pin_data PORTL 10 (startup_gpio m) = 1" "get_pin_data PORTL 3 (startup_gpio m) = 1"
    unfolding g by (simp_all add: get_set_pin_data data_set_mode)
  moreover have "startup_gpio m a = m a" if "a = cfg_reg R_PL_EINT_BASE 0 \<or> a = ctl_reg R_PL_EINT_BASE" for a
    using that unfolding g
    by (auto simp: set_pin_data_def set_pin_mode_def field_update_def gpio_init_def cfg_reg_def ctl_reg_def data_reg_def addr_defs)
  ultimately show ?thesis by (simp add: GPIO_MODE_OUTPUT_def)
qed

end
