(* ===== verification/Spec2Isabelle.thy ===== *)
theory Spec2Isabelle
  imports Fat_Card Fat_Listing Gdb_Sessions Libc_Io Malloc_Lock Mmu System Display Audio Dma Exceptions Fs Ubsan Smp Network Startup
begin

text \<open>
  A verification development of a bare-metal support library for the Allwinner H3, a system on chip
  with four ARM Cortex-A7 cores: the C sources in the top directory, \<^verbatim>\<open>gdb/\<close>, \<^verbatim>\<open>fatfs/mmc_sunxi.c\<close>, and
  the parts of \<^verbatim>\<open>fatfs/ff.c\<close> and of tinyusb that the library's own code depends on.

  \<^bold>\<open>The program.\<close> \<open>startup\<close> (\<^verbatim>\<open>startup.c\<close>) measures the memory, builds the page table and starts the
  drivers: serial port, pins, interrupts, DMA, display, audio, USB, network. The application calls the C library
  (\<^verbatim>\<open>libc_io.c\<close>), whose files are FatFs files; FatFs calls the disk functions of \<^verbatim>\<open>fs.c\<close>, which lead to the
  SD card (\<^verbatim>\<open>fatfs/mmc_sunxi.c\<close>) or to a USB volume (\<^verbatim>\<open>usb.c\<close>). Several cores share the locks of
  \<^verbatim>\<open>spinlock.c\<close>. The debugger stub (\<^verbatim>\<open>gdb/\<close>) takes over the machine on a byte from the serial port or on
  a breakpoint.

  \<^bold>\<open>How state and effects are modelled.\<close> Machine integers are words of their width. Device registers are a
  map from addresses to contents (\<open>mmio\<close>); a register that hardware changes on its own, such as a status
  flag a loop waits for, is a sequence of values, one per read. A busy loop is then a partial function,
  \<open>poll\<close>, with \<open>None\<close> for a loop that never ends: that a function
  returns is always proved, from the assumption that the flag shows eventually. The only fuel is the number of
  descriptors the DMA engine follows; one is enough, as the driver's descriptor ends the list. A fault (an access outside of an
  array) is a value, \<open>None\<close> or \<open>Inl\<close>. Code of other parties is a parameter: a record of
  functions on a state of its own, or a type variable. Concurrent code is a step relation per instruction or
  per access to shared memory, and its properties hold in all reachable states. Delays and cache
  maintenance change no values and are left out.

  \<^bold>\<open>Theories.\<close>

  \<^item> \<open>Prelude\<close>: machine integers, byte memory, faults, slot tables, decimal texts, polling, and the
    locale \<open>simulation\<close> for refinement along sequences of calls. \<open>Mmio\<close>: register updates and the
    addresses of \<^verbatim>\<open>ccu.h\<close>.

  \<^item> \<open>Ports\<close> (\<^verbatim>\<open>ports.c\<close>): the locale \<open>pin_bank\<close>, interpreted for mode, drive and pull, says that setting a field of
    a pin is seen by that pin only. \<open>Uart\<close> (\<^verbatim>\<open>uart.c\<close>): what printing sends. \<open>Rtc\<close> (\<^verbatim>\<open>rtc.c\<close>): dates and times read back.

  \<^item> \<open>Gdb_Text\<close>, \<open>Gdb_Breakpoints\<close>, \<open>Gdb_Stub\<close>, \<open>Gdb_Protocol\<close>, \<open>Gdb_Sessions\<close> (\<^verbatim>\<open>gdb/gdbstub.c\<close>,
    \<^verbatim>\<open>string.c\<close>, \<^verbatim>\<open>printk.c\<close>): texts and numbers, the breakpoint table, every packet handler, the
    reception of packets, and whole sessions: memory and registers written are read back, breakpoints
    leave no trace, the static data stays well formed, and the packets that break this.

  \<^item> \<open>Libc_Io\<close> (\<^verbatim>\<open>libc_io.c\<close>: files, directories, console), \<open>Heap\<close> (its \<open>sbrk\<close>), \<open>Malloc_Lock\<close> (its allocator lock) and
    \<open>Spinlock\<close> (\<^verbatim>\<open>spinlock.c\<close>): the file lock is always released, descriptors are allotted as POSIX
    asks, reads deliver the file, heap blocks are disjoint, both locks exclude.

  \<^item> \<open>Mmu\<close> (\<^verbatim>\<open>mmu.c\<close>): memory size and page table. \<open>System\<close> (\<^verbatim>\<open>system.c\<close>): timer, clock multiplier, time of day.
    \<open>Startup\<close> (\<^verbatim>\<open>startup.c\<close>): heap, pins and video output at boot.

  \<^item> \<open>Interrupts\<close> (\<^verbatim>\<open>interrupts.c\<close>): the locale \<open>line_control\<close> and its interpretation on the interrupt
    controller; the interrupt handler. \<open>Exceptions\<close> (\<^verbatim>\<open>exceptions.c\<close>): fault reports.
    \<open>Ubsan\<close> (\<^verbatim>\<open>ubsan.c\<close>): the sanitizer's reports. \<open>Smp\<close> (\<^verbatim>\<open>smp.c\<close>): start of the secondary cores.

  \<^item> \<open>Display_Regs\<close>, \<open>Tve_Regs\<close>, \<open>Filter_Tables\<close>, \<open>Display_Filter\<close>, \<open>Display\<close> (\<^verbatim>\<open>display.c\<close>, \<^verbatim>\<open>display_filter.c\<close>,
    \<^verbatim>\<open>tve.c\<close>): register addresses, the coefficient tables of the scaler, the locale \<open>scaler_setup\<close> with one
    interpretation per filter, modes and double buffering. \<open>Audio\<close> (\<^verbatim>\<open>audio_hdmi.c\<close>, \<^verbatim>\<open>audio_i2s.c\<close>) and \<open>Dma\<close> (\<^verbatim>\<open>dma.c\<close>).

  \<^item> \<open>Mmc\<close>, \<open>Mmc_Storage\<close> (\<^verbatim>\<open>fatfs/mmc_sunxi.c\<close>): the SD card driver against a card that executes the commands it receives; the locale
    \<open>block_device\<close> is the contract of a disk, and the driver an interpretation of it.
    \<open>Usb\<close> (\<^verbatim>\<open>usb.c\<close>, \<^verbatim>\<open>tinyusb/lib/fatfs/diskio.c\<close>): input devices and the table of volumes, a \<open>simulation\<close> of a set
    of at most four devices. \<open>Fs\<close> (\<^verbatim>\<open>fs.c\<close>, volumes of \<^verbatim>\<open>fatfs/ff.c\<close>): dispatch of the disk functions,
    time stamps, card detection, and that FatFs and the USB glue agree on the volumes. \<open>Network\<close> (\<^verbatim>\<open>network.c\<close>): the receive loop.

  \<^bold>\<open>Environment.\<close> Hardware that answers is modelled as far as the drivers rely on it: the exclusive monitor
  of a core, the mirrored cells of a memory chip, the interrupt controller's set and clear registers, the queue of the audio
  transmitter, the DMA engine, and the SD card (\<open>card_exec\<close>, \<open>fifo_pop\<close> and \<open>fifo_push\<close>: 128 words per sector, block or byte addresses,
  an unstopped transfer of several blocks leaves it hung). The assumption \<open>mmc_live\<close> says that no flag of the SD controller stays busy for ever;
  \<open>sound_event\<close> that a host stack reports its own devices, and a device again only after its removal;
  \<open>keeps_table\<close> that mounting a volume at once does not change FatFs's table of volumes.

  \<^bold>\<open>Bounds.\<close> Transfers of the SD card have less than 2 to the 22 sectors, so that their bytes fit 32 bits, and
  byte-addressed cards sector numbers below 2 to the 23 for the same reason. The memory chip has 32 MB to 2 GB.
  Sequences of operations (sessions, library calls, interrupt lines, USB events, writes to a disk) have any length.

  \<^bold>\<open>Not modelled.\<close> The assembly files \<^verbatim>\<open>boot.S\<close>, \<^verbatim>\<open>cache.S\<close> and \<^verbatim>\<open>gdb/tzvecs.S\<close>, beyond what their callers' models
  take from them; FatFs beyond its volumes, tinyusb beyond its disk layer, lwIP and lib-h3, which are
  third-party code and parameters here; the build in which lib-h3 drives the SD card; \<open>sys_reset\<close>, which does not return;
  the examples and the build files.
\<close>

section \<open>Properties that span components\<close>

text \<open>C8. The SD card as a disk of the file system. When a version 2 card that gets ready within 1000 polls is
  put in, and no flag of the controller stays busy for ever, \<open>sd_detect\<close> returns 1, having initialised the card with the
  addressing it needs; then every sequence of \<open>disk_write\<close> calls on drive 0, of one or of several sectors each, succeeds, and
  \<open>disk_read\<close> returns the words that the same writes leave on an abstract disk.
\<close>

theorem sd_card_round_trip:
  assumes "mmc_live (sd s)" and "\<not> hung (card (sd s))" and "version2 (card (sd s))" and "not_ready (card (sd s)) < 1000"
    and "\<not> detected s" and "get_pin_data PORTF 6 m = 0"
    and "\<forall>(buf, sector, count) \<in> set rs. card_fits (sd s) sector count \<and> length buf = count * 128"
    and "card_fits (sd s) sector count" and "length buf = count * 128"
  shows "\<exists>s0 s1 s2. sd_detect m s = Some (1, s0) \<and> write_requests (disk_write e 0) rs s0 = Some s1 \<and>
     disk_read e 0 buf sector count s1 = Some (RES_OK, sectors (written rs (disk (card (sd s)))) sector count, s2)"
proof -
  obtain c where c: "mmc_disk_initialize 0 (sd s) = Some (0, c)" "card_ready c" "disk (card c) = disk (card (sd s))" "card_fits c = card_fits (sd s)"
    using initialize_ready [OF assms(1-4)] by blast
  obtain s0 where s0: "sd_detect m s = Some (1, s0)" "sd s0 = c"
    using sd_detect_card_in [OF c(1) assms(5,6)] by blast
  show ?thesis
    using sd_volume.read_after_writes [of s0 rs sector count buf e] c(2-4) s0 assms(7-9) by auto
qed

theorem sd_card_round_trip_witness:
  "\<exists>s0 s1 s2. sd_detect (\<lambda>_. 0) (sdfs0 False) = Some (1, s0) \<and>
     write_requests (disk_write env0 0) [(replicate 256 7, 9, 2), (replicate 128 5, 10, 1)] s0 = Some s1 \<and>
     disk_read env0 0 (replicate 128 0) 9 1 s1 =
       Some (RES_OK, sectors (written [(replicate 256 7, 9, 2), (replicate 128 5, 10, 1)] (\<lambda>_. 0)) 9 1, s2)"
proof -
  let ?rs = "[(replicate 256 7, 9, 2), (replicate 128 5, 10, 1)] :: request list"
  have sd: "sd (sdfs0 False) = demo_card True 2 []" by (simp add: sdfs0_def)
  have c: "\<not> hung (card (sd (sdfs0 False)))" "version2 (card (sd (sdfs0 False)))" "not_ready (card (sd (sdfs0 False))) < 1000"
    and d: "disk (card (sd (sdfs0 False))) = (\<lambda>_. 0)"
    and f: "\<forall>(buf, sector, count) \<in> set ?rs. card_fits (sd (sdfs0 False)) sector count \<and> length buf = count * 128" "card_fits (sd (sdfs0 False)) 9 1"
    unfolding sd by (simp_all add: demo_card_def card_fits_def)
  have "mmc_live (sd (sdfs0 False))" "\<not> detected (sdfs0 False)" "get_pin_data PORTF 6 (\<lambda>_. 0) = 0"
    using demo_live by (simp_all add: sdfs0_def get_pin_data_def)
  from sd_card_round_trip [OF this(1) c this(2,3) f, of "replicate 128 0" env0] show ?thesis unfolding d
    by (simp del: write_requests.simps written.simps One_nat_def)
qed

end
